(* ===== verification/Felt.thy ===== *)
theory Felt
  imports Prelude
begin

text \<open>
  The Stark field element \<open>starknet_types_core::felt::Felt\<close>, the type nearly every value of
  the program has. The code relies on it being the integers modulo the Stark prime
  \<open>2^251 + 17 * 2^192 + 1\<close> with a canonical representative; that is the whole model: a
  subtype of \<open>int\<close> with the ring operations reduced modulo the prime, ordered by the
  representative. \<open>Felt::from\<close> of a machine integer is \<open>felt_of_nat\<close> of its value,
  \<open>to_bytes_be\<close> and \<open>from_bytes_be_slice\<close> are the 32 big-endian bytes of the representative.
\<close>

definition stark_prime :: int where
  "stark_prime = 2 ^ 251 + 17 * 2 ^ 192 + 1"

lemma stark_prime_num:
  "stark_prime = 3618502788666131213697322783095070105623107215331596699973092056135872020481"
  by (simp add: stark_prime_def)

lemma stark_prime_gt: "2 ^ 251 < stark_prime" "0 < stark_prime" "1 < stark_prime"
  by (simp_all add: stark_prime_def)

lemma stark_prime_less: "stark_prime < 2 ^ 252"
  by (simp add: stark_prime_def)

typedef felt = "{0 ..< stark_prime}"
  by (rule exI [of _ 0]) (simp add: stark_prime_gt)

setup_lifting type_definition_felt

lift_definition felt_val :: "felt \<Rightarrow> int" is "\<lambda>x. x" .

lift_definition felt_of_int :: "int \<Rightarrow> felt" is "\<lambda>x. x mod stark_prime"
  by (simp add: stark_prime_gt)

definition felt_of_nat :: "nat \<Rightarrow> felt" where
  "felt_of_nat n = felt_of_int (int n)"

lemma felt_val_range [simp]: "0 \<le> felt_val x" "felt_val x < stark_prime"
  by (transfer, simp)+

lemma felt_eq_iff: "x = y \<longleftrightarrow> felt_val x = felt_val y"
  by transfer simp

lemma felt_val_of_int [simp]: "felt_val (felt_of_int x) = x mod stark_prime"
  by transfer simp

lemma felt_of_int_val [simp]: "felt_of_int (felt_val x) = x"
  by transfer simp

instantiation felt :: comm_ring_1
begin

lift_definition zero_felt :: felt is 0
  by (simp add: stark_prime_gt)
lift_definition one_felt :: felt is 1
  by (simp add: stark_prime_gt)
lift_definition plus_felt :: "felt \<Rightarrow> felt \<Rightarrow> felt" is "\<lambda>x y. (x + y) mod stark_prime"
  by (simp add: stark_prime_gt)
lift_definition minus_felt :: "felt \<Rightarrow> felt \<Rightarrow> felt" is "\<lambda>x y. (x - y) mod stark_prime"
  by (simp add: stark_prime_gt)
lift_definition uminus_felt :: "felt \<Rightarrow> felt" is "\<lambda>x. (- x) mod stark_prime"
  by (simp add: stark_prime_gt)
lift_definition times_felt :: "felt \<Rightarrow> felt \<Rightarrow> felt" is "\<lambda>x y. (x * y) mod stark_prime"
  by (simp add: stark_prime_gt)

instance
  by standard (transfer; simp add: mod_simps algebra_simps stark_prime_gt)+

end

instantiation felt :: linorder
begin

lift_definition less_eq_felt :: "felt \<Rightarrow> felt \<Rightarrow> bool" is "(\<le>)" .
lift_definition less_felt :: "felt \<Rightarrow> felt \<Rightarrow> bool" is "(<)" .

instance
  by standard (transfer; auto)+

end

instantiation felt :: equal
begin

definition equal_felt :: "felt \<Rightarrow> felt \<Rightarrow> bool" where
  "equal_felt x y \<longleftrightarrow> felt_val x = felt_val y"

instance
  by standard (simp add: equal_felt_def felt_eq_iff)

end

lemma felt_val_arith [simp]:
  "felt_val 0 = 0"
  "felt_val 1 = 1"
  "felt_val (x + y) = (felt_val x + felt_val y) mod stark_prime"
  "felt_val (x - y) = (felt_val x - felt_val y) mod stark_prime"
  "felt_val (x * y) = (felt_val x * felt_val y) mod stark_prime"
  by (transfer, simp)+

lemma felt_of_int_0 [simp]: "felt_of_int 0 = 0"
  by (simp add: felt_eq_iff)

lemma felt_of_nat_0 [simp]: "felt_of_nat 0 = 0"
  by (simp add: felt_of_nat_def)

lemma felt_val_of_nat [simp]: "felt_val (felt_of_nat n) = int n mod stark_prime"
  by (simp add: felt_of_nat_def)

lemma felt_val_of_nat_small: "int n < stark_prime \<Longrightarrow> felt_val (felt_of_nat n) = int n"
  by simp

lemma felt_of_nat_inj:
  "int m < stark_prime \<Longrightarrow> int n < stark_prime \<Longrightarrow> felt_of_nat m = felt_of_nat n \<longleftrightarrow> m = n"
  by (simp add: felt_eq_iff)

text \<open>Literals.\<close>

lemma felt_val_numeral: "felt_val (numeral n) = numeral n mod stark_prime"
proof -
  have "felt_val (of_nat k) = int k mod stark_prime" for k
    by (induction k) (simp_all add: mod_simps)
  from this [of "numeral n"] show ?thesis by simp
qed

lemma felt_less_iff: "x < y \<longleftrightarrow> felt_val x < felt_val y"
  by transfer simp

section \<open>Machine integers as felts\<close>

definition felt_of_word :: "'n::len word \<Rightarrow> felt" where
  "felt_of_word w = felt_of_nat (unat w)"

lemma unat_below_prime:
  assumes "LENGTH('n::len) \<le> 251"
  shows "int (unat (w :: 'n word)) < stark_prime"
proof -
  have "unat w < 2 ^ LENGTH('n)" by (rule unsigned_less)
  also have "\<dots> \<le> (2 :: nat) ^ 251" using assms by (rule power_increasing) simp
  finally have "int (unat w) < int (2 ^ 251)" by (simp only: of_nat_less_iff)
  then have "int (unat w) < 2 ^ 251" by simp
  then show ?thesis using stark_prime_gt(1) by linarith
qed

lemma felt_val_of_u32 [simp]: "felt_val (felt_of_word (w :: u32)) = uint w"
  using unat_below_prime [of w] by (simp add: felt_of_word_def)

lemma felt_val_of_u64 [simp]: "felt_val (felt_of_word (w :: u64)) = uint w"
  using unat_below_prime [of w] by (simp add: felt_of_word_def)

lemma felt_val_of_u128 [simp]: "felt_val (felt_of_word (w :: u128)) = uint w"
  using unat_below_prime [of w] by (simp add: felt_of_word_def)

lemma felt_of_u32_inj [simp]: "felt_of_word (v :: u32) = felt_of_word w \<longleftrightarrow> v = w"
  by (simp add: felt_eq_iff word_uint_eq_iff)

lemma felt_of_u64_inj [simp]: "felt_of_word (v :: u64) = felt_of_word w \<longleftrightarrow> v = w"
  by (simp add: felt_eq_iff word_uint_eq_iff)

lemma felt_of_u128_inj [simp]: "felt_of_word (v :: u128) = felt_of_word w \<longleftrightarrow> v = w"
  by (simp add: felt_eq_iff word_uint_eq_iff)

text \<open>\<open>u32::try_from(felt)\<close> and its kin: the value when it fits the width.\<close>

definition felt_to_word :: "felt \<Rightarrow> 'n::len word option" where
  "felt_to_word f = (if felt_val f < 2 ^ LENGTH('n) then Some (word_of_int (felt_val f)) else None)"

lemma felt_to_word_of_u32 [simp]: "felt_to_word (felt_of_word (w :: u32)) = Some w"
  using uint_less_exp [of w] by (simp add: felt_to_word_def)

lemma felt_to_word_of_u64 [simp]: "felt_to_word (felt_of_word (w :: u64)) = Some w"
  using uint_less_exp [of w] by (simp add: felt_to_word_def)

lemma felt_to_word_of_u128 [simp]: "felt_to_word (felt_of_word (w :: u128)) = Some w"
  using uint_less_exp [of w] by (simp add: felt_to_word_def)

section \<open>Bytes\<close>

definition felt_to_bytes_be :: "felt \<Rightarrow> bytes" where
  "felt_to_bytes_be f = be_bytes 32 (nat (felt_val f))"

definition felt_from_bytes_be :: "bytes \<Rightarrow> felt" where
  "felt_from_bytes_be bs = felt_of_nat (be_val bs)"

lemma length_felt_to_bytes_be [simp]: "length (felt_to_bytes_be f) = 32"
  by (simp add: felt_to_bytes_be_def)

lemma felt_bytes_roundtrip [simp]: "felt_from_bytes_be (felt_to_bytes_be f) = f"
proof -
  have "felt_val f < 2 ^ 252"
    using felt_val_range(2) [of f] stark_prime_less by linarith
  then have "nat (felt_val f) < 256 ^ 32" by simp
  then show ?thesis
    by (simp add: felt_to_bytes_be_def felt_from_bytes_be_def be_val_be_bytes felt_eq_iff)
qed

text \<open>The two 128-bit halves of the 32 bytes.\<close>

definition u128_from_be_bytes :: "bytes \<Rightarrow> u128" where
  "u128_from_be_bytes bs = word_of_nat (be_val bs)"

lemma felt_bytes_split:
  "felt_to_bytes_be f
     = be_bytes 16 (nat (felt_val f) div 256 ^ 16) @ be_bytes 16 (nat (felt_val f))"
  using be_bytes_add [of 16 16 "nat (felt_val f)"] by (simp add: felt_to_bytes_be_def)

lemma u128_of_be_bytes: "u128_from_be_bytes (be_bytes 16 n) = word_of_nat n"
proof -
  have "n mod 256 ^ 16 = take_bit 128 n" by (simp add: take_bit_eq_mod)
  then show ?thesis by (simp add: u128_from_be_bytes_def be_val_be_bytes word_unat_eq_iff unat_of_nat)
qed

lemma felt_low_half: "u128_from_be_bytes (drop 16 (felt_to_bytes_be f)) = word_of_nat (nat (felt_val f))"
  by (simp add: felt_bytes_split u128_of_be_bytes)

lemma felt_high_half:
  "u128_from_be_bytes (take 16 (felt_to_bytes_be f)) = word_of_nat (nat (felt_val f) div 2 ^ 128)"
proof -
  have "(256 :: nat) ^ 16 = 2 ^ 128" by simp
  then show ?thesis by (simp only: felt_bytes_split u128_of_be_bytes take_append length_be_bytes) (simp add: u128_of_be_bytes)
qed

end
