(* ===== verification/Text.thy ===== *)
theory Text
  imports Felt
begin

text \<open>
  The string operations of the Rust standard library the program uses: positional notation
  (\<open>{}\<close>, \<open>{:x}\<close>, zero padding), \<open>from_str_radix\<close>, \<open>strip_prefix\<close>, \<open>trim\<close>, \<open>contains\<close> and
  \<open>find\<close>. A string is the list of its bytes; \<open>trim\<close> and the character classes are those of
  ASCII, which is what the program's own inputs consist of.
\<close>

section \<open>Digits\<close>

fun digits :: "nat \<Rightarrow> nat \<Rightarrow> nat list" where
  "digits b n = (if b < 2 \<or> n < b then [n] else digits b (n div b) @ [n mod b])"

declare digits.simps [simp del]

definition digits_val :: "nat \<Rightarrow> nat list \<Rightarrow> nat" where
  "digits_val b ds = foldl (\<lambda>acc d. acc * b + d) 0 ds"

lemma digits_val_snoc [simp]: "digits_val b (ds @ [d]) = digits_val b ds * b + d"
  by (simp add: digits_val_def)

lemma digits_val_digits: "digits_val b (digits b n) = n"
proof (induction b n rule: digits.induct)
  case (1 b n)
  show ?case
  proof (cases "b < 2 \<or> n < b")
    case True
    then show ?thesis by (subst digits.simps) (simp add: digits_val_def)
  next
    case False
    then show ?thesis using 1 by (subst digits.simps) simp
  qed
qed

lemma digits_less: "2 \<le> b \<Longrightarrow> d \<in> set (digits b n) \<Longrightarrow> d < b"
proof (induction b n rule: digits.induct)
  case (1 b n)
  then show ?case by (subst (asm) digits.simps) (auto split: if_splits)
qed

lemma digits_not_Nil [simp]: "digits b n \<noteq> []"
  by (subst digits.simps) simp

lemma hd_digits: "2 \<le> b \<Longrightarrow> n \<noteq> 0 \<Longrightarrow> hd (digits b n) \<noteq> 0"
proof (induction b n rule: digits.induct)
  case (1 b n)
  show ?case
  proof (cases "n < b")
    case True
    then show ?thesis using 1 by (subst digits.simps) simp
  next
    case False
    then have "n div b \<noteq> 0" using 1 by (simp add: div_eq_0_iff)
    moreover have "hd (digits b n) = hd (digits b (n div b))"
      using False 1 by (subst digits.simps) (simp add: hd_append)
    ultimately show ?thesis using 1 False by simp
  qed
qed

lemma length_digits: "2 \<le> b \<Longrightarrow> n < b ^ Suc k \<Longrightarrow> length (digits b n) \<le> Suc k"
proof (induction k arbitrary: n)
  case 0
  then show ?case by (subst digits.simps) simp
next
  case (Suc k)
  then have "n div b < b ^ Suc k" by (simp add: less_mult_imp_div_less mult.commute)
  with Suc show ?case by (subst digits.simps) simp
qed

definition digit_char :: "nat \<Rightarrow> char" where
  "digit_char d = (if d < 10 then char_of (48 + d) else char_of (87 + d))"

definition char_digit :: "char \<Rightarrow> nat option" where
  "char_digit c = (let n = of_char c :: nat in
     if 48 \<le> n \<and> n \<le> 57 then Some (n - 48)
     else if 97 \<le> n \<and> n \<le> 102 then Some (n - 87)
     else if 65 \<le> n \<and> n \<le> 70 then Some (n - 55)
     else None)"

lemma char_digit_of_digit: "d < 16 \<Longrightarrow> char_digit (digit_char d) = Some d"
  by (auto simp: char_digit_def digit_char_def Let_def)

definition nat_dec :: "nat \<Rightarrow> string" where
  "nat_dec n = map digit_char (digits 10 n)"

definition nat_hex :: "nat \<Rightarrow> string" where
  "nat_hex n = map digit_char (digits 16 n)"

definition pad_zeros :: "nat \<Rightarrow> string \<Rightarrow> string" where
  "pad_zeros w s = replicate (w - length s) (CHR ''0'') @ s"

text \<open>
  \<open>from_str_radix\<close> of an unsigned type: an optional \<open>+\<close>, at least one digit, no overflow.
\<close>

fun parse_digits :: "nat \<Rightarrow> nat \<Rightarrow> nat \<Rightarrow> string \<Rightarrow> nat option" where
  "parse_digits radix limit acc [] = Some acc"
| "parse_digits radix limit acc (c # cs) =
     (case char_digit c of
        None \<Rightarrow> None
      | Some d \<Rightarrow>
          if radix \<le> d then None
          else if limit \<le> acc * radix + d then None
          else parse_digits radix limit (acc * radix + d) cs)"

definition parse_radix :: "nat \<Rightarrow> nat \<Rightarrow> string \<Rightarrow> nat option" where
  "parse_radix radix limit s =
     (let ds = (case s of CHR ''+'' # r \<Rightarrow> r | _ \<Rightarrow> s)
      in if ds = [] then None else parse_digits radix limit 0 ds)"

lemma parse_digits_less: "parse_digits radix limit acc s = Some n \<Longrightarrow> acc < limit \<Longrightarrow> n < limit"
  by (induction radix limit acc s rule: parse_digits.induct) (auto split: option.splits if_splits)

lemma parse_radix_less: "parse_radix radix limit s = Some n \<Longrightarrow> 0 < limit \<Longrightarrow> n < limit"
  by (auto simp: parse_radix_def Let_def split: if_splits dest: parse_digits_less)

lemma foldl_digits_ge: "1 \<le> b \<Longrightarrow> acc \<le> foldl (\<lambda>acc d. acc * b + d) acc (ds :: nat list)"
proof (induction ds arbitrary: acc)
  case (Cons d ds)
  have "acc * 1 \<le> acc * b" using Cons.prems by (intro mult_le_mono2)
  then have "acc \<le> acc * b + d" by linarith
  also have "\<dots> \<le> foldl (\<lambda>acc d. acc * b + d) (acc * b + d) ds" using Cons by blast
  finally show ?case by simp
qed simp

lemma parse_digits_map:
  assumes "2 \<le> b" "b \<le> 16" "\<forall>d \<in> set ds. d < b" "foldl (\<lambda>acc d. acc * b + d) acc ds < limit"
  shows "parse_digits b limit acc (map digit_char ds) = Some (foldl (\<lambda>acc d. acc * b + d) acc ds)"
  using assms(3,4)
proof (induction ds arbitrary: acc)
  case Nil
  show ?case by simp
next
  case (Cons d ds)
  have "acc * b + d \<le> foldl (\<lambda>acc d. acc * b + d) (acc * b + d) ds"
    using assms(1) by (intro foldl_digits_ge) simp
  with Cons assms(1,2) show ?case by (simp add: char_digit_of_digit)
qed

lemma digit_char_plus: "d < 16 \<Longrightarrow> digit_char d \<noteq> CHR ''+''"
  using char_digit_of_digit [of d] by (auto simp: char_digit_def)

lemma parse_radix_digits:
  assumes "2 \<le> b" "b \<le> 16" "n < limit"
  shows "parse_radix b limit (map digit_char (digits b n)) = Some n"
proof -
  obtain d ds where ds: "digits b n = d # ds" by (cases "digits b n") auto
  have "d < 16" using digits_less [of b d n] assms ds by auto
  then have "(case map digit_char (digits b n) of CHR ''+'' # r \<Rightarrow> r | _ \<Rightarrow> map digit_char (digits b n))
      = map digit_char (digits b n)"
    using digit_char_plus [of d] by (auto simp: ds split: char.splits bool.splits)
  moreover have "parse_digits b limit 0 (map digit_char (digits b n)) = Some n"
    using parse_digits_map [of b "digits b n" 0 limit] digits_less [of b _ n] assms
      digits_val_digits [of b n] by (simp add: digits_val_def)
  ultimately show ?thesis by (simp add: parse_radix_def Let_def)
qed

section \<open>Prefixes, trimming, searching\<close>

fun strip_prefix :: "string \<Rightarrow> string \<Rightarrow> string option" where
  "strip_prefix [] s = Some s"
| "strip_prefix (p # ps) (c # cs) = (if p = c then strip_prefix ps cs else None)"
| "strip_prefix (p # ps) [] = None"

lemma strip_prefix_append [simp]: "strip_prefix p (p @ s) = Some s"
  by (induction p) auto

lemma strip_prefix_Some: "strip_prefix p s = Some r \<longleftrightarrow> s = p @ r"
  by (induction p s rule: strip_prefix.induct) auto

definition starts_with :: "string \<Rightarrow> string \<Rightarrow> bool" where
  "starts_with p s \<longleftrightarrow> strip_prefix p s \<noteq> None"

definition is_space :: "char \<Rightarrow> bool" where
  "is_space c \<longleftrightarrow> (let n = of_char c :: nat in n = 32 \<or> (9 \<le> n \<and> n \<le> 13))"

definition trim :: "string \<Rightarrow> string" where
  "trim s = rev (dropWhile is_space (rev (dropWhile is_space s)))"

fun find_sub :: "string \<Rightarrow> string \<Rightarrow> nat option" where
  "find_sub p [] = (if p = [] then Some 0 else None)"
| "find_sub p (c # cs) =
     (if starts_with p (c # cs) then Some 0 else map_option Suc (find_sub p cs))"

definition contains :: "string \<Rightarrow> string \<Rightarrow> bool" where
  "contains s p \<longleftrightarrow> find_sub p s \<noteq> None"

definition is_ascii_digit :: "char \<Rightarrow> bool" where
  "is_ascii_digit c \<longleftrightarrow> (let n = of_char c :: nat in 48 \<le> n \<and> n \<le> 57)"

definition is_ascii_upper :: "char \<Rightarrow> bool" where
  "is_ascii_upper c \<longleftrightarrow> (let n = of_char c :: nat in 65 \<le> n \<and> n \<le> 90)"

definition is_ascii_lower :: "char \<Rightarrow> bool" where
  "is_ascii_lower c \<longleftrightarrow> (let n = of_char c :: nat in 97 \<le> n \<and> n \<le> 122)"

definition is_ascii_alphanumeric :: "char \<Rightarrow> bool" where
  "is_ascii_alphanumeric c \<longleftrightarrow> is_ascii_digit c \<or> is_ascii_upper c \<or> is_ascii_lower c"

lemma starts_with_iff: "starts_with p s \<longleftrightarrow> (\<exists>r. s = p @ r)"
  unfolding starts_with_def not_None_eq strip_prefix_Some ..

lemma find_sub_Some:
  "find_sub p s = Some i \<Longrightarrow> \<exists>r. s = take i s @ p @ r \<and> i + length p \<le> length s"
proof (induction p s arbitrary: i rule: find_sub.induct)
  case (1 p)
  then show ?case by (simp split: if_splits)
next
  case (2 p c cs)
  show ?case
  proof (cases "starts_with p (c # cs)")
    case True
    with 2 have "i = 0" by simp
    moreover obtain r where r: "c # cs = p @ r" using True by (auto simp: starts_with_iff)
    then have "length p \<le> length (c # cs)" by (metis length_append le_add1)
    ultimately show ?thesis using r by auto
  next
    case False
    with 2 obtain j where j: "find_sub p cs = Some j" "i = Suc j" by auto
    with 2 False obtain r where "cs = take j cs @ p @ r \<and> j + length p \<le> length cs" by blast
    with j show ?thesis by auto
  qed
qed

lemma find_sub_None: "find_sub p s = None \<longleftrightarrow> \<not> (\<exists>a b. s = a @ p @ b)"
proof (induction s)
  case Nil
  show ?case by simp
next
  case (Cons c cs)
  have "(\<exists>a b. c # cs = a @ p @ b) \<longleftrightarrow> (\<exists>b. c # cs = p @ b) \<or> (\<exists>a b. cs = a @ p @ b)"
    by (auto simp: Cons_eq_append_conv)
  with Cons show ?case by (auto simp: starts_with_iff)
qed

lemma contains_iff: "contains s p \<longleftrightarrow> (\<exists>a b. s = a @ p @ b)"
  by (simp add: contains_def find_sub_None)

section \<open>Characters of UTF-8 text\<close>

text \<open>\<open>chars().take(n)\<close> and \<open>chars().count()\<close>: a character is a byte that is not a
  continuation byte with the continuation bytes after it.\<close>

definition is_continuation :: "char \<Rightarrow> bool" where
  "is_continuation c \<longleftrightarrow> (let n = of_char c :: nat in 128 \<le> n \<and> n < 192)"

fun take_chars :: "nat \<Rightarrow> string \<Rightarrow> string" where
  "take_chars n [] = []"
| "take_chars n (c # cs) =
     (if is_continuation c then c # take_chars n cs
      else case n of 0 \<Rightarrow> [] | Suc m \<Rightarrow> c # take_chars m cs)"

definition count_chars :: "string \<Rightarrow> nat" where
  "count_chars s = length (filter (\<lambda>c. \<not> is_continuation c) s)"

lemma count_take_chars: "count_chars (take_chars n s) \<le> n"
  by (induction n s rule: take_chars.induct) (auto simp: count_chars_def split: nat.splits)

definition to_lower :: "char \<Rightarrow> char" where
  "to_lower c = (if is_ascii_upper c then char_of (of_char c + 32 :: nat) else c)"

definition to_lowercase :: "string \<Rightarrow> string" where
  "to_lowercase s = map to_lower s"

text \<open>Characters outside ASCII in the program's messages, as their UTF-8 bytes.\<close>

definition utf8_ellipsis :: string where "utf8_ellipsis = [CHR 0xE2, CHR 0x80, CHR 0xA6]"
definition utf8_times :: string where "utf8_times = [CHR 0xC3, CHR 0x97]"
definition utf8_arrow :: string where "utf8_arrow = [CHR 0xE2, CHR 0x86, CHR 0x92]"
definition utf8_dash :: string where "utf8_dash = [CHR 0xE2, CHR 0x80, CHR 0x94]"
definition utf8_approx :: string where "utf8_approx = [CHR 0xE2, CHR 0x89, CHR 0x88]"
definition utf8_geq :: string where "utf8_geq = [CHR 0xE2, CHR 0x89, CHR 0xA5]"

section \<open>Felts in hexadecimal\<close>

text \<open>\<open>format!("{:x}", f)\<close>, \<open>format!("0x{:x}", f)\<close> and \<open>format!("0x{:064x}", f)\<close>.\<close>

definition felt_lower_hex :: "felt \<Rightarrow> string" where
  "felt_lower_hex f = nat_hex (nat (felt_val f))"

definition felt_0x :: "felt \<Rightarrow> string" where
  "felt_0x f = ''0x'' @ felt_lower_hex f"

definition felt_0x64 :: "felt \<Rightarrow> string" where
  "felt_0x64 f = ''0x'' @ pad_zeros 64 (felt_lower_hex f)"

lemma length_nat_hex: "n < 16 ^ 64 \<Longrightarrow> length (nat_hex n) \<le> 64"
  using length_digits [of 16 n 63] by (simp add: nat_hex_def)

lemma nat_felt_val_less: "nat (felt_val f) < 16 ^ 64"
proof -
  have "felt_val f < 2 ^ 252" using felt_val_range(2) [of f] stark_prime_less by linarith
  then show ?thesis by simp
qed

lemma length_felt_0x64: "length (felt_0x64 f) = 66"
  using length_nat_hex [OF nat_felt_val_less, of f]
  by (simp add: felt_0x64_def pad_zeros_def felt_lower_hex_def)

lemma parse_digits_zeros:
  "0 < limit \<Longrightarrow> 2 \<le> radix \<Longrightarrow>
     parse_digits radix limit 0 (replicate k (CHR ''0'') @ s) = parse_digits radix limit 0 s"
  by (induction k) (auto simp: char_digit_def)

lemma parse_felt_hex:
  "parse_digits 16 (16 ^ 64) 0 (pad_zeros w (felt_lower_hex f)) = Some (nat (felt_val f))"
proof -
  have "parse_digits 16 (16 ^ 64) 0 (felt_lower_hex f) = Some (nat (felt_val f))"
    using parse_digits_map [of 16 "digits 16 (nat (felt_val f))" 0 "16 ^ 64"]
      digits_less [of 16 _ "nat (felt_val f)"] digits_val_digits [of 16 "nat (felt_val f)"]
      nat_felt_val_less [of f]
    by (simp add: felt_lower_hex_def nat_hex_def digits_val_def)
  then show ?thesis by (simp add: pad_zeros_def parse_digits_zeros)
qed

lemma felt_0x64_inj [simp]: "felt_0x64 f = felt_0x64 g \<longleftrightarrow> f = g"
proof
  assume "felt_0x64 f = felt_0x64 g"
  then have "nat (felt_val f) = nat (felt_val g)"
    using parse_felt_hex [of 64 f] parse_felt_hex [of 64 g] by (simp add: felt_0x64_def)
  then show "f = g" by (simp add: felt_eq_iff nat_eq_iff)
qed simp

lemma felt_0x_inj [simp]: "felt_0x f = felt_0x g \<longleftrightarrow> f = g"
proof
  assume "felt_0x f = felt_0x g"
  then have "nat (felt_val f) = nat (felt_val g)"
    using parse_felt_hex [of 0 f] parse_felt_hex [of 0 g] by (simp add: felt_0x_def pad_zeros_def)
  then show "f = g" by (simp add: felt_eq_iff nat_eq_iff)
qed simp

end
