(* ===== verification/Core_Domain.thy ===== *)
theory Core_Domain
  imports Text
begin

text \<open>
  \<open>crates/wallet-core/src/domain.rs\<close> and \<open>error.rs\<close>: the two derivation branches of a seed
  and the bounds that keep them apart. \<open>effective_path\<close> is what BIP-32 derives from: the
  account index with the hardened bit ORed in. The lemmas show that accepted account numbers
  never share an effective path, in particular that no user account reaches the agent branch.
\<close>

unbundle bit_operations_syntax

datatype domain = User | Agent

datatype core_error =
    InvalidMnemonic
  | Derivation
  | Signing
  | Address
  | CoreLocked                  \<comment> \<open>\<open>CoreError::Locked\<close>\<close>
  | BadPassphraseOrCorrupt
  | Serialization
  | Kdf
  | UnsupportedVaultVersion u8
  | Crypto
  | InvalidContractClass string
  | IndexOutOfRange domain u32

definition STARKNET_COIN_TYPE :: u32 where "STARKNET_COIN_TYPE = 9004"
definition AGENT_ACCOUNT_INDEX :: u32 where "AGENT_ACCOUNT_INDEX = 0x41474E54"
definition MAX_HARDENED_INDEX :: u32 where "MAX_HARDENED_INDEX = 0x7FFFFFFF"
definition USER_INDEX_LIMIT :: u32 where "USER_INDEX_LIMIT = AGENT_ACCOUNT_INDEX"
definition AGENT_INDEX_LIMIT :: u32 where "AGENT_INDEX_LIMIT = 0x80000000"

fun path_indices :: "domain \<Rightarrow> u32 \<Rightarrow> u32 \<times> u32" where
  "path_indices User n = (n, 0)"
| "path_indices Agent n = (AGENT_ACCOUNT_INDEX, n)"

fun index_limit :: "domain \<Rightarrow> u32" where
  "index_limit User = USER_INDEX_LIMIT"
| "index_limit Agent = AGENT_INDEX_LIMIT"

definition check_index :: "domain \<Rightarrow> u32 \<Rightarrow> core_error + unit" where
  "check_index d n = (if n < index_limit d then Ok () else Err (IndexOutOfRange d n))"

definition coin_type :: "domain \<Rightarrow> u32" where
  "coin_type d = STARKNET_COIN_TYPE"

definition u32_dec :: "u32 \<Rightarrow> string" where
  "u32_dec n = nat_dec (unat n)"

definition path :: "domain \<Rightarrow> u32 \<Rightarrow> string" where
  "path d n =
     (let (account, address) = path_indices d n
      in ''m/44'' @ [CHR 0x27] @ ''/'' @ u32_dec (coin_type d) @ [CHR 0x27] @ ''/''
         @ u32_dec account @ [CHR 0x27] @ ''/0/'' @ u32_dec address)"

section \<open>The branches are disjoint\<close>

definition HARDENED_BIT :: u32 where "HARDENED_BIT = 0x80000000"

definition effective_path :: "domain \<Rightarrow> u32 \<Rightarrow> u32 \<times> u32" where
  "effective_path d n = (let (account, address) = path_indices d n in (account OR HARDENED_BIT, address))"

lemmas domain_consts =
  AGENT_ACCOUNT_INDEX_def MAX_HARDENED_INDEX_def USER_INDEX_LIMIT_def AGENT_INDEX_LIMIT_def
  STARKNET_COIN_TYPE_def HARDENED_BIT_def

lemma check_index_Ok [simp]: "check_index d n = Ok u \<longleftrightarrow> n < index_limit d"
  by (simp add: check_index_def)

lemma check_index_Err [simp]:
  "check_index d n = Err e \<longleftrightarrow> \<not> n < index_limit d \<and> e = IndexOutOfRange d n"
  by (auto simp: check_index_def)

lemma index_limit_hardened: "n < index_limit d \<Longrightarrow> n < HARDENED_BIT"
  by (cases d) (auto simp: domain_consts intro: less_trans)

text \<open>Below \<open>2^31\<close> the hardened bit is free, so ORing it in loses nothing.\<close>

lemma or_hardened_inj:
  assumes "m < HARDENED_BIT" "n < HARDENED_BIT" "m OR HARDENED_BIT = n OR HARDENED_BIT"
  shows "m = n"
proof -
  have clear: "(k OR HARDENED_BIT) AND mask 31 = k" if "k < HARDENED_BIT" for k :: u32
  proof -
    have "unat k < 2 ^ 31" using that by (simp add: HARDENED_BIT_def word_less_nat_alt)
    then have "take_bit 31 (unat k) = unat k" by (simp add: take_bit_nat_eq_self)
    then have "take_bit 31 k = k" by (simp only: word_unat_eq_iff unsigned_take_bit_eq)
    moreover have "take_bit 31 HARDENED_BIT = 0" by (simp add: HARDENED_BIT_def)
    ultimately have "take_bit 31 (k OR HARDENED_BIT) = k" by (simp only: take_bit_or or.right_neutral)
    then show ?thesis by (simp only: take_bit_eq_mask)
  qed
  show ?thesis using clear [OF assms(1)] clear [OF assms(2)] unfolding assms(3) by (rule trans [OF sym])
qed

lemma effective_path_inj:
  assumes "check_index d n = Ok ()" "check_index d' n' = Ok ()"
  shows "effective_path d n = effective_path d' n' \<longleftrightarrow> d = d' \<and> n = n'"
proof
  assume eq: "effective_path d n = effective_path d' n'"
  have n: "n < HARDENED_BIT" "n' < HARDENED_BIT" using assms index_limit_hardened by auto
  have agent: "AGENT_ACCOUNT_INDEX < HARDENED_BIT" by (simp add: domain_consts)
  have user: "m \<noteq> AGENT_ACCOUNT_INDEX" if "m < index_limit User" for m
    using that by (auto simp: USER_INDEX_LIMIT_def)
  show "d = d' \<and> n = n'"
    using eq assms n agent or_hardened_inj user
    by (cases d; cases d') (auto simp: effective_path_def)
qed simp

end
