(* ===== verification/Core_Ext.thy ===== *)
theory Core_Ext
  imports Core_Domain
begin

text \<open>
  Everything the program takes from third-party crates, as one record of functions: the
  hashes and parsers of \<open>starknet_types_core\<close>, the key derivation, signing and transaction
  hashing of \<open>krusty-kms\<close>, and the KDF and AEAD of the vault. The definitions of the development take the
  record as their first argument \<open>E\<close>; nothing is assumed of it but what a lemma names.
\<close>

datatype chain = Mainnet | Sepolia

record stark_signature =
  sig_public_key :: felt
  sig_r :: felt
  sig_s :: felt

record resource_bounds =
  max_amount :: u64
  max_price_per_unit :: u128

definition zero_bounds :: resource_bounds where
  "zero_bounds = \<lparr>max_amount = 0, max_price_per_unit = 0\<rparr>"

datatype da_mode = DA_L1 | DA_L2

datatype salt_policy = SaltZero | SaltPublicKey

record deployment_data =
  dd_address :: felt
  dd_class_hash :: felt
  dd_salt :: felt
  dd_constructor_calldata :: "felt list"

text \<open>\<open>OpenZeppelinAccount\<close>: its class hash, calldata builder and deployment descriptor.\<close>

record oz_account =
  oz_class_hash :: felt
  oz_build_calldata :: "felt \<Rightarrow> felt list"
  oz_descriptor :: "felt \<Rightarrow> salt_policy \<Rightarrow> deployment_data option"

record ext =
  felt_from_hex :: "string \<Rightarrow> felt option"
  felt_from_dec :: "string \<Rightarrow> felt option"
  poseidon_many :: "felt list \<Rightarrow> felt"
  keccak256 :: "bytes \<Rightarrow> bytes"
  chain_as_felt :: "chain \<Rightarrow> felt"
  chain_from_felt :: "felt \<Rightarrow> chain option"
  derive_private_key :: "string \<Rightarrow> u32 \<Rightarrow> u32 \<Rightarrow> u32 \<Rightarrow> string option \<Rightarrow> felt option"
    \<comment> \<open>mnemonic, address index, account index, coin type, passphrase\<close>
  stark_public_key :: "felt \<Rightarrow> felt option"
  sign_stark_hash :: "felt \<Rightarrow> felt \<Rightarrow> stark_signature option"
  compute_typed_data_message_hash :: "string \<Rightarrow> felt \<Rightarrow> felt option"
  derive_scoped_strk20_viewing_key :: "felt \<Rightarrow> string \<Rightarrow> string \<Rightarrow> felt option"
  krusty_generate_mnemonic :: "nat \<Rightarrow> string option"
  krusty_validate_mnemonic :: "string \<Rightarrow> bool"
  oz_latest :: "chain \<Rightarrow> oz_account option"
  compute_invoke_v3_hash :: "felt \<Rightarrow> felt list \<Rightarrow> felt \<Rightarrow> felt \<Rightarrow> felt list \<Rightarrow> u64 \<Rightarrow> resource_bounds
    \<Rightarrow> resource_bounds \<Rightarrow> resource_bounds \<Rightarrow> felt list \<Rightarrow> da_mode \<Rightarrow> da_mode \<Rightarrow> felt list \<Rightarrow> felt"
  compute_deploy_account_v3_hash :: "felt \<Rightarrow> felt \<Rightarrow> felt list \<Rightarrow> felt \<Rightarrow> felt \<Rightarrow> felt \<Rightarrow> u64
    \<Rightarrow> resource_bounds \<Rightarrow> resource_bounds \<Rightarrow> resource_bounds \<Rightarrow> felt list \<Rightarrow> da_mode \<Rightarrow> da_mode \<Rightarrow> felt"
  compute_declare_v3_hash :: "felt \<Rightarrow> felt \<Rightarrow> felt \<Rightarrow> felt \<Rightarrow> felt \<Rightarrow> u64 \<Rightarrow> resource_bounds
    \<Rightarrow> resource_bounds \<Rightarrow> resource_bounds \<Rightarrow> felt list \<Rightarrow> da_mode \<Rightarrow> da_mode \<Rightarrow> felt list \<Rightarrow> felt"
  argon2id :: "u32 \<Rightarrow> u32 \<Rightarrow> u32 \<Rightarrow> nat \<Rightarrow> string \<Rightarrow> bytes \<Rightarrow> bytes option"
    \<comment> \<open>m, t, p, key length, password, salt\<close>
  aes_encrypt :: "bytes \<Rightarrow> bytes \<Rightarrow> bytes \<Rightarrow> bytes option"
    \<comment> \<open>key, nonce, plaintext\<close>
  aes_decrypt :: "bytes \<Rightarrow> bytes \<Rightarrow> bytes \<Rightarrow> bytes option"

text \<open>\<open>wallet_core::address_hex\<close> and the mnemonic wrappers of \<open>lib.rs\<close>.\<close>

definition address_hex :: "felt \<Rightarrow> string" where
  "address_hex f = felt_0x64 f"

definition generate_mnemonic :: "ext \<Rightarrow> nat \<Rightarrow> core_error + string" where
  "generate_mnemonic E word_count = ok_or Derivation (krusty_generate_mnemonic E word_count)"

definition validate_mnemonic :: "ext \<Rightarrow> string \<Rightarrow> core_error + unit" where
  "validate_mnemonic E phrase = guardE (krusty_validate_mnemonic E phrase) InvalidMnemonic"

lemma address_hex_inj [simp]: "address_hex f = address_hex g \<longleftrightarrow> f = g"
  by (simp add: address_hex_def)

end
