(* ===== verification/Core_Accounts.thy ===== *)
theory Core_Accounts
  imports Core_Ext
begin

text \<open>
  \<open>crates/wallet-core/src/account_contract.rs\<close> and \<open>accounts.rs\<close>: the account-contract seam
  and the registry of derived accounts. \<open>registry_wf\<close> is what the wallet keeps true of a
  registry it builds: every account number is inside its branch, no two accounts share a
  branch and number, and exactly the agent accounts have an owning client.
\<close>

datatype account_contract = OpenZeppelin

fun salt_policy_of :: "account_contract \<Rightarrow> salt_policy" where
  "salt_policy_of OpenZeppelin = SaltZero"

fun contract_class_hash :: "ext \<Rightarrow> account_contract \<Rightarrow> chain \<Rightarrow> core_error + felt" where
  "contract_class_hash E OpenZeppelin chain =
     bindE (ok_or Address (oz_latest E chain)) (\<lambda>oz. Ok (oz_class_hash oz))"

fun constructor_calldata :: "ext \<Rightarrow> account_contract \<Rightarrow> felt \<Rightarrow> core_error + felt list" where
  "constructor_calldata E OpenZeppelin pubkey =
     bindE (ok_or Address (oz_latest E Mainnet)) (\<lambda>oz. Ok (oz_build_calldata oz pubkey))"

fun deployment :: "ext \<Rightarrow> account_contract \<Rightarrow> felt \<Rightarrow> chain \<Rightarrow> core_error + deployment_data" where
  "deployment E OpenZeppelin pubkey chain =
     bindE (ok_or Address (oz_latest E chain)) (\<lambda>oz.
     bindE (ok_or Address (oz_descriptor oz pubkey (salt_policy_of OpenZeppelin))) (\<lambda>d.
     Ok \<lparr>dd_address = dd_address d, dd_class_hash = dd_class_hash d, dd_salt = dd_salt d,
         dd_constructor_calldata = dd_constructor_calldata d\<rparr>))"

fun serialize_signature :: "account_contract \<Rightarrow> stark_signature \<Rightarrow> felt list" where
  "serialize_signature OpenZeppelin sig = [sig_r sig, sig_s sig]"

fun contract_as_str :: "account_contract \<Rightarrow> string" where
  "contract_as_str OpenZeppelin = ''openzeppelin''"

section \<open>The registry\<close>

record account_ref =
  acc_domain :: domain
  acc_index :: u32
  acc_address :: string
  acc_label :: string
  acc_contract :: account_contract
  acc_owner :: "string option"     \<comment> \<open>\<open>owner_client_id\<close>\<close>

type_synonym registry = "account_ref list"

text \<open>\<open>max().map_or(0, |m| m + 1)\<close>; no registered number is \<open>u32::MAX\<close>, see \<open>next_index_fresh\<close>.\<close>

definition next_index :: "registry \<Rightarrow> domain \<Rightarrow> u32" where
  "next_index reg d =
     (let is = map acc_index (filter (\<lambda>a. acc_domain a = d) reg)
      in case is of [] \<Rightarrow> 0 | i # is \<Rightarrow> fold max is i + 1)"

definition registry_add :: "registry \<Rightarrow> account_ref \<Rightarrow> registry" where
  "registry_add reg a = reg @ [a]"

definition remove_by_address :: "registry \<Rightarrow> string \<Rightarrow> registry \<times> bool" where
  "remove_by_address reg address =
     (let kept = filter (\<lambda>a. acc_address a \<noteq> address) reg
      in (kept, length kept \<noteq> length reg))"

definition user_accounts :: "registry \<Rightarrow> account_ref list" where
  "user_accounts reg = filter (\<lambda>a. acc_domain a = User) reg"

definition scoped_for :: "registry \<Rightarrow> string option \<Rightarrow> account_ref list" where
  "scoped_for reg client_id =
     (case client_id of
        None \<Rightarrow> user_accounts reg
      | Some cid \<Rightarrow> filter (\<lambda>a. acc_owner a = Some cid) reg)"

definition account_wf :: "account_ref \<Rightarrow> bool" where
  "account_wf a \<longleftrightarrow> acc_index a < index_limit (acc_domain a) \<and> (acc_domain a = User \<longleftrightarrow> acc_owner a = None)"

definition registry_wf :: "registry \<Rightarrow> bool" where
  "registry_wf reg \<longleftrightarrow>
     (\<forall>a \<in> set reg. account_wf a) \<and> distinct (map (\<lambda>a. (acc_domain a, acc_index a)) reg)"

lemma fold_max_ge: "x \<in> insert (i :: 'a::linorder) (set is) \<Longrightarrow> x \<le> fold max is i"
  by (simp add: Max.set_eq_fold [symmetric] del: fold_simps)

lemma fold_max_in: "fold max is (i :: 'a::linorder) \<in> insert i (set is)"
  by (induction "is" arbitrary: i) (auto simp: max_def)

lemma index_succ_less: "m < index_limit d \<Longrightarrow> m < m + 1"
  using index_limit_hardened [of m d]
  by (simp add: word_less_nat_alt unat_word_ariths HARDENED_BIT_def)

lemma next_index_fresh:
  assumes wf: "registry_wf reg" and a: "a \<in> set reg" "acc_domain a = d"
  shows "acc_index a < next_index reg d"
proof -
  define js where "js = map acc_index (filter (\<lambda>a. acc_domain a = d) reg)"
  have mem: "acc_index a \<in> set js" using a by (auto simp: js_def)
  then obtain i is' where js: "js = i # is'" by (cases js) auto
  let ?m = "fold max is' i"
  have "?m \<in> set js" using fold_max_in [of is' i] by (simp add: js)
  then obtain b where b: "b \<in> set reg" "acc_domain b = d" "acc_index b = ?m"
    by (auto simp: js_def)
  have "?m < index_limit d" using wf b by (auto simp: registry_wf_def account_wf_def)
  then have "?m < ?m + 1" by (rule index_succ_less)
  moreover have "acc_index a \<le> ?m" using mem fold_max_ge [of "acc_index a" i is'] by (simp add: js)
  moreover have "next_index reg d = ?m + 1" by (simp add: next_index_def js flip: js_def)
  ultimately show ?thesis by simp
qed

lemma next_index_le_limit: "registry_wf reg \<Longrightarrow> next_index reg d \<le> index_limit d"
proof -
  assume wf: "registry_wf reg"
  define js where "js = map acc_index (filter (\<lambda>a. acc_domain a = d) reg)"
  show ?thesis
  proof (cases js)
    case Nil
    then show ?thesis by (simp add: next_index_def flip: js_def)
  next
    case (Cons i is')
    have "fold max is' i \<in> set js" using fold_max_in [of is' i] by (simp add: Cons)
    then have less: "fold max is' i < index_limit d"
      using wf by (auto simp: js_def registry_wf_def account_wf_def)
    have "next_index reg d = fold max is' i + 1" by (simp add: next_index_def Cons flip: js_def)
    with less index_succ_less [OF less] show ?thesis
      by (simp add: word_le_nat_alt word_less_nat_alt unat_word_ariths)
  qed
qed

lemma registry_wf_Nil [simp]: "registry_wf []"
  by (simp add: registry_wf_def)

lemma registry_wf_add:
  assumes "registry_wf reg" "account_wf a" "acc_index a = next_index reg (acc_domain a)"
  shows "registry_wf (registry_add reg a)"
proof -
  have "(acc_domain a, acc_index a) \<noteq> (acc_domain b, acc_index b)" if "b \<in> set reg" for b
    using next_index_fresh [OF assms(1) that refl] assms(3) by auto
  with assms show ?thesis by (auto simp: registry_wf_def registry_add_def)
qed

lemma registry_wf_remove: "registry_wf reg \<Longrightarrow> registry_wf (fst (remove_by_address reg address))"
  by (auto simp: registry_wf_def remove_by_address_def Let_def distinct_map inj_on_def)

text \<open>Removing the address of a freshly added account undoes the addition.\<close>

lemma remove_by_address_add:
  assumes "acc_address a \<notin> acc_address ` set reg"
  shows "remove_by_address (registry_add reg a) (acc_address a) = (reg, True)"
proof -
  have "filter (\<lambda>b. acc_address b \<noteq> acc_address a) reg = reg"
    using assms by (intro filter_True ballI) (metis imageI)
  then show ?thesis by (simp add: remove_by_address_def registry_add_def)
qed

lemma set_scoped_for:
  "set (scoped_for reg scope) = {a \<in> set reg. case scope of
      None \<Rightarrow> acc_domain a = User | Some cid \<Rightarrow> acc_owner a = Some cid}"
  by (auto simp: scoped_for_def user_accounts_def split: option.splits)

lemma scoped_for_disjoint:
  assumes "registry_wf reg" "s \<noteq> t"
  shows "set (scoped_for reg s) \<inter> set (scoped_for reg t) = {}"
  using assms by (auto simp: set_scoped_for registry_wf_def account_wf_def split: option.splits)

lemma scoped_for_agent:
  assumes "registry_wf reg" "a \<in> set (scoped_for reg (Some cid))"
  shows "acc_domain a = Agent"
  using assms by (auto simp: set_scoped_for registry_wf_def account_wf_def) (metis domain.exhaust option.distinct(1))

end
