(* ===== verification/Core_Tx.thy ===== *)
theory Core_Tx
  imports Core_Accounts
begin

text \<open>
  \<open>crates/wallet-core/src/keys.rs\<close> and \<open>tx.rs\<close>: derivation and signing by account number, entry-point
  selectors, the multicall calldata and the V3 transactions. \<open>decode_calls\<close> is the
  \<open>__execute__\<close> side of the calldata layout.
\<close>

section \<open>Keys\<close>

definition private_key :: "ext \<Rightarrow> string \<Rightarrow> domain \<Rightarrow> u32 \<Rightarrow> string option \<Rightarrow> core_error + felt" where
  "private_key E mnemonic d index passphrase =
     bindE (check_index d index) (\<lambda>_.
     let (account_index, address_index) = path_indices d index
     in ok_or Derivation
          (derive_private_key E mnemonic address_index account_index (coin_type d) passphrase))"

definition strk20_viewing_key ::
  "ext \<Rightarrow> string \<Rightarrow> domain \<Rightarrow> u32 \<Rightarrow> string option \<Rightarrow> felt \<Rightarrow> felt \<Rightarrow> core_error + felt" where
  "strk20_viewing_key E mnemonic d index passphrase chain_id pool =
     bindE (private_key E mnemonic d index passphrase) (\<lambda>sk.
     ok_or Derivation (derive_scoped_strk20_viewing_key E sk (felt_0x chain_id) (felt_0x pool)))"

definition account_public_key ::
  "ext \<Rightarrow> string \<Rightarrow> domain \<Rightarrow> u32 \<Rightarrow> string option \<Rightarrow> core_error + felt" where
  "account_public_key E mnemonic d index passphrase =
     bindE (private_key E mnemonic d index passphrase) (\<lambda>sk.
     ok_or Derivation (stark_public_key E sk))"

definition account_deployment_data ::
  "ext \<Rightarrow> string \<Rightarrow> domain \<Rightarrow> u32 \<Rightarrow> string option \<Rightarrow> chain \<Rightarrow> account_contract
     \<Rightarrow> core_error + deployment_data" where
  "account_deployment_data E mnemonic d index passphrase chain contract =
     bindE (account_public_key E mnemonic d index passphrase) (\<lambda>pubkey.
     deployment E contract pubkey chain)"

definition account_address ::
  "ext \<Rightarrow> string \<Rightarrow> domain \<Rightarrow> u32 \<Rightarrow> string option \<Rightarrow> chain \<Rightarrow> account_contract
     \<Rightarrow> core_error + felt" where
  "account_address E mnemonic d index passphrase chain contract =
     bindE (account_deployment_data E mnemonic d index passphrase chain contract) (\<lambda>dd.
     Ok (dd_address dd))"

definition oz_address ::
  "ext \<Rightarrow> string \<Rightarrow> domain \<Rightarrow> u32 \<Rightarrow> string option \<Rightarrow> chain \<Rightarrow> core_error + felt" where
  "oz_address E mnemonic d index passphrase chain =
     account_address E mnemonic d index passphrase chain OpenZeppelin"

definition sign_hash ::
  "ext \<Rightarrow> string \<Rightarrow> domain \<Rightarrow> u32 \<Rightarrow> string option \<Rightarrow> felt \<Rightarrow> core_error + stark_signature" where
  "sign_hash E mnemonic d index passphrase hash =
     bindE (private_key E mnemonic d index passphrase) (\<lambda>sk.
     ok_or Signing (sign_stark_hash E sk hash))"

definition typed_data_message_hash :: "ext \<Rightarrow> string \<Rightarrow> felt \<Rightarrow> core_error + felt" where
  "typed_data_message_hash E typed_data_json account_addr =
     ok_or Signing (compute_typed_data_message_hash E typed_data_json account_addr)"

definition sign_typed_data ::
  "ext \<Rightarrow> string \<Rightarrow> domain \<Rightarrow> u32 \<Rightarrow> string option \<Rightarrow> string \<Rightarrow> felt
     \<Rightarrow> core_error + stark_signature" where
  "sign_typed_data E mnemonic d index passphrase typed_data_json account_addr =
     bindE (typed_data_message_hash E typed_data_json account_addr) (\<lambda>hash.
     sign_hash E mnemonic d index passphrase hash)"

section \<open>Selectors and calldata\<close>

record call =
  call_to :: felt
  call_selector :: felt
  call_calldata :: "felt list"

text \<open>\<open>bytes[0] &= 0x03\<close> on the 32 bytes of the digest.\<close>

definition starknet_keccak :: "ext \<Rightarrow> bytes \<Rightarrow> felt" where
  "starknet_keccak E data =
     (let bs = keccak256 E data
      in felt_from_bytes_be (bs[0 := bs ! 0 AND 0x03]))"

definition get_selector_from_name :: "ext \<Rightarrow> string \<Rightarrow> felt" where
  "get_selector_from_name E name = starknet_keccak E (map (\<lambda>c. word_of_nat (of_char c)) name)"

definition resolve_selector :: "ext \<Rightarrow> string \<Rightarrow> core_error + felt" where
  "resolve_selector E s =
     (case (case strip_prefix ''0x'' s of Some h \<Rightarrow> Some h | None \<Rightarrow> strip_prefix ''0X'' s) of
        Some h \<Rightarrow> ok_or Address (felt_from_hex E (''0x'' @ h))
      | None \<Rightarrow> Ok (get_selector_from_name E s))"

definition felt_of_len :: "'a list \<Rightarrow> felt" where
  "felt_of_len xs = felt_of_word (word_of_nat (length xs) :: u64)"

definition encode_call :: "call \<Rightarrow> felt list" where
  "encode_call c = call_to c # call_selector c # felt_of_len (call_calldata c) # call_calldata c"

definition encode_calls :: "call list \<Rightarrow> felt list" where
  "encode_calls calls = foldl (\<lambda>out c. out @ encode_call c) [felt_of_len calls] calls"

fun decode_n :: "nat \<Rightarrow> felt list \<Rightarrow> (call list \<times> felt list) option" where
  "decode_n 0 xs = Some ([], xs)"
| "decode_n (Suc k) (to # sel # len # xs) =
     (let l = nat (felt_val len) in
      if length xs < l then None
      else map_option (\<lambda>(cs, rest). (\<lparr>call_to = to, call_selector = sel, call_calldata = take l xs\<rparr> # cs, rest))
             (decode_n k (drop l xs)))"
| "decode_n (Suc k) _ = None"

definition decode_calls :: "felt list \<Rightarrow> (call list \<times> felt list) option" where
  "decode_calls xs = (case xs of [] \<Rightarrow> None | n # ys \<Rightarrow> decode_n (nat (felt_val n)) ys)"

lemma felt_of_len_val: "length xs < 2 ^ 64 \<Longrightarrow> nat (felt_val (felt_of_len xs)) = length xs"
proof -
  assume "length xs < 2 ^ 64"
  then have "unat (word_of_nat (length xs) :: u64) = length xs"
    by (simp add: unat_of_nat take_bit_eq_mod)
  then show ?thesis unfolding felt_of_len_def felt_val_of_u64 by simp
qed

lemma encode_calls_concat: "encode_calls cs = felt_of_len cs # concat (map encode_call cs)"
proof -
  have "foldl (\<lambda>out c. out @ encode_call c) out cs = out @ concat (map encode_call cs)" for out
    by (induction cs arbitrary: out) simp_all
  then show ?thesis by (simp add: encode_calls_def)
qed

lemma decode_n_encoded:
  "\<forall>c \<in> set cs. length (call_calldata c) < 2 ^ 64 \<Longrightarrow>
     decode_n (length cs) (concat (map encode_call cs) @ rest) = Some (cs, rest)"
  by (induction cs) (simp_all add: encode_call_def felt_of_len_val)

lemma decode_encode_calls:
  assumes "length cs < 2 ^ 64" "\<forall>c \<in> set cs. length (call_calldata c) < 2 ^ 64"
  shows "decode_calls (encode_calls cs @ rest) = Some (cs, rest)"
  using assms by (simp add: encode_calls_concat decode_calls_def felt_of_len_val decode_n_encoded)

lemma starknet_keccak_250:
  assumes "length (keccak256 E data) = 32"
  shows "felt_val (starknet_keccak E data) = int (be_val (keccak256 E data) mod 2 ^ 250)"
proof -
  obtain b bs where bs: "keccak256 E data = b # bs" and len: "length bs = 31"
    using assms by (cases "keccak256 E data") auto
  have b3: "b AND 3 = take_bit 2 b" by (simp add: take_bit_eq_mask mask_eq_exp_minus_1)
  have "unat (take_bit 2 b) = take_bit 2 (unat b)" by (rule unsigned_take_bit_eq)
  then have u3: "unat (take_bit 2 b) = unat b mod 4" by (simp only: take_bit_eq_mod) simp
  have lt: "be_val bs < 256 ^ 31" using be_val_less [of bs] by (simp add: len)
  have e: "(2 :: nat) ^ 250 = 256 ^ 31 * 4" by simp
  let ?x = "unat b * 256 ^ 31 + be_val bs"
  have "?x div 256 ^ 31 = unat b" "?x mod 256 ^ 31 = be_val bs" using lt by simp_all
  then have "?x mod (256 ^ 31 * 4) = 256 ^ 31 * (unat b mod 4) + be_val bs"
    by (simp only: mod_mult2_eq)
  then have "be_val (b # bs) mod 2 ^ 250 = unat b mod 4 * 256 ^ 31 + be_val bs"
    unfolding be_val_Cons len e by (simp only: mult.commute)
  also have "\<dots> = be_val ((take_bit 2 b) # bs)" by (simp only: be_val_Cons len u3)
  finally have eq: "be_val ((take_bit 2 b) # bs) = be_val (b # bs) mod 2 ^ 250" ..
  have "be_val (b # bs) mod 2 ^ 250 < 2 ^ 250" by (rule mod_less_divisor) simp
  then have "int (be_val (b # bs) mod 2 ^ 250) < int (2 ^ 250)" by (simp only: of_nat_less_iff)
  then have small: "int (be_val (b # bs) mod 2 ^ 250) < stark_prime" using stark_prime_gt(1) by simp
  have "starknet_keccak E data = felt_of_nat (be_val (take_bit 2 b # bs))"
    by (simp add: starknet_keccak_def bs b3 felt_from_bytes_be_def)
  then show ?thesis unfolding eq bs using felt_val_of_nat_small [OF small] by simp
qed

section \<open>V3 transactions\<close>

record invoke_v3_params =
  p_nonce :: felt
  p_tip :: u64
  p_l1_gas :: resource_bounds
  p_l2_gas :: resource_bounds
  p_l1_data_gas :: resource_bounds
  p_paymaster_data :: "felt list"
  p_account_deployment_data :: "felt list"
  p_proof_facts :: "felt list"

definition default_params :: invoke_v3_params where
  "default_params =
     \<lparr>p_nonce = 0, p_tip = 0, p_l1_gas = zero_bounds, p_l2_gas = zero_bounds,
      p_l1_data_gas = zero_bounds, p_paymaster_data = [], p_account_deployment_data = [],
      p_proof_facts = []\<rparr>"

definition invoke_v3_hash :: "ext \<Rightarrow> felt \<Rightarrow> call list \<Rightarrow> chain \<Rightarrow> invoke_v3_params \<Rightarrow> felt" where
  "invoke_v3_hash E sender calls chain params =
     compute_invoke_v3_hash E sender (encode_calls calls) (chain_as_felt E chain) (p_nonce params)
       (p_account_deployment_data params) (p_tip params) (p_l1_gas params) (p_l2_gas params)
       (p_l1_data_gas params) (p_paymaster_data params) DA_L1 DA_L1 (p_proof_facts params)"

record signed_invoke =
  si_transaction_hash :: felt
  si_calldata :: "felt list"
  si_signature :: "felt list"
  si_r :: felt
  si_s :: felt

record signed_deploy_account =
  sd_transaction_hash :: felt
  sd_address :: felt
  sd_class_hash :: felt
  sd_salt :: felt
  sd_constructor_calldata :: "felt list"
  sd_signature :: "felt list"
  sd_r :: felt
  sd_s :: felt

record signed_declare =
  sc_transaction_hash :: felt
  sc_signature :: "felt list"
  sc_r :: felt
  sc_s :: felt

definition sign_deploy_account_v3 ::
  "ext \<Rightarrow> string \<Rightarrow> domain \<Rightarrow> u32 \<Rightarrow> string option \<Rightarrow> chain \<Rightarrow> invoke_v3_params \<Rightarrow> account_contract
     \<Rightarrow> core_error + signed_deploy_account" where
  "sign_deploy_account_v3 E mnemonic d index passphrase chain params contract =
     bindE (account_deployment_data E mnemonic d index passphrase chain contract) (\<lambda>dd.
     let hash = compute_deploy_account_v3_hash E (dd_address dd) (dd_class_hash dd)
           (dd_constructor_calldata dd) (dd_salt dd) (chain_as_felt E chain) (p_nonce params)
           (p_tip params) (p_l1_gas params) (p_l2_gas params) (p_l1_data_gas params)
           (p_paymaster_data params) DA_L1 DA_L1
     in bindE (sign_hash E mnemonic d index passphrase hash) (\<lambda>sig.
        Ok \<lparr>sd_transaction_hash = hash, sd_address = dd_address dd,
            sd_class_hash = dd_class_hash dd, sd_salt = dd_salt dd,
            sd_constructor_calldata = dd_constructor_calldata dd,
            sd_signature = serialize_signature contract sig, sd_r = sig_r sig, sd_s = sig_s sig\<rparr>))"

definition declare_v3_hash ::
  "ext \<Rightarrow> felt \<Rightarrow> felt \<Rightarrow> felt \<Rightarrow> chain \<Rightarrow> invoke_v3_params \<Rightarrow> felt" where
  "declare_v3_hash E sender class_hash compiled_class_hash chain params =
     compute_declare_v3_hash E sender class_hash compiled_class_hash (chain_as_felt E chain)
       (p_nonce params) (p_tip params) (p_l1_gas params) (p_l2_gas params) (p_l1_data_gas params)
       (p_paymaster_data params) DA_L1 DA_L1 (p_account_deployment_data params)"

definition sign_declare_v3 ::
  "ext \<Rightarrow> string \<Rightarrow> domain \<Rightarrow> u32 \<Rightarrow> string option \<Rightarrow> felt \<Rightarrow> felt \<Rightarrow> felt \<Rightarrow> chain
     \<Rightarrow> invoke_v3_params \<Rightarrow> account_contract \<Rightarrow> core_error + signed_declare" where
  "sign_declare_v3 E mnemonic d index passphrase sender class_hash compiled_class_hash chain params
       contract =
     (let hash = declare_v3_hash E sender class_hash compiled_class_hash chain params
      in bindE (sign_hash E mnemonic d index passphrase hash) (\<lambda>sig.
         Ok \<lparr>sc_transaction_hash = hash, sc_signature = serialize_signature contract sig,
             sc_r = sig_r sig, sc_s = sig_s sig\<rparr>))"

definition sign_invoke_v3 ::
  "ext \<Rightarrow> string \<Rightarrow> domain \<Rightarrow> u32 \<Rightarrow> string option \<Rightarrow> felt \<Rightarrow> call list \<Rightarrow> chain
     \<Rightarrow> invoke_v3_params \<Rightarrow> account_contract \<Rightarrow> core_error + signed_invoke" where
  "sign_invoke_v3 E mnemonic d index passphrase sender calls chain params contract =
     (let calldata = encode_calls calls;
          hash = invoke_v3_hash E sender calls chain params
      in bindE (sign_hash E mnemonic d index passphrase hash) (\<lambda>sig.
         Ok \<lparr>si_transaction_hash = hash, si_calldata = calldata,
             si_signature = serialize_signature contract sig, si_r = sig_r sig, si_s = sig_s sig\<rparr>))"

lemmas signing_defs =
  sign_invoke_v3_def sign_declare_v3_def sign_deploy_account_v3_def sign_typed_data_def
  sign_hash_def account_deployment_data_def account_public_key_def account_address_def
  strk20_viewing_key_def

lemma private_key_bounded: "private_key E m d index pw = Ok sk \<Longrightarrow> index < index_limit d"
  by (auto simp: private_key_def result_simps)

lemma sign_invoke_v3_Ok:
  assumes "sign_invoke_v3 E m d index pw sender calls chain params contract = Ok si"
  obtains sk sig where
    "private_key E m d index pw = Ok sk"
    "si_transaction_hash si = invoke_v3_hash E sender calls chain params"
    "sign_stark_hash E sk (si_transaction_hash si) = Some sig"
    "si_calldata si = encode_calls calls"
    "si_signature si = serialize_signature contract sig"
  using assms by (auto simp: sign_invoke_v3_def sign_hash_def Let_def result_simps)

text \<open>The key of an account, with the derivation path written out: \<open>m/44'/9004'/n'/0/0\<close> for the \<open>n\<close>-th account of the
  user and \<open>m/44'/9004'/0x41474E54'/0/n\<close> for the agents'.\<close>

lemma private_key_Ok:
  "private_key E m d index pw = Ok sk \<longleftrightarrow>
     (case d of
        User \<Rightarrow> index < 0x41474E54 \<and> derive_private_key E m 0 index 9004 pw = Some sk
      | Agent \<Rightarrow> index < 0x80000000 \<and> derive_private_key E m index 0x41474E54 9004 pw = Some sk)"
  by (cases d) (auto simp: private_key_def result_simps domain_consts coin_type_def)

end
