(* ===== verification/Json.thy ===== *)
theory Json
  imports Text
begin

text \<open>
  \<open>serde_json::Value\<close> with the constructors the program matches on and the accessors it
  calls. The workspace enables \<open>preserve_order\<close>, so an object is its members in insertion
  order, each key once. \<open>Float\<close> carries the printed form of a number that is not an integer.
\<close>

datatype json_number = PosInt u64 | NegInt int | Float string

datatype json =
    JNull
  | JBool bool
  | JNum json_number
  | JStr string
  | JArr "json list"
  | JObj "(string \<times> json) list"

fun json_get :: "json \<Rightarrow> string \<Rightarrow> json option" where
  "json_get (JObj ms) k = map_of ms k"
| "json_get _ k = None"

fun json_at :: "json \<Rightarrow> nat \<Rightarrow> json option" where
  "json_at (JArr xs) i = (if i < length xs then Some (xs ! i) else None)"
| "json_at _ i = None"

fun as_str :: "json \<Rightarrow> string option" where
  "as_str (JStr s) = Some s"
| "as_str _ = None"

fun as_bool :: "json \<Rightarrow> bool option" where
  "as_bool (JBool b) = Some b"
| "as_bool _ = None"

fun as_u64 :: "json \<Rightarrow> u64 option" where
  "as_u64 (JNum (PosInt n)) = Some n"
| "as_u64 _ = None"

fun as_array :: "json \<Rightarrow> json list option" where
  "as_array (JArr xs) = Some xs"
| "as_array _ = None"

fun as_object :: "json \<Rightarrow> (string \<times> json) list option" where
  "as_object (JObj ms) = Some ms"
| "as_object _ = None"

text \<open>\<open>Map::insert\<close>: replace in place, else append.\<close>

fun obj_insert :: "string \<Rightarrow> json \<Rightarrow> (string \<times> json) list \<Rightarrow> (string \<times> json) list" where
  "obj_insert k v [] = [(k, v)]"
| "obj_insert k v ((j, u) # ms) = (if j = k then (k, v) # ms else (j, u) # obj_insert k v ms)"

lemma map_of_obj_insert [simp]: "map_of (obj_insert k v ms) j = (if j = k then Some v else map_of ms j)"
  by (induction k v ms rule: obj_insert.induct) auto

definition json_u64 :: "u64 \<Rightarrow> json" where
  "json_u64 n = JNum (PosInt n)"

lemma as_u64_json_u64 [simp]: "as_u64 (json_u64 n) = Some n"
  by (simp add: json_u64_def)

definition get_str :: "json \<Rightarrow> string \<Rightarrow> string option" where
  "get_str v k = Option.bind (json_get v k) as_str"

definition get_u64 :: "json \<Rightarrow> string \<Rightarrow> u64 option" where
  "get_u64 v k = Option.bind (json_get v k) as_u64"

definition get_bool :: "json \<Rightarrow> string \<Rightarrow> bool option" where
  "get_bool v k = Option.bind (json_get v k) as_bool"

definition get_array :: "json \<Rightarrow> string \<Rightarrow> json list option" where
  "get_array v k = Option.bind (json_get v k) as_array"

end
