(* ===== verification/Core_ClassHash.thy ===== *)
theory Core_ClassHash
  imports Core_Tx Json
begin

text \<open>
  \<open>crates/wallet-core/src/class_hash.rs\<close>: parsing a Sierra class, the class hash a DECLARE
  commits to, and the canonical RPC object that is broadcast. What a declare needs is that
  the object broadcast parses back to the class that was hashed; \<open>from_json_to_rpc_json\<close>
  states it. \<open>scalar\<close> renders a JSON null, boolean, number or quoted string (\<open>serde_json\<close>).
\<close>

definition CONTRACT_CLASS_VERSION :: string where "CONTRACT_CLASS_VERSION = ''0.1.0''"
definition CLASS_HASH_PREFIX :: string where "CLASS_HASH_PREFIX = ''CONTRACT_CLASS_V0.1.0''"

record sierra_entry_point =
  ep_selector :: felt
  ep_function_idx :: u64

record sierra_entry_points =
  eps_external :: "sierra_entry_point list"
  eps_l1_handler :: "sierra_entry_point list"
  eps_constructor :: "sierra_entry_point list"

record sierra_class =
  sierra_program :: "felt list"
  contract_class_version :: string
  entry_points_by_type :: sierra_entry_points
  abi :: string

definition default_entry_points :: sierra_entry_points where
  "default_entry_points = \<lparr>eps_external = [], eps_l1_handler = [], eps_constructor = []\<rparr>"

definition invalid_class :: "string \<Rightarrow> core_error" where
  "invalid_class msg = InvalidContractClass msg"

definition felt_of_json :: "ext \<Rightarrow> json \<Rightarrow> felt option" where
  "felt_of_json E v =
     (case v of
        JStr s \<Rightarrow>
          (case (case strip_prefix ''0x'' s of Some h \<Rightarrow> Some h | None \<Rightarrow> strip_prefix ''0X'' s) of
             Some h \<Rightarrow> felt_from_hex E (''0x'' @ h)
           | None \<Rightarrow> felt_from_dec E s)
      | JNum n \<Rightarrow> map_option felt_of_word (as_u64 (JNum n))
      | _ \<Rightarrow> None)"

fun enumerate_from :: "nat \<Rightarrow> 'a list \<Rightarrow> (nat \<times> 'a) list" where
  "enumerate_from i [] = []"
| "enumerate_from i (x # xs) = (i, x) # enumerate_from (Suc i) xs"

definition entry_point_of_json :: "ext \<Rightarrow> string \<Rightarrow> nat \<times> json \<Rightarrow> core_error + sierra_entry_point" where
  "entry_point_of_json E name = (\<lambda>(i, e).
     bindE (ok_or (invalid_class (name @ ''['' @ nat_dec i @ ''].selector is not a felt''))
       (Option.bind (json_get e ''selector'') (felt_of_json E))) (\<lambda>selector.
     bindE (ok_or (invalid_class (name @ ''['' @ nat_dec i @ ''].function_idx is not an integer''))
       (case json_get e ''function_idx'' of
          Some (JNum n) \<Rightarrow> as_u64 (JNum n)
        | Some (JStr s) \<Rightarrow> map_option word_of_nat (parse_radix 10 (2 ^ 64) s)
        | _ \<Rightarrow> None)) (\<lambda>function_idx.
     Ok \<lparr>ep_selector = selector, ep_function_idx = function_idx\<rparr>)))"

definition entry_points ::
  "ext \<Rightarrow> json option \<Rightarrow> string \<Rightarrow> core_error + sierra_entry_point list" where
  "entry_points E grp name =
     (case grp of
        None \<Rightarrow> Ok []
      | Some JNull \<Rightarrow> Ok []
      | Some (JArr items) \<Rightarrow> collectE (entry_point_of_json E name) (enumerate_from 0 items)
      | Some _ \<Rightarrow> Err (invalid_class (''entry_points_by_type.'' @ name @ '' must be an array'')))"

text \<open>\<open>PythonJsonFormatter\<close>: \<open>", "\<close> before every item but the first, \<open>": "\<close> after a key.\<close>

fun join :: "string \<Rightarrow> string list \<Rightarrow> string" where
  "join sep [] = []"
| "join sep [x] = x"
| "join sep (x # y # xs) = x @ sep @ join sep (y # xs)"

fun render_python :: "(json \<Rightarrow> string) \<Rightarrow> json \<Rightarrow> string" where
  "render_python scalar (JArr xs) = ''['' @ join '', '' (map (render_python scalar) xs) @ '']''"
| "render_python scalar (JObj ms) =
     ''{'' @ join '', '' (map (\<lambda>(k, v). scalar (JStr k) @ '': '' @ render_python scalar v) ms) @ ''}''"
| "render_python scalar v = scalar v"

definition python_json :: "(json \<Rightarrow> string) \<Rightarrow> json \<Rightarrow> core_error + string" where
  "python_json scalar v = Ok (render_python scalar v)"

definition program_of_json :: "ext \<Rightarrow> json \<Rightarrow> core_error + felt list" where
  "program_of_json E v =
     (case json_get v ''sierra_program'' of
        Some (JArr items) \<Rightarrow>
          collectE (\<lambda>(i, f). ok_or (invalid_class (''sierra_program['' @ nat_dec i @ ''] is not a felt''))
            (felt_of_json E f)) (enumerate_from 0 items)
      | Some (JStr _) \<Rightarrow> Err (invalid_class
          (''sierra_program must be the uncompressed felt array (RPC CONTRACT_CLASS form), ''
            @ ''not the compressed gateway string''))
      | _ \<Rightarrow> Err (invalid_class ''missing 'sierra_program' (array of felts)''))"

text \<open>\<open>scalar\<close> is serde's compact rendering of a JSON value.\<close>

definition version_of_json :: "(json \<Rightarrow> string) \<Rightarrow> json \<Rightarrow> core_error + string" where
  "version_of_json scalar v =
     (case json_get v ''contract_class_version'' of
        None \<Rightarrow> Ok CONTRACT_CLASS_VERSION
      | Some JNull \<Rightarrow> Ok CONTRACT_CLASS_VERSION
      | Some (JStr s) \<Rightarrow>
          if s = CONTRACT_CLASS_VERSION then Ok s
          else Err (invalid_class (''unsupported contract_class_version '' @ scalar (JStr s) @ '' (expected '' @ [CHR 0x22] @ CONTRACT_CLASS_VERSION @ [CHR 0x22] @ '')''))
      | Some other \<Rightarrow> Err (invalid_class (''unsupported contract_class_version '' @ scalar other @ '' (expected '' @ [CHR 0x22] @ CONTRACT_CLASS_VERSION @ [CHR 0x22] @ '')'')))"

definition entry_points_of_json :: "ext \<Rightarrow> json \<Rightarrow> core_error + sierra_entry_points" where
  "entry_points_of_json E v =
     (case json_get v ''entry_points_by_type'' of
        None \<Rightarrow> Ok default_entry_points
      | Some JNull \<Rightarrow> Ok default_entry_points
      | Some (JObj groups) \<Rightarrow>
          bindE (entry_points E (json_get (JObj groups) ''EXTERNAL'') ''EXTERNAL'') (\<lambda>ext.
          bindE (entry_points E (json_get (JObj groups) ''L1_HANDLER'') ''L1_HANDLER'') (\<lambda>l1.
          bindE (entry_points E (json_get (JObj groups) ''CONSTRUCTOR'') ''CONSTRUCTOR'') (\<lambda>con.
          Ok \<lparr>eps_external = ext, eps_l1_handler = l1, eps_constructor = con\<rparr>)))
      | Some _ \<Rightarrow> Err (invalid_class ''entry_points_by_type must be an object''))"

definition missing_abi :: string where
  "missing_abi = ''missing 'abi' (the ABI as a JSON string, or the ABI array from the compiled class)''"

definition abi_of_json :: "(json \<Rightarrow> string) \<Rightarrow> json \<Rightarrow> core_error + string" where
  "abi_of_json scalar v =
     (case json_get v ''abi'' of
        Some (JStr s) \<Rightarrow> Ok s
      | Some JNull \<Rightarrow> Err (invalid_class missing_abi)
      | None \<Rightarrow> Err (invalid_class missing_abi)
      | Some other \<Rightarrow> python_json scalar other)"

definition class_from_json :: "ext \<Rightarrow> (json \<Rightarrow> string) \<Rightarrow> json \<Rightarrow> core_error + sierra_class" where
  "class_from_json E scalar v =
     bindE (ok_or (invalid_class ''must be a JSON object (RPC CONTRACT_CLASS)'') (as_object v)) (\<lambda>_.
     bindE (program_of_json E v) (\<lambda>program.
     bindE (guardE (program \<noteq> []) (invalid_class ''sierra_program is empty'')) (\<lambda>_.
     bindE (version_of_json scalar v) (\<lambda>version.
     bindE (entry_points_of_json E v) (\<lambda>eps.
     bindE (abi_of_json scalar v) (\<lambda>abi_string.
     Ok \<lparr>sierra_program = program, contract_class_version = version,
         entry_points_by_type = eps, abi = abi_string\<rparr>))))))"

definition hash_entry_points :: "ext \<Rightarrow> sierra_entry_point list \<Rightarrow> felt" where
  "hash_entry_points E eps =
     poseidon_many E (concat (map (\<lambda>e. [ep_selector e, felt_of_word (ep_function_idx e)]) eps))"

definition class_hash :: "ext \<Rightarrow> sierra_class \<Rightarrow> felt" where
  "class_hash E c =
     (let eps = entry_points_by_type c
      in poseidon_many E
           [felt_from_bytes_be (map (\<lambda>ch. word_of_nat (of_char ch)) CLASS_HASH_PREFIX),
            hash_entry_points E (eps_external eps),
            hash_entry_points E (eps_l1_handler eps),
            hash_entry_points E (eps_constructor eps),
            starknet_keccak E (map (\<lambda>ch. word_of_nat (of_char ch)) (abi c)),
            poseidon_many E (sierra_program c)])"

definition entry_points_to_json :: "sierra_entry_point list \<Rightarrow> json" where
  "entry_points_to_json eps =
     JArr (map (\<lambda>e. JObj [(''selector'', JStr (felt_0x (ep_selector e))),
                          (''function_idx'', json_u64 (ep_function_idx e))]) eps)"

definition class_to_rpc_json :: "sierra_class \<Rightarrow> json" where
  "class_to_rpc_json c =
     JObj [(''sierra_program'', JArr (map (\<lambda>f. JStr (felt_0x f)) (sierra_program c))),
           (''contract_class_version'', JStr (contract_class_version c)),
           (''entry_points_by_type'', JObj
              [(''EXTERNAL'', entry_points_to_json (eps_external (entry_points_by_type c))),
               (''L1_HANDLER'', entry_points_to_json (eps_l1_handler (entry_points_by_type c))),
               (''CONSTRUCTOR'', entry_points_to_json (eps_constructor (entry_points_by_type c)))]),
           (''abi'', JStr (abi c))]"

section \<open>What is broadcast is what was hashed\<close>

text \<open>The parser of hexadecimal felts reads back what \<open>{:x}\<close> prints (\<open>starknet_types_core\<close>).\<close>

definition hex_roundtrip :: "ext \<Rightarrow> bool" where
  "hex_roundtrip E \<longleftrightarrow> (\<forall>f. felt_from_hex E (felt_0x f) = Some f)"

definition class_wf :: "sierra_class \<Rightarrow> bool" where
  "class_wf c \<longleftrightarrow> sierra_program c \<noteq> [] \<and> contract_class_version c = CONTRACT_CLASS_VERSION"

lemma felt_of_json_0x: "hex_roundtrip E \<Longrightarrow> felt_of_json E (JStr (felt_0x f)) = Some f"
  by (simp add: felt_of_json_def hex_roundtrip_def felt_0x_def)

lemma collectE_enumerate:
  "(\<And>i x. x \<in> set xs \<Longrightarrow> f (i, g x) = Ok x) \<Longrightarrow> collectE f (enumerate_from i (map g xs)) = Ok xs"
  by (induction xs arbitrary: i) simp_all

lemma entry_points_roundtrip:
  "hex_roundtrip E \<Longrightarrow> entry_points E (Some (entry_points_to_json eps)) name = Ok eps"
  unfolding entry_points_def entry_points_to_json_def
  by (auto intro!: collectE_enumerate simp: entry_point_of_json_def felt_of_json_0x json_u64_def)

lemma from_json_to_rpc_json:
  assumes "hex_roundtrip E" "class_wf c"
  shows "class_from_json E scalar (class_to_rpc_json c) = Ok c"
proof -
  have "program_of_json E (class_to_rpc_json c) = Ok (sierra_program c)"
    unfolding program_of_json_def class_to_rpc_json_def
    using assms(1) by (auto intro!: collectE_enumerate simp: felt_of_json_0x)
  moreover have "version_of_json scalar (class_to_rpc_json c) = Ok (contract_class_version c)"
    using assms(2) by (simp add: version_of_json_def class_to_rpc_json_def class_wf_def)
  moreover have "entry_points_of_json E (class_to_rpc_json c) = Ok (entry_points_by_type c)"
    using assms(1) by (simp add: entry_points_of_json_def class_to_rpc_json_def entry_points_roundtrip)
  moreover have "abi_of_json scalar (class_to_rpc_json c) = Ok (abi c)"
    by (simp add: abi_of_json_def class_to_rpc_json_def)
  ultimately show ?thesis
    using assms(2) by (simp add: class_from_json_def class_wf_def) (simp add: class_to_rpc_json_def)
qed

lemma class_from_json_wf: "class_from_json E scalar v = Ok c \<Longrightarrow> class_wf c"
  by (auto simp: class_from_json_def class_wf_def version_of_json_def result_simps
      split: option.splits json.splits if_splits)

end
