(* ===== verification/Rpc_Log.thy ===== *)
theory Rpc_Log
  imports Prelude
begin

text \<open>
  \<open>crates/wallet-rpc/src/log.rs\<close>: the request log. The SQLite table is the list of its rows in
  insertion order; an insert that fails (\<open>log_ok\<close> false) is ignored, as the source does.
\<close>

record log_entry =
  le_ts_unix_ms :: u64
  le_method :: string
  le_client :: "string option"
  le_network :: "string option"
  le_decision :: string
  le_outcome :: string
  le_error_code :: "int option"
  le_latency_ms :: u64
  le_params_json :: "string option"
  le_result_json :: "string option"

text \<open>A row: the two times are stored as \<open>i64\<close>.\<close>

type_synonym log_row = "int \<times> int \<times> log_entry"

record request_log =
  log_rows :: "log_row list"
  log_full_payloads :: bool
  log_ok :: bool

definition log_init :: "bool \<Rightarrow> bool \<Rightarrow> request_log" where
  "log_init full ok = \<lparr>log_rows = [], log_full_payloads = full, log_ok = ok\<rparr>"

definition set_full_payloads :: "bool \<Rightarrow> request_log \<Rightarrow> request_log" where
  "set_full_payloads on l = l\<lparr>log_full_payloads := on\<rparr>"

definition log_record :: "log_entry \<Rightarrow> request_log \<Rightarrow> request_log" where
  "log_record entry l =
     (let entry' = (if log_full_payloads l then entry
                    else entry\<lparr>le_params_json := None, le_result_json := None\<rparr>)
      in if log_ok l
         then l\<lparr>log_rows := log_rows l @ [(sint (le_ts_unix_ms entry'), sint (le_latency_ms entry'), entry')]\<rparr>
         else l)"

definition log_count :: "request_log \<Rightarrow> nat" where
  "log_count l = length (log_rows l)"

definition log_recent :: "nat \<Rightarrow> request_log \<Rightarrow> log_entry list" where
  "log_recent limit l =
     map (\<lambda>(ts, lat, e). e\<lparr>le_ts_unix_ms := word_of_int ts, le_latency_ms := word_of_int lat\<rparr>)
       (take limit (rev (log_rows l)))"

lemma log_recent_record:
  "log_ok l \<Longrightarrow> log_recent (Suc n) (log_record e l)
     = (if log_full_payloads l then e else e\<lparr>le_params_json := None, le_result_json := None\<rparr>) # log_recent n l"
  by (simp add: log_recent_def log_record_def Let_def)

text \<open>With \<open>full_payloads\<close> off nothing recorded carries a payload.\<close>

definition row_redacted :: "log_row \<Rightarrow> bool" where
  "row_redacted r \<longleftrightarrow> le_params_json (snd (snd r)) = None \<and> le_result_json (snd (snd r)) = None"

lemma log_record_redacts:
  "\<not> log_full_payloads l \<Longrightarrow> \<exists>new. log_rows (fold log_record es l) = log_rows l @ new \<and> (\<forall>r \<in> set new. row_redacted r)"
proof (induction es arbitrary: l)
  case (Cons e es)
  have off: "\<not> log_full_payloads (log_record e l)"
    using Cons.prems by (simp add: log_record_def Let_def)
  obtain new where new: "log_rows (fold log_record es (log_record e l)) = log_rows (log_record e l) @ new"
    "\<forall>r \<in> set new. row_redacted r"
    using Cons.IH [OF off] by blast
  obtain head where "log_rows (log_record e l) = log_rows l @ head" "\<forall>r \<in> set head. row_redacted r"
    using Cons.prems by (cases "log_ok l") (auto simp: log_record_def Let_def row_redacted_def)
  with new show ?case by (intro exI [of _ "head @ new"]) auto
qed simp

end
