(* ===== verification/Rpc_Node.thy ===== *)
theory Rpc_Node
  imports Core_ClassHash
begin

text \<open>
  \<open>crates/wallet-rpc/src/node.rs\<close>: the node client. \<open>starknet_rpc\<close> is the trait \<open>StarknetRpc\<close> and
  \<open>http_rpc\<close> its HTTP implementation over \<open>call\<close>, the JSON-RPC exchange with the node (transport,
  redirects and decoding of the envelope are the argument). \<open>read_invoke_tx\<close> reads a broadcast
  transaction back: what the wallet sends is what it hashed and signed.
\<close>

record fee_bounds =
  fb_l1_gas :: resource_bounds
  fb_l2_gas :: resource_bounds
  fb_l1_data_gas :: resource_bounds

datatype node_error = Transport string | NodeRpc string | Decode string

fun node_error_string :: "node_error \<Rightarrow> string" where
  "node_error_string (Transport m) = ''transport: '' @ m"
| "node_error_string (NodeRpc m) = ''rpc: '' @ m"
| "node_error_string (Decode m) = ''decode: '' @ m"

record starknet_rpc =
  get_nonce :: "felt \<Rightarrow> node_error + felt"
  estimate_invoke :: "felt \<Rightarrow> felt list \<Rightarrow> felt \<Rightarrow> node_error + fee_bounds"
  add_invoke :: "felt \<Rightarrow> felt list \<Rightarrow> felt list \<Rightarrow> felt \<Rightarrow> fee_bounds \<Rightarrow> felt list \<Rightarrow> string option
    \<Rightarrow> node_error + felt"
  estimate_invoke_with_proof :: "felt \<Rightarrow> felt list \<Rightarrow> felt \<Rightarrow> felt list \<Rightarrow> string \<Rightarrow> node_error + fee_bounds"
  raw_call :: "string \<Rightarrow> json \<Rightarrow> node_error + json"
  is_deployed :: "felt \<Rightarrow> node_error + bool"
  balance_of :: "felt \<Rightarrow> felt \<Rightarrow> node_error + u128"
  estimate_deploy_account :: "felt \<Rightarrow> felt \<Rightarrow> felt list \<Rightarrow> felt \<Rightarrow> node_error + fee_bounds"
  add_deploy_account :: "felt \<Rightarrow> felt list \<Rightarrow> felt \<Rightarrow> felt list \<Rightarrow> fee_bounds \<Rightarrow> node_error + felt"
  estimate_declare :: "felt \<Rightarrow> felt \<Rightarrow> json \<Rightarrow> felt \<Rightarrow> node_error + fee_bounds"
  add_declare :: "felt \<Rightarrow> felt \<Rightarrow> json \<Rightarrow> felt list \<Rightarrow> felt \<Rightarrow> fee_bounds \<Rightarrow> node_error + felt"

section \<open>Transactions on the wire\<close>

definition u128_to_hex :: "u128 \<Rightarrow> string" where
  "u128_to_hex v = ''0x'' @ nat_hex (unat v)"

definition fh :: "felt \<Rightarrow> string" where
  "fh f = felt_0x f"

definition felts_json :: "felt list \<Rightarrow> json" where
  "felts_json fs = JArr (map (\<lambda>f. JStr (fh f)) fs)"

definition resource_bounds_json :: "resource_bounds \<Rightarrow> json" where
  "resource_bounds_json b =
     JObj [(''max_amount'', JStr (u128_to_hex (ucast (max_amount b)))),
           (''max_price_per_unit'', JStr (u128_to_hex (max_price_per_unit b)))]"

definition fee_bounds_json :: "fee_bounds \<Rightarrow> json" where
  "fee_bounds_json b =
     JObj [(''l1_gas'', resource_bounds_json (fb_l1_gas b)),
           (''l2_gas'', resource_bounds_json (fb_l2_gas b)),
           (''l1_data_gas'', resource_bounds_json (fb_l1_data_gas b))]"

definition invoke_v3_tx_json ::
  "felt \<Rightarrow> felt list \<Rightarrow> felt list \<Rightarrow> felt \<Rightarrow> fee_bounds \<Rightarrow> felt list \<Rightarrow> string option \<Rightarrow> json" where
  "invoke_v3_tx_json sender calldata signature nonce bounds proof_facts proof =
     (let tx = [(''type'', JStr ''INVOKE''), (''version'', JStr ''0x3''),
                (''sender_address'', JStr (felt_0x64 sender)),
                (''calldata'', felts_json calldata), (''signature'', felts_json signature),
                (''nonce'', JStr (fh nonce)), (''resource_bounds'', fee_bounds_json bounds),
                (''tip'', JStr ''0x0''), (''paymaster_data'', JArr []),
                (''account_deployment_data'', JArr []),
                (''nonce_data_availability_mode'', JStr ''L1''),
                (''fee_data_availability_mode'', JStr ''L1'')]
      in JObj (if proof_facts = [] then tx
               else (let tx' = obj_insert ''proof_facts'' (felts_json proof_facts) tx
                     in case proof of None \<Rightarrow> tx' | Some p \<Rightarrow> obj_insert ''proof'' (JStr p) tx')))"

definition deploy_account_tx_json ::
  "felt \<Rightarrow> felt list \<Rightarrow> felt \<Rightarrow> felt list \<Rightarrow> fee_bounds \<Rightarrow> json" where
  "deploy_account_tx_json ch cd salt signature bounds =
     JObj [(''type'', JStr ''DEPLOY_ACCOUNT''), (''version'', JStr ''0x3''),
           (''class_hash'', JStr (fh ch)), (''contract_address_salt'', JStr (fh salt)),
           (''constructor_calldata'', felts_json cd),
           (''signature'', felts_json signature), (''nonce'', JStr ''0x0''),
           (''resource_bounds'', fee_bounds_json bounds), (''tip'', JStr ''0x0''),
           (''paymaster_data'', JArr []), (''nonce_data_availability_mode'', JStr ''L1''),
           (''fee_data_availability_mode'', JStr ''L1'')]"

definition declare_v3_tx_json ::
  "felt \<Rightarrow> felt \<Rightarrow> json option \<Rightarrow> felt list \<Rightarrow> felt \<Rightarrow> fee_bounds \<Rightarrow> json" where
  "declare_v3_tx_json sender compiled_class_hash contract_class signature nonce bounds =
     (let tx = [(''type'', JStr ''DECLARE''), (''version'', JStr ''0x3''),
                (''sender_address'', JStr (fh sender)),
                (''compiled_class_hash'', JStr (fh compiled_class_hash)),
                (''signature'', felts_json signature), (''nonce'', JStr (fh nonce)),
                (''resource_bounds'', fee_bounds_json bounds), (''tip'', JStr ''0x0''),
                (''paymaster_data'', JArr []), (''account_deployment_data'', JArr []),
                (''nonce_data_availability_mode'', JStr ''L1''),
                (''fee_data_availability_mode'', JStr ''L1'')]
      in JObj (case contract_class of None \<Rightarrow> tx | Some cc \<Rightarrow> obj_insert ''contract_class'' cc tx))"

section \<open>The HTTP client\<close>

definition BLOCK_TAG :: string where "BLOCK_TAG = ''latest''"
definition MARGIN_PCT :: u128 where "MARGIN_PCT = 150"

type_synonym node_call = "string \<Rightarrow> json \<Rightarrow> node_error + json"

text \<open>\<open>&v[key]\<close>: null when missing.\<close>

definition json_index :: "json \<Rightarrow> string \<Rightarrow> json" where
  "json_index v k = (case json_get v k of None \<Rightarrow> JNull | Some x \<Rightarrow> x)"

definition node_parse_felt :: "ext \<Rightarrow> json \<Rightarrow> string \<Rightarrow> node_error + felt" where
  "node_parse_felt E v what =
     bindE (ok_or (Decode (what @ '': expected hex string'')) (as_str v)) (\<lambda>s.
     ok_or (Decode (what @ '': bad felt '' @ s)) (felt_from_hex E s))"

definition node_parse_u128 :: "json \<Rightarrow> string \<Rightarrow> node_error + u128" where
  "node_parse_u128 v what =
     bindE (ok_or (Decode (what @ '': expected hex string'')) (as_str v)) (\<lambda>s.
     let h = (case strip_prefix ''0x'' s of None \<Rightarrow> s | Some r \<Rightarrow> r)
     in ok_or (Decode (what @ '': bad u128'')) (map_option word_of_nat (parse_radix 16 (2 ^ 128) h)))"

text \<open>\<open>v.saturating_mul(margin_pct) / 100\<close>\<close>

definition with_margin :: "u128 \<Rightarrow> u128" where
  "with_margin v =
     (let p = unat v * unat MARGIN_PCT
      in word_of_nat (min p (2 ^ 128 - 1) div 100))"

text \<open>\<open>as u64\<close> truncates.\<close>

definition bound_from_estimate :: "json \<Rightarrow> string \<Rightarrow> string \<Rightarrow> node_error + resource_bounds" where
  "bound_from_estimate est amount_key price_key =
     bindE (node_parse_u128 (json_index est amount_key) amount_key) (\<lambda>amount.
     bindE (node_parse_u128 (json_index est price_key) price_key) (\<lambda>price.
     Ok \<lparr>max_amount = ucast (with_margin amount), max_price_per_unit = with_margin price\<rparr>))"

definition bounds_from_estimate :: "json \<Rightarrow> node_error + fee_bounds" where
  "bounds_from_estimate est =
     bindE (bound_from_estimate est ''l1_gas_consumed'' ''l1_gas_price'') (\<lambda>l1.
     bindE (bound_from_estimate est ''l2_gas_consumed'' ''l2_gas_price'') (\<lambda>l2.
     bindE (bound_from_estimate est ''l1_data_gas_consumed'' ''l1_data_gas_price'') (\<lambda>l1d.
     Ok \<lparr>fb_l1_gas = l1, fb_l2_gas = l2, fb_l1_data_gas = l1d\<rparr>)))"

definition ZERO_BOUNDS :: fee_bounds where
  "ZERO_BOUNDS = \<lparr>fb_l1_gas = zero_bounds, fb_l2_gas = zero_bounds, fb_l1_data_gas = zero_bounds\<rparr>"

definition estimate_fee :: "node_call \<Rightarrow> json \<Rightarrow> node_error + fee_bounds" where
  "estimate_fee call tx =
     bindE (call ''starknet_estimateFee''
       (JObj [(''request'', JArr [tx]), (''simulation_flags'', JArr [JStr ''SKIP_VALIDATE'']),
              (''block_id'', JStr BLOCK_TAG)])) (\<lambda>r.
     bindE (ok_or (Decode ''empty estimate array'') (json_at r 0)) bounds_from_estimate)"

definition http_get_nonce :: "ext \<Rightarrow> node_call \<Rightarrow> felt \<Rightarrow> node_error + felt" where
  "http_get_nonce E call address =
     bindE (call ''starknet_getNonce'' (JArr [JStr BLOCK_TAG, JStr (fh address)])) (\<lambda>r.
     node_parse_felt E r ''nonce'')"

definition http_is_deployed :: "node_call \<Rightarrow> felt \<Rightarrow> node_error + bool" where
  "http_is_deployed call address =
     (case call ''starknet_getClassHashAt'' (JArr [JStr BLOCK_TAG, JStr (fh address)]) of
        Inr _ \<Rightarrow> Ok True
      | Inl (NodeRpc _) \<Rightarrow> Ok False
      | Inl e \<Rightarrow> Err e)"

definition http_balance_of :: "ext \<Rightarrow> node_call \<Rightarrow> felt \<Rightarrow> felt \<Rightarrow> node_error + u128" where
  "http_balance_of E call token holder =
     bindE (call ''starknet_call'' (JObj
       [(''request'', JObj
          [(''contract_address'', JStr (fh token)),
           (''entry_point_selector'', JStr (fh (get_selector_from_name E ''balanceOf''))),
           (''calldata'', JArr [JStr (fh holder)])]),
        (''block_id'', JStr BLOCK_TAG)])) (\<lambda>r.
     bindE (ok_or (Decode ''balanceOf: empty result'') (json_at r 0)) (\<lambda>low.
     let high_nonzero = (case Option.bind (Option.bind (json_at r 1) as_str) (felt_from_hex E) of
           None \<Rightarrow> False | Some f \<Rightarrow> f \<noteq> 0)
     in if high_nonzero then Ok (- 1) else node_parse_u128 low ''balance''))"

definition http_rpc :: "ext \<Rightarrow> node_call \<Rightarrow> starknet_rpc" where
  "http_rpc E call =
     \<lparr>get_nonce = http_get_nonce E call,
      estimate_invoke = (\<lambda>sender calldata nonce.
        estimate_fee call (invoke_v3_tx_json sender calldata [] nonce ZERO_BOUNDS [] None)),
      add_invoke = (\<lambda>sender calldata signature nonce bounds facts proof.
        bindE (call ''starknet_addInvokeTransaction'' (JObj [(''invoke_transaction'',
          invoke_v3_tx_json sender calldata signature nonce bounds facts proof)])) (\<lambda>r.
        node_parse_felt E (json_index r ''transaction_hash'') ''transaction_hash'')),
      estimate_invoke_with_proof = (\<lambda>sender calldata nonce facts proof.
        estimate_fee call (invoke_v3_tx_json sender calldata [] nonce ZERO_BOUNDS facts (Some proof))),
      raw_call = call,
      is_deployed = http_is_deployed call,
      balance_of = http_balance_of E call,
      estimate_deploy_account = (\<lambda>_ ch cd salt.
        estimate_fee call (deploy_account_tx_json ch cd salt [] ZERO_BOUNDS)),
      add_deploy_account = (\<lambda>ch cd salt signature bounds.
        bindE (call ''starknet_addDeployAccountTransaction'' (JObj [(''deploy_account_transaction'',
          deploy_account_tx_json ch cd salt signature bounds)])) (\<lambda>r.
        node_parse_felt E (json_index r ''transaction_hash'') ''transaction_hash'')),
      estimate_declare = (\<lambda>sender cch cc nonce.
        estimate_fee call (declare_v3_tx_json sender cch (Some cc) [] nonce ZERO_BOUNDS)),
      add_declare = (\<lambda>sender cch cc signature nonce bounds.
        bindE (call ''starknet_addDeclareTransaction'' (JObj [(''declare_transaction'',
          declare_v3_tx_json sender cch (Some cc) signature nonce bounds)])) (\<lambda>r.
        node_parse_felt E (json_index r ''transaction_hash'') ''transaction_hash''))\<rparr>"

section \<open>Reading a transaction back\<close>

text \<open>The documented behaviour of \<open>Felt::from_hex\<close> the wallet relies on: leading zeros do not matter.\<close>

definition hex_reader :: "ext \<Rightarrow> bool" where
  "hex_reader E \<longleftrightarrow> (\<forall>f w. felt_from_hex E (''0x'' @ pad_zeros w (felt_lower_hex f)) = Some f)"

lemma hex_reader_0x: "hex_reader E \<Longrightarrow> felt_from_hex E (felt_0x f) = Some f"
  unfolding hex_reader_def felt_0x_def by (drule spec [of _ f], drule spec [of _ 0]) (simp add: pad_zeros_def)

lemma hex_reader_0x64: "hex_reader E \<Longrightarrow> felt_from_hex E (felt_0x64 f) = Some f"
  unfolding hex_reader_def felt_0x64_def by blast

lemma hex_reader_roundtrip: "hex_reader E \<Longrightarrow> hex_roundtrip E"
  by (simp add: hex_roundtrip_def hex_reader_0x)

definition read_felt :: "ext \<Rightarrow> json \<Rightarrow> string \<Rightarrow> felt option" where
  "read_felt E v k = Option.bind (get_str v k) (felt_from_hex E)"

definition read_felts :: "ext \<Rightarrow> json \<Rightarrow> string \<Rightarrow> felt list option" where
  "read_felts E v k = Option.bind (get_array v k) (\<lambda>xs.
     those (map (\<lambda>x. Option.bind (as_str x) (felt_from_hex E)) xs))"

definition read_bounds :: "json \<Rightarrow> resource_bounds option" where
  "read_bounds v =
     (case (node_parse_u128 (json_index v ''max_amount'') [], node_parse_u128 (json_index v ''max_price_per_unit'') []) of
        (Inr a, Inr p) \<Rightarrow> Some \<lparr>max_amount = ucast a, max_price_per_unit = p\<rparr>
      | _ \<Rightarrow> None)"

definition read_fee_bounds :: "json \<Rightarrow> fee_bounds option" where
  "read_fee_bounds v =
     Option.bind (read_bounds (json_index v ''l1_gas'')) (\<lambda>a.
     Option.bind (read_bounds (json_index v ''l2_gas'')) (\<lambda>b.
     Option.bind (read_bounds (json_index v ''l1_data_gas'')) (\<lambda>c.
     Some \<lparr>fb_l1_gas = a, fb_l2_gas = b, fb_l1_data_gas = c\<rparr>)))"

text \<open>The data availability modes of the wire.\<close>

fun read_da :: "json option \<Rightarrow> da_mode option" where
  "read_da (Some (JStr s)) = (if s = ''L1'' then Some DA_L1 else if s = ''L2'' then Some DA_L2 else None)"
| "read_da _ = None"

text \<open>An invoke transaction of version 3 as the node's specification has it, every field of the hash and the proof.\<close>

record wire_invoke =
  wi_sender :: felt
  wi_calldata :: "felt list"
  wi_signature :: "felt list"
  wi_nonce :: felt
  wi_bounds :: fee_bounds
  wi_tip :: felt
  wi_paymaster_data :: "felt list"
  wi_account_deployment_data :: "felt list"
  wi_nonce_da :: da_mode
  wi_fee_da :: da_mode
  wi_proof_facts :: "felt list"
  wi_proof :: "string option"

definition read_invoke_tx :: "ext \<Rightarrow> json \<Rightarrow> wire_invoke option" where
  "read_invoke_tx E tx =
     (if get_str tx ''type'' \<noteq> Some ''INVOKE'' \<or> get_str tx ''version'' \<noteq> Some ''0x3'' then None
      else
     Option.bind (read_felt E tx ''sender_address'') (\<lambda>sender.
     Option.bind (read_felts E tx ''calldata'') (\<lambda>cd.
     Option.bind (read_felts E tx ''signature'') (\<lambda>sg.
     Option.bind (read_felt E tx ''nonce'') (\<lambda>nonce.
     Option.bind (read_fee_bounds (json_index tx ''resource_bounds'')) (\<lambda>b.
     Option.bind (read_felt E tx ''tip'') (\<lambda>tip.
     Option.bind (read_felts E tx ''paymaster_data'') (\<lambda>pm.
     Option.bind (read_felts E tx ''account_deployment_data'') (\<lambda>ad.
     Option.bind (read_da (json_get tx ''nonce_data_availability_mode'')) (\<lambda>nda.
     Option.bind (read_da (json_get tx ''fee_data_availability_mode'')) (\<lambda>fda.
     Some \<lparr>wi_sender = sender, wi_calldata = cd, wi_signature = sg, wi_nonce = nonce, wi_bounds = b,
           wi_tip = tip, wi_paymaster_data = pm, wi_account_deployment_data = ad, wi_nonce_da = nda, wi_fee_da = fda,
           wi_proof_facts = (case read_felts E tx ''proof_facts'' of None \<Rightarrow> [] | Some fs \<Rightarrow> fs),
           wi_proof = get_str tx ''proof''\<rparr>)))))))))))"

lemma parse_u128_hex: "node_parse_u128 (JStr (u128_to_hex v)) what = Ok v"
proof -
  have "unat v < 2 ^ 128" using unat_less_exp [of v] by simp
  then have "parse_radix 16 (2 ^ 128) (nat_hex (unat v)) = Some (unat v)"
    unfolding nat_hex_def by (intro parse_radix_digits) simp_all
  moreover have "strip_prefix ''0x'' (u128_to_hex v) = Some (nat_hex (unat v))"
    by (simp add: u128_to_hex_def)
  ultimately show ?thesis by (simp add: node_parse_u128_def)
qed

lemma ucast_u64_u128 [simp]: "(ucast (ucast (w :: u64) :: u128) :: u64) = w"
proof -
  have "take_bit 128 w = w" by (rule take_bit_word_eq_self) simp
  moreover have "take_bit 64 w = w" by (rule take_bit_word_eq_self) simp
  ultimately have "unat (ucast (ucast w :: u128) :: u64) = unat w" by (simp add: unsigned_ucast_eq)
  then show ?thesis by (simp only: word_unat_eq_iff)
qed

lemma read_bounds_json: "read_bounds (resource_bounds_json b) = Some b"
  by (simp add: read_bounds_def resource_bounds_json_def json_index_def parse_u128_hex)

lemma read_fee_bounds_json: "read_fee_bounds (fee_bounds_json b) = Some b"
  by (simp add: read_fee_bounds_def fee_bounds_json_def json_index_def read_bounds_json)

lemma those_map_Some: "(\<And>x. x \<in> set xs \<Longrightarrow> f (g x) = Some x) \<Longrightarrow> those (map f (map g xs)) = Some xs"
  by (induction xs) auto

lemma read_felts_json:
  "hex_reader E \<Longrightarrow> json_get tx k = Some (felts_json fs) \<Longrightarrow> read_felts E tx k = Some fs"
  using those_map_Some [of fs "\<lambda>x. Option.bind (as_str x) (felt_from_hex E)" "\<lambda>f. JStr (fh f)"]
  by (simp add: read_felts_def get_array_def felts_json_def fh_def hex_reader_0x)

lemma invoke_tx_fields:
  "json_get (invoke_v3_tx_json s cd sg n b pf pr) ''type'' = Some (JStr ''INVOKE'')"
  "json_get (invoke_v3_tx_json s cd sg n b pf pr) ''version'' = Some (JStr ''0x3'')"
  "json_get (invoke_v3_tx_json s cd sg n b pf pr) ''tip'' = Some (JStr ''0x0'')"
  "json_get (invoke_v3_tx_json s cd sg n b pf pr) ''paymaster_data'' = Some (JArr [])"
  "json_get (invoke_v3_tx_json s cd sg n b pf pr) ''account_deployment_data'' = Some (JArr [])"
  "json_get (invoke_v3_tx_json s cd sg n b pf pr) ''nonce_data_availability_mode'' = Some (JStr ''L1'')"
  "json_get (invoke_v3_tx_json s cd sg n b pf pr) ''fee_data_availability_mode'' = Some (JStr ''L1'')"
  "json_get (invoke_v3_tx_json s cd sg n b pf pr) ''sender_address'' = Some (JStr (felt_0x64 s))"
  "json_get (invoke_v3_tx_json s cd sg n b pf pr) ''calldata'' = Some (felts_json cd)"
  "json_get (invoke_v3_tx_json s cd sg n b pf pr) ''signature'' = Some (felts_json sg)"
  "json_get (invoke_v3_tx_json s cd sg n b pf pr) ''nonce'' = Some (JStr (fh n))"
  "json_get (invoke_v3_tx_json s cd sg n b pf pr) ''resource_bounds'' = Some (fee_bounds_json b)"
  "json_get (invoke_v3_tx_json s cd sg n b pf pr) ''proof_facts'' = (if pf = [] then None else Some (felts_json pf))"
  "json_get (invoke_v3_tx_json s cd sg n b pf pr) ''proof''
     = (if pf = [] then None else map_option JStr pr)"
  unfolding invoke_v3_tx_json_def Let_def by (cases pr; simp)+

lemma felt_0x_zero: "felt_0x 0 = ''0x0''"
  by code_simp

lemma read_invoke_tx_json:
  assumes "hex_reader E"
  shows "read_invoke_tx E (invoke_v3_tx_json s cd sg n b pf pr)
    = Some \<lparr>wi_sender = s, wi_calldata = cd, wi_signature = sg, wi_nonce = n, wi_bounds = b,
        wi_tip = 0, wi_paymaster_data = [], wi_account_deployment_data = [], wi_nonce_da = DA_L1, wi_fee_da = DA_L1,
        wi_proof_facts = pf, wi_proof = (if pf = [] then None else pr)\<rparr>"
proof -
  let ?tx = "invoke_v3_tx_json s cd sg n b pf pr"
  have "read_felt E ?tx ''sender_address'' = Some s" "read_felt E ?tx ''nonce'' = Some n"
    using assms by (simp_all add: read_felt_def get_str_def invoke_tx_fields hex_reader_0x64 hex_reader_0x fh_def)
  moreover have "read_felts E ?tx ''calldata'' = Some cd" "read_felts E ?tx ''signature'' = Some sg"
    using assms invoke_tx_fields by (simp_all add: read_felts_json)
  moreover have "read_felts E ?tx ''paymaster_data'' = Some []" "read_felts E ?tx ''account_deployment_data'' = Some []"
    by (simp_all add: read_felts_def get_array_def invoke_tx_fields)
  moreover have "read_felt E ?tx ''tip'' = Some 0"
    using assms hex_reader_0x [of E 0] by (simp add: read_felt_def get_str_def invoke_tx_fields felt_0x_zero)
  moreover have "get_str ?tx ''proof'' = (if pf = [] then None else pr)"
    by (cases pr) (simp_all add: get_str_def invoke_tx_fields)
  moreover have "read_fee_bounds (json_index ?tx ''resource_bounds'') = Some b"
    by (simp add: json_index_def invoke_tx_fields read_fee_bounds_json)
  moreover have "(case read_felts E ?tx ''proof_facts'' of None \<Rightarrow> [] | Some fs \<Rightarrow> fs) = pf"
  proof (cases "pf = []")
    case True
    then show ?thesis by (simp add: read_felts_def get_array_def invoke_tx_fields)
  next
    case False
    then show ?thesis using assms read_felts_json [of E ?tx "''proof_facts''" pf] by (simp add: invoke_tx_fields)
  qed
  ultimately show ?thesis by (simp add: read_invoke_tx_def get_str_def invoke_tx_fields)
qed

text \<open>The margin never lowers a value below the estimate while it fits, and never wraps.\<close>

lemma with_margin_ge:
  assumes "unat v * 150 < 2 ^ 128" shows "unat (with_margin v) = unat v * 150 div 100"
proof -
  have "unat v * 150 div 100 < 2 ^ 128" using assms by simp
  then have "take_bit 128 (unat v * 150 div 100) = unat v * 150 div 100" by (rule take_bit_nat_eq_self)
  moreover have "min (unat v * 150) (2 ^ 128 - 1) = unat v * 150" using assms by simp
  ultimately show ?thesis by (simp add: with_margin_def MARGIN_PCT_def unsigned_of_nat)
qed

end
