(* ===== verification/Core_Vault.thy ===== *)
theory Core_Vault
  imports Core_Ext
begin

text \<open>
  \<open>crates/wallet-core/src/vault.rs\<close>: sealing and opening the encrypted vault. Argon2id and
  AES-256-GCM are the functions of \<open>ext\<close>; the bytes drawn from the OS are arguments, \<open>None\<close>
  where the draw failed. \<open>aead_correct\<close> is the documented behaviour of the AEAD: decryption
  inverts encryption, and a message that decrypts was encrypted under that key and nonce.
\<close>

definition VAULT_VERSION :: u8 where "VAULT_VERSION = 2"
definition SALT_LEN :: nat where "SALT_LEN = 16"
definition NONCE_LEN :: nat where "NONCE_LEN = 12"
definition KEY_LEN :: nat where "KEY_LEN = 32"
definition ARGON2_M_COST :: u32 where "ARGON2_M_COST = 64 * 1024"
definition ARGON2_T_COST :: u32 where "ARGON2_T_COST = 3"
definition ARGON2_P_COST :: u32 where "ARGON2_P_COST = 1"

record kdf_params =
  m_cost :: u32
  t_cost :: u32
  p_cost :: u32
  kdf_salt :: bytes

record encrypted_vault =
  vault_version :: u8
  vault_kdf :: kdf_params
  vault_nonce :: bytes
  vault_ciphertext :: bytes

definition random_bytes :: "bytes option \<Rightarrow> core_error + bytes" where
  "random_bytes draw = ok_or Crypto draw"

definition derive_key :: "ext \<Rightarrow> string \<Rightarrow> kdf_params \<Rightarrow> core_error + bytes" where
  "derive_key E passphrase params =
     ok_or Kdf (argon2id E (m_cost params) (t_cost params) (p_cost params) KEY_LEN passphrase (kdf_salt params))"

definition seal ::
  "ext \<Rightarrow> bytes option \<Rightarrow> bytes option \<Rightarrow> string \<Rightarrow> bytes \<Rightarrow> core_error + encrypted_vault" where
  "seal E salt_draw nonce_draw passphrase plaintext =
     bindE (random_bytes salt_draw) (\<lambda>salt.
     let kdf = \<lparr>m_cost = ARGON2_M_COST, t_cost = ARGON2_T_COST, p_cost = ARGON2_P_COST, kdf_salt = salt\<rparr>
     in bindE (derive_key E passphrase kdf) (\<lambda>key.
        bindE (random_bytes nonce_draw) (\<lambda>nonce.
        bindE (ok_or Crypto (aes_encrypt E key nonce plaintext)) (\<lambda>ciphertext.
        Ok \<lparr>vault_version = VAULT_VERSION, vault_kdf = kdf, vault_nonce = nonce,
            vault_ciphertext = ciphertext\<rparr>))))"

definition open_vault :: "ext \<Rightarrow> encrypted_vault \<Rightarrow> string \<Rightarrow> core_error + bytes" where
  "open_vault E v passphrase =
     (if vault_version v \<noteq> VAULT_VERSION then Err (UnsupportedVaultVersion (vault_version v))
      else if length (vault_nonce v) \<noteq> NONCE_LEN then Err BadPassphraseOrCorrupt
      else
        bindE (derive_key E passphrase (vault_kdf v)) (\<lambda>key.
        ok_or BadPassphraseOrCorrupt (aes_decrypt E key (vault_nonce v) (vault_ciphertext v))))"

definition is_supported_version :: "encrypted_vault \<Rightarrow> bool" where
  "is_supported_version v \<longleftrightarrow> vault_version v = VAULT_VERSION"

definition aead_correct :: "ext \<Rightarrow> bool" where
  "aead_correct E \<longleftrightarrow>
     (\<forall>key nonce m c. aes_encrypt E key nonce m = Some c \<longleftrightarrow> aes_decrypt E key nonce c = Some m)"

lemma open_seal:
  assumes aead: "aead_correct E"
    and seal: "seal E salt_draw nonce_draw pw plaintext = Ok v"
    and nonce: "\<And>n. nonce_draw = Some n \<Longrightarrow> length n = NONCE_LEN"
  shows "open_vault E v pw = Ok plaintext"
  using seal nonce aead
  by (auto simp: seal_def open_vault_def random_bytes_def result_simps Let_def aead_correct_def)

lemma open_vault_Ok:
  assumes "aead_correct E"
  shows "open_vault E v pw = Ok m \<longleftrightarrow>
    is_supported_version v \<and> length (vault_nonce v) = NONCE_LEN
    \<and> (\<exists>key. derive_key E pw (vault_kdf v) = Ok key
         \<and> aes_encrypt E key (vault_nonce v) m = Some (vault_ciphertext v))"
  using assms by (auto simp: open_vault_def is_supported_version_def result_simps aead_correct_def)

lemma open_vault_unsupported:
  "\<not> is_supported_version v \<longleftrightarrow> open_vault E v pw = Err (UnsupportedVaultVersion (vault_version v))"
  by (auto simp: open_vault_def is_supported_version_def derive_key_def result_simps)

end
