(* ===== verification/Rpc_Error.thy ===== *)
theory Rpc_Error
  imports Core_Ext Json
begin

text \<open>
  \<open>crates/wallet-rpc/src/error.rs\<close> and \<open>jsonrpc.rs\<close>: the errors of the wallet API with their wire codes
  and messages, and the JSON-RPC request and response.
\<close>

datatype wallet_rpc_error =
    UserRefused
  | InvalidRequest string
  | DeploymentDataNotAvailable
  | ChainIdNotSupported
  | NotRegistered
  | Strk20NotRegistered string
  | InsufficientPrivateBalance string
  | PrivacyLeak string
  | ApiVersionNotSupported
  | Unknown string
  | Locked
  | Forbidden
  | TransportRejected string
  | Node string
  | NoNode
  | Precondition string
  | NotImplemented string
  | Parse

fun error_code :: "wallet_rpc_error \<Rightarrow> int" where
  "error_code UserRefused = 113"
| "error_code (InvalidRequest _) = 114"
| "error_code DeploymentDataNotAvailable = 116"
| "error_code ChainIdNotSupported = 117"
| "error_code NotRegistered = 118"
| "error_code (Strk20NotRegistered _) = 118"
| "error_code (InsufficientPrivateBalance _) = 119"
| "error_code (PrivacyLeak _) = 120"
| "error_code ApiVersionNotSupported = 162"
| "error_code (Unknown _) = 163"
| "error_code Locked = -32001"
| "error_code Forbidden = -32002"
| "error_code (TransportRejected _) = -32003"
| "error_code (Node _) = -32004"
| "error_code NoNode = -32005"
| "error_code (Precondition _) = -32006"
| "error_code (NotImplemented _) = -32601"
| "error_code Parse = -32700"

fun error_message :: "wallet_rpc_error \<Rightarrow> string" where
  "error_message UserRefused = ''user refused the operation''"
| "error_message (InvalidRequest m) = ''invalid request payload: '' @ m"
| "error_message DeploymentDataNotAvailable = ''deployment data not available''"
| "error_message ChainIdNotSupported = ''chain id not supported''"
| "error_message NotRegistered = ''caller is not a registered client''"
| "error_message (Strk20NotRegistered a) =
     a @ '' has not registered a viewing key with the STRK20 pool (call companion_strk20Register)''"
| "error_message (InsufficientPrivateBalance m) = ''insufficient private balance: '' @ m"
| "error_message (PrivacyLeak m) = ''privacy leak: '' @ m"
| "error_message ApiVersionNotSupported = ''api version not supported''"
| "error_message (Unknown m) = ''unknown error: '' @ m"
| "error_message Locked = ''wallet is locked''"
| "error_message Forbidden = ''operation not permitted for this caller''"
| "error_message (TransportRejected m) = ''request rejected: '' @ m"
| "error_message (Node m) = ''node error: '' @ m"
| "error_message NoNode =
     ''no Starknet node configured: supply nonce + resource_bounds, or set an RPC URL''"
| "error_message (Precondition m) = m"
| "error_message (NotImplemented m) = ''not implemented: '' @ m"
| "error_message Parse = ''parse error: body is not valid JSON''"

record rpc_error_object =
  err_code :: int
  err_message :: string

definition error_object :: "wallet_rpc_error \<Rightarrow> rpc_error_object" where
  "error_object e = \<lparr>err_code = error_code e, err_message = error_message e\<rparr>"

fun domain_debug :: "domain \<Rightarrow> string" where
  "domain_debug User = ''User''"
| "domain_debug Agent = ''Agent''"

fun rpc_error_of_core :: "core_error \<Rightarrow> wallet_rpc_error" where
  "rpc_error_of_core CoreLocked = Locked"
| "rpc_error_of_core BadPassphraseOrCorrupt = InvalidRequest ''incorrect passphrase or corrupt vault''"
| "rpc_error_of_core (InvalidContractClass m) = InvalidRequest (''contract_class: '' @ m)"
| "rpc_error_of_core (IndexOutOfRange d n) =
     InvalidRequest (''account index '' @ u32_dec n @ '' is out of range for the '' @ domain_debug d @ '' branch'')"
| "rpc_error_of_core _ = Unknown ''core operation failed''"

section \<open>JSON-RPC\<close>

record request =
  req_jsonrpc :: "string option"
  req_method :: string
  req_params :: json
  req_id :: json

record response =
  resp_jsonrpc :: string
  resp_result :: "json option"
  resp_error :: "rpc_error_object option"
  resp_id :: json

definition response_ok :: "json \<Rightarrow> json \<Rightarrow> response" where
  "response_ok rid result =
     \<lparr>resp_jsonrpc = ''2.0'', resp_result = Some result, resp_error = None, resp_id = rid\<rparr>"

definition response_err :: "json \<Rightarrow> rpc_error_object \<Rightarrow> response" where
  "response_err rid error =
     \<lparr>resp_jsonrpc = ''2.0'', resp_result = None, resp_error = Some error, resp_id = rid\<rparr>"

end
