(* ===== verification/Session.thy ===== *)
theory Session
  imports Core_Vault Core_Tx Rpc_Error
begin

text \<open>
  \<open>crates/wallet-rpc/src/session.rs\<close>: the wallet session, locked or unlocked, and the operations on
  it. The JSON form of the vault's contents (\<open>serde_json\<close>) is the pair of functions of
  \<open>vault_codec\<close>. The invariant is \<open>session_wf\<close>: the registry of an unlocked session is well
  formed; the operations that create accounts keep it.
\<close>

record vault_contents =
  vc_mnemonic :: string
  vc_registry :: registry

record vault_codec =
  to_bytes :: "vault_contents \<Rightarrow> bytes"
  of_bytes :: "bytes \<Rightarrow> vault_contents option"

record unlocked =
  u_mnemonic :: string
  u_vault_passphrase :: string
  u_registry :: registry

record wallet_session =
  s_chain :: chain
  s_unlocked :: "unlocked option"

definition reveal_mnemonic ::
  "ext \<Rightarrow> vault_codec \<Rightarrow> encrypted_vault \<Rightarrow> string \<Rightarrow> wallet_rpc_error + string" where
  "reveal_mnemonic E J vault passphrase =
     bindE (map_err (\<lambda>_. InvalidRequest ''wrong passphrase (or the vault file is damaged)'')
       (open_vault E vault passphrase)) (\<lambda>plaintext.
     bindE (ok_or (Unknown ''vault contents are unreadable'') (of_bytes J plaintext)) (\<lambda>contents.
     Ok (vc_mnemonic contents)))"

definition new_locked :: "chain \<Rightarrow> wallet_session" where
  "new_locked c = \<lparr>s_chain = c, s_unlocked = None\<rparr>"

definition new_unlocked :: "chain \<Rightarrow> string \<Rightarrow> string \<Rightarrow> registry \<Rightarrow> wallet_session" where
  "new_unlocked c mnemonic vault_passphrase reg =
     \<lparr>s_chain = c, s_unlocked = Some \<lparr>u_mnemonic = mnemonic,
        u_vault_passphrase = vault_passphrase, u_registry = reg\<rparr>\<rparr>"

definition is_locked :: "wallet_session \<Rightarrow> bool" where
  "is_locked s \<longleftrightarrow> s_unlocked s = None"

definition reveal_for_session ::
  "ext \<Rightarrow> vault_codec \<Rightarrow> wallet_session \<Rightarrow> encrypted_vault \<Rightarrow> string \<Rightarrow> wallet_rpc_error + string" where
  "reveal_for_session E J s vault passphrase =
     (if is_locked s then Err Locked else reveal_mnemonic E J vault passphrase)"

text \<open>The \<open>&mut self\<close> operations return their result with the session after the call.\<close>

definition unlock ::
  "ext \<Rightarrow> vault_codec \<Rightarrow> wallet_session \<Rightarrow> encrypted_vault \<Rightarrow> string
     \<Rightarrow> (core_error + unit) \<times> wallet_session" where
  "unlock E J s vault vault_passphrase =
     (case bindE (open_vault E vault vault_passphrase) (\<lambda>plaintext.
             ok_or Serialization (of_bytes J plaintext)) of
        Inl e \<Rightarrow> (Err e, s)
      | Inr contents \<Rightarrow>
          (Ok (), s\<lparr>s_unlocked := Some \<lparr>u_mnemonic = vc_mnemonic contents,
             u_vault_passphrase = vault_passphrase, u_registry = vc_registry contents\<rparr>\<rparr>))"

definition lock :: "wallet_session \<Rightarrow> wallet_session" where
  "lock s = s\<lparr>s_unlocked := None\<rparr>"

definition set_chain :: "wallet_session \<Rightarrow> chain \<Rightarrow> wallet_session" where
  "set_chain s c = s\<lparr>s_chain := c\<rparr>"

definition require_unlocked :: "wallet_session \<Rightarrow> wallet_rpc_error + unlocked" where
  "require_unlocked s = ok_or Locked (s_unlocked s)"

definition session_registry :: "wallet_session \<Rightarrow> wallet_rpc_error + registry" where
  "session_registry s = ok_or Locked (map_option u_registry (s_unlocked s))"

definition reseal ::
  "ext \<Rightarrow> vault_codec \<Rightarrow> bytes option \<Rightarrow> bytes option \<Rightarrow> wallet_session
     \<Rightarrow> wallet_rpc_error + encrypted_vault" where
  "reseal E J salt_draw nonce_draw s =
     bindE (require_unlocked s) (\<lambda>u.
     let contents = \<lparr>vc_mnemonic = u_mnemonic u, vc_registry = u_registry u\<rparr>
     in map_err rpc_error_of_core
          (seal E salt_draw nonce_draw (u_vault_passphrase u) (to_bytes J contents)))"

definition rollback_account :: "wallet_session \<Rightarrow> string \<Rightarrow> wallet_session" where
  "rollback_account s address =
     (case s_unlocked s of
        None \<Rightarrow> s
      | Some u \<Rightarrow> s\<lparr>s_unlocked := Some (u\<lparr>u_registry := fst (remove_by_address (u_registry u) address)\<rparr>)\<rparr>)"

definition deployment_data_for ::
  "ext \<Rightarrow> wallet_session \<Rightarrow> account_ref \<Rightarrow> wallet_rpc_error + deployment_data" where
  "deployment_data_for E s account =
     bindE (require_unlocked s) (\<lambda>u.
     map_err rpc_error_of_core
       (account_deployment_data E (u_mnemonic u) (acc_domain account) (acc_index account) None
          (s_chain s) (acc_contract account)))"

definition stored_address :: "ext \<Rightarrow> account_ref \<Rightarrow> wallet_rpc_error + felt" where
  "stored_address E account = ok_or (Unknown ''bad stored address'') (felt_from_hex E (acc_address account))"

definition sign_typed_data_for ::
  "ext \<Rightarrow> wallet_session \<Rightarrow> account_ref \<Rightarrow> string \<Rightarrow> wallet_rpc_error + stark_signature" where
  "sign_typed_data_for E s account typed_data_json =
     bindE (require_unlocked s) (\<lambda>u.
     bindE (stored_address E account) (\<lambda>address.
     map_err rpc_error_of_core
       (sign_typed_data E (u_mnemonic u) (acc_domain account) (acc_index account) None
          typed_data_json address)))"

definition strk20_viewing_key_for ::
  "ext \<Rightarrow> wallet_session \<Rightarrow> account_ref \<Rightarrow> chain \<Rightarrow> felt \<Rightarrow> wallet_rpc_error + felt" where
  "strk20_viewing_key_for E s account chain pool =
     bindE (require_unlocked s) (\<lambda>u.
     map_err rpc_error_of_core
       (strk20_viewing_key E (u_mnemonic u) (acc_domain account) (acc_index account) None
          (chain_as_felt E chain) pool))"

definition sign_hash_for ::
  "ext \<Rightarrow> wallet_session \<Rightarrow> account_ref \<Rightarrow> felt \<Rightarrow> wallet_rpc_error + felt list" where
  "sign_hash_for E s account hash =
     bindE (require_unlocked s) (\<lambda>u.
     bindE (map_err rpc_error_of_core
       (sign_hash E (u_mnemonic u) (acc_domain account) (acc_index account) None hash)) (\<lambda>sig.
     Ok (serialize_signature (acc_contract account) sig)))"

definition sign_invoke_for ::
  "ext \<Rightarrow> wallet_session \<Rightarrow> account_ref \<Rightarrow> call list \<Rightarrow> chain \<Rightarrow> invoke_v3_params
     \<Rightarrow> wallet_rpc_error + signed_invoke" where
  "sign_invoke_for E s account calls chain params =
     bindE (require_unlocked s) (\<lambda>u.
     bindE (stored_address E account) (\<lambda>sender.
     map_err rpc_error_of_core
       (sign_invoke_v3 E (u_mnemonic u) (acc_domain account) (acc_index account) None
          sender calls chain params (acc_contract account))))"

definition sign_declare_for ::
  "ext \<Rightarrow> wallet_session \<Rightarrow> account_ref \<Rightarrow> felt \<Rightarrow> felt \<Rightarrow> chain \<Rightarrow> invoke_v3_params
     \<Rightarrow> wallet_rpc_error + signed_declare" where
  "sign_declare_for E s account class_hash compiled_class_hash chain params =
     bindE (require_unlocked s) (\<lambda>u.
     bindE (stored_address E account) (\<lambda>sender.
     map_err rpc_error_of_core
       (sign_declare_v3 E (u_mnemonic u) (acc_domain account) (acc_index account) None
          sender class_hash compiled_class_hash chain params (acc_contract account))))"

definition sign_deploy_account_for ::
  "ext \<Rightarrow> wallet_session \<Rightarrow> account_ref \<Rightarrow> chain \<Rightarrow> invoke_v3_params
     \<Rightarrow> wallet_rpc_error + signed_deploy_account" where
  "sign_deploy_account_for E s account chain params =
     bindE (require_unlocked s) (\<lambda>u.
     map_err rpc_error_of_core
       (sign_deploy_account_v3 E (u_mnemonic u) (acc_domain account) (acc_index account) None
          chain params (acc_contract account)))"

definition create_account ::
  "ext \<Rightarrow> wallet_session \<Rightarrow> domain \<Rightarrow> string \<Rightarrow> string option
     \<Rightarrow> (wallet_rpc_error + account_ref) \<times> wallet_session" where
  "create_account E s d label owner =
     (case s_unlocked s of
        None \<Rightarrow> (Err Locked, s)
      | Some u \<Rightarrow>
          (let index = next_index (u_registry u) d;
               contract = OpenZeppelin
           in case account_address E (u_mnemonic u) d index None (s_chain s) contract of
                Inl e \<Rightarrow> (Err (rpc_error_of_core e), s)
              | Inr addr \<Rightarrow>
                  (let account = \<lparr>acc_domain = d, acc_index = index, acc_address = address_hex addr,
                         acc_label = label, acc_contract = contract, acc_owner = owner\<rparr>
                   in (Ok account,
                       s\<lparr>s_unlocked := Some (u\<lparr>u_registry := registry_add (u_registry u) account\<rparr>)\<rparr>))))"

definition create_agent_account ::
  "ext \<Rightarrow> wallet_session \<Rightarrow> string \<Rightarrow> string \<Rightarrow> (wallet_rpc_error + account_ref) \<times> wallet_session" where
  "create_agent_account E s client_id label = create_account E s Agent label (Some client_id)"

definition create_user_account ::
  "ext \<Rightarrow> wallet_session \<Rightarrow> string \<Rightarrow> (wallet_rpc_error + account_ref) \<times> wallet_session" where
  "create_user_account E s label = create_account E s User label None"

definition manager_account :: "ext \<Rightarrow> wallet_session \<Rightarrow> u32 \<Rightarrow> wallet_rpc_error + account_ref" where
  "manager_account E s index =
     bindE (require_unlocked s) (\<lambda>u.
     bindE (map_err rpc_error_of_core
       (account_address E (u_mnemonic u) User index None (s_chain s) OpenZeppelin)) (\<lambda>addr.
     Ok \<lparr>acc_domain = User, acc_index = index, acc_address = address_hex addr,
         acc_label = ''manager'', acc_contract = OpenZeppelin, acc_owner = None\<rparr>))"

section \<open>The registry of an unlocked session stays well formed\<close>

definition session_wf :: "wallet_session \<Rightarrow> bool" where
  "session_wf s \<longleftrightarrow> (case s_unlocked s of None \<Rightarrow> True | Some u \<Rightarrow> registry_wf (u_registry u))"

lemmas session_defs =
  require_unlocked_def session_registry_def reseal_def deployment_data_for_def sign_typed_data_for_def
  strk20_viewing_key_for_def sign_hash_for_def sign_invoke_for_def sign_declare_for_def
  sign_deploy_account_for_def manager_account_def stored_address_def

lemma account_address_bounded:
  "account_address E m d index pw chain contract = Ok addr \<Longrightarrow> index < index_limit d"
  by (auto simp: account_address_def account_deployment_data_def account_public_key_def result_simps
      dest: private_key_bounded)

lemma create_account_Ok:
  assumes "create_account E s d label owner = (Ok a, s')"
  obtains u addr where "s_unlocked s = Some u"
    "account_address E (u_mnemonic u) d (next_index (u_registry u) d) None (s_chain s) OpenZeppelin = Ok addr"
    "a = \<lparr>acc_domain = d, acc_index = next_index (u_registry u) d, acc_address = address_hex addr,
          acc_label = label, acc_contract = OpenZeppelin, acc_owner = owner\<rparr>"
    "s' = s\<lparr>s_unlocked := Some (u\<lparr>u_registry := registry_add (u_registry u) a\<rparr>)\<rparr>"
  using assms by (auto simp: create_account_def Let_def split: option.splits sum.splits)

lemma create_account_Err:
  "create_account E s d label owner = (Err e, s') \<Longrightarrow> s' = s"
  by (auto simp: create_account_def Let_def split: option.splits sum.splits)

lemma create_account_wf:
  assumes wf: "session_wf s" and own: "d = User \<longleftrightarrow> owner = None"
    and step: "create_account E s d label owner = (r, s')"
  shows "session_wf s'"
proof (cases r)
  case (Inl e)
  then show ?thesis using create_account_Err step wf by blast
next
  case (Inr a)
  then obtain u addr where u: "s_unlocked s = Some u"
    and addr: "account_address E (u_mnemonic u) d (next_index (u_registry u) d) None (s_chain s) OpenZeppelin = Ok addr"
    and a: "a = \<lparr>acc_domain = d, acc_index = next_index (u_registry u) d, acc_address = address_hex addr,
          acc_label = label, acc_contract = OpenZeppelin, acc_owner = owner\<rparr>"
    and s': "s' = s\<lparr>s_unlocked := Some (u\<lparr>u_registry := registry_add (u_registry u) a\<rparr>)\<rparr>"
    using step by (auto elim: create_account_Ok)
  have "registry_wf (u_registry u)" using wf u by (simp add: session_wf_def)
  moreover have "account_wf a" using account_address_bounded [OF addr] own by (simp add: a account_wf_def)
  ultimately have "registry_wf (registry_add (u_registry u) a)" by (rule registry_wf_add) (simp add: a)
  then show ?thesis by (simp add: s' session_wf_def)
qed

lemma rollback_account_wf: "session_wf s \<Longrightarrow> session_wf (rollback_account s address)"
  by (auto simp: session_wf_def rollback_account_def registry_wf_remove split: option.splits)

lemma rollback_create:
  assumes step: "create_account E s d label owner = (Ok a, s')"
    and fresh: "\<And>u. s_unlocked s = Some u \<Longrightarrow> acc_address a \<notin> acc_address ` set (u_registry u)"
  shows "rollback_account s' (acc_address a) = s"
  using step
proof (rule create_account_Ok)
  fix u addr
  assume u: "s_unlocked s = Some u"
    and s': "s' = s\<lparr>s_unlocked := Some (u\<lparr>u_registry := registry_add (u_registry u) a\<rparr>)\<rparr>"
  show ?thesis using remove_by_address_add [OF fresh [OF u]] u
    by (simp add: s' rollback_account_def)
qed

section \<open>Locking, unlocking, sealing\<close>

lemma locked_refuses:
  assumes "is_locked s"
  shows "sign_invoke_for E s acc calls c params = Err Locked"
    "sign_declare_for E s acc ch cch c params = Err Locked"
    "sign_deploy_account_for E s acc c params = Err Locked"
    "sign_typed_data_for E s acc td = Err Locked"
    "sign_hash_for E s acc h = Err Locked"
    "strk20_viewing_key_for E s acc c pool = Err Locked"
    "deployment_data_for E s acc = Err Locked"
    "reseal E J sd nd s = Err Locked"
    "create_account E s d label owner = (Err Locked, s)"
    "manager_account E s i = Err Locked"
    "session_registry s = Err Locked"
  using assms by (simp_all add: is_locked_def session_defs create_account_def)

lemma lock_locks [simp]: "is_locked (lock s)"
  by (simp add: lock_def is_locked_def)

definition vault_codec_ok :: "vault_codec \<Rightarrow> bool" where
  "vault_codec_ok J \<longleftrightarrow> (\<forall>c. of_bytes J (to_bytes J c) = Some c)"

lemma unlock_reseal:
  assumes laws: "aead_correct E" "vault_codec_ok J"
    and nonce: "\<And>n. nonce_draw = Some n \<Longrightarrow> length n = NONCE_LEN"
    and u: "s_unlocked s = Some u" and v: "reseal E J salt_draw nonce_draw s = Ok v"
  shows "unlock E J (lock s) v (u_vault_passphrase u) = (Ok (), s)"
proof -
  have "seal E salt_draw nonce_draw (u_vault_passphrase u)
      (to_bytes J \<lparr>vc_mnemonic = u_mnemonic u, vc_registry = u_registry u\<rparr>) = Ok v"
    using u v by (simp add: reseal_def require_unlocked_def result_simps)
  then have "open_vault E v (u_vault_passphrase u)
      = Ok (to_bytes J \<lparr>vc_mnemonic = u_mnemonic u, vc_registry = u_registry u\<rparr>)"
    using open_seal [OF laws(1) _ nonce] by blast
  then show ?thesis
    using laws(2) u by (simp add: unlock_def vault_codec_ok_def lock_def)
qed

lemma unlock_fails:
  "unlock E J s v pw = (Err e, s') \<Longrightarrow> s' = s"
  by (auto simp: unlock_def split: sum.splits)

text \<open>The seed phrase needs an unlocked session and the passphrase of the vault, typed afresh.\<close>

lemma reveal_for_session_Ok:
  assumes "reveal_for_session E J s v pw = Ok m"
  shows "\<not> is_locked s" "\<exists>plain c. open_vault E v pw = Ok plain \<and> of_bytes J plain = Some c \<and> m = vc_mnemonic c"
  using assms by (auto simp: reveal_for_session_def reveal_mnemonic_def result_simps split: if_splits)

lemma unlock_reveals:
  assumes "unlock E J s v pw = (Ok (), s')" "s_unlocked s' = Some u"
  shows "reveal_mnemonic E J v pw = Ok (u_mnemonic u)"
  using assms by (auto simp: unlock_def reveal_mnemonic_def result_simps split: sum.splits)

end
