(* ===== verification/BTree.thy ===== *)
theory BTree
  imports Prelude
begin

text \<open>
  \<open>std::collections::BTreeMap\<close>: the entries in ascending key order, each key once. The
  program iterates over such maps (the planner's balances, change and approvals), so the
  order is part of its behaviour. The locale \<open>ordered_map\<close> is the contract the clients use
  and \<open>bt\<close> is its interpretation on the model.
\<close>

type_synonym ('k, 'v) btree = "('k \<times> 'v) list"

definition bt_wf :: "('k::linorder, 'v) btree \<Rightarrow> bool" where
  "bt_wf m \<longleftrightarrow> sorted_wrt (<) (map fst m)"

fun bt_insert :: "'k::linorder \<Rightarrow> 'v \<Rightarrow> ('k, 'v) btree \<Rightarrow> ('k, 'v) btree" where
  "bt_insert k v [] = [(k, v)]"
| "bt_insert k v ((j, u) # m) =
     (if k < j then (k, v) # (j, u) # m
      else if k = j then (k, v) # m
      else (j, u) # bt_insert k v m)"

definition bt_get :: "('k, 'v) btree \<Rightarrow> 'k \<Rightarrow> 'v option" where
  "bt_get m k = map_of m k"

text \<open>\<open>*entry(k).or_default() += a\<close> for a total addition.\<close>

definition bt_get_or :: "'v \<Rightarrow> ('k, 'v) btree \<Rightarrow> 'k \<Rightarrow> 'v" where
  "bt_get_or d m k = (case bt_get m k of None \<Rightarrow> d | Some v \<Rightarrow> v)"

fun bt_collect :: "('k::linorder \<times> 'v) list \<Rightarrow> ('k, 'v) btree \<Rightarrow> ('k, 'v) btree" where
  "bt_collect [] m = m"
| "bt_collect ((k, v) # ps) m = bt_collect ps (bt_insert k v m)"

locale ordered_map =
  fixes mempty :: "'m"
    and mput :: "'k::linorder \<Rightarrow> 'v \<Rightarrow> 'm \<Rightarrow> 'm"
    and mget :: "'m \<Rightarrow> 'k \<Rightarrow> 'v option"
    and mentries :: "'m \<Rightarrow> ('k \<times> 'v) list"
    and mwf :: "'m \<Rightarrow> bool"
  assumes wf_empty: "mwf mempty"
    and wf_put: "mwf m \<Longrightarrow> mwf (mput k v m)"
    and get_empty: "mget mempty k = None"
    and get_put: "mwf m \<Longrightarrow> mget (mput k v m) j = (if j = k then Some v else mget m j)"
    and entries_get: "mwf m \<Longrightarrow> (k, v) \<in> set (mentries m) \<longleftrightarrow> mget m k = Some v"
    and entries_sorted: "mwf m \<Longrightarrow> sorted_wrt (<) (map fst (mentries m))"
begin

lemma entries_distinct: "mwf m \<Longrightarrow> distinct (map fst (mentries m))"
  using entries_sorted strict_sorted_iff by blast

text \<open>The entries, with their order, are determined by the lookups.\<close>

lemma entries_ext:
  assumes "mwf m" "mwf m'" "mget m = mget m'"
  shows "mentries m = mentries m'"
proof (rule map_sorted_distinct_set_unique [where f = fst])
  show set: "set (mentries m) = set (mentries m')"
    using assms by (auto simp: entries_get)
  show "inj_on fst (set (mentries m) \<union> set (mentries m'))"
    using entries_distinct [OF assms(1)] by (simp add: set [symmetric] distinct_map)
  show "sorted (map fst (mentries m))" "distinct (map fst (mentries m))"
    "sorted (map fst (mentries m'))" "distinct (map fst (mentries m'))"
    using assms(1,2) entries_sorted by (simp_all add: strict_sorted_iff)
qed

lemma put_other: "mwf m \<Longrightarrow> j \<noteq> k \<Longrightarrow> mget (mput k v m) j = mget m j"
  by (simp add: get_put)

lemma put_same: "mwf m \<Longrightarrow> mget (mput k v m) k = Some v"
  by (simp add: get_put)

end

lemma set_bt_insert_keys: "fst ` set (bt_insert k v m) = insert k (fst ` set m)"
  by (induction k v m rule: bt_insert.induct) auto

lemma set_bt_insert: "p \<in> set (bt_insert k v m) \<Longrightarrow> p = (k, v) \<or> p \<in> set m"
  by (induction k v m rule: bt_insert.induct) (auto split: if_splits)

lemma bt_wf_Nil [simp]: "bt_wf []"
  by (simp add: bt_wf_def)

lemma bt_wf_Cons: "bt_wf (p # m) \<longleftrightarrow> (\<forall>q \<in> set m. fst p < fst q) \<and> bt_wf m"
  by (auto simp: bt_wf_def)

lemma bt_wf_insert [simp]: "bt_wf m \<Longrightarrow> bt_wf (bt_insert k v m)"
proof (induction m)
  case Nil
  show ?case by (simp add: bt_wf_Cons)
next
  case (Cons p m)
  obtain j u where p: "p = (j, u)" by (cases p)
  have "fst ` set (bt_insert k v m) = insert k (fst ` set m)" by (rule set_bt_insert_keys)
  then have "\<forall>q \<in> set (bt_insert k v m). fst q = k \<or> fst q \<in> fst ` set m" by blast
  with Cons p show ?case by (force simp: bt_wf_Cons)
qed

lemma bt_get_Nil [simp]: "bt_get [] k = None"
  by (simp add: bt_get_def)

lemma bt_get_Cons: "bt_get ((k, v) # m) j = (if j = k then Some v else bt_get m j)"
  by (simp add: bt_get_def)

lemma bt_get_insert [simp]: "bt_get (bt_insert k v m) j = (if j = k then Some v else bt_get m j)"
  by (induction k v m rule: bt_insert.induct) (auto simp: bt_get_Cons)

lemma bt_wf_distinct: "bt_wf m \<Longrightarrow> distinct (map fst m)"
  unfolding bt_wf_def using strict_sorted_iff by blast

lemma bt_entries: "bt_wf m \<Longrightarrow> (k, v) \<in> set m \<longleftrightarrow> bt_get m k = Some v"
  by (simp add: bt_get_def bt_wf_distinct)

interpretation bt: ordered_map "[]" bt_insert bt_get "\<lambda>m. m" bt_wf
  by unfold_locales (simp_all add: bt_entries, simp add: bt_wf_def)

lemma bt_wf_collect [simp]: "bt_wf m \<Longrightarrow> bt_wf (bt_collect ps m)"
  by (induction ps m rule: bt_collect.induct) auto

lemma bt_get_or_insert [simp]:
  "bt_get_or d (bt_insert k v m) j = (if j = k then v else bt_get_or d m j)"
  by (simp add: bt_get_or_def)

lemma bt_get_or_Nil [simp]: "bt_get_or d [] k = d"
  by (simp add: bt_get_or_def)

end
