(* ===== verification/Strk20_Hashes.thy ===== *)
theory Strk20_Hashes
  imports Felt
begin

text \<open>
  \<open>crates/strk20/src/hashes.rs\<close> and the error type of \<open>crates/strk20/src/lib.rs\<close>: the pool's
  domain-separated hashes. Poseidon itself (\<open>starknet_types_core\<close>) is the parameter \<open>P\<close>.
  What the wallet's side must get right is the preimage: the lemmas show that the fifteen
  hashes with their arguments have pairwise different preimages, so that two different
  identifiers, pads or nullifiers can only agree through a collision of Poseidon.
\<close>

datatype strk20_error =
    NotOnCurve felt
  | EmptyProofOutput
  | PoolNotRegistered felt       \<comment> \<open>\<open>Error::NotRegistered\<close>\<close>
  | InsufficientBalance (ib_token: felt) (ib_shortfall: u128) (ib_available: u128)
  | ZeroAmount
  | ReadError string             \<comment> \<open>\<open>Error::Read\<close>\<close>
  | RandomError string           \<comment> \<open>\<open>Error::Random\<close>\<close>
  | Panic                        \<comment> \<open>not a variant of the source: an arithmetic overflow or a failed \<open>expect\<close>\<close>

definition string_bytes :: "string \<Rightarrow> bytes" where
  "string_bytes s = map (\<lambda>c. word_of_nat (of_char c)) s"

definition short_string :: "string \<Rightarrow> felt" where
  "short_string s = felt_from_bytes_be (string_bytes s)"

definition CHANNEL_MARKER_TAG :: string where "CHANNEL_MARKER_TAG = ''CHANNEL_MARKER_TAG:V1''"
definition CHANNEL_KEY_TAG :: string where "CHANNEL_KEY_TAG = ''CHANNEL_KEY_TAG:V1''"
definition SUBCHANNEL_MARKER_TAG :: string where "SUBCHANNEL_MARKER_TAG = ''SUBCHANNEL_MARKER_TAG:V1''"
definition SUBCHANNEL_ID_TAG :: string where "SUBCHANNEL_ID_TAG = ''SUBCHANNEL_ID_TAG:V1''"
definition NULLIFIER_TAG :: string where "NULLIFIER_TAG = ''NULLIFIER_TAG:V1''"
definition ENC_CHANNEL_KEY_TAG :: string where "ENC_CHANNEL_KEY_TAG = ''ENC_CHANNEL_KEY_TAG:V1''"
definition ENC_SENDER_ADDR_TAG :: string where "ENC_SENDER_ADDR_TAG = ''ENC_SENDER_ADDR_TAG:V1''"
definition NOTE_ID_TAG :: string where "NOTE_ID_TAG = ''NOTE_ID_TAG:V1''"
definition ENC_AMOUNT_TAG :: string where "ENC_AMOUNT_TAG = ''ENC_AMOUNT_TAG:V1''"
definition ENC_TOKEN_TAG :: string where "ENC_TOKEN_TAG = ''ENC_TOKEN_TAG:V1''"
definition ENC_PRIVATE_KEY_TAG :: string where "ENC_PRIVATE_KEY_TAG = ''ENC_PRIVATE_KEY_TAG:V1''"
definition ENC_USER_ADDR_TAG :: string where "ENC_USER_ADDR_TAG = ''ENC_USER_ADDR_TAG:V1''"
definition ENC_RECIPIENT_ADDR_TAG :: string where
  "ENC_RECIPIENT_ADDR_TAG = ''ENC_RECIPIENT_ADDR_TAG:V1''"
definition OUTGOING_CHANNEL_ID_TAG :: string where
  "OUTGOING_CHANNEL_ID_TAG = ''OUTGOING_CHANNEL_ID_TAG:V1''"
definition IDENTITY_KEY_TAG :: string where "IDENTITY_KEY_TAG = ''IDENTITY_KEY_TAG:V1''"

type_synonym poseidon = "felt list \<Rightarrow> felt"

definition hash_tagged :: "poseidon \<Rightarrow> string \<Rightarrow> felt list \<Rightarrow> felt" where
  "hash_tagged P tag inputs = P (short_string tag # inputs)"

definition idx :: "u32 \<Rightarrow> felt" where
  "idx i = felt_of_word i"

definition identity_key :: "poseidon \<Rightarrow> felt \<Rightarrow> felt \<Rightarrow> felt \<Rightarrow> felt" where
  "identity_key P user_addr user_private_key contract_address =
     hash_tagged P IDENTITY_KEY_TAG [user_addr, user_private_key, contract_address]"

definition enc_private_key_hash :: "poseidon \<Rightarrow> felt \<Rightarrow> felt" where
  "enc_private_key_hash P shared_x = hash_tagged P ENC_PRIVATE_KEY_TAG [shared_x]"

definition enc_user_addr_hash :: "poseidon \<Rightarrow> felt \<Rightarrow> felt" where
  "enc_user_addr_hash P shared_x = hash_tagged P ENC_USER_ADDR_TAG [shared_x]"

definition enc_token_hash :: "poseidon \<Rightarrow> felt \<Rightarrow> u32 \<Rightarrow> felt \<Rightarrow> felt" where
  "enc_token_hash P channel_key index salt =
     hash_tagged P ENC_TOKEN_TAG [channel_key, idx index, 0, salt]"

definition enc_channel_key_hash :: "poseidon \<Rightarrow> felt \<Rightarrow> felt" where
  "enc_channel_key_hash P shared_x = hash_tagged P ENC_CHANNEL_KEY_TAG [shared_x]"

definition enc_sender_addr_hash :: "poseidon \<Rightarrow> felt \<Rightarrow> felt" where
  "enc_sender_addr_hash P shared_x = hash_tagged P ENC_SENDER_ADDR_TAG [shared_x]"

definition enc_recipient_addr_hash :: "poseidon \<Rightarrow> felt \<Rightarrow> felt \<Rightarrow> u32 \<Rightarrow> felt \<Rightarrow> felt" where
  "enc_recipient_addr_hash P sender_addr sender_private_key index salt =
     hash_tagged P ENC_RECIPIENT_ADDR_TAG [sender_addr, sender_private_key, idx index, 0, salt]"

definition channel_key :: "poseidon \<Rightarrow> felt \<Rightarrow> felt \<Rightarrow> felt \<Rightarrow> felt \<Rightarrow> felt" where
  "channel_key P sender_addr sender_private_key recipient_addr recipient_public_key =
     hash_tagged P CHANNEL_KEY_TAG
       [sender_addr, sender_private_key, recipient_addr, recipient_public_key]"

definition outgoing_channel_id :: "poseidon \<Rightarrow> felt \<Rightarrow> felt \<Rightarrow> u32 \<Rightarrow> felt" where
  "outgoing_channel_id P sender_addr sender_private_key index =
     hash_tagged P OUTGOING_CHANNEL_ID_TAG [sender_addr, sender_private_key, idx index, 0]"

definition channel_marker :: "poseidon \<Rightarrow> felt \<Rightarrow> felt \<Rightarrow> felt \<Rightarrow> felt \<Rightarrow> felt" where
  "channel_marker P key sender_addr recipient_addr recipient_public_key =
     hash_tagged P CHANNEL_MARKER_TAG [key, sender_addr, recipient_addr, recipient_public_key]"

definition subchannel_id :: "poseidon \<Rightarrow> felt \<Rightarrow> u32 \<Rightarrow> felt" where
  "subchannel_id P key index = hash_tagged P SUBCHANNEL_ID_TAG [key, idx index, 0]"

definition subchannel_marker :: "poseidon \<Rightarrow> felt \<Rightarrow> felt \<Rightarrow> felt \<Rightarrow> felt \<Rightarrow> felt" where
  "subchannel_marker P key recipient_addr recipient_public_key token =
     hash_tagged P SUBCHANNEL_MARKER_TAG [key, recipient_addr, recipient_public_key, token]"

definition note_id :: "poseidon \<Rightarrow> felt \<Rightarrow> felt \<Rightarrow> u32 \<Rightarrow> felt" where
  "note_id P key token index = hash_tagged P NOTE_ID_TAG [key, token, idx index, 0]"

definition enc_amount_hash :: "poseidon \<Rightarrow> felt \<Rightarrow> felt \<Rightarrow> u32 \<Rightarrow> felt \<Rightarrow> felt" where
  "enc_amount_hash P key token index salt =
     hash_tagged P ENC_AMOUNT_TAG [key, token, idx index, 0, salt]"

definition nullifier :: "poseidon \<Rightarrow> felt \<Rightarrow> felt \<Rightarrow> u32 \<Rightarrow> felt \<Rightarrow> felt" where
  "nullifier P key token index owner_private_key =
     hash_tagged P NULLIFIER_TAG [key, token, idx index, 0, owner_private_key]"

section \<open>Domain separation\<close>

text \<open>A hash of the pool with its arguments, and its evaluation by the code's functions.\<close>

datatype pool_hash =
    IdentityKey felt felt felt
  | EncPrivateKey felt
  | EncUserAddr felt
  | EncToken felt u32 felt
  | EncChannelKey felt
  | EncSenderAddr felt
  | EncRecipientAddr felt felt u32 felt
  | ChannelKey felt felt felt felt
  | OutgoingChannelId felt felt u32
  | ChannelMarker felt felt felt felt
  | SubchannelId felt u32
  | SubchannelMarker felt felt felt felt
  | NoteId felt felt u32
  | EncAmount felt felt u32 felt
  | Nullifier felt felt u32 felt

fun pool_eval :: "poseidon \<Rightarrow> pool_hash \<Rightarrow> felt" where
  "pool_eval P (IdentityKey a b c) = identity_key P a b c"
| "pool_eval P (EncPrivateKey a) = enc_private_key_hash P a"
| "pool_eval P (EncUserAddr a) = enc_user_addr_hash P a"
| "pool_eval P (EncToken a i s) = enc_token_hash P a i s"
| "pool_eval P (EncChannelKey a) = enc_channel_key_hash P a"
| "pool_eval P (EncSenderAddr a) = enc_sender_addr_hash P a"
| "pool_eval P (EncRecipientAddr a b i s) = enc_recipient_addr_hash P a b i s"
| "pool_eval P (ChannelKey a b c d) = channel_key P a b c d"
| "pool_eval P (OutgoingChannelId a b i) = outgoing_channel_id P a b i"
| "pool_eval P (ChannelMarker a b c d) = channel_marker P a b c d"
| "pool_eval P (SubchannelId a i) = subchannel_id P a i"
| "pool_eval P (SubchannelMarker a b c d) = subchannel_marker P a b c d"
| "pool_eval P (NoteId a b i) = note_id P a b i"
| "pool_eval P (EncAmount a b i s) = enc_amount_hash P a b i s"
| "pool_eval P (Nullifier a b i s) = nullifier P a b i s"

lemmas tag_defs =
  CHANNEL_MARKER_TAG_def CHANNEL_KEY_TAG_def SUBCHANNEL_MARKER_TAG_def SUBCHANNEL_ID_TAG_def
  NULLIFIER_TAG_def ENC_CHANNEL_KEY_TAG_def ENC_SENDER_ADDR_TAG_def NOTE_ID_TAG_def
  ENC_AMOUNT_TAG_def ENC_TOKEN_TAG_def ENC_PRIVATE_KEY_TAG_def ENC_USER_ADDR_TAG_def
  ENC_RECIPIENT_ADDR_TAG_def OUTGOING_CHANNEL_ID_TAG_def IDENTITY_KEY_TAG_def

lemmas hash_defs =
  identity_key_def enc_private_key_hash_def enc_user_addr_hash_def enc_token_hash_def
  enc_channel_key_hash_def enc_sender_addr_hash_def enc_recipient_addr_hash_def channel_key_def
  outgoing_channel_id_def channel_marker_def subchannel_id_def subchannel_marker_def note_id_def
  enc_amount_hash_def nullifier_def hash_tagged_def

lemma idx_inj [simp]: "idx i = idx j \<longleftrightarrow> i = j"
  by (simp add: idx_def)


fun tag_of :: "pool_hash \<Rightarrow> string" where
  "tag_of (IdentityKey a b c) = IDENTITY_KEY_TAG"
| "tag_of (EncPrivateKey a) = ENC_PRIVATE_KEY_TAG"
| "tag_of (EncUserAddr a) = ENC_USER_ADDR_TAG"
| "tag_of (EncToken a i s) = ENC_TOKEN_TAG"
| "tag_of (EncChannelKey a) = ENC_CHANNEL_KEY_TAG"
| "tag_of (EncSenderAddr a) = ENC_SENDER_ADDR_TAG"
| "tag_of (EncRecipientAddr a b i s) = ENC_RECIPIENT_ADDR_TAG"
| "tag_of (ChannelKey a b c d) = CHANNEL_KEY_TAG"
| "tag_of (OutgoingChannelId a b i) = OUTGOING_CHANNEL_ID_TAG"
| "tag_of (ChannelMarker a b c d) = CHANNEL_MARKER_TAG"
| "tag_of (SubchannelId a i) = SUBCHANNEL_ID_TAG"
| "tag_of (SubchannelMarker a b c d) = SUBCHANNEL_MARKER_TAG"
| "tag_of (NoteId a b i) = NOTE_ID_TAG"
| "tag_of (EncAmount a b i s) = ENC_AMOUNT_TAG"
| "tag_of (Nullifier a b i s) = NULLIFIER_TAG"

fun inputs_of :: "pool_hash \<Rightarrow> felt list" where
  "inputs_of (IdentityKey a b c) = [a, b, c]"
| "inputs_of (EncPrivateKey a) = [a]"
| "inputs_of (EncUserAddr a) = [a]"
| "inputs_of (EncToken a i s) = [a, idx i, 0, s]"
| "inputs_of (EncChannelKey a) = [a]"
| "inputs_of (EncSenderAddr a) = [a]"
| "inputs_of (EncRecipientAddr a b i s) = [a, b, idx i, 0, s]"
| "inputs_of (ChannelKey a b c d) = [a, b, c, d]"
| "inputs_of (OutgoingChannelId a b i) = [a, b, idx i, 0]"
| "inputs_of (ChannelMarker a b c d) = [a, b, c, d]"
| "inputs_of (SubchannelId a i) = [a, idx i, 0]"
| "inputs_of (SubchannelMarker a b c d) = [a, b, c, d]"
| "inputs_of (NoteId a b i) = [a, b, idx i, 0]"
| "inputs_of (EncAmount a b i s) = [a, b, idx i, 0, s]"
| "inputs_of (Nullifier a b i s) = [a, b, idx i, 0, s]"

definition pool_preimage :: "pool_hash \<Rightarrow> felt list" where
  "pool_preimage h = short_string (tag_of h) # inputs_of h"

lemma pool_eval_preimage: "pool_eval P h = P (pool_preimage h)"
  by (cases h) (simp_all add: hash_defs pool_preimage_def)

lemma string_bytes_inj: "string_bytes s = string_bytes t \<longleftrightarrow> s = t"
proof -
  have "inj (\<lambda>c :: char. (word_of_nat (of_char c) :: u8))"
  proof (rule injI)
    fix c d :: char
    assume "(word_of_nat (of_char c) :: u8) = word_of_nat (of_char d)"
    then have "unat (word_of_nat (of_char c) :: u8) = unat (word_of_nat (of_char d) :: u8)" by simp
    then show "c = d" by (simp add: unat_of_nat take_bit_eq_mod)
  qed
  then show ?thesis by (simp add: string_bytes_def inj_map_eq_map)
qed

lemma length_string_bytes [simp]: "length (string_bytes s) = length s"
  by (simp add: string_bytes_def)

text \<open>Short strings of at most 31 bytes without a leading NUL are injective as felts.\<close>

definition short_ok :: "string \<Rightarrow> bool" where
  "short_ok s \<longleftrightarrow> s \<noteq> [] \<and> length s \<le> 31 \<and> hd s \<noteq> CHR 0x00"

lemma short_ok_bounds:
  assumes "short_ok s"
  shows "256 ^ (length s - 1) \<le> be_val (string_bytes s)"
    and "be_val (string_bytes s) < 256 ^ length s"
proof -
  obtain c t where s: "s = c # t" and c: "c \<noteq> CHR 0x00"
    using assms by (cases s) (auto simp: short_ok_def)
  have "unat (word_of_nat (of_char c) :: u8) = of_char c"
    by (simp add: unat_of_nat take_bit_eq_mod)
  moreover have "(of_char c :: nat) \<noteq> 0" using c of_char_eq_iff [of c "CHR 0x00", where 'a = nat] by simp
  ultimately have "1 * 256 ^ length t \<le> unat (word_of_nat (of_char c) :: u8) * 256 ^ length t"
    by (intro mult_le_mono1) simp
  moreover have "be_val (string_bytes s)
      = unat (word_of_nat (of_char c) :: u8) * 256 ^ length t + be_val (string_bytes t)"
    by (simp add: s string_bytes_def be_val_Cons)
  moreover have "length s - 1 = length t" by (simp add: s)
  ultimately show "256 ^ (length s - 1) \<le> be_val (string_bytes s)"
    by (simp only: mult_1 trans_le_add1)
  show "be_val (string_bytes s) < 256 ^ length s"
    using be_val_less [of "string_bytes s"] by simp
qed

lemma short_string_val:
  assumes "short_ok s"
  shows "felt_val (short_string s) = int (be_val (string_bytes s))"
proof -
  have "be_val (string_bytes s) < 256 ^ length s" by (rule short_ok_bounds [OF assms])
  also have "\<dots> \<le> (256 :: nat) ^ 31"
    using assms by (intro power_increasing) (auto simp: short_ok_def)
  finally have "int (be_val (string_bytes s)) < int (256 ^ 31)" by (simp only: of_nat_less_iff)
  then have "int (be_val (string_bytes s)) < stark_prime" using stark_prime_gt(1) by simp
  then show ?thesis by (simp add: short_string_def felt_from_bytes_be_def)
qed

lemma short_string_inj:
  assumes s: "short_ok s" and t: "short_ok t"
  shows "short_string s = short_string t \<longleftrightarrow> s = t"
proof
  assume "short_string s = short_string t"
  then have eq: "be_val (string_bytes s) = be_val (string_bytes t)"
    using short_string_val [OF s] short_string_val [OF t] by simp
  have less: "length u \<le> length v"
    if "short_ok u" "short_ok v" "be_val (string_bytes u) = be_val (string_bytes v)" for u v
  proof -
    have "(256 :: nat) ^ (length u - 1) < 256 ^ length v"
      using short_ok_bounds(1) [OF that(1)] short_ok_bounds(2) [OF that(2)] that(3) by linarith
    then have "length u - 1 < length v" by simp
    then show ?thesis by linarith
  qed
  have "length s = length t" using less [OF s t eq] less [OF t s eq [symmetric]] by simp
  with eq have "string_bytes s = string_bytes t" by (intro be_val_inj) simp_all
  then show "s = t" by (simp add: string_bytes_inj)
qed simp

lemma short_ok_tag_of: "short_ok (tag_of h)"
  by (cases h) (simp_all add: short_ok_def tag_defs)

lemma pool_preimage_inj: "pool_preimage h = pool_preimage h' \<longleftrightarrow> h = h'"
proof
  assume eq: "pool_preimage h = pool_preimage h'"
  then have "tag_of h = tag_of h'"
    using short_string_inj [OF short_ok_tag_of short_ok_tag_of] by (simp add: pool_preimage_def)
  moreover have "inputs_of h = inputs_of h'" using eq by (simp add: pool_preimage_def)
  ultimately show "h = h'" by (cases h; cases h'; simp add: tag_defs)
qed simp

end
