(* ===== verification/Strk20_Crypto.thy ===== *)
theory Strk20_Crypto
  imports Strk20_Hashes
begin

text \<open>
  \<open>crates/strk20/src/crypto.rs\<close>: what a wallet decrypts of the pool's storage. The curve
  arithmetic of \<open>starknet_types_core::curve::AffinePoint\<close> is the parameter record \<open>curve\<close>.
\<close>

record 'pt curve =
  generator :: 'pt
  point_mul :: "'pt \<Rightarrow> felt \<Rightarrow> 'pt"
  point_x :: "'pt \<Rightarrow> felt"
  new_from_x :: "felt \<Rightarrow> bool \<Rightarrow> 'pt option"

definition public_key :: "'pt curve \<Rightarrow> felt \<Rightarrow> felt" where
  "public_key C sk = point_x C (point_mul C (generator C) sk)"

definition shared_x :: "'pt curve \<Rightarrow> felt \<Rightarrow> felt \<Rightarrow> strk20_error + felt" where
  "shared_x C sk public_x =
     bindE (ok_or (NotOnCurve public_x) (new_from_x C public_x False)) (\<lambda>point.
     Ok (point_x C (point_mul C point sk)))"

record enc_channel_info =
  ephemeral_pubkey :: felt
  enc_channel_key :: felt
  enc_sender_addr :: felt

record channel_info =
  key :: felt
  sender :: felt

definition decrypt_channel_info ::
  "poseidon \<Rightarrow> 'pt curve \<Rightarrow> enc_channel_info \<Rightarrow> felt \<Rightarrow> strk20_error + channel_info" where
  "decrypt_channel_info P C encrypted recipient_private_key =
     bindE (shared_x C recipient_private_key (ephemeral_pubkey encrypted)) (\<lambda>shared.
     Ok \<lparr>key = enc_channel_key encrypted - enc_channel_key_hash P shared,
         sender = enc_sender_addr encrypted - enc_sender_addr_hash P shared\<rparr>)"

record enc_subchannel_info =
  sub_salt :: felt
  enc_token :: felt

definition decrypt_subchannel_token ::
  "poseidon \<Rightarrow> enc_subchannel_info \<Rightarrow> felt \<Rightarrow> u32 \<Rightarrow> felt" where
  "decrypt_subchannel_token P encrypted ck index =
     enc_token encrypted - enc_token_hash P ck index (sub_salt encrypted)"

record enc_outgoing_channel_info =
  out_salt :: felt
  enc_recipient_addr :: felt

definition decrypt_outgoing_recipient ::
  "poseidon \<Rightarrow> enc_outgoing_channel_info \<Rightarrow> felt \<Rightarrow> felt \<Rightarrow> u32 \<Rightarrow> felt" where
  "decrypt_outgoing_recipient P encrypted sender_addr sender_private_key index =
     enc_recipient_addr encrypted
       - enc_recipient_addr_hash P sender_addr sender_private_key index (out_salt encrypted)"

definition OPEN_NOTE_SALT :: u128 where
  "OPEN_NOTE_SALT = 1"

record note_value =
  nv_amount :: u128
  nv_salt :: u128
  nv_open :: bool

definition two_pow_128 :: felt where
  "two_pow_128 = felt_of_word (push_bit 127 1 :: u128) * felt_of_nat 2"

definition split_u128s :: "felt \<Rightarrow> u128 \<times> u128" where
  "split_u128s v =
     (let bs = felt_to_bytes_be v
      in (u128_from_be_bytes (take 16 bs), u128_from_be_bytes (drop 16 bs)))"

definition decrypt_note_value ::
  "poseidon \<Rightarrow> felt \<Rightarrow> felt \<Rightarrow> felt \<Rightarrow> u32 \<Rightarrow> note_value option" where
  "decrypt_note_value P packed_value ck token index =
     (if packed_value = 0 then None
      else
        (let (salt, enc_amount) = split_u128s packed_value
         in if salt = OPEN_NOTE_SALT
            then Some \<lparr>nv_amount = enc_amount, nv_salt = salt, nv_open = True\<rparr>
            else
              (let (_, pad) = split_u128s (enc_amount_hash P ck token index (felt_of_word salt))
               in Some \<lparr>nv_amount = enc_amount - pad, nv_salt = salt, nv_open = False\<rparr>)))"

definition encrypt_note_value ::
  "poseidon \<Rightarrow> u128 \<Rightarrow> u128 \<Rightarrow> felt \<Rightarrow> felt \<Rightarrow> u32 \<Rightarrow> felt" where
  "encrypt_note_value P amount salt ck token index =
     (let (_, pad) = split_u128s (enc_amount_hash P ck token index (felt_of_word salt));
          enc_amount = pad + amount
      in felt_of_word salt * two_pow_128 + felt_of_word enc_amount)"

section \<open>Notes\<close>

lemma split_u128s_eq:
  "split_u128s v = (word_of_nat (nat (felt_val v) div 2 ^ 128), word_of_nat (nat (felt_val v)))"
  by (simp only: split_u128s_def Let_def felt_low_half felt_high_half)

lemma two_pow_128_eq: "felt_val two_pow_128 = 2 ^ 128"
proof -
  have "unat (push_bit 127 1 :: u128) = 2 ^ 127" by (simp add: push_bit_eq_mult)
  then show ?thesis
    by (simp add: two_pow_128_def felt_of_word_def stark_prime_num)
qed

text \<open>The packed value of a salt below \<open>2^123\<close> is the integer \<open>salt * 2^128 + enc\<close>.\<close>

lemma packed_val:
  assumes "unat (salt :: u128) < 2 ^ 123"
  shows "felt_val (felt_of_word salt * two_pow_128 + felt_of_word (enc :: u128))
    = int (unat salt * 2 ^ 128 + unat enc)"
proof -
  have "unat enc < 2 ^ 128" using unat_less_exp [of enc] by simp
  moreover have "(unat salt + 1) * 2 ^ 128 \<le> 2 ^ 123 * 2 ^ 128"
    using assms by (intro mult_le_mono1) simp
  ultimately have "unat salt * 2 ^ 128 + unat enc < 2 ^ 123 * 2 ^ 128" by simp
  then have "unat salt * 2 ^ 128 + unat enc < 2 ^ 251" by (simp only: flip: power_add) simp
  then have "int (unat salt * 2 ^ 128 + unat enc) < int (2 ^ 251)" by (simp only: of_nat_less_iff)
  then have "int (unat salt * 2 ^ 128 + unat enc) < 2 ^ 251" by (simp only: of_nat_power of_nat_numeral)
  then have "int (unat salt * 2 ^ 128 + unat enc) < stark_prime" using stark_prime_gt(1) by linarith
  then show ?thesis
    by (simp add: two_pow_128_eq mod_simps)
qed

lemma packed_nonzero:
  assumes "0 < unat (salt :: u128)" "unat salt < 2 ^ 123"
  shows "felt_of_word salt * two_pow_128 + felt_of_word (enc :: u128) \<noteq> 0"
proof -
  have "0 < unat salt * 2 ^ 128 + unat enc" using assms(1) by (intro trans_less_add1) simp
  then have "felt_val (felt_of_word salt * two_pow_128 + felt_of_word enc) \<noteq> 0"
    unfolding packed_val [OF assms(2)] by (simp only: of_nat_eq_0_iff)
  then show ?thesis by (metis felt_val_arith(1))
qed

lemma split_packed:
  assumes "unat (salt :: u128) < 2 ^ 123"
  shows "split_u128s (felt_of_word salt * two_pow_128 + felt_of_word (enc :: u128)) = (salt, enc)"
proof -
  have enc: "unat enc < 2 ^ 128" using unat_less_exp [of enc] by simp
  have hi: "(unat salt * 2 ^ 128 + unat enc) div 2 ^ 128 = unat salt" using enc by simp
  have lo: "word_of_nat (unat salt * 2 ^ 128 + unat enc) = enc"
  proof -
    have "(unat salt * 2 ^ 128 + unat enc) mod 2 ^ LENGTH(128) = unat enc" using enc by simp
    then have "unat (word_of_nat (unat salt * 2 ^ 128 + unat enc) :: u128) = unat enc"
      by (simp only: unsigned_of_nat take_bit_eq_mod of_nat_id)
    then show ?thesis by (simp only: word_unat_eq_iff)
  qed
  show ?thesis
    unfolding split_u128s_eq packed_val [OF assms] nat_int hi lo by simp
qed

lemma note_value_roundtrip:
  assumes "1 < unat (salt :: u128)" "unat salt < 2 ^ 123"
  shows "decrypt_note_value P (encrypt_note_value P amount salt ck token index) ck token index
    = Some \<lparr>nv_amount = amount, nv_salt = salt, nv_open = False\<rparr>"
proof -
  let ?pad = "snd (split_u128s (enc_amount_hash P ck token index (felt_of_word salt)))"
  let ?packed = "felt_of_word salt * two_pow_128 + felt_of_word (?pad + amount)"
  have packed: "encrypt_note_value P amount salt ck token index = ?packed"
    by (simp add: encrypt_note_value_def case_prod_unfold Let_def)
  have nz: "?packed \<noteq> 0" using assms by (intro packed_nonzero) simp_all
  have "salt \<noteq> OPEN_NOTE_SALT" using assms(1) by (auto simp: OPEN_NOTE_SALT_def)
  then show ?thesis
    unfolding packed decrypt_note_value_def split_packed [OF assms(2)]
    using nz by (simp add: case_prod_unfold)
qed

lemma open_note_value:
  "decrypt_note_value P (felt_of_word OPEN_NOTE_SALT * two_pow_128 + felt_of_word amount) ck token index
    = Some \<lparr>nv_amount = amount, nv_salt = OPEN_NOTE_SALT, nv_open = True\<rparr>"
proof -
  have less: "unat OPEN_NOTE_SALT < 2 ^ 123" by (simp add: OPEN_NOTE_SALT_def)
  let ?packed = "felt_of_word OPEN_NOTE_SALT * two_pow_128 + felt_of_word amount"
  have "?packed \<noteq> 0" using less by (intro packed_nonzero) (simp_all add: OPEN_NOTE_SALT_def)
  then show ?thesis unfolding decrypt_note_value_def split_packed [OF less] by simp
qed

lemma decrypt_note_value_None [simp]:
  "decrypt_note_value P packed ck token index = None \<longleftrightarrow> packed = 0"
  by (simp add: decrypt_note_value_def case_prod_unfold Let_def)

section \<open>Channels\<close>

lemma decrypt_channel_info_errors:
  "decrypt_channel_info P C encrypted sk = Err e \<longleftrightarrow>
     new_from_x C (ephemeral_pubkey encrypted) False = None
     \<and> e = NotOnCurve (ephemeral_pubkey encrypted)"
  by (auto simp: decrypt_channel_info_def shared_x_def result_simps)

end
