(* ===== verification/Strk20_Discovery.thy ===== *)
theory Strk20_Discovery
  imports BTree Core_Tx Strk20_Crypto
begin

text \<open>
  \<open>crates/strk20/src/discovery.rs\<close>: reading a user's channels and notes from the pool. A
  \<open>PoolReader\<close> is pinned to one block, so it is a function \<open>R\<close> of selector and calldata. The
  loops \<open>for k in 0..\<close> end at the first empty slot, or fail at index \<open>2^32\<close> where \<open>index_u32\<close> does; that bound is the
  measure of their termination. The locale \<open>slot_scan\<close> states what
  such a scan returns and is interpreted on the two loops that count slots.
\<close>

type_synonym pool_reader = "felt \<Rightarrow> felt list \<Rightarrow> strk20_error + felt list"

text \<open>What the module takes from elsewhere: the selectors' hash, Poseidon, the curve, the reader.\<close>

record 'pt pool_ctx =
  px_ext :: ext
  px_poseidon :: poseidon
  px_curve :: "'pt curve"
  px_call :: pool_reader

definition view :: "'pt pool_ctx \<Rightarrow> string \<Rightarrow> felt list \<Rightarrow> nat \<Rightarrow> strk20_error + felt list" where
  "view X name calldata n =
     bindE (px_call X (get_selector_from_name (px_ext X) name) calldata) (\<lambda>out.
     if length out < n
     then Err (ReadError (name @ '' returned '' @ nat_dec (length out) @ '' felts, expected '' @ nat_dec n))
     else Ok out)"

definition registered_public_key :: "'pt pool_ctx \<Rightarrow> felt \<Rightarrow> strk20_error + felt option" where
  "registered_public_key X user =
     bindE (view X ''get_public_key'' [user] 1) (\<lambda>out.
     Ok (if out ! 0 \<noteq> 0 then Some (out ! 0) else None))"

definition flag :: "'pt pool_ctx \<Rightarrow> string \<Rightarrow> felt \<Rightarrow> strk20_error + bool" where
  "flag X name arg = bindE (view X name [arg] 1) (\<lambda>out. Ok (out ! 0 \<noteq> 0))"

definition note_packed_value :: "'pt pool_ctx \<Rightarrow> felt \<Rightarrow> strk20_error + felt" where
  "note_packed_value X nid = bindE (view X ''get_note'' [nid] 1) (\<lambda>out. Ok (out ! 0))"

definition subchannel_info :: "'pt pool_ctx \<Rightarrow> felt \<Rightarrow> strk20_error + enc_subchannel_info" where
  "subchannel_info X sid =
     bindE (view X ''get_subchannel_info'' [sid] 2) (\<lambda>out.
     Ok \<lparr>sub_salt = out ! 0, enc_token = out ! 1\<rparr>)"

definition index_u32 :: "nat \<Rightarrow> strk20_error + u32" where
  "index_u32 i = (if i < 2 ^ 32 then Ok (word_of_nat i) else Err (ReadError ''index overflow''))"

lemma index_u32_Ok: "index_u32 i = Ok w \<longleftrightarrow> i < 2 ^ 32 \<and> w = word_of_nat i"
  by (auto simp: index_u32_def)

record pool_note =
  note_id_of :: felt
  note_token :: felt
  note_amount :: u128
  note_channel_key :: felt
  note_index :: u32
  note_sender :: felt
  note_open :: bool

text \<open>The innermost loop of \<open>discover_notes\<close>; \<open>notes\<close> is the vector pushed to.\<close>

function note_loop ::
  "'pt pool_ctx \<Rightarrow> felt \<Rightarrow> channel_info \<Rightarrow> felt \<Rightarrow> nat \<Rightarrow> pool_note list \<Rightarrow> strk20_error + pool_note list" where
  "note_loop X user_sk channel token n notes =
     bindE (index_u32 n) (\<lambda>i.
     let nid = note_id (px_poseidon X) (key channel) token i
     in bindE (note_packed_value X nid) (\<lambda>packed.
        case decrypt_note_value (px_poseidon X) packed (key channel) token i of
          None \<Rightarrow> Ok notes
        | Some value \<Rightarrow>
            bindE (flag X ''nullifier_exists'' (nullifier (px_poseidon X) (key channel) token i user_sk))
              (\<lambda>spent.
               if spent then note_loop X user_sk channel token (Suc n) notes
               else note_loop X user_sk channel token (Suc n)
                 (notes @ [\<lparr>note_id_of = nid, note_token = token, note_amount = nv_amount value,
                            note_channel_key = key channel, note_index = i,
                            note_sender = sender channel, note_open = nv_open value\<rparr>]))))"
  by pat_completeness auto
termination
  by (relation "measure (\<lambda>(X, sk, c, t, n, notes). 2 ^ 32 - n)") (auto simp: index_u32_Ok)

function subchannel_loop ::
  "'pt pool_ctx \<Rightarrow> felt \<Rightarrow> felt list \<Rightarrow> channel_info \<Rightarrow> nat \<Rightarrow> pool_note list \<Rightarrow> strk20_error + pool_note list" where
  "subchannel_loop X user_sk tokens channel n notes =
     bindE (index_u32 n) (\<lambda>k.
     bindE (subchannel_info X (subchannel_id (px_poseidon X) (key channel) k)) (\<lambda>sub.
     if sub_salt sub = 0 then Ok notes
     else
       (let token = decrypt_subchannel_token (px_poseidon X) sub (key channel) k
        in if tokens \<noteq> [] \<and> token \<notin> set tokens
           then subchannel_loop X user_sk tokens channel (Suc n) notes
           else bindE (note_loop X user_sk channel token 0 notes) (\<lambda>notes'.
                subchannel_loop X user_sk tokens channel (Suc n) notes'))))"
  by pat_completeness auto
termination
  by (relation "measure (\<lambda>(X, sk, ts, c, n, notes). 2 ^ 32 - n)") (auto simp: index_u32_Ok)

declare note_loop.simps [simp del] subchannel_loop.simps [simp del]

definition channel_step ::
  "'pt pool_ctx \<Rightarrow> felt \<Rightarrow> felt \<Rightarrow> felt list \<Rightarrow> u64 \<Rightarrow> pool_note list \<Rightarrow> strk20_error + pool_note list" where
  "channel_step X user user_sk tokens c notes =
     bindE (view X ''get_channel_info'' [user, felt_of_word c] 3) (\<lambda>out.
     let enc = \<lparr>ephemeral_pubkey = out ! 0, enc_channel_key = out ! 1, enc_sender_addr = out ! 2\<rparr>
     in bindE (decrypt_channel_info (px_poseidon X) (px_curve X) enc user_sk) (\<lambda>channel.
        subchannel_loop X user_sk tokens channel 0 notes))"

fun channels_loop ::
  "'pt pool_ctx \<Rightarrow> felt \<Rightarrow> felt \<Rightarrow> felt list \<Rightarrow> u64 list \<Rightarrow> pool_note list \<Rightarrow> strk20_error + pool_note list" where
  "channels_loop X user user_sk tokens [] notes = Ok notes"
| "channels_loop X user user_sk tokens (c # cs) notes =
     bindE (channel_step X user user_sk tokens c notes) (\<lambda>notes'.
     channels_loop X user user_sk tokens cs notes')"

definition discover_notes ::
  "'pt pool_ctx \<Rightarrow> felt \<Rightarrow> felt \<Rightarrow> felt list \<Rightarrow> strk20_error + pool_note list" where
  "discover_notes X user user_sk tokens =
     bindE (view X ''get_num_of_channels'' [user] 1) (\<lambda>out.
     bindE (ok_or (ReadError ''channel count overflow'') (felt_to_word (out ! 0) :: u64 option)) (\<lambda>count.
     channels_loop X user user_sk tokens (map word_of_nat [0..<unat count]) []))"

section \<open>Outgoing channels\<close>

record subchannel =
  sc_index :: u32
  sc_next_note_index :: u32

record outgoing_channel =
  ch_recipient :: felt
  ch_recipient_public_key :: felt
  ch_key :: felt
  ch_open :: bool
  ch_subchannels :: "(felt, subchannel) btree"

text \<open>\<open>while ... { next += 1 }\<close> on a \<open>u32\<close>: overflow at \<open>2^32\<close> is a panic.\<close>

function next_note_loop :: "'pt pool_ctx \<Rightarrow> felt \<Rightarrow> felt \<Rightarrow> nat \<Rightarrow> strk20_error + nat" where
  "next_note_loop X ck token n =
     (if 2 ^ 32 \<le> n then Err Panic
      else bindE (note_packed_value X (note_id (px_poseidon X) ck token (word_of_nat n))) (\<lambda>packed.
           if packed \<noteq> 0 then next_note_loop X ck token (Suc n) else Ok n))"
  by pat_completeness auto
termination
  by (relation "measure (\<lambda>(X, ck, t, n). 2 ^ 32 - n)") auto

function own_subchannels_loop ::
  "'pt pool_ctx \<Rightarrow> felt \<Rightarrow> nat \<Rightarrow> (felt, subchannel) btree \<Rightarrow> strk20_error + (felt, subchannel) btree" where
  "own_subchannels_loop X ck n subs =
     bindE (index_u32 n) (\<lambda>k.
     bindE (subchannel_info X (subchannel_id (px_poseidon X) ck k)) (\<lambda>sub.
     if sub_salt sub = 0 then Ok subs
     else
       (let token = decrypt_subchannel_token (px_poseidon X) sub ck k
        in bindE (next_note_loop X ck token 0) (\<lambda>next.
           own_subchannels_loop X ck (Suc n)
             (bt_insert token \<lparr>sc_index = k, sc_next_note_index = word_of_nat next\<rparr> subs)))))"
  by pat_completeness auto
termination
  by (relation "measure (\<lambda>(X, ck, n, subs). 2 ^ 32 - n)") (auto simp: index_u32_Ok)

declare next_note_loop.simps [simp del] own_subchannels_loop.simps [simp del]

definition discover_channel ::
  "'pt pool_ctx \<Rightarrow> felt \<Rightarrow> felt \<Rightarrow> felt \<Rightarrow> strk20_error + outgoing_channel" where
  "discover_channel X user user_sk recipient =
     bindE (registered_public_key X recipient) (\<lambda>pk.
     bindE (ok_or (PoolNotRegistered recipient) pk) (\<lambda>recipient_public_key.
     let ck = channel_key (px_poseidon X) user user_sk recipient recipient_public_key;
         marker = channel_marker (px_poseidon X) ck user recipient recipient_public_key
     in bindE (flag X ''channel_exists'' marker) (\<lambda>is_open.
        bindE (if is_open then own_subchannels_loop X ck 0 [] else Ok []) (\<lambda>subs.
        Ok \<lparr>ch_recipient = recipient, ch_recipient_public_key = recipient_public_key,
            ch_key = ck, ch_open = is_open, ch_subchannels = subs\<rparr>))))"

function outgoing_count_loop :: "'pt pool_ctx \<Rightarrow> felt \<Rightarrow> felt \<Rightarrow> nat \<Rightarrow> strk20_error + nat" where
  "outgoing_count_loop X user user_sk n =
     bindE (index_u32 n) (\<lambda>s.
     bindE (view X ''get_outgoing_channel_info''
              [outgoing_channel_id (px_poseidon X) user user_sk s] 2) (\<lambda>out.
     let info = \<lparr>out_salt = out ! 0, enc_recipient_addr = out ! 1\<rparr>
     in if out_salt info = 0 then Ok n else outgoing_count_loop X user user_sk (Suc n)))"
  by pat_completeness auto
termination
  by (relation "measure (\<lambda>(X, u, sk, n). 2 ^ 32 - n)") (auto simp: index_u32_Ok)

declare outgoing_count_loop.simps [simp del]

definition outgoing_channel_count :: "'pt pool_ctx \<Rightarrow> felt \<Rightarrow> felt \<Rightarrow> strk20_error + u32" where
  "outgoing_channel_count X user user_sk = bindE (outgoing_count_loop X user user_sk 0) (\<lambda>s. Ok (word_of_nat s))"

section \<open>What a scan returns\<close>

text \<open>Counting the occupied slots: the result is the first empty slot.\<close>

locale slot_scan =
  fixes occupied :: "'x \<Rightarrow> nat \<Rightarrow> 'e + bool"
    and scan :: "'x \<Rightarrow> nat \<Rightarrow> 'e + nat"
    and overflow :: 'e
  assumes scan_step: "scan x n =
    (if 2 ^ 32 \<le> n then Err overflow
     else bindE (occupied x n) (\<lambda>occ. if occ then scan x (Suc n) else Ok n))"
begin

lemma scan_Ok:
  "scan x n = Ok m \<longleftrightarrow>
     n \<le> m \<and> m < 2 ^ 32 \<and> occupied x m = Ok False \<and> (\<forall>i \<in> {n..<m}. occupied x i = Ok True)"
proof (induction "2 ^ 32 - n" arbitrary: n rule: less_induct)
  case less
  have Suc_split: "{n..<m} = insert n {Suc n..<m}" if "n < m" using that by auto
  show ?case
  proof (cases "n < 2 ^ 32 \<and> occupied x n = Ok True")
    case True
    then have "scan x n = scan x (Suc n)" using scan_step [of x n] by simp
    moreover have "scan x (Suc n) = Ok m \<longleftrightarrow> Suc n \<le> m \<and> m < 2 ^ 32 \<and> occupied x m = Ok False
        \<and> (\<forall>i \<in> {Suc n..<m}. occupied x i = Ok True)"
      using True by (intro less.hyps) linarith
    moreover have "n \<noteq> m" if "occupied x m = Ok False" using True that by auto
    ultimately show ?thesis using True Suc_split by (cases "n < m") auto
  next
    case False
    then have "scan x n = Ok m \<longleftrightarrow> n < 2 ^ 32 \<and> occupied x n = Ok False \<and> m = n"
      using scan_step [of x n] by (auto simp: result_simps)
    then show ?thesis using False Suc_split by (cases "n < m") auto
  qed
qed

lemma scan_unique: "scan x n = Ok m \<Longrightarrow> occupied x k = Ok False \<Longrightarrow> n \<le> k \<Longrightarrow> m \<le> k"
  by (fastforce simp: scan_Ok intro: ccontr)

end

text \<open>Collecting from the occupied slots up to the first empty one.\<close>

locale slot_collect =
  fixes slot :: "'x \<Rightarrow> nat \<Rightarrow> 'e + 'y list option"
    and loop :: "'x \<Rightarrow> nat \<Rightarrow> 'y list \<Rightarrow> 'e + 'y list"
    and overflow :: 'e
  assumes loop_step: "loop x n acc =
    (if 2 ^ 32 \<le> n then Err overflow
     else bindE (slot x n) (\<lambda>r. case r of None \<Rightarrow> Ok acc | Some new \<Rightarrow> loop x (Suc n) (acc @ new)))"
begin

lemma loop_acc: "loop x n acc = bindE (loop x n []) (\<lambda>ys. Ok (acc @ ys))"
proof (induction "2 ^ 32 - n" arbitrary: n acc rule: less_induct)
  case less
  show ?case
  proof (cases "2 ^ 32 \<le> n")
    case True
    then show ?thesis using loop_step [of x n acc] loop_step [of x n "[]"] by simp
  next
    case False
    have IH: "loop x (Suc n) a = bindE (loop x (Suc n) []) (\<lambda>ys. Ok (a @ ys))" for a
      using False by (intro less.hyps) linarith
    show ?thesis
    proof (cases "slot x n")
      case (Inl e)
      then show ?thesis using False loop_step [of x n acc] loop_step [of x n "[]"] by simp
    next
      case (Inr r)
      show ?thesis
      proof (cases r)
        case None
        then show ?thesis using Inr False loop_step [of x n acc] loop_step [of x n "[]"] by simp
      next
        case (Some new)
        have "loop x n acc = loop x (Suc n) (acc @ new)" "loop x n [] = loop x (Suc n) new"
          using Some Inr False loop_step [of x n acc] loop_step [of x n "[]"] by simp_all
        then show ?thesis
          using IH [of "acc @ new"] IH [of new] by (cases "loop x (Suc n) []") simp_all
      qed
    qed
  qed
qed

lemma loop_Ok:
  "loop x n [] = Ok ys \<Longrightarrow>
     \<exists>m. n \<le> m \<and> m < 2 ^ 32 \<and> slot x m = Ok None
       \<and> (\<forall>i \<in> {n..<m}. \<exists>new. slot x i = Ok (Some new))
       \<and> set ys = (\<Union>i \<in> {n..<m}. \<Union>{set new |new. slot x i = Ok (Some new)})"
proof (induction "2 ^ 32 - n" arbitrary: n ys rule: less_induct)
  case less
  from less.prems have n: "n < 2 ^ 32" using loop_step [of x n "[]"] by (auto split: if_splits)
  then obtain r where r: "slot x n = Ok r"
    using less.prems loop_step [of x n "[]"] by (auto simp: result_simps)
  show ?case
  proof (cases r)
    case None
    then have "ys = []" using less.prems loop_step [of x n "[]"] n r by simp
    then show ?thesis using n r None by (intro exI [of _ n]) simp
  next
    case (Some new)
    then have "loop x (Suc n) new = Ok ys" using less.prems loop_step [of x n "[]"] n r by simp
    then obtain zs where zs: "loop x (Suc n) [] = Ok zs" "ys = new @ zs"
      using loop_acc [of x "Suc n" new] by (auto simp: result_simps)
    have "2 ^ 32 - Suc n < 2 ^ 32 - n" using n by simp
    then obtain m where m: "Suc n \<le> m" "m < 2 ^ 32" "slot x m = Ok None"
        "\<forall>i \<in> {Suc n..<m}. \<exists>new. slot x i = Ok (Some new)"
        "set zs = (\<Union>i \<in> {Suc n..<m}. \<Union>{set new |new. slot x i = Ok (Some new)})"
      using less.hyps zs(1) by blast
    have split: "{n..<m} = insert n {Suc n..<m}" using m(1) by auto
    have head: "\<Union>{set new |new. slot x n = Ok (Some new)} = set new" using r Some by auto
    have "set ys = (\<Union>i \<in> {n..<m}. \<Union>{set new |new. slot x i = Ok (Some new)})"
      by (simp only: split zs(2) UN_insert head set_append m(5))
    moreover have "\<forall>i \<in> {n..<m}. \<exists>new. slot x i = Ok (Some new)"
      using m(4) r Some by (simp only: split ball_simps) blast
    ultimately show ?thesis using m(1-3) by (intro exI [of _ m]) simp
  qed
qed

text \<open>Membership, for any notion \<open>occ\<close> of an occupied slot.\<close>

lemma loop_bound:
  assumes loop: "loop x 0 [] = Ok ys"
    and occ: "\<And>i new. slot x i = Ok (Some new) \<Longrightarrow> occ i" "\<And>i. slot x i = Ok None \<Longrightarrow> \<not> occ i"
  obtains m where "m < 2 ^ 32" "\<And>i. i < m \<longleftrightarrow> (\<forall>j \<le> i. occ j)"
    "\<And>i. i < m \<Longrightarrow> \<exists>new. slot x i = Ok (Some new)"
    "\<And>y. y \<in> set ys \<longleftrightarrow> (\<exists>i < m. \<exists>new. slot x i = Ok (Some new) \<and> y \<in> set new)"
proof -
  obtain m where m: "m < 2 ^ 32" "slot x m = Ok None"
    "\<forall>i \<in> {0..<m}. \<exists>new. slot x i = Ok (Some new)"
    "set ys = (\<Union>i \<in> {0..<m}. \<Union>{set new |new. slot x i = Ok (Some new)})"
    using loop_Ok [OF loop] by blast
  have "i < m \<longleftrightarrow> (\<forall>j \<le> i. occ j)" for i
    using m(2,3) occ by (metis atLeast0LessThan le_less_trans lessThan_iff linorder_not_less)
  moreover have "y \<in> set ys \<longleftrightarrow> (\<exists>i < m. \<exists>new. slot x i = Ok (Some new) \<and> y \<in> set new)" for y
    unfolding m(4) by fastforce
  ultimately show thesis using m(1,3) by (intro that [of m]) auto
qed

lemma loop_mem:
  assumes "loop x 0 [] = Ok ys"
    and "\<And>i new. slot x i = Ok (Some new) \<Longrightarrow> occ i" "\<And>i. slot x i = Ok None \<Longrightarrow> \<not> occ i"
  shows "y \<in> set ys \<longleftrightarrow>
    (\<exists>i < 2 ^ 32. (\<forall>j \<le> i. occ j) \<and> (\<exists>new. slot x i = Ok (Some new) \<and> y \<in> set new))"
proof (rule loop_bound [OF assms])
  fix m
  assume m: "m < 2 ^ 32" "\<And>i. i < m \<longleftrightarrow> (\<forall>j \<le> i. occ j)"
    "\<And>y. y \<in> set ys \<longleftrightarrow> (\<exists>i < m. \<exists>new. slot x i = Ok (Some new) \<and> y \<in> set new)"
  have "i < 2 ^ 32" if "i < m" for i using that m(1) by (rule less_trans)
  then show ?thesis unfolding m(3) using m(2) by blast
qed

lemma loop_defined:
  assumes "loop x 0 [] = Ok ys"
    and "\<And>i new. slot x i = Ok (Some new) \<Longrightarrow> occ i" "\<And>i. slot x i = Ok None \<Longrightarrow> \<not> occ i"
    and "\<forall>j \<le> i. occ j"
  shows "\<exists>new. slot x i = Ok (Some new)"
  using assms(4) by (rule_tac loop_bound [OF assms(1-3)]) blast+

end

section \<open>The loops as scans\<close>

definition note_at ::
  "'pt pool_ctx \<times> felt \<times> channel_info \<times> felt \<Rightarrow> nat \<Rightarrow> strk20_error + pool_note list option" where
  "note_at = (\<lambda>(X, user_sk, channel, token) n.
     let i = word_of_nat n; nid = note_id (px_poseidon X) (key channel) token i
     in bindE (note_packed_value X nid) (\<lambda>packed.
        case decrypt_note_value (px_poseidon X) packed (key channel) token i of
          None \<Rightarrow> Ok None
        | Some value \<Rightarrow>
            bindE (flag X ''nullifier_exists'' (nullifier (px_poseidon X) (key channel) token i user_sk))
              (\<lambda>spent. Ok (Some (if spent then []
                 else [\<lparr>note_id_of = nid, note_token = token, note_amount = nv_amount value,
                        note_channel_key = key channel, note_index = i,
                        note_sender = sender channel, note_open = nv_open value\<rparr>])))))"

definition subchannel_at ::
  "'pt pool_ctx \<times> felt \<times> felt list \<times> channel_info \<Rightarrow> nat \<Rightarrow> strk20_error + pool_note list option" where
  "subchannel_at = (\<lambda>(X, user_sk, tokens, channel) n.
     let k = word_of_nat n
     in bindE (subchannel_info X (subchannel_id (px_poseidon X) (key channel) k)) (\<lambda>sub.
        let token = decrypt_subchannel_token (px_poseidon X) sub (key channel) k
        in if sub_salt sub = 0 then Ok None
           else if tokens \<noteq> [] \<and> token \<notin> set tokens then Ok (Some [])
           else bindE (note_loop X user_sk channel token 0 []) (\<lambda>ns. Ok (Some ns))))"

definition own_note_occupied :: "'pt pool_ctx \<times> felt \<times> felt \<Rightarrow> nat \<Rightarrow> strk20_error + bool" where
  "own_note_occupied = (\<lambda>(X, ck, token) n.
     bindE (note_packed_value X (note_id (px_poseidon X) ck token (word_of_nat n))) (\<lambda>v. Ok (v \<noteq> 0)))"

definition outgoing_occupied :: "'pt pool_ctx \<times> felt \<times> felt \<Rightarrow> nat \<Rightarrow> strk20_error + bool" where
  "outgoing_occupied = (\<lambda>(X, user, user_sk) n.
     bindE (view X ''get_outgoing_channel_info''
       [outgoing_channel_id (px_poseidon X) user user_sk (word_of_nat n)] 2) (\<lambda>out. Ok (out ! 0 \<noteq> 0)))"

lemma bindE_assoc: "bindE (bindE m f) g = bindE m (\<lambda>x. bindE (f x) g)"
  by (cases m) simp_all

interpretation spend: slot_collect note_at "\<lambda>(X, sk, c, t). note_loop X sk c t" "ReadError ''index overflow''"
proof
  fix x :: "'a pool_ctx \<times> felt \<times> channel_info \<times> felt" and n acc
  obtain X sk c t where x: "x = (X, sk, c, t)" by (cases x)
  show "(case x of (X, sk, c, t) \<Rightarrow> note_loop X sk c t) n acc
    = (if 2 ^ 32 \<le> n then Err (ReadError ''index overflow'')
       else bindE (note_at x n) (\<lambda>r. case r of None \<Rightarrow> Ok acc
         | Some new \<Rightarrow> (case x of (X, sk, c, t) \<Rightarrow> note_loop X sk c t) (Suc n) (acc @ new)))"
    unfolding x prod.case note_at_def
    by (subst note_loop.simps)
      (auto simp: index_u32_def bindE_assoc Let_def bindE_def simp del: decrypt_note_value_None
        split: option.splits sum.splits)
qed

interpretation own_notes: slot_scan own_note_occupied "\<lambda>(X, ck, t). next_note_loop X ck t" Panic
proof
  fix x :: "'a pool_ctx \<times> felt \<times> felt" and n
  obtain X ck t where x: "x = (X, ck, t)" by (cases x)
  show "(case x of (X, ck, t) \<Rightarrow> next_note_loop X ck t) n
    = (if 2 ^ 32 \<le> n then Err Panic
       else bindE (own_note_occupied x n) (\<lambda>occ. if occ
         then (case x of (X, ck, t) \<Rightarrow> next_note_loop X ck t) (Suc n) else Ok n))"
    unfolding x prod.case own_note_occupied_def
    by (subst next_note_loop.simps) (simp add: bindE_assoc)
qed

interpretation outgoing: slot_scan outgoing_occupied "\<lambda>(X, u, sk). outgoing_count_loop X u sk"
  "ReadError ''index overflow''"
proof
  fix x :: "'a pool_ctx \<times> felt \<times> felt" and n
  obtain X u sk where x: "x = (X, u, sk)" by (cases x)
  show "(case x of (X, u, sk) \<Rightarrow> outgoing_count_loop X u sk) n
    = (if 2 ^ 32 \<le> n then Err (ReadError ''index overflow'')
       else bindE (outgoing_occupied x n) (\<lambda>occ. if occ
         then (case x of (X, u, sk) \<Rightarrow> outgoing_count_loop X u sk) (Suc n) else Ok n))"
    unfolding x prod.case outgoing_occupied_def
    by (subst outgoing_count_loop.simps)
      (auto simp: index_u32_def bindE_assoc Let_def bindE_def split: sum.splits)
qed

lemma note_loop_acc:
  "note_loop X sk c t n acc = bindE (note_loop X sk c t n []) (\<lambda>ns. Ok (acc @ ns))"
  using spend.loop_acc [of "(X, sk, c, t)" n acc] by simp

interpretation subs: slot_collect subchannel_at "\<lambda>(X, sk, ts, c). subchannel_loop X sk ts c"
  "ReadError ''index overflow''"
proof
  fix x :: "'a pool_ctx \<times> felt \<times> felt list \<times> channel_info" and n acc
  obtain X sk ts c where x: "x = (X, sk, ts, c)" by (cases x)
  have acc: "bindE (note_loop X sk c t 0 acc) f = bindE (note_loop X sk c t 0 []) (\<lambda>ns. f (acc @ ns))"
    for t and f :: "_ \<Rightarrow> strk20_error + pool_note list"
    by (subst note_loop_acc) (simp add: bindE_assoc)
  show "(case x of (X, sk, ts, c) \<Rightarrow> subchannel_loop X sk ts c) n acc
    = (if 2 ^ 32 \<le> n then Err (ReadError ''index overflow'')
       else bindE (subchannel_at x n) (\<lambda>r. case r of None \<Rightarrow> Ok acc
         | Some new \<Rightarrow> (case x of (X, sk, ts, c) \<Rightarrow> subchannel_loop X sk ts c) (Suc n) (acc @ new)))"
    unfolding x prod.case subchannel_at_def
    by (subst subchannel_loop.simps)
      (auto simp: index_u32_def bindE_assoc Let_def acc if_distrib intro!: bindE_cong)
qed

lemma subchannel_loop_acc:
  "subchannel_loop X sk ts c n acc = bindE (subchannel_loop X sk ts c n []) (\<lambda>ns. Ok (acc @ ns))"
  using subs.loop_acc [of "(X, sk, ts, c)" n acc] by simp

section \<open>Discovery finds exactly the spendable notes\<close>

definition channel_info_at :: "'pt pool_ctx \<Rightarrow> felt \<Rightarrow> felt \<Rightarrow> u64 \<Rightarrow> strk20_error + channel_info" where
  "channel_info_at X user user_sk c =
     bindE (view X ''get_channel_info'' [user, felt_of_word c] 3) (\<lambda>out.
     decrypt_channel_info (px_poseidon X) (px_curve X)
       \<lparr>ephemeral_pubkey = out ! 0, enc_channel_key = out ! 1, enc_sender_addr = out ! 2\<rparr> user_sk)"

definition subchannel_token_at :: "'pt pool_ctx \<Rightarrow> channel_info \<Rightarrow> nat \<Rightarrow> strk20_error + felt option" where
  "subchannel_token_at X c n =
     bindE (subchannel_info X (subchannel_id (px_poseidon X) (key c) (word_of_nat n))) (\<lambda>sub.
     Ok (if sub_salt sub = 0 then None
         else Some (decrypt_subchannel_token (px_poseidon X) sub (key c) (word_of_nat n))))"

definition note_value_at ::
  "'pt pool_ctx \<Rightarrow> channel_info \<Rightarrow> felt \<Rightarrow> nat \<Rightarrow> strk20_error + note_value option" where
  "note_value_at X c token n =
     bindE (note_packed_value X (note_id (px_poseidon X) (key c) token (word_of_nat n))) (\<lambda>packed.
     Ok (decrypt_note_value (px_poseidon X) packed (key c) token (word_of_nat n)))"

text \<open>
  A note is spendable when it lies before the first empty note of a subchannel that lies
  before the first empty subchannel of one of the user's channels, and its nullifier is unused.
\<close>

definition note_in_subchannel :: "'pt pool_ctx \<Rightarrow> felt \<Rightarrow> channel_info \<Rightarrow> felt \<Rightarrow> pool_note \<Rightarrow> bool" where
  "note_in_subchannel X user_sk c token nt \<longleftrightarrow>
     (\<exists>i < 2 ^ 32. (\<forall>j \<le> i. \<exists>v. note_value_at X c token j = Ok (Some v))
        \<and> flag X ''nullifier_exists''
            (nullifier (px_poseidon X) (key c) token (word_of_nat i) user_sk) = Ok False
        \<and> (\<exists>v. note_value_at X c token i = Ok (Some v)
           \<and> nt = \<lparr>note_id_of = note_id (px_poseidon X) (key c) token (word_of_nat i),
                   note_token = token, note_amount = nv_amount v, note_channel_key = key c,
                   note_index = word_of_nat i, note_sender = sender c, note_open = nv_open v\<rparr>))"

definition note_in_channel :: "'pt pool_ctx \<Rightarrow> felt \<Rightarrow> felt list \<Rightarrow> channel_info \<Rightarrow> pool_note \<Rightarrow> bool" where
  "note_in_channel X user_sk tokens c nt \<longleftrightarrow>
     (\<exists>k < 2 ^ 32. (\<forall>j \<le> k. \<exists>token. subchannel_token_at X c j = Ok (Some token))
        \<and> (\<exists>token. subchannel_token_at X c k = Ok (Some token)
           \<and> (tokens = [] \<or> token \<in> set tokens) \<and> note_in_subchannel X user_sk c token nt))"

lemma note_at_eq:
  "note_at (X, sk, c, token) n = bindE (note_value_at X c token n) (\<lambda>r. case r of
     None \<Rightarrow> Ok None
   | Some v \<Rightarrow> bindE (flag X ''nullifier_exists''
         (nullifier (px_poseidon X) (key c) token (word_of_nat n) sk))
       (\<lambda>spent. Ok (Some (if spent then [] else
         [\<lparr>note_id_of = note_id (px_poseidon X) (key c) token (word_of_nat n),
           note_token = token, note_amount = nv_amount v, note_channel_key = key c,
           note_index = word_of_nat n, note_sender = sender c, note_open = nv_open v\<rparr>]))))"
  by (simp add: note_at_def note_value_at_def bindE_assoc Let_def)

lemma note_loop_mem:
  assumes "note_loop X sk c token 0 [] = Ok ns"
  shows "nt \<in> set ns \<longleftrightarrow> note_in_subchannel X sk c token nt"
proof -
  let ?occ = "\<lambda>i. \<exists>v. note_value_at X c token i = Ok (Some v)"
  have "nt \<in> set ns \<longleftrightarrow> (\<exists>i < 2 ^ 32. (\<forall>j \<le> i. ?occ j)
      \<and> (\<exists>new. note_at (X, sk, c, token) i = Ok (Some new) \<and> nt \<in> set new))"
    using assms by (intro spend.loop_mem) (auto simp: note_at_eq result_simps split: option.splits)
  moreover have "(\<exists>new. note_at (X, sk, c, token) i = Ok (Some new) \<and> nt \<in> set new) \<longleftrightarrow>
      flag X ''nullifier_exists'' (nullifier (px_poseidon X) (key c) token (word_of_nat i) sk) = Ok False
      \<and> (\<exists>v. note_value_at X c token i = Ok (Some v)
         \<and> nt = \<lparr>note_id_of = note_id (px_poseidon X) (key c) token (word_of_nat i),
                 note_token = token, note_amount = nv_amount v, note_channel_key = key c,
                 note_index = word_of_nat i, note_sender = sender c, note_open = nv_open v\<rparr>)" for i
    by (cases "note_value_at X c token i") (auto simp: note_at_eq result_simps split: option.splits if_splits)
  ultimately show ?thesis by (simp only: note_in_subchannel_def)
qed

lemma subchannel_loop_mem:
  assumes ok: "subchannel_loop X sk tokens c 0 [] = Ok ns"
  shows "nt \<in> set ns \<longleftrightarrow> note_in_channel X sk tokens c nt"
proof -
  let ?occ = "\<lambda>i. \<exists>t. subchannel_token_at X c i = Ok (Some t)"
  let ?slot = "subchannel_at (X, sk, tokens, c)"
  have loop: "(case (X, sk, tokens, c) of (X, sk, ts, c) \<Rightarrow> subchannel_loop X sk ts c) 0 [] = Ok ns"
    using ok by simp
  have occ: "?slot i = Ok (Some new) \<Longrightarrow> ?occ i" "?slot i = Ok None \<Longrightarrow> \<not> ?occ i" for i new
    by (auto simp: subchannel_at_def subchannel_token_at_def Let_def result_simps split: if_splits)
  have mem: "nt \<in> set new \<longleftrightarrow> (\<exists>t. subchannel_token_at X c i = Ok (Some t)
      \<and> (tokens = [] \<or> t \<in> set tokens) \<and> note_in_subchannel X sk c t nt)"
    if "?slot i = Ok (Some new)" for i new
    using that by (auto simp: subchannel_at_def subchannel_token_at_def Let_def result_simps
      note_loop_mem [symmetric] split: if_splits)
  have "nt \<in> set ns \<longleftrightarrow> (\<exists>i < 2 ^ 32. (\<forall>j \<le> i. ?occ j) \<and> (\<exists>new. ?slot i = Ok (Some new) \<and> nt \<in> set new))"
    using subs.loop_mem [OF loop, of ?occ] occ by blast
  also have "\<dots> \<longleftrightarrow> note_in_channel X sk tokens c nt"
    unfolding note_in_channel_def
    using mem subs.loop_defined [OF loop, of ?occ] occ by (intro ex_cong1 conj_cong refl) blast+
  finally show ?thesis .
qed

lemma channels_loop_mem:
  "channels_loop X user sk tokens cs acc = Ok ns \<Longrightarrow>
     nt \<in> set ns \<longleftrightarrow> nt \<in> set acc \<or> (\<exists>c \<in> set cs. \<exists>info. channel_info_at X user sk c = Ok info
       \<and> note_in_channel X sk tokens info nt)"
proof (induction cs arbitrary: acc)
  case Nil
  then show ?case by simp
next
  case (Cons c cs)
  obtain acc' where step: "channel_step X user sk tokens c acc = Ok acc'"
    and rest: "channels_loop X user sk tokens cs acc' = Ok ns"
    using Cons.prems by (auto simp: result_simps)
  obtain info where info: "channel_info_at X user sk c = Ok info"
    and loop: "subchannel_loop X sk tokens info 0 acc = Ok acc'"
    using step by (auto simp: channel_step_def channel_info_at_def Let_def result_simps)
  obtain new where new: "subchannel_loop X sk tokens info 0 [] = Ok new" "acc' = acc @ new"
    using loop by (subst (asm) subchannel_loop_acc) (auto simp: result_simps)
  show ?case
    using Cons.IH [OF rest] info subchannel_loop_mem [OF new(1)] by (auto simp: new(2))
qed

lemma discover_notes_mem:
  assumes "discover_notes X user sk tokens = Ok ns"
  obtains out count where
    "view X ''get_num_of_channels'' [user] 1 = Ok out" "felt_to_word (out ! 0) = Some (count :: u64)"
    "\<And>nt. nt \<in> set ns \<longleftrightarrow> (\<exists>c < count. \<exists>info. channel_info_at X user sk c = Ok info
       \<and> note_in_channel X sk tokens info nt)"
proof -
  obtain out and count :: u64 where out: "view X ''get_num_of_channels'' [user] 1 = Ok out"
    and count: "felt_to_word (out ! 0) = Some count"
    and loop: "channels_loop X user sk tokens (map word_of_nat [0..<unat count]) [] = Ok ns"
    using assms by (auto simp: discover_notes_def result_simps)
  have "set (map word_of_nat [0..<unat count]) = {c :: u64. c < count}"
  proof safe
    fix c :: u64 assume "c < count"
    then have "unat c < unat count" by (simp add: word_less_nat_alt)
    moreover have "c = word_of_nat (unat c)" by simp
    ultimately show "c \<in> set (map word_of_nat [0..<unat count])"
      unfolding set_map set_upt by (intro image_eqI [of c]) auto
  next
    fix c :: u64 assume "c \<in> set (map word_of_nat [0..<unat count])"
    then obtain n where n: "n < unat count" "c = word_of_nat n" by auto
    have "n mod 2 ^ 64 \<le> n" by simp
    then show "c < count" using n by (simp add: word_less_nat_alt unat_of_nat take_bit_eq_mod)
  qed
  then show thesis using out count channels_loop_mem [OF loop] by (intro that) auto
qed

text \<open>The count loops, from the contract of \<open>slot_scan\<close>.\<close>

lemma outgoing_channel_count_Ok:
  assumes "outgoing_channel_count X user sk = Ok w"
  shows "outgoing_occupied (X, user, sk) (unat w) = Ok False"
    and "i < unat w \<Longrightarrow> outgoing_occupied (X, user, sk) i = Ok True"
proof -
  obtain m where m: "outgoing_count_loop X user sk 0 = Ok m" and w: "w = word_of_nat m"
    using assms by (auto simp: outgoing_channel_count_def result_simps)
  have scan: "m < 2 ^ 32" "outgoing_occupied (X, user, sk) m = Ok False"
    "\<forall>i \<in> {0..<m}. outgoing_occupied (X, user, sk) i = Ok True"
    using outgoing.scan_Ok [of "(X, user, sk)" 0 m] m by simp_all
  have "unat w = m" using scan(1) by (simp add: w unat_of_nat take_bit_eq_mod)
  then show "outgoing_occupied (X, user, sk) (unat w) = Ok False"
    and "i < unat w \<Longrightarrow> outgoing_occupied (X, user, sk) i = Ok True"
    using scan by simp_all
qed

definition own_subchannels_ok ::
  "'pt pool_ctx \<Rightarrow> felt \<Rightarrow> (felt, subchannel) btree \<Rightarrow> bool" where
  "own_subchannels_ok X ck subs \<longleftrightarrow> bt_wf subs
     \<and> (\<forall>(token, s) \<in> set subs.
          own_note_occupied (X, ck, token) (unat (sc_next_note_index s)) = Ok False
          \<and> (\<forall>i < unat (sc_next_note_index s). own_note_occupied (X, ck, token) i = Ok True)
          \<and> (\<exists>sub. subchannel_info X (subchannel_id (px_poseidon X) ck (sc_index s)) = Ok sub
               \<and> sub_salt sub \<noteq> 0
               \<and> decrypt_subchannel_token (px_poseidon X) sub ck (sc_index s) = token))"

lemma own_subchannels_loop_ok:
  "own_subchannels_loop X ck n subs = Ok subs' \<Longrightarrow> own_subchannels_ok X ck subs
     \<Longrightarrow> own_subchannels_ok X ck subs'"
proof (induction X ck n subs rule: own_subchannels_loop.induct)
  case (1 X ck n subs)
  obtain sub where n: "n < 2 ^ 32"
    and sub: "subchannel_info X (subchannel_id (px_poseidon X) ck (word_of_nat n)) = Ok sub"
    using "1.prems"(1) by (subst (asm) own_subchannels_loop.simps) (auto simp: result_simps index_u32_Ok)
  have k: "index_u32 n = Ok (word_of_nat n)" using n by (simp add: index_u32_Ok)
  show ?case
  proof (cases "sub_salt sub = 0")
    case True
    then show ?thesis using "1.prems" k sub by (subst (asm) own_subchannels_loop.simps) simp
  next
    case False
    let ?token = "decrypt_subchannel_token (px_poseidon X) sub ck (word_of_nat n)"
    obtain m where m: "next_note_loop X ck ?token 0 = Ok m"
      and rest: "own_subchannels_loop X ck (Suc n)
        (bt_insert ?token \<lparr>sc_index = word_of_nat n, sc_next_note_index = word_of_nat m\<rparr> subs) = Ok subs'"
      using "1.prems"(1) False k sub
      by (subst (asm) own_subchannels_loop.simps) (auto simp: result_simps Let_def)
    have scan: "m < 2 ^ 32" "own_note_occupied (X, ck, ?token) m = Ok False"
      "\<forall>i \<in> {0..<m}. own_note_occupied (X, ck, ?token) i = Ok True"
      using own_notes.scan_Ok [of "(X, ck, ?token)" 0 m] m by simp_all
    have "unat (word_of_nat m :: u32) = m" using scan(1) by (simp add: unat_of_nat take_bit_eq_mod)
    then have "own_subchannels_ok X ck
        (bt_insert ?token \<lparr>sc_index = word_of_nat n, sc_next_note_index = word_of_nat m\<rparr> subs)"
      using "1.prems"(2) scan sub False
      by (auto simp: own_subchannels_ok_def dest!: set_bt_insert)
    then show ?thesis using "1.IH" [OF k sub False refl m] rest by simp
  qed
qed

lemma discover_channel_Ok:
  assumes "discover_channel X user sk recipient = Ok c"
  shows "registered_public_key X recipient = Ok (Some (ch_recipient_public_key c))"
    "ch_key c = channel_key (px_poseidon X) user sk recipient (ch_recipient_public_key c)"
    "ch_open c \<Longrightarrow> own_subchannels_ok X (ch_key c) (ch_subchannels c)"
    "\<not> ch_open c \<Longrightarrow> ch_subchannels c = []"
proof -
  have Nil: "own_subchannels_ok X ck []" for ck by (simp add: own_subchannels_ok_def)
  show "registered_public_key X recipient = Ok (Some (ch_recipient_public_key c))"
    "ch_key c = channel_key (px_poseidon X) user sk recipient (ch_recipient_public_key c)"
    "ch_open c \<Longrightarrow> own_subchannels_ok X (ch_key c) (ch_subchannels c)"
    "\<not> ch_open c \<Longrightarrow> ch_subchannels c = []"
    using assms own_subchannels_loop_ok [OF _ Nil]
    by (auto simp: discover_channel_def Let_def result_simps split: if_splits)
qed

end
