(* ===== verification/Strk20_Actions.thy ===== *)
theory Strk20_Actions
  imports Strk20_Hashes
begin

text \<open>
  \<open>crates/strk20/src/actions.rs\<close>: the client actions of the pool, their execution phase and
  their Cairo serialisation. The specification side is a parser of the serialised form; the
  round trip shows that the wire format determines the actions.
\<close>

datatype client_action =
    SetViewingKey (sv_random: felt)
  | OpenChannel (oc_recipient_addr: felt) (oc_index: u32) (oc_random: felt) (oc_salt: felt)
  | OpenSubchannel (os_recipient_addr: felt) (os_recipient_public_key: felt) (os_channel_key: felt)
      (os_index: u32) (os_token: felt) (os_salt: felt)
  | CreateEncNote (cn_recipient_addr: felt) (cn_recipient_public_key: felt) (cn_token: felt)
      (cn_amount: u128) (cn_index: u32) (cn_salt: u128)
  | Deposit (dp_token: felt) (dp_amount: u128)
  | UseNote (un_channel_key: felt) (un_token: felt) (un_index: u32)
  | Withdraw (wd_to_addr: felt) (wd_token: felt) (wd_amount: u128) (wd_random: felt)

datatype phase = Account | Channel | Subchannel | DepositPhase | UseNotes | CreateNotes | WithdrawPhase

fun phase_discr :: "phase \<Rightarrow> nat" where
  "phase_discr Account = 0"
| "phase_discr Channel = 1"
| "phase_discr Subchannel = 2"
| "phase_discr DepositPhase = 3"
| "phase_discr UseNotes = 4"
| "phase_discr CreateNotes = 5"
| "phase_discr WithdrawPhase = 6"

text \<open>\<open>#[derive(PartialOrd, Ord)]\<close>: the order of the discriminants.\<close>

instantiation phase :: linorder
begin

definition less_eq_phase :: "phase \<Rightarrow> phase \<Rightarrow> bool" where
  "less_eq_phase p q \<longleftrightarrow> phase_discr p \<le> phase_discr q"

definition less_phase :: "phase \<Rightarrow> phase \<Rightarrow> bool" where
  "less_phase p q \<longleftrightarrow> phase_discr p < phase_discr q"

instance
proof
  fix p q :: phase
  assume "p \<le> q" "q \<le> p"
  then have "phase_discr p = phase_discr q" by (simp add: less_eq_phase_def)
  then show "p = q" by (cases p; cases q; simp)
qed (auto simp: less_eq_phase_def less_phase_def)

end

fun variant :: "client_action \<Rightarrow> u64" where
  "variant (SetViewingKey _) = 0"
| "variant (OpenChannel _ _ _ _) = 1"
| "variant (OpenSubchannel _ _ _ _ _ _) = 2"
| "variant (CreateEncNote _ _ _ _ _ _) = 3"
| "variant (Deposit _ _) = 5"
| "variant (UseNote _ _ _) = 6"
| "variant (Withdraw _ _ _ _) = 7"

fun action_phase :: "client_action \<Rightarrow> phase" where
  "action_phase (SetViewingKey _) = Account"
| "action_phase (OpenChannel _ _ _ _) = Channel"
| "action_phase (OpenSubchannel _ _ _ _ _ _) = Subchannel"
| "action_phase (Deposit _ _) = DepositPhase"
| "action_phase (UseNote _ _ _) = UseNotes"
| "action_phase (CreateEncNote _ _ _ _ _ _) = CreateNotes"
| "action_phase (Withdraw _ _ _ _) = WithdrawPhase"

fun serialize_fields :: "client_action \<Rightarrow> felt list" where
  "serialize_fields (SetViewingKey random) = [random]"
| "serialize_fields (OpenChannel recipient_addr index random salt) =
     [recipient_addr, felt_of_word index, random, salt]"
| "serialize_fields (OpenSubchannel recipient_addr recipient_public_key ck index token salt) =
     [recipient_addr, recipient_public_key, ck, felt_of_word index, token, salt]"
| "serialize_fields (CreateEncNote recipient_addr recipient_public_key token amount index salt) =
     [recipient_addr, recipient_public_key, token, felt_of_word amount, felt_of_word index,
      felt_of_word salt]"
| "serialize_fields (Deposit token amount) = [token, felt_of_word amount]"
| "serialize_fields (UseNote ck token index) = [ck, token, felt_of_word index]"
| "serialize_fields (Withdraw to_addr token amount random) =
     [to_addr, token, felt_of_word amount, random]"

text \<open>\<open>serialize\<close> pushes onto the output vector.\<close>

definition serialize :: "client_action \<Rightarrow> felt list \<Rightarrow> felt list" where
  "serialize a out = out @ [felt_of_word (variant a)] @ serialize_fields a"

definition serialize_actions :: "client_action list \<Rightarrow> felt list" where
  "serialize_actions actions =
     foldl (\<lambda>out a. serialize a out) [felt_of_word (word_of_nat (length actions) :: u64)] actions"

section \<open>The wire format determines the actions\<close>

text \<open>The pool's reader of one action: the variant, then as many felts as it has fields.\<close>

definition tag_felt :: "u64 \<Rightarrow> felt" where
  "tag_felt v = felt_of_word v"

definition read_action :: "felt list \<Rightarrow> (client_action \<times> felt list) option" where
  "read_action xs = (case xs of [] \<Rightarrow> None | t # ys \<Rightarrow>
     if t = tag_felt 0 then (case ys of
       a # zs \<Rightarrow> Some (SetViewingKey a, zs) | _ \<Rightarrow> None)
     else if t = tag_felt 1 then (case ys of
       a # b # c # d # zs \<Rightarrow>
         Option.bind (felt_to_word b) (\<lambda>i. Some (OpenChannel a i c d, zs)) | _ \<Rightarrow> None)
     else if t = tag_felt 2 then (case ys of
       a # b # c # d # e # f # zs \<Rightarrow>
         Option.bind (felt_to_word d) (\<lambda>i. Some (OpenSubchannel a b c i e f, zs)) | _ \<Rightarrow> None)
     else if t = tag_felt 3 then (case ys of
       a # b # c # d # e # f # zs \<Rightarrow>
         Option.bind (felt_to_word d) (\<lambda>n. Option.bind (felt_to_word e) (\<lambda>i.
         Option.bind (felt_to_word f) (\<lambda>s. Some (CreateEncNote a b c n i s, zs)))) | _ \<Rightarrow> None)
     else if t = tag_felt 5 then (case ys of
       a # b # zs \<Rightarrow> Option.bind (felt_to_word b) (\<lambda>n. Some (Deposit a n, zs)) | _ \<Rightarrow> None)
     else if t = tag_felt 6 then (case ys of
       a # b # c # zs \<Rightarrow> Option.bind (felt_to_word c) (\<lambda>i. Some (UseNote a b i, zs)) | _ \<Rightarrow> None)
     else if t = tag_felt 7 then (case ys of
       a # b # c # d # zs \<Rightarrow> Option.bind (felt_to_word c) (\<lambda>n. Some (Withdraw a b n d, zs)) | _ \<Rightarrow> None)
     else None)"

fun read_n :: "nat \<Rightarrow> felt list \<Rightarrow> (client_action list \<times> felt list) option" where
  "read_n 0 xs = Some ([], xs)"
| "read_n (Suc n) xs =
     Option.bind (read_action xs) (\<lambda>(a, ys).
     Option.bind (read_n n ys) (\<lambda>(as, zs). Some (a # as, zs)))"

definition read_actions :: "felt list \<Rightarrow> (client_action list \<times> felt list) option" where
  "read_actions xs = (case xs of [] \<Rightarrow> None | n # ys \<Rightarrow> read_n (nat (felt_val n)) ys)"

lemma tag_felt_inj [simp]: "tag_felt v = tag_felt w \<longleftrightarrow> v = w"
  by (simp add: tag_felt_def)

lemma read_action_serialize:
  "read_action (felt_of_word (variant a) # serialize_fields a @ rest) = Some (a, rest)"
  by (cases a) (simp_all add: read_action_def flip: tag_felt_def)

lemma read_n_serialized:
  "read_n (length as) (concat (map (\<lambda>a. felt_of_word (variant a) # serialize_fields a) as) @ rest)
     = Some (as, rest)"
  by (induction as) (simp_all add: read_action_serialize)

lemma serialize_actions_concat:
  "serialize_actions as = felt_of_word (word_of_nat (length as) :: u64)
     # concat (map (\<lambda>a. felt_of_word (variant a) # serialize_fields a) as)"
proof -
  have "foldl (\<lambda>out a. serialize a out) out as
      = out @ concat (map (\<lambda>a. felt_of_word (variant a) # serialize_fields a) as)" for out
    by (induction as arbitrary: out) (simp_all add: serialize_def)
  then show ?thesis by (simp add: serialize_actions_def)
qed

text \<open>A slice of more than \<open>2^64\<close> actions cannot exist; below that the length prefix is exact.\<close>

lemma actions_roundtrip:
  assumes "length as < 2 ^ 64"
  shows "read_actions (serialize_actions as @ rest) = Some (as, rest)"
proof -
  have "unat (word_of_nat (length as) :: u64) = length as"
    using assms by (simp add: unat_of_nat take_bit_eq_mod)
  then have "nat (felt_val (felt_of_word (word_of_nat (length as) :: u64))) = length as"
    by (simp only: felt_val_of_u64) simp
  then show ?thesis
    by (simp add: read_actions_def serialize_actions_concat read_n_serialized)
qed

end
