(* ===== verification/Strk20_Planner.thy ===== *)
theory Strk20_Planner
  imports Strk20_Discovery Strk20_Actions "HOL-Library.Multiset"
begin

text \<open>
  \<open>crates/strk20/src/planner.rs\<close>: from an intent to an ordered batch of client actions. The
  randomness of a run is the sequence of felts and salts it draws, with the error message of
  the source's failure when a supply ends. An arithmetic overflow of the source is
  the result \<open>Panic\<close>. The specification is a \<open>ledger\<close>, the part of the pool's state that decides whether it accepts
  a batch (open channels, subchannels, next note indices).
\<close>

section \<open>Randomness\<close>

record randomness =
  rnd_felts :: "felt list"
  rnd_salts :: "u128 list"
  rnd_error :: string

definition rng_felt :: "randomness \<Rightarrow> strk20_error + (felt \<times> randomness)" where
  "rng_felt r = (case rnd_felts r of
     [] \<Rightarrow> Err (RandomError (rnd_error r))
   | f # fs \<Rightarrow> Ok (f, r\<lparr>rnd_felts := fs\<rparr>))"

definition rng_salt120 :: "randomness \<Rightarrow> strk20_error + (u128 \<times> randomness)" where
  "rng_salt120 r = (case rnd_salts r of
     [] \<Rightarrow> Err (RandomError (rnd_error r))
   | s # ss \<Rightarrow> Ok (s, r\<lparr>rnd_salts := ss\<rparr>))"

text \<open>\<open>OsRandomness\<close>: the bytes of \<open>getrandom\<close> are the argument, 31 and 15 of them.\<close>

definition os_felt :: "string + bytes \<Rightarrow> strk20_error + felt" where
  "os_felt draw = bindE (map_err RandomError draw) (\<lambda>b. Ok (felt_from_bytes_be b))"

definition os_salt120 :: "string + bytes \<Rightarrow> strk20_error + u128" where
  "os_salt120 draw = bindE (map_err RandomError draw) (\<lambda>b. Ok (u128_from_be_bytes (0 # b)))"

text \<open>A loop that rejects salts 0 and 1; it ends with the supply.\<close>

function note_salt :: "randomness \<Rightarrow> strk20_error + (u128 \<times> randomness)" where
  "note_salt r =
     bindE (rng_salt120 r) (\<lambda>(salt, r').
     if OPEN_NOTE_SALT < salt then Ok (salt, r') else note_salt r')"
  by pat_completeness auto
termination
  by (relation "measure (\<lambda>r. length (rnd_salts r))") (auto simp: rng_salt120_def split: list.splits)

declare note_salt.simps [simp del]

section \<open>Intent, state, plan\<close>

record intent =
  in_register :: bool
  in_deposits :: "(felt \<times> u128) list"
  in_transfers :: "(felt \<times> felt \<times> u128) list"
  in_withdrawals :: "(felt \<times> felt \<times> u128) list"

record plan_state =
  st_user :: felt
  st_user_sk :: felt
  st_registered :: bool
  st_outgoing_channels :: u32
  st_channels :: "(felt, outgoing_channel) btree"
  st_notes :: "pool_note list"

datatype warning = UserLinkage

record plan_result =
  pl_actions :: "client_action list"
  pl_spent :: "felt list"
  pl_change :: "(felt, u128) btree"
  pl_warnings :: "warning list"

section \<open>Balances\<close>

definition nonzero :: "u128 \<Rightarrow> strk20_error + unit" where
  "nonzero amount = (if amount = 0 then Err ZeroAmount else Ok ())"

fun all_nonzero :: "u128 list \<Rightarrow> strk20_error + unit" where
  "all_nonzero [] = Ok ()"
| "all_nonzero (a # as) = bindE (nonzero a) (\<lambda>_. all_nonzero as)"

definition signed_i128 :: "u128 \<Rightarrow> strk20_error + int" where
  "signed_i128 a = (if unat a < 2 ^ 127 then Ok (int (unat a)) else Err (ReadError ''amount exceeds i128''))"

definition i128 :: "int \<Rightarrow> strk20_error + int" where
  "i128 x = (if - (2 ^ 127) \<le> x \<and> x < 2 ^ 127 then Ok x else Err Panic)"

text \<open>The two accumulation loops, \<open>sgn\<close> being \<open>1\<close> for \<open>+=\<close> and \<open>-1\<close> for \<open>-=\<close>.\<close>

fun balance_loop :: "int \<Rightarrow> (felt \<times> u128) list \<Rightarrow> (felt, int) btree \<Rightarrow> strk20_error + (felt, int) btree" where
  "balance_loop sg [] m = Ok m"
| "balance_loop sg ((token, amount) # es) m =
     bindE (signed_i128 amount) (\<lambda>a.
     bindE (i128 (bt_get_or 0 m token + sg * a)) (\<lambda>b.
     balance_loop sg es (bt_insert token b m)))"

definition candidates :: "pool_note list \<Rightarrow> felt \<Rightarrow> pool_note list" where
  "candidates notes token =
     sort_key (\<lambda>n. - int (unat (note_amount n)))
       (filter (\<lambda>n. note_token n = token \<and> \<not> note_open n \<and> 0 < note_amount n) notes)"

fun spend_loop :: "int \<Rightarrow> pool_note list \<Rightarrow> strk20_error + (int \<times> pool_note list)" where
  "spend_loop bal [] = Ok (bal, [])"
| "spend_loop bal (n # ns) =
     (if 0 \<le> bal then Ok (bal, [])
      else bindE (signed_i128 (note_amount n)) (\<lambda>a.
           bindE (i128 (bal + a)) (\<lambda>bal'.
           bindE (spend_loop bal' ns) (\<lambda>(bal'', spent). Ok (bal'', n # spent)))))"

definition sum_u128 :: "u128 list \<Rightarrow> strk20_error + u128" where
  "sum_u128 xs = (let s = (\<Sum>x \<leftarrow> xs. unat x)
     in if s < 2 ^ 128 then Ok (word_of_nat s) else Err Panic)"

definition cover_token :: "pool_note list \<Rightarrow> felt \<Rightarrow> int \<Rightarrow> strk20_error + (int \<times> pool_note list)" where
  "cover_token notes token bal =
     (if bal < 0 then
        bindE (spend_loop bal (candidates notes token)) (\<lambda>(bal', spent).
        if bal' < 0 then
          bindE (sum_u128 (map note_amount (filter (\<lambda>n. note_token n = token) notes))) (\<lambda>available.
          Err (InsufficientBalance token (word_of_int (- bal')) available))
        else Ok (bal', spent))
      else Ok (bal, []))"

fun cover_loop ::
  "pool_note list \<Rightarrow> (felt \<times> int) list \<Rightarrow> pool_note list \<Rightarrow> (felt, u128) btree
     \<Rightarrow> strk20_error + (pool_note list \<times> (felt, u128) btree)" where
  "cover_loop notes [] spends change = Ok (spends, change)"
| "cover_loop notes ((token, bal) # es) spends change =
     bindE (cover_token notes token bal) (\<lambda>(bal', spent).
     cover_loop notes es (spends @ spent)
       (if 0 < bal' then bt_insert token (word_of_int bal') change else change))"

section \<open>Channels and notes\<close>

record build =
  b_channels :: "(felt, outgoing_channel) btree"
  b_next_channel_index :: u32
  b_open_channels :: "client_action list"
  b_open_subchannels :: "client_action list"
  b_create_notes :: "client_action list"
  b_rng :: randomness

definition u32_inc :: "u32 \<Rightarrow> strk20_error + u32" where
  "u32_inc w = (if unat w + 1 < 2 ^ 32 then Ok (w + 1) else Err Panic)"

definition ensure_channel :: "felt \<Rightarrow> build \<Rightarrow> strk20_error + build" where
  "ensure_channel recipient b =
     bindE (ok_or (PoolNotRegistered recipient) (bt_get (b_channels b) recipient)) (\<lambda>channel.
     if ch_open channel then Ok b
     else
       bindE (rng_felt (b_rng b)) (\<lambda>(random, r1).
       bindE (rng_felt r1) (\<lambda>(salt, r2).
       bindE (u32_inc (b_next_channel_index b)) (\<lambda>next.
       Ok (b\<lparr>b_open_channels := b_open_channels b
               @ [OpenChannel recipient (b_next_channel_index b) random salt],
             b_next_channel_index := next,
             b_channels := bt_insert recipient (channel\<lparr>ch_open := True\<rparr>) (b_channels b),
             b_rng := r2\<rparr>)))))"

text \<open>\<open>match channel.subchannels.get(&token)\<close>: the subchannel, opened when it is missing.\<close>

definition ensure_subchannel ::
  "felt \<Rightarrow> felt \<Rightarrow> outgoing_channel \<Rightarrow> build \<Rightarrow> strk20_error + (subchannel \<times> outgoing_channel \<times> build)" where
  "ensure_subchannel recipient token channel b =
     (let next_sub = word_of_nat (length (ch_subchannels channel)) :: u32
      in case bt_get (ch_subchannels channel) token of
           Some sub \<Rightarrow> Ok (sub, channel, b)
         | None \<Rightarrow>
             bindE (rng_felt (b_rng b)) (\<lambda>(salt, r).
             let sub = \<lparr>sc_index = next_sub, sc_next_note_index = 0\<rparr>
             in Ok (sub,
                  channel\<lparr>ch_subchannels := bt_insert token sub (ch_subchannels channel)\<rparr>,
                  b\<lparr>b_open_subchannels := b_open_subchannels b
                      @ [OpenSubchannel recipient (ch_recipient_public_key channel) (ch_key channel)
                           next_sub token salt],
                    b_rng := r\<rparr>)))"

definition add_note :: "felt \<times> felt \<times> u128 \<Rightarrow> build \<Rightarrow> strk20_error + build" where
  "add_note = (\<lambda>(recipient, token, amount) b0.
     bindE (ensure_channel recipient b0) (\<lambda>b1.
     bindE (ok_or Panic (bt_get (b_channels b1) recipient)) (\<lambda>channel.
     bindE (ensure_subchannel recipient token channel b1) (\<lambda>(sub, channel', b2).
     bindE (note_salt (b_rng b2)) (\<lambda>(salt, r).
     bindE (u32_inc (sc_next_note_index sub)) (\<lambda>next.
     Ok (b2\<lparr>b_create_notes := b_create_notes b2
               @ [CreateEncNote recipient (ch_recipient_public_key channel') token amount
                    (sc_next_note_index sub) salt],
            b_channels := bt_insert recipient
              (channel'\<lparr>ch_subchannels :=
                 bt_insert token (sub\<lparr>sc_next_note_index := next\<rparr>) (ch_subchannels channel')\<rparr>)
              (b_channels b2),
            b_rng := r\<rparr>)))))))"

fun add_notes :: "(felt \<times> felt \<times> u128) list \<Rightarrow> build \<Rightarrow> strk20_error + build" where
  "add_notes [] b = Ok b"
| "add_notes (n # ns) b = bindE (add_note n b) (add_notes ns)"

fun withdraw_loop ::
  "(felt \<times> felt \<times> u128) list \<Rightarrow> randomness \<Rightarrow> strk20_error + (client_action list \<times> randomness)" where
  "withdraw_loop [] r = Ok ([], r)"
| "withdraw_loop ((to, token, amount) # ws) r =
     bindE (rng_felt r) (\<lambda>(random, r1).
     bindE (withdraw_loop ws r1) (\<lambda>(as, r2). Ok (Withdraw to token amount random # as, r2)))"

text \<open>The \<open>register\<close> branch: the viewing key, and the channel to itself, opened at once.\<close>

definition register_step ::
  "'pt pool_ctx \<Rightarrow> plan_state \<Rightarrow> build \<Rightarrow> strk20_error + (client_action list \<times> build)" where
  "register_step X st b =
     bindE (rng_felt (b_rng b)) (\<lambda>(random, r).
     let user = st_user st;
         pk = public_key (px_curve X) (st_user_sk st);
         ck = channel_key (px_poseidon X) user (st_user_sk st) user pk;
         self = \<lparr>ch_recipient = user, ch_recipient_public_key = pk, ch_key = ck, ch_open = False,
                 ch_subchannels = []\<rparr>
     in bindE (ensure_channel user
                 (b\<lparr>b_channels := bt_insert user self (b_channels b), b_rng := r\<rparr>)) (\<lambda>b'.
        Ok ([SetViewingKey random], b')))"

fun is_open_channel :: "client_action \<Rightarrow> bool" where
  "is_open_channel (OpenChannel _ _ _ _) = True"
| "is_open_channel _ = False"

definition use_note :: "pool_note \<Rightarrow> client_action" where
  "use_note n = UseNote (note_channel_key n) (note_token n) (note_index n)"

definition plan_balances :: "intent \<Rightarrow> strk20_error + (felt, int) btree" where
  "plan_balances it =
     bindE (balance_loop 1 (in_deposits it) []) (\<lambda>m.
     balance_loop (-1) (map snd (in_transfers it @ in_withdrawals it)) m)"

definition plan :: "'pt pool_ctx \<Rightarrow> intent \<Rightarrow> plan_state \<Rightarrow> randomness \<Rightarrow> strk20_error + plan_result" where
  "plan X it st rng =
     (if \<not> in_register it \<and> \<not> st_registered st then Err (PoolNotRegistered (st_user st))
      else
        bindE (all_nonzero (map snd (in_deposits it))) (\<lambda>_.
        bindE (all_nonzero (map (snd \<circ> snd) (in_transfers it @ in_withdrawals it))) (\<lambda>_.
        bindE (plan_balances it) (\<lambda>balance.
        bindE (cover_loop (st_notes st) balance [] []) (\<lambda>(spends, change).
        let new_notes = in_transfers it @ map (\<lambda>(token, amount). (st_user st, token, amount)) change;
            b0 = \<lparr>b_channels = st_channels st, b_next_channel_index = st_outgoing_channels st,
                  b_open_channels = [], b_open_subchannels = [], b_create_notes = [], b_rng = rng\<rparr>
        in bindE (if in_register it \<and> \<not> st_registered st then register_step X st b0
                  else Ok ([], b0)) (\<lambda>(account, b1).
           bindE (add_notes new_notes b1) (\<lambda>b2.
           bindE (withdraw_loop (in_withdrawals it) (b_rng b2)) (\<lambda>(withdrawals, _).
           let actions = account @ b_open_channels b2 @ b_open_subchannels b2
                 @ map (\<lambda>(token, amount). Deposit token amount) (in_deposits it)
                 @ map use_note spends @ b_create_notes b2 @ withdrawals;
               opened = length (filter is_open_channel actions)
           in Ok \<lparr>pl_actions = actions, pl_spent = map note_id_of spends, pl_change = change,
                  pl_warnings = (if 1 < opened then [UserLinkage] else [])\<rparr>))))))))"

section \<open>Balances and covering\<close>

text \<open>The total of a token in a list of entries, and in a list of notes.\<close>

definition total :: "(felt \<times> u128) list \<Rightarrow> felt \<Rightarrow> int" where
  "total es token = (\<Sum>(t, a) \<leftarrow> es. if t = token then int (unat a) else 0)"

definition notes_total :: "pool_note list \<Rightarrow> felt \<Rightarrow> int" where
  "notes_total ns token = total (map (\<lambda>n. (note_token n, note_amount n)) ns) token"

lemma total_simps [simp]:
  "total [] t = 0"
  "total ((u, a) # es) t = (if u = t then int (unat a) else 0) + total es t"
  "total (es @ fs) t = total es t + total fs t"
  by (simp_all add: total_def)

lemma notes_total_simps [simp]:
  "notes_total [] t = 0"
  "notes_total (n # ns) t = (if note_token n = t then int (unat (note_amount n)) else 0) + notes_total ns t"
  "notes_total (ns @ ms) t = notes_total ns t + notes_total ms t"
  by (simp_all add: notes_total_def)

lemma total_nonneg: "0 \<le> total es t"
  by (induction es) auto

lemma notes_total_other: "\<forall>n \<in> set ns. note_token n \<noteq> t \<Longrightarrow> notes_total ns t = 0"
  by (induction ns) auto

lemma notes_total_all:
  "\<forall>n \<in> set ns. note_token n = t \<Longrightarrow> notes_total ns t = (\<Sum>n \<leftarrow> ns. int (unat (note_amount n)))"
  by (induction ns) auto

lemma signed_i128_Ok [result_simps]: "signed_i128 a = Ok x \<longleftrightarrow> unat a < 2 ^ 127 \<and> x = int (unat a)"
  by (auto simp: signed_i128_def)

lemma i128_Ok [result_simps]: "i128 x = Ok y \<longleftrightarrow> - (2 ^ 127) \<le> x \<and> x < 2 ^ 127 \<and> y = x"
  by (auto simp: i128_def)

definition balances_ok :: "(felt, int) btree \<Rightarrow> bool" where
  "balances_ok m \<longleftrightarrow> bt_wf m \<and> (\<forall>(t, b) \<in> set m. - (2 ^ 127) \<le> b \<and> b < 2 ^ 127)"

lemma balance_loop_Ok:
  "balance_loop sg es m = Ok m' \<Longrightarrow> balances_ok m \<Longrightarrow>
     balances_ok m' \<and> (\<forall>t. bt_get_or 0 m' t = bt_get_or 0 m t + sg * total es t)"
proof (induction sg es m rule: balance_loop.induct)
  case (1 sg m)
  then show ?case by simp
next
  case (2 sg token amount es m)
  let ?b = "bt_get_or 0 m token + sg * int (unat amount)"
  have amt: "signed_i128 amount = Ok (int (unat amount))" and b: "i128 ?b = Ok ?b"
    and rest: "balance_loop sg es (bt_insert token ?b m) = Ok m'"
    using "2.prems"(1) by (auto simp: result_simps)
  have "balances_ok (bt_insert token ?b m)"
    using "2.prems"(2) b by (auto simp: balances_ok_def result_simps dest!: set_bt_insert)
  then have "balances_ok m' \<and> (\<forall>t. bt_get_or 0 m' t
      = bt_get_or 0 (bt_insert token ?b m) t + sg * total es t)"
    using "2.IH" [OF amt b rest] by simp
  then show ?case by (auto simp: algebra_simps)
qed

lemma plan_balances_Ok:
  assumes "plan_balances it = Ok m"
  shows "balances_ok m"
    "bt_get_or 0 m t = total (in_deposits it) t - total (map snd (in_transfers it)) t
       - total (map snd (in_withdrawals it)) t"
proof -
  obtain m1 where m1: "balance_loop 1 (in_deposits it) [] = Ok m1"
    and m: "balance_loop (-1) (map snd (in_transfers it @ in_withdrawals it)) m1 = Ok m"
    using assms by (auto simp: plan_balances_def result_simps)
  have 1: "balances_ok m1 \<and> (\<forall>t. bt_get_or 0 m1 t = total (in_deposits it) t)"
    using balance_loop_Ok [OF m1] by (simp add: balances_ok_def)
  have 2: "balances_ok m \<and> (\<forall>t. bt_get_or 0 m t
      = bt_get_or 0 m1 t - total (map snd (in_transfers it @ in_withdrawals it)) t)"
    using balance_loop_Ok [OF m] 1 by simp
  from 1 2 show "balances_ok m" by simp
  from 1 2 show "bt_get_or 0 m t = total (in_deposits it) t - total (map snd (in_transfers it)) t
       - total (map snd (in_withdrawals it)) t" by simp
qed

lemma spend_loop_Ok:
  "spend_loop bal ns = Ok (bal', spent) \<Longrightarrow> bal < 2 ^ 127 \<Longrightarrow>
     bal' = bal + (\<Sum>n \<leftarrow> spent. int (unat (note_amount n))) \<and> bal' < 2 ^ 127
     \<and> (\<exists>k \<le> length ns. spent = take k ns \<and> (0 \<le> bal' \<or> k = length ns)
         \<and> (\<forall>j < k. bal + (\<Sum>n \<leftarrow> take j ns. int (unat (note_amount n))) < 0))"
proof (induction bal ns arbitrary: bal' spent rule: spend_loop.induct)
  case (1 bal)
  then show ?case by simp
next
  case (2 bal n ns)
  show ?case
  proof (cases "0 \<le> bal")
    case True
    then show ?thesis using "2.prems" by (auto intro: exI [of _ 0])
  next
    case False
    let ?a = "int (unat (note_amount n))"
    obtain sp where amt: "signed_i128 (note_amount n) = Ok ?a" and b: "i128 (bal + ?a) = Ok (bal + ?a)"
      and rest: "spend_loop (bal + ?a) ns = Ok (bal', sp)" and sp: "spent = n # sp"
      using "2.prems"(1) False by (auto simp: result_simps)
    have "bal + ?a < 2 ^ 127" using b by (simp add: i128_Ok)
    then obtain k where k: "bal' = bal + ?a + (\<Sum>n \<leftarrow> sp. int (unat (note_amount n)))" "bal' < 2 ^ 127"
      "k \<le> length ns" "sp = take k ns" "0 \<le> bal' \<or> k = length ns"
      "\<forall>j < k. bal + ?a + (\<Sum>n \<leftarrow> take j ns. int (unat (note_amount n))) < 0"
      using "2.IH" [OF False amt b rest] by blast
    have "\<forall>j < Suc k. bal + (\<Sum>n \<leftarrow> take j (n # ns). int (unat (note_amount n))) < 0"
    proof (intro allI impI)
      fix j assume "j < Suc k"
      then show "bal + (\<Sum>n \<leftarrow> take j (n # ns). int (unat (note_amount n))) < 0"
        using k(6) False by (cases j) (auto simp: add.assoc)
    qed
    moreover have "Suc k \<le> length (n # ns)" "spent = take (Suc k) (n # ns)"
      "0 \<le> bal' \<or> Suc k = length (n # ns)" using k sp by auto
    moreover have "bal' = bal + (\<Sum>n \<leftarrow> spent. int (unat (note_amount n)))" using k(1) sp by simp
    ultimately show ?thesis using k(2) by blast
  qed
qed

text \<open>The loop never overflows: it stops as soon as the balance is not negative.\<close>

lemma spend_loop_no_panic: "- (2 ^ 127) \<le> bal \<Longrightarrow> bal < 2 ^ 127 \<Longrightarrow> spend_loop bal ns \<noteq> Err Panic"
proof (induction bal ns rule: spend_loop.induct)
  case (2 bal n ns)
  show ?case
  proof (cases "\<not> 0 \<le> bal \<and> unat (note_amount n) < 2 ^ 127")
    case True
    let ?a = "int (unat (note_amount n))"
    have amt: "signed_i128 (note_amount n) = Ok ?a" using True by (simp add: signed_i128_def)
    have "int (unat (note_amount n)) < int (2 ^ 127)" using True by (simp only: of_nat_less_iff)
    then have "?a < 2 ^ 127" by (simp only: of_nat_power of_nat_numeral)
    moreover have "0 \<le> ?a" by (rule of_nat_0_le_iff)
    ultimately have range: "- (2 ^ 127) \<le> bal + ?a" "bal + ?a < 2 ^ 127"
      using True "2.prems" by linarith+
    then have b: "i128 (bal + ?a) = Ok (bal + ?a)" by (simp only: i128_def) simp
    have "spend_loop (bal + ?a) ns \<noteq> Err Panic" using "2.IH" [OF _ amt b range] True by blast
    moreover have "spend_loop bal (n # ns)
        = bindE (spend_loop (bal + ?a) ns) (\<lambda>(bal'', spent). Ok (bal'', n # spent))"
      using True by (simp only: spend_loop.simps amt b bindE_simps if_False)
    ultimately show ?thesis by (cases "spend_loop (bal + ?a) ns") (auto simp del: spend_loop.simps)
  qed (auto simp: signed_i128_def)
qed simp

lemma candidates_token: "n \<in> set (candidates notes token) \<Longrightarrow>
    n \<in> set notes \<and> note_token n = token \<and> \<not> note_open n \<and> 0 < note_amount n"
  by (simp add: candidates_def)

lemma candidates_sorted:
  "sorted (map (\<lambda>n. - int (unat (note_amount n))) (candidates notes token))"
  by (simp add: candidates_def)

lemma mset_candidates: "mset (candidates notes token) \<subseteq># mset (filter (\<lambda>n. note_token n = token) notes)"
proof -
  have "mset (candidates notes token) = filter_mset (\<lambda>n. \<not> note_open n \<and> 0 < note_amount n)
      (mset (filter (\<lambda>n. note_token n = token) notes))"
    unfolding candidates_def by (simp add: filter_filter_mset ac_simps)
  then show ?thesis by simp
qed

text \<open>What \<open>cover_token\<close> and \<open>cover_loop\<close> leave.\<close>

lemma cover_token_Ok:
  assumes "cover_token notes token bal = Ok (bal', spent)" "bal < 2 ^ 127"
  shows "0 \<le> bal'" "bal' < 2 ^ 127" "bal' = bal + notes_total spent token"
    "\<exists>k. spent = take k (candidates notes token)
       \<and> (\<forall>j < k. bal + notes_total (take j (candidates notes token)) token < 0)"
    "0 \<le> bal \<Longrightarrow> spent = []"
proof -
  have tok: "notes_total (take j (candidates notes token)) token
      = (\<Sum>n \<leftarrow> take j (candidates notes token). int (unat (note_amount n)))" for j
    using candidates_token by (intro notes_total_all) (auto dest: in_set_takeD)
  have "0 \<le> bal' \<and> bal' < 2 ^ 127 \<and> bal' = bal + notes_total spent token
    \<and> (\<exists>k. spent = take k (candidates notes token)
       \<and> (\<forall>j < k. bal + notes_total (take j (candidates notes token)) token < 0))
    \<and> (0 \<le> bal \<longrightarrow> spent = [])"
  proof (cases "bal < 0")
    case True
    then have loop: "spend_loop bal (candidates notes token) = Ok (bal', spent)" and pos: "0 \<le> bal'"
      using assms(1) by (auto simp: cover_token_def result_simps split: if_splits)
    obtain k where "spent = take k (candidates notes token)"
      "bal' = bal + (\<Sum>n \<leftarrow> spent. int (unat (note_amount n)))" "bal' < 2 ^ 127"
      "\<forall>j < k. bal + (\<Sum>n \<leftarrow> take j (candidates notes token). int (unat (note_amount n))) < 0"
      using spend_loop_Ok [OF loop assms(2)] by blast
    then show ?thesis using pos True tok by auto
  next
    case False
    then show ?thesis using assms by (auto simp: cover_token_def intro: exI [of _ 0])
  qed
  then show "0 \<le> bal'" "bal' < 2 ^ 127" "bal' = bal + notes_total spent token"
    "\<exists>k. spent = take k (candidates notes token)
       \<and> (\<forall>j < k. bal + notes_total (take j (candidates notes token)) token < 0)"
    "0 \<le> bal \<Longrightarrow> spent = []" by blast+
qed

definition cover_ok :: "pool_note list \<Rightarrow> (felt \<times> int) list \<Rightarrow> pool_note list \<Rightarrow> bool" where
  "cover_ok notes es spent \<longleftrightarrow>
     (\<forall>n \<in> set spent. note_token n \<in> fst ` set es)
     \<and> mset spent \<subseteq># mset (filter (\<lambda>n. note_token n \<in> fst ` set es) notes)
     \<and> (\<forall>(t, b) \<in> set es. \<exists>k. filter (\<lambda>n. note_token n = t) spent = take k (candidates notes t)
          \<and> (\<forall>j < k. b + notes_total (take j (candidates notes t)) t < 0))"

definition change_of :: "(felt, u128) btree \<Rightarrow> felt \<Rightarrow> int" where
  "change_of m t = int (unat (bt_get_or 0 m t))"

lemma filter_token_none: "t \<notin> note_token ` set ns \<Longrightarrow> filter (\<lambda>n. note_token n = t) ns = []"
  by (auto simp: filter_empty_conv)

lemma filter_token_all: "\<forall>n \<in> set ns. note_token n = t \<Longrightarrow> filter (\<lambda>n. note_token n = t) ns = ns"
  by (simp add: filter_id_conv)

lemma notes_total_filter: "notes_total (filter (\<lambda>n. note_token n = t) ns) t = notes_total ns t"
  by (induction ns) auto

lemma unat_u128_of_int128:
  assumes "0 \<le> x" "x < 2 ^ 128"
  shows "int (unat (word_of_int x :: u128)) = x"
proof -
  have "x mod 2 ^ 128 = x" using assms by (rule mod_pos_pos_trivial)
  then show ?thesis by (simp add: uint_word_of_int)
qed

lemma unat_u128_of_int: "0 \<le> x \<Longrightarrow> x < 2 ^ 127 \<Longrightarrow> int (unat (word_of_int x :: u128)) = x"
  by (rule unat_u128_of_int128) simp_all

lemma mset_filter_disj:
  assumes "mset a \<subseteq># mset (filter P ns)" "mset b \<subseteq># mset (filter Q ns)" "\<And>x. \<not> (P x \<and> Q x)"
  shows "mset (a @ b) \<subseteq># mset (filter (\<lambda>x. P x \<or> Q x) ns)"
proof -
  have "mset (filter (\<lambda>x. P x \<or> Q x) ns) = mset (filter P ns) + mset (filter Q ns)"
    using assms(3) by (induction ns) auto
  then show ?thesis using subset_mset.add_mono [OF assms(1,2)] by simp
qed

lemma cover_loop_Ok:
  assumes "cover_loop notes es spends change = Ok (spends', change')"
    and "sorted_wrt (<) (map fst es)" "\<forall>(t, b) \<in> set es. b < 2 ^ 127"
    and "bt_wf change" "\<forall>(t, b) \<in> set es. bt_get change t = None"
  shows "\<exists>spent. spends' = spends @ spent \<and> cover_ok notes es spent \<and> bt_wf change'
    \<and> (\<forall>(t, b) \<in> set es. change_of change' t = b + notes_total spent t)
    \<and> (\<forall>t. t \<notin> fst ` set es \<longrightarrow> bt_get change' t = bt_get change t)
    \<and> (\<forall>t a. bt_get change' t = Some a \<longrightarrow> bt_get change t = Some a \<or> 0 < a)"
  using assms
proof (induction es arbitrary: spends change)
  case Nil
  then show ?case by (simp add: cover_ok_def)
next
  case (Cons e es)
  obtain t b where e: "e = (t, b)" by (cases e)
  obtain b' sp where tok: "cover_token notes t b = Ok (b', sp)"
    and rest: "cover_loop notes es (spends @ sp)
      (if 0 < b' then bt_insert t (word_of_int b') change else change) = Ok (spends', change')"
    using Cons.prems(1) by (auto simp: e result_simps)
  let ?change = "if 0 < b' then bt_insert t (word_of_int b') change else change"
  have b: "b < 2 ^ 127" using Cons.prems(3) by (simp add: e)
  note sp = cover_token_Ok [OF tok b]
  have notin: "t \<notin> fst ` set es" using Cons.prems(2) by (auto simp: e)
  have spt: "\<forall>n \<in> set sp. note_token n = t"
    using sp(4) candidates_token by (blast dest: in_set_takeD)
  have "bt_wf ?change" using Cons.prems(4) by simp
  moreover have "\<forall>(u, c) \<in> set es. bt_get ?change u = None"
    using Cons.prems(5) notin by (fastforce simp: e image_iff)
  ultimately obtain spent where ih: "spends' = (spends @ sp) @ spent" "cover_ok notes es spent" "bt_wf change'"
    "\<forall>(u, c) \<in> set es. change_of change' u = c + notes_total spent u"
    "\<forall>u. u \<notin> fst ` set es \<longrightarrow> bt_get change' u = bt_get ?change u"
    "\<forall>u a. bt_get change' u = Some a \<longrightarrow> bt_get ?change u = Some a \<or> 0 < a"
    using Cons.IH [OF rest] Cons.prems(2,3) by (auto simp: e)
  have other: "\<forall>n \<in> set spent. note_token n \<noteq> t" using ih(2) notin by (force simp: cover_ok_def)
  have "mset (sp @ spent) \<subseteq># mset (filter (\<lambda>n. note_token n = t \<or> note_token n \<in> fst ` set es) notes)"
  proof (rule mset_filter_disj)
    obtain k where k: "sp = take k (candidates notes t)" using sp(4) by blast
    have "mset sp + mset (drop k (candidates notes t)) = mset (candidates notes t)"
      unfolding k by (simp flip: mset_append)
    then have "mset sp \<subseteq># mset (candidates notes t)" by (metis mset_subset_eq_add_left)
    then show "mset sp \<subseteq># mset (filter (\<lambda>n. note_token n = t) notes)"
      using mset_candidates subset_mset.order_trans by blast
  qed (use ih(2) notin in \<open>auto simp: cover_ok_def\<close>)
  moreover have "\<exists>k. filter (\<lambda>n. note_token n = t) (sp @ spent) = take k (candidates notes t)
      \<and> (\<forall>j < k. b + notes_total (take j (candidates notes t)) t < 0)"
    using sp(4) other by (simp add: filter_token_all [OF spt] filter_token_none image_iff)
  moreover have "filter (\<lambda>n. note_token n = u) (sp @ spent) = filter (\<lambda>n. note_token n = u) spent"
    if "(u, c) \<in> set es" for u c
    using that notin spt by (force simp: filter_empty_conv)
  ultimately have cover: "cover_ok notes (e # es) (sp @ spent)"
    using ih(2) spt unfolding cover_ok_def e by auto
  have "change_of change' t = b + notes_total (sp @ spent) t"
  proof -
    have "bt_get change t = None" using Cons.prems(5) by (simp add: e)
    then have "change_of change' t = b'"
    proof (cases "0 < b'")
      case True
      then have "bt_get change' t = Some (word_of_int b')" using ih(5) notin by simp
      then show ?thesis unfolding change_of_def bt_get_or_def
        by (simp only: option.case) (rule unat_u128_of_int [OF sp(1,2)])
    next
      case False
      then have "b' = 0" using sp(1) by linarith
      then show ?thesis using \<open>bt_get change t = None\<close> ih(5) notin
        by (simp add: change_of_def bt_get_or_def)
    qed
    then show ?thesis using sp(3) notes_total_other [OF other] by simp
  qed
  moreover have "change_of change' u = c + notes_total (sp @ spent) u" if "(u, c) \<in> set es" for u c
  proof -
    have "notes_total sp u = 0" using that notin spt by (intro notes_total_other) force
    then show ?thesis using ih(4) that by auto
  qed
  moreover have pos: "0 < a" if "bt_get ?change u = Some a" "bt_get change u \<noteq> Some a" for u a
  proof -
    have "a = word_of_int b'" "0 < b'" using that by (auto split: if_splits)
    moreover have "int (unat (word_of_int b' :: u128)) = b'" using sp(1,2) by (rule unat_u128_of_int)
    ultimately have "0 < int (unat a)" by simp
    then show "0 < a" by (simp only: of_nat_0_less_iff word_less_nat_alt unat_0)
  qed
  moreover have "\<forall>u a. bt_get change' u = Some a \<longrightarrow> bt_get change u = Some a \<or> 0 < a"
    using ih(6) pos by blast
  ultimately show ?case using ih(1,3,5) cover notin
    by (intro exI [of _ "sp @ spent"]) (auto simp: e)
qed

lemma sum_u128_Ok: "sum_u128 xs = Ok s \<Longrightarrow> int (unat s) = (\<Sum>x \<leftarrow> xs. int (unat x))"
proof -
  assume s: "sum_u128 xs = Ok s"
  then have less: "(\<Sum>x \<leftarrow> xs. unat x) < 2 ^ LENGTH(128)" and eq: "s = word_of_nat (\<Sum>x \<leftarrow> xs. unat x)"
    by (auto simp: sum_u128_def Let_def split: if_splits)
  have "unat s = (\<Sum>x \<leftarrow> xs. unat x)"
    unfolding eq unsigned_of_nat using less by (simp only: take_bit_nat_eq_self of_nat_id)
  moreover have "int (\<Sum>x \<leftarrow> xs. unat x) = (\<Sum>x \<leftarrow> xs. int (unat x))" by (induction xs) simp_all
  ultimately show ?thesis by simp
qed

lemma sum_list_token:
  "(\<Sum>x \<leftarrow> map note_amount (filter (\<lambda>n. note_token n = t) ns). int (unat x)) = notes_total ns t"
  by (induction ns) auto

lemma spend_loop_not_short: "spend_loop bal ns \<noteq> Err (InsufficientBalance t s a)"
  by (induction bal ns rule: spend_loop.induct)
    (auto simp: result_simps signed_i128_def i128_def split: if_splits)

lemma sum_u128_not_short: "sum_u128 xs \<noteq> Err (InsufficientBalance t s a)"
  by (simp add: sum_u128_def Let_def)

lemma cover_token_short:
  assumes err: "cover_token notes token bal = Err (InsufficientBalance t s a)"
    and range: "- (2 ^ 127) \<le> bal" "bal < 2 ^ 127"
  shows "t = token" "int (unat s) = - (bal + notes_total (candidates notes token) token)"
    "0 < int (unat s)" "int (unat a) = notes_total notes token"
proof -
  obtain bal' spent where loop: "spend_loop bal (candidates notes token) = Ok (bal', spent)"
    and neg: "bal' < 0" and s: "s = word_of_int (- bal')" and t: "t = token"
    and a: "sum_u128 (map note_amount (filter (\<lambda>n. note_token n = token) notes)) = Ok a"
  proof (cases "spend_loop bal (candidates notes token)")
    case (Inl e)
    then show thesis using err spend_loop_not_short [of bal "candidates notes token" t s a]
      by (auto simp: cover_token_def split: if_splits)
  next
    case (Inr r)
    obtain bal' spent where r: "r = (bal', spent)" by (cases r)
    have neg: "bal < 0" "bal' < 0" using err Inr r by (auto simp: cover_token_def split: if_splits)
    show thesis
    proof (cases "sum_u128 (map note_amount (filter (\<lambda>n. note_token n = token) notes))")
      case (Inl e)
      then have "e = InsufficientBalance t s a" using err neg Inr r by (simp add: cover_token_def)
      then show thesis using Inl sum_u128_not_short by blast
    next
      case (Inr av)
      have "InsufficientBalance token (word_of_int (- bal')) av = InsufficientBalance t s a"
        using err neg \<open>spend_loop bal (candidates notes token) = Ok r\<close> Inr r
        by (simp only: cover_token_def if_True bindE_simps prod.case sum.inject)
      then have eqs: "t = token" "s = word_of_int (- bal')" "av = a" by simp_all
      show thesis
      proof (rule that)
        show "spend_loop bal (candidates notes token) = Ok (bal', spent)"
          using \<open>spend_loop bal (candidates notes token) = Ok r\<close> r by simp
        show "sum_u128 (map note_amount (filter (\<lambda>n. note_token n = token) notes)) = Ok a"
          using Inr eqs(3) by simp
      qed (fact neg(2) eqs(2) eqs(1))+
    qed
  qed
  have all: "\<forall>n \<in> set (candidates notes token). note_token n = token" using candidates_token by blast
  obtain k where k: "bal' = bal + (\<Sum>n \<leftarrow> spent. int (unat (note_amount n)))"
    "spent = take k (candidates notes token)" "0 \<le> bal' \<or> k = length (candidates notes token)"
    using spend_loop_Ok [OF loop range(2)] by blast
  then have spent: "spent = candidates notes token" using neg by auto
  then have bal': "bal' = bal + notes_total (candidates notes token) token"
    using k(1) notes_total_all [OF all] by simp
  have nonneg: "0 \<le> notes_total (candidates notes token) token" by (simp add: notes_total_def total_nonneg)
  have "0 \<le> - bal'" using neg by linarith
  moreover have "- bal' \<le> 2 ^ 127" using bal' nonneg range(1) by linarith
  then have "- bal' < 2 ^ 128" by (rule le_less_trans) simp
  ultimately have us: "int (unat s) = - bal'" unfolding s by (rule unat_u128_of_int128)
  show "t = token" by (rule t)
  show "int (unat s) = - (bal + notes_total (candidates notes token) token)" unfolding us bal' ..
  show "0 < int (unat s)" unfolding us using neg by linarith
  show "int (unat a) = notes_total notes token"
    unfolding sum_u128_Ok [OF a] by (rule sum_list_token)
qed

lemma cover_loop_short:
  "cover_loop notes es spends change = Err (InsufficientBalance t s a) \<Longrightarrow>
     \<forall>(u, b) \<in> set es. - (2 ^ 127) \<le> b \<and> b < 2 ^ 127 \<Longrightarrow>
     \<exists>b. (t, b) \<in> set es \<and> int (unat s) = - (b + notes_total (candidates notes t) t)
       \<and> 0 < int (unat s) \<and> int (unat a) = notes_total notes t"
proof (induction es arbitrary: spends change)
  case Nil
  then show ?case by simp
next
  case (Cons e es)
  obtain u b where e: "e = (u, b)" by (cases e)
  show ?case
  proof (cases "cover_token notes u b")
    case (Inl err)
    then have tok: "cover_token notes u b = Err (InsufficientBalance t s a)"
      using Cons.prems(1) by (simp add: e)
    have range: "- (2 ^ 127) \<le> b" "b < 2 ^ 127" using Cons.prems(2) by (simp_all add: e)
    show ?thesis using cover_token_short [OF tok range] by (intro exI [of _ b] conjI) (simp_all add: e)
  next
    case (Inr r)
    obtain b' sp where r: "r = (b', sp)" by (cases r)
    have "cover_loop notes es (spends @ sp)
        (if 0 < b' then bt_insert u (word_of_int b') change else change) = Err (InsufficientBalance t s a)"
      using Cons.prems(1) Inr by (simp add: e r)
    moreover have "\<forall>(u, b) \<in> set es. - (2 ^ 127) \<le> b \<and> b < 2 ^ 127" using Cons.prems(2) by simp
    ultimately obtain b where "(t, b) \<in> set es"
      "int (unat s) = - (b + notes_total (candidates notes t) t)" "0 < int (unat s)"
      "int (unat a) = notes_total notes t"
      using Cons.IH by blast
    then show ?thesis by (intro exI [of _ b] conjI) simp_all
  qed
qed

end
