(* ===== verification/Strk20_Ledger.thy ===== *)
theory Strk20_Ledger
  imports Strk20_Planner
begin

text \<open>
  What a plan promises. Its value flow: per token, deposits and spent notes equal new notes and
  withdrawals. Its phases are in order. And the pool accepts it: the \<open>ledger\<close> is the part of the pool's
  state that decides whether an action is valid (registration, open channels, subchannels,
  next note indices), \<open>ledger_run\<close> executes a batch on it in the order given, and the plan's batch
  runs from the discovered state to the state the planner computed.
\<close>

section \<open>The parts of a plan\<close>

lemma plan_Ok:
  assumes "plan X it st rng = Ok p"
  obtains balance spends change account b1 b2 withdrawals r where
    "in_register it \<or> st_registered st"
    "all_nonzero (map snd (in_deposits it)) = Ok ()"
    "all_nonzero (map (snd \<circ> snd) (in_transfers it @ in_withdrawals it)) = Ok ()"
    "plan_balances it = Ok balance"
    "cover_loop (st_notes st) balance [] [] = Ok (spends, change)"
    "(if in_register it \<and> \<not> st_registered st
      then register_step X st
        \<lparr>b_channels = st_channels st, b_next_channel_index = st_outgoing_channels st,
         b_open_channels = [], b_open_subchannels = [], b_create_notes = [], b_rng = rng\<rparr>
      else Ok ([], \<lparr>b_channels = st_channels st, b_next_channel_index = st_outgoing_channels st,
         b_open_channels = [], b_open_subchannels = [], b_create_notes = [], b_rng = rng\<rparr>)) = Ok (account, b1)"
    "add_notes (in_transfers it @ map (\<lambda>(token, amount). (st_user st, token, amount)) change) b1 = Ok b2"
    "withdraw_loop (in_withdrawals it) (b_rng b2) = Ok (withdrawals, r)"
    "pl_actions p = account @ b_open_channels b2 @ b_open_subchannels b2
       @ map (\<lambda>(token, amount). Deposit token amount) (in_deposits it)
       @ map use_note spends @ b_create_notes b2 @ withdrawals"
    "pl_spent p = map note_id_of spends" "pl_change p = change"
    "pl_warnings p = (if 1 < length (filter is_open_channel (pl_actions p)) then [UserLinkage] else [])"
  using assms by (auto simp: plan_def result_simps Let_def case_prod_beta simp del: o_apply split: if_splits)

lemma all_nonzero_Ok: "all_nonzero as = Ok u \<longleftrightarrow> (\<forall>a \<in> set as. a \<noteq> 0)"
  by (induction as) (auto simp: nonzero_def result_simps)

lemma all_nonzero_Err: "all_nonzero as = Err e \<longleftrightarrow> e = ZeroAmount \<and> (\<exists>a \<in> set as. a = 0)"
  by (induction as) (auto simp: nonzero_def result_simps)

lemma withdraw_loop_Ok:
  "withdraw_loop ws r = Ok (as, r') \<Longrightarrow>
     map (\<lambda>a. (wd_to_addr a, wd_token a, wd_amount a)) as = ws
     \<and> (\<forall>a \<in> set as. action_phase a = WithdrawPhase)"
  by (induction ws arbitrary: r as r') (auto simp: result_simps case_prod_beta)

lemma action_phase_iff:
  "action_phase a = WithdrawPhase \<longleftrightarrow> (\<exists>to t n r. a = Withdraw to t n r)"
  "action_phase a = CreateNotes \<longleftrightarrow> (\<exists>r pk t n i s. a = CreateEncNote r pk t n i s)"
  "action_phase a = Channel \<longleftrightarrow> (\<exists>r i x s. a = OpenChannel r i x s)"
  "action_phase a = Subchannel \<longleftrightarrow> (\<exists>r pk ck i t s. a = OpenSubchannel r pk ck i t s)"
  by (cases a; simp)+

lemma note_salt_Ok: "note_salt r = Ok (s, r') \<Longrightarrow> 1 < s \<and> s \<in> set (rnd_salts r)
    \<and> set (rnd_salts r') \<subseteq> set (rnd_salts r)"
proof (induction r rule: note_salt.induct)
  case (1 r)
  obtain t ts where ts: "rnd_salts r = t # ts"
    using "1.prems" by (subst (asm) note_salt.simps) (auto simp: rng_salt120_def result_simps split: list.splits)
  show ?case
  proof (cases "OPEN_NOTE_SALT < t")
    case True
    then show ?thesis using "1.prems" ts
      by (subst (asm) note_salt.simps) (auto simp: rng_salt120_def OPEN_NOTE_SALT_def)
  next
    case False
    then have "note_salt (r\<lparr>rnd_salts := ts\<rparr>) = Ok (s, r')"
      using "1.prems" ts by (subst (asm) note_salt.simps) (simp add: rng_salt120_def)
    then show ?thesis using "1.IH" [of "(t, r\<lparr>rnd_salts := ts\<rparr>)" t "r\<lparr>rnd_salts := ts\<rparr>"] False ts
      by (auto simp: rng_salt120_def)
  qed
qed

text \<open>What one step adds to the three lists of actions.\<close>

definition build_shape :: "build \<Rightarrow> bool" where
  "build_shape b \<longleftrightarrow> (\<forall>a \<in> set (b_open_channels b). action_phase a = Channel)
     \<and> (\<forall>a \<in> set (b_open_subchannels b). action_phase a = Subchannel)
     \<and> (\<forall>a \<in> set (b_create_notes b). action_phase a = CreateNotes \<and> 1 < cn_salt a)"

definition note_goal :: "client_action \<Rightarrow> felt \<times> felt \<times> u128" where
  "note_goal a = (cn_recipient_addr a, cn_token a, cn_amount a)"

lemma ensure_channel_shape:
  "ensure_channel r b = Ok b' \<Longrightarrow> build_shape b \<Longrightarrow>
     build_shape b' \<and> b_create_notes b' = b_create_notes b \<and> rnd_salts (b_rng b') = rnd_salts (b_rng b)"
  by (auto simp: ensure_channel_def result_simps build_shape_def rng_felt_def split: if_splits list.splits)

lemma ensure_subchannel_shape:
  "ensure_subchannel r t c b = Ok (s, c', b') \<Longrightarrow> build_shape b \<Longrightarrow>
     build_shape b' \<and> b_create_notes b' = b_create_notes b \<and> rnd_salts (b_rng b') = rnd_salts (b_rng b)"
  by (auto simp: ensure_subchannel_def result_simps build_shape_def rng_felt_def Let_def
      split: option.splits list.splits)

lemma add_note_shape:
  assumes "add_note n b = Ok b'" "build_shape b"
  shows "build_shape b' \<and> map note_goal (b_create_notes b') = map note_goal (b_create_notes b) @ [n]
    \<and> set (rnd_salts (b_rng b')) \<subseteq> set (rnd_salts (b_rng b))
    \<and> cn_salt ` set (b_create_notes b') \<subseteq> cn_salt ` set (b_create_notes b) \<union> set (rnd_salts (b_rng b))"
proof -
  obtain r t a where n: "n = (r, t, a)" by (cases n)
  obtain b1 ch s ch' b2 salt rg nxt where
    b1: "ensure_channel r b = Ok b1" and b2: "ensure_subchannel r t ch b1 = Ok (s, ch', b2)"
    and salt: "note_salt (b_rng b2) = Ok (salt, rg)"
    and b': "b' = b2\<lparr>b_create_notes := b_create_notes b2
               @ [CreateEncNote r (ch_recipient_public_key ch') t a (sc_next_note_index s) salt],
            b_channels := bt_insert r (ch'\<lparr>ch_subchannels :=
                 bt_insert t (s\<lparr>sc_next_note_index := nxt\<rparr>) (ch_subchannels ch')\<rparr>) (b_channels b2),
            b_rng := rg\<rparr>"
    using assms(1) by (auto simp: add_note_def n result_simps)
  have s1: "build_shape b1 \<and> b_create_notes b1 = b_create_notes b \<and> rnd_salts (b_rng b1) = rnd_salts (b_rng b)"
    using ensure_channel_shape [OF b1 assms(2)] .
  then have "build_shape b2 \<and> b_create_notes b2 = b_create_notes b1 \<and> rnd_salts (b_rng b2) = rnd_salts (b_rng b1)"
    using ensure_subchannel_shape [OF b2] by blast
  with s1 note_salt_Ok [OF salt] show ?thesis
    by (auto simp: b' n note_goal_def build_shape_def)
qed

lemma add_notes_shape:
  "add_notes ns b = Ok b' \<Longrightarrow> build_shape b \<Longrightarrow>
     build_shape b' \<and> map note_goal (b_create_notes b') = map note_goal (b_create_notes b) @ ns
     \<and> cn_salt ` set (b_create_notes b') \<subseteq> cn_salt ` set (b_create_notes b) \<union> set (rnd_salts (b_rng b))"
proof (induction ns arbitrary: b)
  case Nil
  then show ?case by auto
next
  case (Cons n ns)
  then obtain c where c: "add_note n b = Ok c" "add_notes ns c = Ok b'" by (auto simp: result_simps)
  note step = add_note_shape [OF c(1) Cons.prems(2)]
  note rest = Cons.IH [OF c(2) conjunct1 [OF step]]
  have "cn_salt ` set (b_create_notes b') \<subseteq> cn_salt ` set (b_create_notes b) \<union> set (rnd_salts (b_rng b))"
    using step rest by blast
  then show ?case using step rest by simp
qed

lemma register_step_Ok:
  assumes "register_step X st b = Ok (acts, b')" "build_shape b" "b_create_notes b = []"
  shows "build_shape b' \<and> b_create_notes b' = [] \<and> (\<exists>random. acts = [SetViewingKey random])
    \<and> rnd_salts (b_rng b') = rnd_salts (b_rng b)"
proof -
  obtain f r0 self where f: "rng_felt (b_rng b) = Ok (f, r0)" and acts: "acts = [SetViewingKey f]"
    and b': "ensure_channel (st_user st) (b\<lparr>b_channels := bt_insert (st_user st) self (b_channels b), b_rng := r0\<rparr>) = Ok b'"
    using assms(1) by (auto simp: register_step_def Let_def result_simps)
  have "rnd_salts r0 = rnd_salts (b_rng b)" using f by (auto simp: rng_felt_def split: list.splits)
  moreover have "build_shape (b\<lparr>b_channels := bt_insert (st_user st) self (b_channels b), b_rng := r0\<rparr>)"
    using assms(2) by (simp add: build_shape_def)
  ultimately show ?thesis using ensure_channel_shape [OF b'] assms(3) acts by simp
qed

section \<open>Value flow and phases\<close>

fun deposited :: "felt \<Rightarrow> client_action \<Rightarrow> int" where
  "deposited token (Deposit t n) = (if t = token then int (unat n) else 0)"
| "deposited token _ = 0"

fun paid_out :: "felt \<Rightarrow> client_action \<Rightarrow> int" where
  "paid_out token (CreateEncNote _ _ t n _ _) = (if t = token then int (unat n) else 0)"
| "paid_out token (Withdraw _ t n _) = (if t = token then int (unat n) else 0)"
| "paid_out token _ = 0"

fun is_use_note :: "client_action \<Rightarrow> bool" where
  "is_use_note (UseNote _ _ _) = True"
| "is_use_note _ = False"

fun is_create_note :: "client_action \<Rightarrow> bool" where
  "is_create_note (CreateEncNote _ _ _ _ _ _) = True"
| "is_create_note _ = False"

definition flow :: "(client_action \<Rightarrow> int) \<Rightarrow> client_action list \<Rightarrow> int" where
  "flow f as = sum_list (map f as)"

lemma flow_simps [simp]: "flow f [] = 0" "flow f (a # as) = f a + flow f as" "flow f (as @ bs) = flow f as + flow f bs"
  by (simp_all add: flow_def)

lemma flow_phase_0:
  assumes "\<forall>a \<in> set as. action_phase a = ph" "\<And>a. action_phase a = ph \<Longrightarrow> f a = 0"
  shows "flow f as = 0"
  using assms(1) by (induction as) (auto simp: assms(2))

lemma deposited_0: "action_phase a \<noteq> DepositPhase \<Longrightarrow> deposited t a = 0"
  by (cases a) auto

lemma paid_out_0: "action_phase a \<notin> {CreateNotes, WithdrawPhase} \<Longrightarrow> paid_out t a = 0"
  by (cases a) auto

lemma use_note_phase [simp]: "action_phase (use_note n) = UseNotes"
  by (simp add: use_note_def)

lemma flow_deposits: "flow (deposited t) (map (\<lambda>(token, amount). Deposit token amount) ds) = total ds t"
  by (induction ds) auto

lemma flow_created:
  "\<forall>a \<in> set as. action_phase a = CreateNotes \<Longrightarrow> flow (paid_out t) as = total (map (snd \<circ> note_goal) as) t"
  by (induction as) (auto simp: action_phase_iff note_goal_def)

lemma flow_withdrawn:
  "\<forall>a \<in> set as. action_phase a = WithdrawPhase \<Longrightarrow>
     flow (paid_out t) as = total (map (\<lambda>a. (wd_token a, wd_amount a)) as) t"
  by (induction as) (auto simp: action_phase_iff)

lemma total_change:
  assumes "bt_wf m"
  shows "total (map (snd \<circ> (\<lambda>(token, amount). (u, token, amount))) m) t = change_of m t"
proof -
  have id: "map (snd \<circ> (\<lambda>(token, amount). (u, token, amount))) m = m" by (simp add: case_prod_beta comp_def)
  have "total m t = change_of m t" using assms
  proof (induction m)
    case Nil
    then show ?case by (simp add: change_of_def)
  next
    case (Cons e m)
    obtain k v where e: "e = (k, v)" by (cases e)
    have "total m t = change_of m t" using Cons by (simp add: bt_wf_Cons)
    moreover have "bt_get m k = None"
      using Cons.prems by (auto simp: e bt_wf_Cons bt_get_def map_of_eq_None_iff)
    ultimately show ?case by (auto simp: e change_of_def bt_get_or_def bt_get_Cons)
  qed
  then show ?thesis by (simp only: id)
qed

definition phase_is :: "phase \<Rightarrow> client_action list \<Rightarrow> bool" where
  "phase_is ph as \<longleftrightarrow> (\<forall>a \<in> set as. action_phase a = ph)"

text \<open>The eight facts about a plan that the properties below use.\<close>

lemma plan_parts:
  assumes "plan X it st rng = Ok p"
  obtains balance spends account opens subs created withdrawals where
    "plan_balances it = Ok balance"
    "cover_loop (st_notes st) balance [] [] = Ok (spends, pl_change p)"
    "pl_actions p = account @ opens @ subs @ map (\<lambda>(token, amount). Deposit token amount) (in_deposits it)
       @ map use_note spends @ created @ withdrawals"
    "phase_is Account account" "phase_is Channel opens" "phase_is Subchannel subs"
    "phase_is CreateNotes created" "phase_is WithdrawPhase withdrawals"
    "map note_goal created = in_transfers it @ map (\<lambda>(token, amount). (st_user st, token, amount)) (pl_change p)"
    "map (\<lambda>a. (wd_to_addr a, wd_token a, wd_amount a)) withdrawals = in_withdrawals it"
    "pl_spent p = map note_id_of spends"
    "\<forall>a \<in> set created. 1 < cn_salt a \<and> cn_salt a \<in> set (rnd_salts rng)"
proof (rule plan_Ok [OF assms])
  fix balance spends change account b1 b2 withdrawals r
  let ?b0 = "\<lparr>b_channels = st_channels st, b_next_channel_index = st_outgoing_channels st,
         b_open_channels = [], b_open_subchannels = [], b_create_notes = [], b_rng = rng\<rparr>"
  assume bal: "plan_balances it = Ok balance"
    and cover: "cover_loop (st_notes st) balance [] [] = Ok (spends, change)"
    and reg: "(if in_register it \<and> \<not> st_registered st then register_step X st ?b0 else Ok ([], ?b0)) = Ok (account, b1)"
    and add: "add_notes (in_transfers it @ map (\<lambda>(token, amount). (st_user st, token, amount)) change) b1 = Ok b2"
    and wd: "withdraw_loop (in_withdrawals it) (b_rng b2) = Ok (withdrawals, r)"
    and acts: "pl_actions p = account @ b_open_channels b2 @ b_open_subchannels b2
       @ map (\<lambda>(token, amount). Deposit token amount) (in_deposits it)
       @ map use_note spends @ b_create_notes b2 @ withdrawals"
    and sp: "pl_spent p = map note_id_of spends" and ch: "pl_change p = change"
  have b0: "build_shape ?b0" by (simp add: build_shape_def)
  have b1: "build_shape b1 \<and> b_create_notes b1 = [] \<and> phase_is Account account \<and> rnd_salts (b_rng b1) = rnd_salts rng"
  proof (cases "in_register it \<and> \<not> st_registered st")
    case True
    then show ?thesis using reg register_step_Ok [of X st ?b0 account b1] b0 by (auto simp: phase_is_def)
  next
    case False
    then show ?thesis using reg b0 by (auto simp: phase_is_def)
  qed
  have b2: "build_shape b2" "map note_goal (b_create_notes b2)
      = in_transfers it @ map (\<lambda>(token, amount). (st_user st, token, amount)) change"
    "cn_salt ` set (b_create_notes b2) \<subseteq> set (rnd_salts rng)"
    using add_notes_shape [OF add] b1 by auto
  show thesis
    by (rule that [of balance spends account "b_open_channels b2" "b_open_subchannels b2"
          "b_create_notes b2" withdrawals])
      (use bal cover acts b1 b2 sp ch withdraw_loop_Ok [OF wd] in \<open>auto simp: phase_is_def build_shape_def\<close>)
qed

lemma plan_cover:
  assumes "plan_balances it = Ok balance" "cover_loop notes balance [] [] = Ok (spends, change)"
  shows "cover_ok notes balance spends" "bt_wf change"
    "change_of change t = bt_get_or 0 balance t + notes_total spends t"
    "bt_get change t = Some a \<Longrightarrow> 0 < a"
proof -
  have ok: "bt_wf balance" "\<forall>(t, b) \<in> set balance. b < 2 ^ 127"
    using plan_balances_Ok(1) [OF assms(1)] by (auto simp: balances_ok_def)
  have "\<exists>spent. spends = [] @ spent \<and> cover_ok notes balance spent \<and> bt_wf change
    \<and> (\<forall>(t, b) \<in> set balance. change_of change t = b + notes_total spent t)
    \<and> (\<forall>t. t \<notin> fst ` set balance \<longrightarrow> bt_get change t = bt_get [] t)
    \<and> (\<forall>t a. bt_get change t = Some a \<longrightarrow> bt_get [] t = Some a \<or> 0 < a)"
    using ok by (intro cover_loop_Ok [OF assms(2)]) (auto simp: bt_wf_def)
  then have c: "cover_ok notes balance spends" "bt_wf change"
    "\<forall>(t, b) \<in> set balance. change_of change t = b + notes_total spends t"
    "\<forall>t. t \<notin> fst ` set balance \<longrightarrow> bt_get change t = None"
    "\<forall>t a. bt_get change t = Some a \<longrightarrow> 0 < a" by auto
  show "cover_ok notes balance spends" "bt_wf change" by (rule c)+
  show "bt_get change t = Some a \<Longrightarrow> 0 < a" using c(5) by blast
  show "change_of change t = bt_get_or 0 balance t + notes_total spends t"
  proof (cases "t \<in> fst ` set balance")
    case True
    then obtain b where b: "(t, b) \<in> set balance" by auto
    then have "bt_get balance t = Some b" using bt_entries [OF ok(1)] by simp
    then show ?thesis using c(3) b by (auto simp: bt_get_or_def)
  next
    case False
    then have "bt_get balance t = None" by (simp add: bt_get_def map_of_eq_None_iff)
    moreover have "notes_total spends t = 0"
      using False c(1) by (intro notes_total_other) (auto simp: cover_ok_def)
    ultimately show ?thesis using False c(4) by (simp add: change_of_def bt_get_or_def)
  qed
qed

lemma plan_conserves:
  assumes "plan X it st rng = Ok p"
  shows "\<exists>spends. mset spends \<subseteq># mset (st_notes st)
    \<and> (\<forall>n \<in> set spends. \<not> note_open n \<and> 0 < note_amount n)
    \<and> pl_spent p = map note_id_of spends
    \<and> filter is_use_note (pl_actions p) = map use_note spends
    \<and> (\<forall>t. flow (deposited t) (pl_actions p) + notes_total spends t = flow (paid_out t) (pl_actions p))"
proof (rule plan_parts [OF assms])
  fix balance spends account opens subs created withdrawals
  assume bal: "plan_balances it = Ok balance"
    and cover: "cover_loop (st_notes st) balance [] [] = Ok (spends, pl_change p)"
    and acts: "pl_actions p = account @ opens @ subs @ map (\<lambda>(token, amount). Deposit token amount) (in_deposits it)
       @ map use_note spends @ created @ withdrawals"
    and ph: "phase_is Account account" "phase_is Channel opens" "phase_is Subchannel subs"
      "phase_is CreateNotes created" "phase_is WithdrawPhase withdrawals"
    and created: "map note_goal created
      = in_transfers it @ map (\<lambda>(token, amount). (st_user st, token, amount)) (pl_change p)"
    and wd: "map (\<lambda>a. (wd_to_addr a, wd_token a, wd_amount a)) withdrawals = in_withdrawals it"
    and sp: "pl_spent p = map note_id_of spends"
  note c = plan_cover [OF bal cover]
  have dep: "flow (deposited t) (pl_actions p) = total (in_deposits it) t" for t
  proof -
    have "flow (deposited t) as = 0" if "phase_is q as" "q \<noteq> DepositPhase" for q as
      using that deposited_0 by (intro flow_phase_0 [of _ q]) (auto simp: phase_is_def)
    note z = this [OF ph(1)] this [OF ph(2)] this [OF ph(3)] this [OF ph(4)] this [OF ph(5)]
    have "flow (deposited t) (map use_note spends) = 0" by (rule flow_phase_0 [of _ UseNotes]) (auto simp: deposited_0)
    then show ?thesis using z by (simp add: acts flow_deposits)
  qed
  have out: "flow (paid_out t) (pl_actions p) = total (map snd (in_transfers it)) t
      + change_of (pl_change p) t + total (map snd (in_withdrawals it)) t" for t
  proof -
    have "flow (paid_out t) as = 0" if "phase_is q as" "q \<notin> {CreateNotes, WithdrawPhase}" for q as
      using that paid_out_0 by (intro flow_phase_0 [of _ q]) (auto simp: phase_is_def)
    note z = this [OF ph(1)] this [OF ph(2)] this [OF ph(3)]
    have "flow (paid_out t) (map use_note spends) = 0" by (rule flow_phase_0 [of _ UseNotes]) (auto simp: paid_out_0)
    moreover have "flow (paid_out t) (map (\<lambda>(token, amount). Deposit token amount) (in_deposits it)) = 0"
      by (rule flow_phase_0 [of _ DepositPhase]) (auto simp: paid_out_0)
    moreover have "flow (paid_out t) created = total (map (snd \<circ> note_goal) created) t"
      using ph(4) by (intro flow_created) (simp add: phase_is_def)
    moreover have "map (snd \<circ> note_goal) created = map snd (map note_goal created)" by simp
    moreover have "flow (paid_out t) withdrawals = total (map (\<lambda>a. (wd_token a, wd_amount a)) withdrawals) t"
      using ph(5) by (intro flow_withdrawn) (simp add: phase_is_def)
    moreover have "map (\<lambda>a. (wd_token a, wd_amount a)) withdrawals = map snd (in_withdrawals it)"
      unfolding wd [symmetric] by simp
    ultimately show ?thesis
      using z total_change [OF c(2), of "st_user st" t] by (simp add: acts created)
  qed
  have use: "filter is_use_note as = []" if "phase_is q as" "q \<noteq> UseNotes" for q as
    using that unfolding filter_empty_conv phase_is_def by (metis action_phase.simps(5) is_use_note.elims(2))
  note uses = use [OF ph(1)] use [OF ph(2)] use [OF ph(3)] use [OF ph(4)] use [OF ph(5)]
  have "filter is_use_note (pl_actions p) = map use_note spends"
    using uses by (simp add: acts filter_empty_conv filter_map comp_def use_note_def case_prod_beta)
  moreover have "mset spends \<subseteq># mset (st_notes st)"
    using c(1) unfolding cover_ok_def by (metis mset_filter multiset_filter_subset subset_mset.order_trans)
  moreover have "\<forall>n \<in> set spends. \<not> note_open n \<and> 0 < note_amount n"
  proof
    fix n assume n: "n \<in> set spends"
    then obtain b where "(note_token n, b) \<in> set balance" using c(1) by (force simp: cover_ok_def)
    then obtain k where "filter (\<lambda>m. note_token m = note_token n) spends
        = take k (candidates (st_notes st) (note_token n))"
      using c(1) unfolding cover_ok_def by blast
    moreover have "n \<in> set (filter (\<lambda>m. note_token m = note_token n) spends)" using n by simp
    ultimately have "n \<in> set (candidates (st_notes st) (note_token n))" by (metis in_set_takeD)
    then show "\<not> note_open n \<and> 0 < note_amount n" by (simp add: candidates_def)
  qed
  moreover have "flow (deposited t) (pl_actions p) + notes_total spends t = flow (paid_out t) (pl_actions p)" for t
    using dep [of t] out [of t] c(3) [of t] plan_balances_Ok(2) [OF bal, of t] by simp
  ultimately show ?thesis using sp by (intro exI [of _ spends]) simp
qed

lemma sorted_phase_append:
  assumes "phase_is q as" "\<forall>b \<in> set bs. q \<le> action_phase b" "sorted (map action_phase bs)"
  shows "sorted (map action_phase (as @ bs))"
proof -
  have "sorted (map action_phase as)"
    using assms(1) by (induction as) (auto simp: phase_is_def)
  then show ?thesis using assms by (auto simp: sorted_append phase_is_def)
qed

lemma plan_phases:
  assumes "plan X it st rng = Ok p"
  shows "sorted (map action_phase (pl_actions p))"
proof (rule plan_parts [OF assms])
  fix balance spends account opens subs created withdrawals
  assume acts: "pl_actions p = account @ opens @ subs @ map (\<lambda>(token, amount). Deposit token amount) (in_deposits it)
       @ map use_note spends @ created @ withdrawals"
    and ph: "phase_is Account account" "phase_is Channel opens" "phase_is Subchannel subs"
      "phase_is CreateNotes created" "phase_is WithdrawPhase withdrawals"
  have more: "phase_is DepositPhase (map (\<lambda>(token, amount). Deposit token amount) (in_deposits it))"
    "phase_is UseNotes (map use_note spends)"
    by (auto simp: phase_is_def)
  have last: "sorted (map action_phase withdrawals)"
    using sorted_phase_append [OF ph(5), of "[]"] by simp
  show ?thesis
    unfolding acts using ph more last
    by (intro sorted_phase_append) (auto simp: phase_is_def less_eq_phase_def)
qed

text \<open>Notes are spent largest first, no more of them than the deficit needs and no fewer.\<close>

lemma plan_spends:
  assumes "plan X it st rng = Ok p"
  shows "\<exists>spends. pl_spent p = map note_id_of spends \<and>
    (\<forall>t. \<exists>k. filter (\<lambda>n. note_token n = t) spends = take k (candidates (st_notes st) t)
      \<and> total (map snd (in_transfers it)) t + total (map snd (in_withdrawals it)) t
           \<le> total (in_deposits it) t + notes_total spends t
      \<and> (\<forall>j < k. total (in_deposits it) t + notes_total (take j (candidates (st_notes st) t)) t
           < total (map snd (in_transfers it)) t + total (map snd (in_withdrawals it)) t))"
proof (rule plan_parts [OF assms])
  fix balance spends account opens subs created withdrawals
  assume bal: "plan_balances it = Ok balance"
    and cover: "cover_loop (st_notes st) balance [] [] = Ok (spends, pl_change p)"
    and sp: "pl_spent p = map note_id_of spends"
  note c = plan_cover [OF bal cover]
  have wf: "bt_wf balance" using plan_balances_Ok(1) [OF bal] by (simp add: balances_ok_def)
  have enough: "total (map snd (in_transfers it)) t + total (map snd (in_withdrawals it)) t
      \<le> total (in_deposits it) t + notes_total spends t" for t
  proof -
    have "0 \<le> change_of (pl_change p) t" by (simp add: change_of_def)
    then show ?thesis using c(3) [of t] plan_balances_Ok(2) [OF bal, of t] by linarith
  qed
  have "\<exists>k. filter (\<lambda>n. note_token n = t) spends = take k (candidates (st_notes st) t)
      \<and> total (map snd (in_transfers it)) t + total (map snd (in_withdrawals it)) t
           \<le> total (in_deposits it) t + notes_total spends t
      \<and> (\<forall>j < k. total (in_deposits it) t + notes_total (take j (candidates (st_notes st) t)) t
           < total (map snd (in_transfers it)) t + total (map snd (in_withdrawals it)) t)" for t
  proof (cases "t \<in> fst ` set balance")
    case True
    then obtain b where b: "(t, b) \<in> set balance" by auto
    then have "bt_get_or 0 balance t = b" using bt_entries [OF wf] by (simp add: bt_get_or_def)
    then have eq: "b = total (in_deposits it) t - total (map snd (in_transfers it)) t
       - total (map snd (in_withdrawals it)) t" using plan_balances_Ok(2) [OF bal] by simp
    obtain k where k: "filter (\<lambda>n. note_token n = t) spends = take k (candidates (st_notes st) t)"
      "\<forall>j < k. b + notes_total (take j (candidates (st_notes st) t)) t < 0"
      using c(1) b unfolding cover_ok_def by blast
    show ?thesis
    proof (intro exI [of _ k] conjI allI impI)
      fix j assume "j < k"
      then have "b + notes_total (take j (candidates (st_notes st) t)) t < 0" using k(2) by blast
      then show "total (in_deposits it) t + notes_total (take j (candidates (st_notes st) t)) t
           < total (map snd (in_transfers it)) t + total (map snd (in_withdrawals it)) t"
        unfolding eq by linarith
    qed (rule k(1), rule enough)
  next
    case False
    then have none: "filter (\<lambda>n. note_token n = t) spends = []"
      using c(1) by (auto simp: cover_ok_def filter_empty_conv)
    show ?thesis using none by (intro exI [of _ 0]) (simp add: enough)
  qed
  then show ?thesis using sp by blast
qed

text \<open>The same without the planner's own list of candidates.\<close>

lemma sorted_candidates:
  "sorted_wrt (\<lambda>a b. note_amount b \<le> note_amount a) (candidates ns t)"
  using candidates_sorted [of ns t]
  by (auto simp: sorted_wrt_map word_le_def elim!: sorted_wrt_mono_rel [rotated])

lemma plan_spends_least:
  assumes "plan X it st rng = Ok p"
  shows "\<exists>spends. pl_spent p = map note_id_of spends \<and>
    (\<forall>t. \<exists>unspent. let taken = filter (\<lambda>n. note_token n = t) spends;
          out = total (map snd (in_transfers it)) t + total (map snd (in_withdrawals it)) t in
        mset (taken @ unspent)
          = mset (filter (\<lambda>n. note_token n = t \<and> \<not> note_open n \<and> 0 < note_amount n) (st_notes st))
      \<and> sorted_wrt (\<lambda>a b. note_amount b \<le> note_amount a) (taken @ unspent)
      \<and> out \<le> total (in_deposits it) t + notes_total taken t
      \<and> (\<forall>j < length taken. total (in_deposits it) t + notes_total (take j taken) t < out))"
proof -
  obtain spends where sp: "pl_spent p = map note_id_of spends"
    and k: "\<And>t. \<exists>k. filter (\<lambda>n. note_token n = t) spends = take k (candidates (st_notes st) t)
      \<and> total (map snd (in_transfers it)) t + total (map snd (in_withdrawals it)) t
           \<le> total (in_deposits it) t + notes_total spends t
      \<and> (\<forall>j < k. total (in_deposits it) t + notes_total (take j (candidates (st_notes st) t)) t
           < total (map snd (in_transfers it)) t + total (map snd (in_withdrawals it)) t)"
    using plan_spends [OF assms] by blast
  show ?thesis
  proof (rule exI [of _ spends], intro conjI allI sp)
    fix t
    let ?cs = "candidates (st_notes st) t"
    obtain k where taken: "filter (\<lambda>n. note_token n = t) spends = take k ?cs"
      and enough: "total (map snd (in_transfers it)) t + total (map snd (in_withdrawals it)) t
           \<le> total (in_deposits it) t + notes_total spends t"
      and least: "\<forall>j < k. total (in_deposits it) t + notes_total (take j ?cs) t
           < total (map snd (in_transfers it)) t + total (map snd (in_withdrawals it)) t"
      using k [of t] by blast
    have all: "take k ?cs @ drop k ?cs = ?cs" by simp
    have mset: "mset (take k ?cs @ drop k ?cs)
        = mset (filter (\<lambda>n. note_token n = t \<and> \<not> note_open n \<and> 0 < note_amount n) (st_notes st))"
      unfolding all by (simp add: candidates_def)
    have sorted: "sorted_wrt (\<lambda>a b. note_amount b \<le> note_amount a) (take k ?cs @ drop k ?cs)"
      unfolding all by (rule sorted_candidates)
    have "notes_total (take k ?cs) t = notes_total spends t"
      using notes_total_filter [of t spends] by (simp add: taken)
    moreover have "take j (take k ?cs) = take j ?cs" if "j < length (take k ?cs)" for j
      using that by (simp add: min_def split: if_splits)
    ultimately show "\<exists>unspent. let taken = filter (\<lambda>n. note_token n = t) spends;
          out = total (map snd (in_transfers it)) t + total (map snd (in_withdrawals it)) t in
        mset (taken @ unspent)
          = mset (filter (\<lambda>n. note_token n = t \<and> \<not> note_open n \<and> 0 < note_amount n) (st_notes st))
      \<and> sorted_wrt (\<lambda>a b. note_amount b \<le> note_amount a) (taken @ unspent)
      \<and> out \<le> total (in_deposits it) t + notes_total taken t
      \<and> (\<forall>j < length taken. total (in_deposits it) t + notes_total (take j taken) t < out)"
      unfolding taken Let_def using mset sorted enough least by (intro exI [of _ "drop k ?cs"]) auto
  qed
qed

text \<open>When the private balance is short, the error carries the exact shortfall.\<close>

lemma ensure_channel_not_short: "ensure_channel r b \<noteq> Err (InsufficientBalance t s a)"
  by (auto simp: ensure_channel_def result_simps rng_felt_def u32_inc_def split: list.splits if_splits)

lemma note_salt_not_short: "note_salt r \<noteq> Err (InsufficientBalance t s a)"
proof (induction r rule: note_salt.induct)
  case (1 r)
  then show ?case
    by (subst note_salt.simps) (auto simp: rng_salt120_def result_simps split: list.splits)
qed

lemma add_notes_not_short: "add_notes ns b \<noteq> Err (InsufficientBalance t s a)"
proof (induction ns arbitrary: b)
  case (Cons n ns)
  have "ensure_subchannel r tk c b' \<noteq> Err (InsufficientBalance t s a)" for r tk c b'
    by (auto simp: ensure_subchannel_def rng_felt_def Let_def result_simps split: option.splits list.splits)
  then have "add_note n b \<noteq> Err (InsufficientBalance t s a)"
    using ensure_channel_not_short note_salt_not_short
    by (auto simp: add_note_def result_simps u32_inc_def case_prod_beta split: if_splits)
  then show ?case using Cons by (auto simp: result_simps)
qed simp

lemma withdraw_loop_not_short: "withdraw_loop ws r \<noteq> Err (InsufficientBalance t s a)"
  by (induction ws arbitrary: r) (auto simp: result_simps rng_felt_def case_prod_beta split: list.splits)

lemma plan_balances_not_short: "plan_balances it \<noteq> Err (InsufficientBalance t s a)"
proof -
  have "balance_loop sg es m \<noteq> Err (InsufficientBalance t s a)" for sg es m
    by (induction sg es m rule: balance_loop.induct)
      (auto simp: result_simps signed_i128_def i128_def split: if_splits)
  then show ?thesis by (auto simp: plan_balances_def result_simps)
qed

lemma plan_short:
  assumes "plan X it st rng = Err (InsufficientBalance t s a)"
  shows "total (in_deposits it) t + notes_total (candidates (st_notes st) t) t + int (unat s)
      = total (map snd (in_transfers it)) t + total (map snd (in_withdrawals it)) t"
    "0 < int (unat s)" "int (unat a) = notes_total (st_notes st) t"
proof -
  have "register_step X st b \<noteq> Err (InsufficientBalance t s a)" for b
    using ensure_channel_not_short
    by (auto simp: register_step_def result_simps rng_felt_def Let_def case_prod_beta split: list.splits)
  then obtain balance where bal: "plan_balances it = Ok balance"
    and cover: "cover_loop (st_notes st) balance [] [] = Err (InsufficientBalance t s a)"
    using assms plan_balances_not_short add_notes_not_short withdraw_loop_not_short
    by (auto simp: plan_def result_simps Let_def case_prod_beta all_nonzero_Err simp del: o_apply split: if_splits)
  have ok: "balances_ok balance" by (rule plan_balances_Ok(1) [OF bal])
  have "\<forall>(u, b) \<in> set balance. - (2 ^ 127) \<le> b \<and> b < 2 ^ 127" using ok by (simp add: balances_ok_def)
  then obtain b where b: "(t, b) \<in> set balance"
    "int (unat s) = - (b + notes_total (candidates (st_notes st) t) t)"
    "0 < int (unat s)" "int (unat a) = notes_total (st_notes st) t"
    using cover_loop_short [OF cover] by blast
  have "bt_get_or 0 balance t = b" using b(1) ok by (simp add: balances_ok_def bt_entries bt_get_or_def)
  then have eq: "b = total (in_deposits it) t - total (map snd (in_transfers it)) t
       - total (map snd (in_withdrawals it)) t" using plan_balances_Ok(2) [OF bal] by simp
  show "total (in_deposits it) t + notes_total (candidates (st_notes st) t) t + int (unat s)
      = total (map snd (in_transfers it)) t + total (map snd (in_withdrawals it)) t"
    using b(2) unfolding eq by linarith
  show "0 < int (unat s)" "int (unat a) = notes_total (st_notes st) t" by (rule b)+
qed

section \<open>The pool accepts the batch\<close>

record ledger =
  lg_registered :: bool
  lg_count :: u32
  lg_open :: "felt \<Rightarrow> bool"
  lg_subs :: "felt \<Rightarrow> nat"
  lg_next :: "felt \<Rightarrow> felt \<Rightarrow> u32 option"

fun ledger_step :: "client_action \<Rightarrow> ledger \<Rightarrow> ledger option" where
  "ledger_step (SetViewingKey _) L = (if lg_registered L then None else Some (L\<lparr>lg_registered := True\<rparr>))"
| "ledger_step (OpenChannel r i _ _) L =
     (if lg_registered L \<and> \<not> lg_open L r \<and> i = lg_count L
      then Some (L\<lparr>lg_count := lg_count L + 1, lg_open := (lg_open L)(r := True)\<rparr>) else None)"
| "ledger_step (OpenSubchannel r _ _ i t _) L =
     (if lg_open L r \<and> lg_next L r t = None \<and> i = word_of_nat (lg_subs L r)
      then Some (L\<lparr>lg_subs := (lg_subs L)(r := Suc (lg_subs L r)),
                    lg_next := (lg_next L)(r := (lg_next L r)(t := Some 0))\<rparr>) else None)"
| "ledger_step (CreateEncNote r _ t _ i _) L =
     (if lg_open L r \<and> lg_next L r t = Some i
      then Some (L\<lparr>lg_next := (lg_next L)(r := (lg_next L r)(t := Some (i + 1)))\<rparr>) else None)"
| "ledger_step _ L = Some L"

fun ledger_run :: "client_action list \<Rightarrow> ledger \<Rightarrow> ledger option" where
  "ledger_run [] L = Some L"
| "ledger_run (a # as) L = Option.bind (ledger_step a L) (ledger_run as)"

definition ledger_of :: "bool \<Rightarrow> u32 \<Rightarrow> (felt, outgoing_channel) btree \<Rightarrow> ledger" where
  "ledger_of reg n channels =
     \<lparr>lg_registered = reg, lg_count = n,
      lg_open = (\<lambda>r. case bt_get channels r of None \<Rightarrow> False | Some c \<Rightarrow> ch_open c),
      lg_subs = (\<lambda>r. case bt_get channels r of None \<Rightarrow> 0 | Some c \<Rightarrow> length (ch_subchannels c)),
      lg_next = (\<lambda>r t. case bt_get channels r of None \<Rightarrow> None
                  | Some c \<Rightarrow> map_option sc_next_note_index (bt_get (ch_subchannels c) t))\<rparr>"

lemma ledger_run_append: "ledger_run (as @ bs) L = Option.bind (ledger_run as L) (ledger_run bs)"
proof (induction as arbitrary: L)
  case (Cons a as)
  then show ?case by (cases "ledger_step a L") auto
qed simp

text \<open>Subchannels and notes change neither registration nor channels; notes no subchannel.\<close>

lemma run_keeps_channels:
  "ledger_run as L = Some L' \<Longrightarrow> \<forall>a \<in> set as. action_phase a \<in> {Subchannel, CreateNotes} \<Longrightarrow>
     lg_registered L' = lg_registered L \<and> lg_count L' = lg_count L \<and> lg_open L' = lg_open L"
proof (induction as arbitrary: L)
  case (Cons a as)
  then show ?case by (cases a) (auto simp: bind_eq_Some_conv split: if_splits)
qed simp

lemma run_keeps_subs:
  "ledger_run as L = Some L' \<Longrightarrow> phase_is CreateNotes as \<Longrightarrow>
     lg_subs L' = lg_subs L \<and> (\<forall>r t. lg_next L' r t = None \<longleftrightarrow> lg_next L r t = None)"
proof (induction as arbitrary: L)
  case (Cons a as)
  then obtain r pk t n i s where a: "a = CreateEncNote r pk t n i s" by (auto simp: phase_is_def action_phase_iff)
  then show ?case using Cons by (fastforce simp: bind_eq_Some_conv phase_is_def split: if_splits)
qed simp

text \<open>Two additions commute with later phases.\<close>

definition add_open :: "felt \<Rightarrow> ledger \<Rightarrow> ledger" where
  "add_open r L = L\<lparr>lg_count := lg_count L + 1, lg_open := (lg_open L)(r := True)\<rparr>"

definition add_sub :: "felt \<Rightarrow> felt \<Rightarrow> ledger \<Rightarrow> ledger" where
  "add_sub r t L = L\<lparr>lg_subs := (lg_subs L)(r := Suc (lg_subs L r)),
     lg_next := (lg_next L)(r := (lg_next L r)(t := Some 0))\<rparr>"

lemma run_add_open:
  "ledger_run as L = Some L' \<Longrightarrow> \<forall>a \<in> set as. action_phase a \<in> {Subchannel, CreateNotes} \<Longrightarrow>
     ledger_run as (add_open r L) = Some (add_open r L')"
proof (induction as arbitrary: L)
  case (Cons a as)
  obtain L1 where L1: "ledger_step a L = Some L1" "ledger_run as L1 = Some L'"
    using Cons.prems(1) by (auto simp: bind_eq_Some_conv)
  have "ledger_step a (add_open r L) = Some (add_open r L1)"
    using L1(1) Cons.prems(2) by (cases a) (auto simp: add_open_def split: if_splits)
  then show ?case using Cons.IH [OF L1(2)] Cons.prems(2) by simp
qed simp

lemma run_add_sub:
  "ledger_run as L = Some L' \<Longrightarrow> phase_is CreateNotes as \<Longrightarrow> lg_next L' r t = None \<Longrightarrow>
     ledger_run as (add_sub r t L) = Some (add_sub r t L')"
proof (induction as arbitrary: L)
  case (Cons a as)
  obtain r' pk t' n i s where a: "a = CreateEncNote r' pk t' n i s"
    using Cons.prems(2) by (auto simp: phase_is_def action_phase_iff)
  obtain L1 where L1: "ledger_step a L = Some L1" "ledger_run as L1 = Some L'"
    using Cons.prems(1) by (auto simp: bind_eq_Some_conv)
  have as: "phase_is CreateNotes as" using Cons.prems(2) by (simp add: phase_is_def)
  have "lg_next L1 r t = None" using run_keeps_subs [OF L1(2) as] Cons.prems(3) by simp
  then have "(r', t') \<noteq> (r, t)" using L1(1) by (auto simp: a split: if_splits)
  then have "ledger_step a (add_sub r t L) = Some (add_sub r t L1)"
    using L1(1) by (auto simp: a add_sub_def fun_upd_def fun_eq_iff split: if_splits)
  then show ?case using Cons.IH [OF L1(2) as Cons.prems(3)] by simp
qed simp

lemma length_bt_insert_None: "bt_get m k = None \<Longrightarrow> length (bt_insert k v m) = Suc (length m)"
  by (induction k v m rule: bt_insert.induct) (auto simp: bt_get_Cons split: if_splits)

lemma length_bt_insert_Some: "bt_wf m \<Longrightarrow> bt_get m k = Some u \<Longrightarrow> length (bt_insert k v m) = length m"
proof (induction k v m rule: bt_insert.induct)
  case (2 k v j u m)
  have "\<not> k < j" if "bt_get m k = Some w" for w
    using 2(2) that by (auto simp: bt_wf_Cons bt_get_def dest!: map_of_SomeD)
  with 2 show ?case by (auto simp: bt_get_Cons bt_wf_Cons split: if_splits)
qed simp

text \<open>The lists built so far run, phase by phase, from \<open>L0\<close> to the ledger of the channels.\<close>

definition builds :: "ledger \<Rightarrow> build \<Rightarrow> bool" where
  "builds L0 b \<longleftrightarrow> build_shape b
     \<and> (\<forall>r c. bt_get (b_channels b) r = Some c \<longrightarrow> bt_wf (ch_subchannels c))
     \<and> (\<exists>L1 L2. ledger_run (b_open_channels b) L0 = Some L1
          \<and> ledger_run (b_open_subchannels b) L1 = Some L2
          \<and> ledger_run (b_create_notes b) L2 = Some (ledger_of True (b_next_channel_index b) (b_channels b)))"

lemma ledger_of_open:
  "bt_get m r = Some c \<Longrightarrow> ledger_of True (n + 1) (bt_insert r (c\<lparr>ch_open := True\<rparr>) m)
     = add_open r (ledger_of True n m)"
  by (auto simp: ledger_of_def add_open_def fun_eq_iff)

lemma ensure_channel_builds:
  assumes step: "ensure_channel r b = Ok b'" and b: "builds L0 b"
  shows "builds L0 b' \<and> (\<exists>c. bt_get (b_channels b') r = Some c \<and> ch_open c)"
proof -
  obtain c where c: "bt_get (b_channels b) r = Some c"
    using step by (auto simp: ensure_channel_def result_simps)
  show ?thesis
  proof (cases "ch_open c")
    case True
    then have "b' = b" using step c by (simp add: ensure_channel_def)
    then show ?thesis using b c True by blast
  next
    case False
    obtain x s rg where b': "b' = b\<lparr>b_open_channels := b_open_channels b
               @ [OpenChannel r (b_next_channel_index b) x s],
             b_next_channel_index := b_next_channel_index b + 1,
             b_channels := bt_insert r (c\<lparr>ch_open := True\<rparr>) (b_channels b), b_rng := rg\<rparr>"
      using step c False by (auto simp: ensure_channel_def u32_inc_def result_simps split: if_splits)
    let ?L = "ledger_of True (b_next_channel_index b) (b_channels b)"
    obtain L1 L2 where L: "ledger_run (b_open_channels b) L0 = Some L1"
      "ledger_run (b_open_subchannels b) L1 = Some L2" "ledger_run (b_create_notes b) L2 = Some ?L"
      using b by (auto simp: builds_def)
    have shape: "\<forall>a \<in> set (b_open_subchannels b). action_phase a \<in> {Subchannel, CreateNotes}"
      "\<forall>a \<in> set (b_create_notes b). action_phase a \<in> {Subchannel, CreateNotes}"
      using b by (auto simp: builds_def build_shape_def)
    have "\<not> lg_open ?L r" "lg_registered ?L" "lg_count ?L = b_next_channel_index b"
      using c False by (simp_all add: ledger_of_def)
    then have "lg_registered L1" "lg_count L1 = b_next_channel_index b" "\<not> lg_open L1 r"
      using run_keeps_channels [OF L(2) shape(1)] run_keeps_channels [OF L(3) shape(2)] by simp_all
    then have "ledger_run (b_open_channels b') L0 = Some (add_open r L1)"
      by (simp add: b' ledger_run_append L(1) add_open_def)
    moreover have "ledger_run (b_open_subchannels b') (add_open r L1) = Some (add_open r L2)"
      using run_add_open [OF L(2) shape(1)] by (simp add: b')
    moreover have "ledger_run (b_create_notes b') (add_open r L2)
        = Some (ledger_of True (b_next_channel_index b') (b_channels b'))"
      using run_add_open [OF L(3) shape(2)] ledger_of_open [OF c] by (simp add: b')
    moreover have "build_shape b'" using ensure_channel_shape [OF step] b by (simp add: builds_def)
    moreover have "\<forall>q d. bt_get (b_channels b') q = Some d \<longrightarrow> bt_wf (ch_subchannels d)"
      using b c by (auto simp: b' builds_def)
    ultimately show ?thesis unfolding builds_def by (auto simp: b')
  qed
qed

lemma ledger_of_sub:
  assumes "bt_get m r = Some c" "bt_get (ch_subchannels c) t = None" "sc_next_note_index s = 0"
  shows "ledger_of True n (bt_insert r (c\<lparr>ch_subchannels := bt_insert t s (ch_subchannels c)\<rparr>) m)
     = add_sub r t (ledger_of True n m)"
  using assms length_bt_insert_None [OF assms(2)]
  by (auto simp: ledger_of_def add_sub_def fun_eq_iff)

text \<open>\<open>ensure_subchannel\<close> returns the channel updated but not yet stored; \<open>add_note\<close> stores it.\<close>

lemma ensure_subchannel_builds:
  assumes step: "ensure_subchannel r t c b = Ok (s, c', b')" and b: "builds L0 b"
    and c: "bt_get (b_channels b) r = Some c" "ch_open c"
  shows "builds L0 (b'\<lparr>b_channels := bt_insert r c' (b_channels b')\<rparr>)"
    "bt_get (ch_subchannels c') t = Some s" "ch_open c'" "b_channels b' = b_channels b"
    "b_next_channel_index b' = b_next_channel_index b" "bt_wf (ch_subchannels c')"
proof -
  have wf: "bt_wf (ch_subchannels c)" using b c by (auto simp: builds_def)
  have "builds L0 (b'\<lparr>b_channels := bt_insert r c' (b_channels b')\<rparr>)
    \<and> bt_get (ch_subchannels c') t = Some s \<and> ch_open c' \<and> b_channels b' = b_channels b
    \<and> b_next_channel_index b' = b_next_channel_index b \<and> bt_wf (ch_subchannels c')"
  proof (cases "bt_get (ch_subchannels c) t")
    case (Some u)
    then have eq: "s = u" "c' = c" "b' = b" using step by (simp_all add: ensure_subchannel_def)
    have "ledger_of reg n (bt_insert r c (b_channels b)) = ledger_of reg n (b_channels b)" for reg n
      using c by (auto simp: ledger_of_def fun_eq_iff)
    moreover have "build_shape (b\<lparr>b_channels := m\<rparr>) = build_shape b" for m by (simp add: build_shape_def)
    ultimately show ?thesis using Some b c wf by (auto simp: eq builds_def)
  next
    case None
    let ?k = "word_of_nat (length (ch_subchannels c)) :: u32"
    obtain x rg where s: "s = \<lparr>sc_index = ?k, sc_next_note_index = 0\<rparr>"
      and c': "c' = c\<lparr>ch_subchannels := bt_insert t s (ch_subchannels c)\<rparr>"
      and b': "b' = b\<lparr>b_open_subchannels := b_open_subchannels b
          @ [OpenSubchannel r (ch_recipient_public_key c) (ch_key c) ?k t x], b_rng := rg\<rparr>"
      using step None by (auto simp: ensure_subchannel_def Let_def result_simps)
    let ?L = "ledger_of True (b_next_channel_index b) (b_channels b)"
    obtain L1 L2 where L: "ledger_run (b_open_channels b) L0 = Some L1"
      "ledger_run (b_open_subchannels b) L1 = Some L2" "ledger_run (b_create_notes b) L2 = Some ?L"
      using b by (auto simp: builds_def)
    have nts: "phase_is CreateNotes (b_create_notes b)"
      "\<forall>a \<in> set (b_create_notes b). action_phase a \<in> {Subchannel, CreateNotes}"
      using b by (auto simp: builds_def build_shape_def phase_is_def)
    have none: "lg_next ?L r t = None" using c(1) None by (simp add: ledger_of_def)
    have "lg_open ?L r" "lg_subs ?L r = length (ch_subchannels c)"
      using c by (simp_all add: ledger_of_def)
    then have "lg_open L2 r" "lg_next L2 r t = None" "lg_subs L2 r = length (ch_subchannels c)"
      using run_keeps_channels [OF L(3) nts(2)] run_keeps_subs [OF L(3) nts(1)] none by simp_all
    then have "ledger_run (b_open_subchannels b') L1 = Some (add_sub r t L2)"
      by (simp add: b' ledger_run_append L(2) add_sub_def)
    moreover have "ledger_run (b_create_notes b') (add_sub r t L2)
        = Some (ledger_of True (b_next_channel_index b) (bt_insert r c' (b_channels b)))"
      unfolding c' using run_add_sub [OF L(3) nts(1) none] ledger_of_sub [OF c(1) None, of s]
      by (simp add: b' s)
    moreover have "build_shape b'" using ensure_subchannel_shape [OF step] b by (simp add: builds_def)
    moreover have "\<forall>q d. bt_get (bt_insert r c' (b_channels b)) q = Some d \<longrightarrow> bt_wf (ch_subchannels d)"
      using b wf by (auto simp: c' builds_def)
    ultimately show ?thesis
      using L(1) c wf unfolding builds_def build_shape_def by (auto simp: b' c')
  qed
  then show "builds L0 (b'\<lparr>b_channels := bt_insert r c' (b_channels b')\<rparr>)"
    "bt_get (ch_subchannels c') t = Some s" "ch_open c'" "b_channels b' = b_channels b"
    "b_next_channel_index b' = b_next_channel_index b" "bt_wf (ch_subchannels c')" by blast+
qed

lemma bt_insert_twice_ledger:
  "ledger_of reg n (bt_insert r c (bt_insert r d m)) = ledger_of reg n (bt_insert r c m)"
  by (auto simp: ledger_of_def fun_eq_iff)

lemma add_note_builds:
  assumes step: "add_note n b = Ok b'" and b: "builds L0 b"
  shows "builds L0 b'"
proof -
  obtain r t a where n: "n = (r, t, a)" by (cases n)
  obtain b1 c s c' b2 salt rg nxt where
    b1: "ensure_channel r b = Ok b1" and c: "bt_get (b_channels b1) r = Some c"
    and b2: "ensure_subchannel r t c b1 = Ok (s, c', b2)"
    and nxt: "nxt = sc_next_note_index s + 1"
    and b': "b' = b2\<lparr>b_create_notes := b_create_notes b2
               @ [CreateEncNote r (ch_recipient_public_key c') t a (sc_next_note_index s) salt],
            b_channels := bt_insert r (c'\<lparr>ch_subchannels :=
                 bt_insert t (s\<lparr>sc_next_note_index := nxt\<rparr>) (ch_subchannels c')\<rparr>) (b_channels b2),
            b_rng := rg\<rparr>"
    using step by (auto simp: add_note_def n result_simps u32_inc_def split: if_splits)
  have 1: "builds L0 b1" "ch_open c" using ensure_channel_builds [OF b1 b] c by auto
  note 2 = ensure_subchannel_builds [OF b2 1(1) c 1(2)]
  let ?c = "c'\<lparr>ch_subchannels := bt_insert t (s\<lparr>sc_next_note_index := nxt\<rparr>) (ch_subchannels c')\<rparr>"
  let ?L = "ledger_of True (b_next_channel_index b2) (bt_insert r c' (b_channels b2))"
  obtain L1 L2 where L: "ledger_run (b_open_channels b2) L0 = Some L1"
    "ledger_run (b_open_subchannels b2) L1 = Some L2" "ledger_run (b_create_notes b2) L2 = Some ?L"
    using 2(1) by (auto simp: builds_def)
  have "ledger_step (CreateEncNote r (ch_recipient_public_key c') t a (sc_next_note_index s) salt) ?L
      = Some (ledger_of True (b_next_channel_index b2) (bt_insert r ?c (b_channels b2)))"
    using 2(2,3) length_bt_insert_Some [OF 2(6,2)]
    by (auto simp: ledger_of_def fun_eq_iff nxt)
  then have "ledger_run (b_create_notes b') L2
      = Some (ledger_of True (b_next_channel_index b') (b_channels b'))"
    by (simp add: b' ledger_run_append L(3))
  moreover have "build_shape b'"
    using add_note_shape [OF step] b by (simp add: builds_def)
  moreover have "\<forall>q d. bt_get (b_channels b') q = Some d \<longrightarrow> bt_wf (ch_subchannels d)"
    using 2(6) 1(1) by (auto simp: b' builds_def 2(4))
  ultimately show ?thesis using L unfolding builds_def by (auto simp: b')
qed

lemma add_notes_builds: "add_notes ns b = Ok b' \<Longrightarrow> builds L0 b \<Longrightarrow> builds L0 b'"
  by (induction ns arbitrary: b) (auto simp: result_simps dest: add_note_builds)

text \<open>The state the planner is given: subchannels in key order, and no own channel before registration.\<close>

definition plan_state_wf :: "plan_state \<Rightarrow> bool" where
  "plan_state_wf st \<longleftrightarrow>
     (\<forall>r c. bt_get (st_channels st) r = Some c \<longrightarrow> bt_wf (ch_subchannels c))
     \<and> (\<not> st_registered st \<longrightarrow> (\<forall>c. bt_get (st_channels st) (st_user st) = Some c \<longrightarrow>
          \<not> ch_open c \<and> ch_subchannels c = []))"

lemma run_inert:
  "\<forall>a \<in> set as. action_phase a \<in> {DepositPhase, UseNotes, WithdrawPhase} \<Longrightarrow> ledger_run as L = Some L"
proof (induction as)
  case (Cons a as)
  then show ?case by (cases a) auto
qed simp

lemma plan_accepted:
  assumes plan: "plan X it st rng = Ok p" and wf: "plan_state_wf st"
  shows "\<exists>n channels. ledger_run (pl_actions p)
      (ledger_of (st_registered st) (st_outgoing_channels st) (st_channels st)) = Some (ledger_of True n channels)"
proof (rule plan_Ok [OF plan])
  fix balance spends change account b1 b2 withdrawals r
  let ?b0 = "\<lparr>b_channels = st_channels st, b_next_channel_index = st_outgoing_channels st,
         b_open_channels = [], b_open_subchannels = [], b_create_notes = [], b_rng = rng\<rparr>"
  let ?L0 = "ledger_of True (st_outgoing_channels st) (st_channels st)"
  assume reg: "in_register it \<or> st_registered st"
    and b1: "(if in_register it \<and> \<not> st_registered st then register_step X st ?b0 else Ok ([], ?b0)) = Ok (account, b1)"
    and add: "add_notes (in_transfers it @ map (\<lambda>(token, amount). (st_user st, token, amount)) change) b1 = Ok b2"
    and wd: "withdraw_loop (in_withdrawals it) (b_rng b2) = Ok (withdrawals, r)"
    and acts: "pl_actions p = account @ b_open_channels b2 @ b_open_subchannels b2
       @ map (\<lambda>(token, amount). Deposit token amount) (in_deposits it)
       @ map use_note spends @ b_create_notes b2 @ withdrawals"
  have wf0: "\<forall>r c. bt_get (st_channels st) r = Some c \<longrightarrow> bt_wf (ch_subchannels c)"
    using wf by (simp add: plan_state_wf_def)
  have "ledger_run account (ledger_of (st_registered st) (st_outgoing_channels st) (st_channels st)) = Some ?L0
      \<and> builds ?L0 b1"
  proof (cases "in_register it \<and> \<not> st_registered st")
    case False
    have "Ok (account, b1) = (Ok ([], ?b0) :: strk20_error + _)" using b1 unfolding if_not_P [OF False] by simp
    then have "account = []" "b1 = ?b0" by simp_all
    moreover have "builds ?L0 ?b0" using wf0 by (simp add: builds_def build_shape_def)
    moreover have "st_registered st" using False reg by blast
    ultimately show ?thesis by simp
  next
    case True
    then have step: "register_step X st ?b0 = Ok (account, b1)" using b1 by simp
    define self where "self = \<lparr>ch_recipient = st_user st,
      ch_recipient_public_key = public_key (px_curve X) (st_user_sk st),
      ch_key = channel_key (px_poseidon X) (st_user st) (st_user_sk st) (st_user st)
        (public_key (px_curve X) (st_user_sk st)), ch_open = False, ch_subchannels = []\<rparr>"
    then have self: "\<not> ch_open self" "ch_subchannels self = []" by simp_all
    obtain f r0 where acc: "account = [SetViewingKey f]"
      and ens: "ensure_channel (st_user st) (?b0\<lparr>b_channels := bt_insert (st_user st) self (st_channels st), b_rng := r0\<rparr>) = Ok b1"
      using step by (auto simp: register_step_def Let_def result_simps self_def)
    have same: "ledger_of True n (bt_insert (st_user st) self (st_channels st)) = ledger_of True n (st_channels st)" for n
      using wf self True by (auto simp: ledger_of_def fun_eq_iff plan_state_wf_def split: option.splits)
    have "builds ?L0 (?b0\<lparr>b_channels := bt_insert (st_user st) self (st_channels st), b_rng := r0\<rparr>)"
      using wf0 self by (auto simp: builds_def build_shape_def same)
    then have "builds ?L0 b1" using ensure_channel_builds [OF ens] by blast
    then show ?thesis using True by (simp add: acc ledger_of_def)
  qed
  then have acc: "ledger_run account (ledger_of (st_registered st) (st_outgoing_channels st) (st_channels st)) = Some ?L0"
    and "builds ?L0 b2" using add_notes_builds [OF add] by simp_all
  then obtain L1 L2 where L: "ledger_run (b_open_channels b2) ?L0 = Some L1"
    "ledger_run (b_open_subchannels b2) L1 = Some L2"
    "ledger_run (b_create_notes b2) L2 = Some (ledger_of True (b_next_channel_index b2) (b_channels b2))"
    by (auto simp: builds_def)
  have inert: "ledger_run (map (\<lambda>(token, amount). Deposit token amount) (in_deposits it)) L = Some L"
    "ledger_run (map use_note spends) L = Some L" "ledger_run withdrawals L = Some L" for L
    using withdraw_loop_Ok [OF wd] by (auto intro!: run_inert)
  show ?thesis
    by (intro exI [of _ "b_next_channel_index b2"] exI [of _ "b_channels b2"])
      (simp add: acts ledger_run_append acc L inert)
qed

end
