(* ===== verification/Strk20_Apply.thy ===== *)
theory Strk20_Apply
  imports Core_Tx Strk20_Actions Json
begin

text \<open>
  \<open>crates/strk20/src/apply.rs\<close> and \<open>invocation.rs\<close>: the virtual invoke whose execution is proved,
  and the on-chain call that applies the proof's message. \<open>proved_actions\<close> reads an invocation
  the way the pool does.
\<close>

section \<open>\<open>apply_actions\<close>\<close>

record screening_attestation =
  issued_at :: u64
  att_sig_r :: felt
  att_sig_s :: felt

definition ATTESTATION_MAX_AGE_SECS :: u64 where "ATTESTATION_MAX_AGE_SECS = 300"

definition apply_actions_call ::
  "ext \<Rightarrow> felt \<Rightarrow> felt list \<Rightarrow> screening_attestation option \<Rightarrow> strk20_error + call" where
  "apply_actions_call E pool message_payload screening =
     (case message_payload of
        [] \<Rightarrow> Err EmptyProofOutput
      | class_hash # actions \<Rightarrow>
          (let calldata = actions @ (case screening of
                 None \<Rightarrow> [1]
               | Some a \<Rightarrow> [0, felt_of_word (issued_at a), att_sig_r a, att_sig_s a])
           in Ok \<lparr>call_to = pool, call_selector = get_selector_from_name E ''apply_actions'',
                 call_calldata = calldata\<rparr>))"

text \<open>The Serde reader of \<open>Option<ScreeningAttestation>\<close> at the end of the calldata.\<close>

definition read_screening :: "felt list \<Rightarrow> screening_attestation option option" where
  "read_screening xs =
     (if xs = [1] then Some None
      else case xs of
        [t, i, r, s] \<Rightarrow>
          if t = 0 then map_option (\<lambda>n. Some \<lparr>issued_at = n, att_sig_r = r, att_sig_s = s\<rparr>) (felt_to_word i)
          else None
      | _ \<Rightarrow> None)"

lemma apply_actions_call_Ok:
  assumes "apply_actions_call E pool (ch # span) screening = Ok c"
  shows "call_to c = pool" "call_selector c = get_selector_from_name E ''apply_actions''"
    "take (length span) (call_calldata c) = span"
    "read_screening (drop (length span) (call_calldata c)) = Some screening"
  using assms by (auto simp: apply_actions_call_def read_screening_def split: option.splits)

lemma apply_actions_call_Err:
  "apply_actions_call E pool payload screening = Err e \<longleftrightarrow> payload = [] \<and> e = EmptyProofOutput"
  by (auto simp: apply_actions_call_def split: list.splits)

section \<open>The proof invocation\<close>

definition L2_GAS_MAX_AMOUNT :: u64 where "L2_GAS_MAX_AMOUNT = 100000000"

record proof_invocation =
  inv_pool :: felt
  inv_chain :: chain
  inv_nonce :: felt
  inv_calldata :: "felt list"

definition proof_invocation_new ::
  "ext \<Rightarrow> felt \<Rightarrow> chain \<Rightarrow> felt \<Rightarrow> felt \<Rightarrow> felt \<Rightarrow> client_action list \<Rightarrow> proof_invocation" where
  "proof_invocation_new E pool chain pool_nonce user_addr user_sk actions =
     (let inner = [user_addr, user_sk] @ serialize_actions actions;
          c = \<lparr>call_to = pool, call_selector = get_selector_from_name E ''compile_actions'',
               call_calldata = inner\<rparr>
      in \<lparr>inv_pool = pool, inv_chain = chain, inv_nonce = pool_nonce, inv_calldata = encode_calls [c]\<rparr>)"

definition invocation_params :: "proof_invocation \<Rightarrow> invoke_v3_params" where
  "invocation_params i = default_params
     \<lparr>p_nonce := inv_nonce i,
      p_l1_gas := \<lparr>max_amount = 1, max_price_per_unit = 0\<rparr>,
      p_l2_gas := \<lparr>max_amount = L2_GAS_MAX_AMOUNT, max_price_per_unit = 0\<rparr>,
      p_l1_data_gas := \<lparr>max_amount = 1, max_price_per_unit = 0\<rparr>\<rparr>"

text \<open>\<open>calldata[i]\<close> panics out of range; every invocation is built by \<open>new\<close>, which has the four
  header felts.\<close>

definition inner_call :: "proof_invocation \<Rightarrow> call" where
  "inner_call i =
     \<lparr>call_to = inv_calldata i ! 1, call_selector = inv_calldata i ! 2,
      call_calldata = drop 4 (inv_calldata i)\<rparr>"

definition invocation_hash :: "ext \<Rightarrow> proof_invocation \<Rightarrow> felt" where
  "invocation_hash E i =
     invoke_v3_hash E (inv_pool i) [inner_call i] (inv_chain i) (invocation_params i)"

definition u64_0x :: "u64 \<Rightarrow> string" where
  "u64_0x n = ''0x'' @ nat_hex (unat n)"

definition invocation_bounds_json :: "u64 \<Rightarrow> json" where
  "invocation_bounds_json amount =
     JObj [(''max_amount'', JStr (u64_0x amount)), (''max_price_per_unit'', JStr ''0x0'')]"

definition invocation_to_rpc_json :: "proof_invocation \<Rightarrow> felt list \<Rightarrow> json" where
  "invocation_to_rpc_json i signature =
     JObj [(''type'', JStr ''INVOKE''),
           (''version'', JStr ''0x3''),
           (''sender_address'', JStr (felt_0x (inv_pool i))),
           (''calldata'', JArr (map (\<lambda>f. JStr (felt_0x f)) (inv_calldata i))),
           (''signature'', JArr (map (\<lambda>f. JStr (felt_0x f)) signature)),
           (''nonce'', JStr (felt_0x (inv_nonce i))),
           (''resource_bounds'', JObj
             [(''l1_gas'', invocation_bounds_json 1),
              (''l2_gas'', invocation_bounds_json L2_GAS_MAX_AMOUNT),
              (''l1_data_gas'', invocation_bounds_json 1)]),
           (''tip'', JStr ''0x0''),
           (''paymaster_data'', JArr []),
           (''account_deployment_data'', JArr []),
           (''nonce_data_availability_mode'', JStr ''L1''),
           (''fee_data_availability_mode'', JStr ''L1'')]"

section \<open>What is hashed and what the pool reads\<close>

lemma invocation_new_calldata:
  "inv_calldata (proof_invocation_new E pool c nonce ua sk acts)
     = [felt_of_len [()], pool, get_selector_from_name E ''compile_actions'',
        felt_of_len ([ua, sk] @ serialize_actions acts)] @ [ua, sk] @ serialize_actions acts"
  by (simp add: proof_invocation_new_def encode_calls_concat encode_call_def felt_of_len_def)

lemma inner_call_new:
  "inner_call (proof_invocation_new E pool c nonce ua sk acts)
     = \<lparr>call_to = pool, call_selector = get_selector_from_name E ''compile_actions'',
        call_calldata = [ua, sk] @ serialize_actions acts\<rparr>"
  unfolding inner_call_def invocation_new_calldata by simp

text \<open>The calldata the account signs over is the calldata that is sent to the prover.\<close>

lemma encode_inner_call:
  "encode_calls [inner_call (proof_invocation_new E pool c nonce ua sk acts)]
     = inv_calldata (proof_invocation_new E pool c nonce ua sk acts)"
  unfolding inner_call_new by (simp add: proof_invocation_new_def)

definition proved_actions :: "felt list \<Rightarrow> (felt \<times> felt \<times> felt \<times> client_action list) option" where
  "proved_actions calldata =
     (case decode_calls calldata of
        Some ([c], []) \<Rightarrow>
          (case call_calldata c of
             ua # sk # rest \<Rightarrow>
               (case read_actions rest of
                  Some (acts, []) \<Rightarrow> Some (call_to c, ua, sk, acts)
                | _ \<Rightarrow> None)
           | _ \<Rightarrow> None)
      | _ \<Rightarrow> None)"

lemma length_serialize_fields: "length (serialize_fields a) \<le> 6"
  by (cases a) simp_all

lemma length_serialize_actions: "length (serialize_actions as) \<le> 1 + 7 * length as"
proof (induction as)
  case Nil
  show ?case by (simp add: serialize_actions_concat)
next
  case (Cons a as)
  then show ?case using length_serialize_fields [of a] by (simp add: serialize_actions_concat)
qed

lemma proved_actions_new:
  assumes "length acts < 2 ^ 60"
  shows "proved_actions (inv_calldata (proof_invocation_new E pool c nonce ua sk acts))
    = Some (pool, ua, sk, acts)"
proof -
  let ?call = "\<lparr>call_to = pool, call_selector = get_selector_from_name E ''compile_actions'',
        call_calldata = [ua, sk] @ serialize_actions acts\<rparr>"
  have "length (serialize_actions acts) \<le> 1 + 7 * length acts" by (rule length_serialize_actions)
  then have "length (call_calldata ?call) < 2 ^ 64" using assms by simp
  then have "decode_calls (encode_calls [?call] @ []) = Some ([?call], [])"
    by (intro decode_encode_calls) simp_all
  moreover have "read_actions (serialize_actions acts @ []) = Some (acts, [])"
    using assms by (intro actions_roundtrip) simp
  ultimately show ?thesis
    by (simp add: proved_actions_def proof_invocation_new_def)
qed

end
