(* ===== verification/Prover_Jobs.thy ===== *)
theory Prover_Jobs
  imports Json "HOL-Library.AList"
begin

text \<open>
  \<open>crates/prover/src/jobs.rs\<close>, \<open>storage.rs\<close> and the orchestration of \<open>lib.rs\<close>: proving jobs, the
  activity feed, the records on disk, and the two ways to prove. The directory of records is a
  map from file names to their parsed contents (\<open>None\<close> when the file does not parse), with the
  listing order of the file system as its key list. A background proof is the pair
  \<open>enqueue_prove\<close> (what the caller sees) and \<open>prove_task\<close> (the spawned task); the backend's answer is an argument.
\<close>

section \<open>Jobs\<close>

datatype job_status = Queued | Proving | Succeeded | Failed

record job =
  j_job_id :: string
  j_status :: job_status
  j_started_at_ms :: nat
  j_label :: "string option"
  j_result :: "json option"
  j_error :: "string option"

record activity =
  av_seq :: nat
  av_job_id :: string
  av_status :: job_status
  av_started_at_ms :: nat
  av_label :: "string option"

definition ACTIVITY_CAP :: nat where "ACTIVITY_CAP = 100"

record jobs =
  jb_jobs :: "string \<Rightarrow> job option"
  jb_activity :: "activity list"     \<comment> \<open>front first\<close>
  jb_seq :: u64

definition jobs_new :: "u64 \<Rightarrow> jobs" where
  "jobs_new start_seq = \<lparr>jb_jobs = (\<lambda>_. None), jb_activity = [], jb_seq = start_seq\<rparr>"

definition push_activity :: "job \<Rightarrow> jobs \<Rightarrow> jobs" where
  "push_activity j s =
     (let seq = (if jb_activity s = [] then 0 else av_seq (last (jb_activity s)) + 1);
          as = jb_activity s @ [\<lparr>av_seq = seq, av_job_id = j_job_id j, av_status = j_status j,
                 av_started_at_ms = j_started_at_ms j, av_label = j_label j\<rparr>]
      in s\<lparr>jb_activity := drop (length as - ACTIVITY_CAP) as\<rparr>)"

definition job_id_of :: "u64 \<Rightarrow> string" where
  "job_id_of n = ''p'' @ nat_dec (unat n)"

text \<open>\<open>fetch_add\<close> on an \<open>AtomicU64\<close> wraps.\<close>

definition jobs_create :: "nat \<Rightarrow> string option \<Rightarrow> jobs \<Rightarrow> string \<times> jobs" where
  "jobs_create now_ms label s =
     (let n = jb_seq s;
          jid = job_id_of n;
          j = \<lparr>j_job_id = jid, j_status = Queued, j_started_at_ms = now_ms, j_label = label,
               j_result = None, j_error = None\<rparr>
      in (jid, push_activity j (s\<lparr>jb_seq := n + 1, jb_jobs := (jb_jobs s)(jid \<mapsto> j)\<rparr>)))"

definition update_job :: "string \<Rightarrow> (job \<Rightarrow> job) \<Rightarrow> jobs \<Rightarrow> jobs" where
  "update_job jid f s =
     (case jb_jobs s jid of
        None \<Rightarrow> s
      | Some j \<Rightarrow> push_activity (f j) (s\<lparr>jb_jobs := (jb_jobs s)(jid \<mapsto> f j)\<rparr>))"

definition jobs_set_status :: "string \<Rightarrow> job_status \<Rightarrow> jobs \<Rightarrow> jobs" where
  "jobs_set_status jid st = update_job jid (\<lambda>j. j\<lparr>j_status := st\<rparr>)"

definition jobs_succeed :: "string \<Rightarrow> json \<Rightarrow> jobs \<Rightarrow> jobs" where
  "jobs_succeed jid result = update_job jid (\<lambda>j. j\<lparr>j_status := Succeeded, j_result := Some result\<rparr>)"

definition jobs_fail :: "string \<Rightarrow> string \<Rightarrow> jobs \<Rightarrow> jobs" where
  "jobs_fail jid err = update_job jid (\<lambda>j. j\<lparr>j_status := Failed, j_error := Some err\<rparr>)"

definition jobs_get :: "string \<Rightarrow> jobs \<Rightarrow> job option" where
  "jobs_get jid s = jb_jobs s jid"

definition recent_activity :: "jobs \<Rightarrow> activity list" where
  "recent_activity s = rev (jb_activity s)"

section \<open>Storage\<close>

record proof_record =
  pr_job_id :: string
  pr_label :: "string option"
  pr_network :: string
  pr_created_at_ms :: nat
  pr_prove_ms :: nat
  pr_status :: string
  pr_payload :: json
  pr_proof :: "json option"
  pr_error :: "string option"

record proof_summary =
  ps_job_id :: string
  ps_label :: "string option"
  ps_network :: string
  ps_created_at_ms :: nat
  ps_prove_ms :: nat
  ps_status :: string
  ps_proof_bytes :: nat
  ps_error :: "string option"

text \<open>File name, size in bytes, and the record it parses to.\<close>

type_synonym storage = "(string \<times> nat \<times> proof_record option) list"

definition strip_suffix :: "string \<Rightarrow> string \<Rightarrow> string option" where
  "strip_suffix p s = map_option rev (strip_prefix (rev p) (rev s))"

text \<open>\<open>Path::extension\<close> is \<open>json\<close>: the name ends in \<open>.json\<close> and is not just that.\<close>

definition is_json_file :: "string \<Rightarrow> bool" where
  "is_json_file name \<longleftrightarrow> (case strip_suffix ''.json'' name of None \<Rightarrow> False | Some r \<Rightarrow> r \<noteq> [])"

definition record_file :: "string \<Rightarrow> string" where
  "record_file job_id = job_id @ ''.json''"

text \<open>Writing a file replaces it; \<open>size\<close> gives the length of a record's JSON, \<open>ok\<close> whether the write succeeds.\<close>

definition storage_save :: "(proof_record \<Rightarrow> nat) \<Rightarrow> bool \<Rightarrow> proof_record \<Rightarrow> storage \<Rightarrow> storage" where
  "storage_save sz ok rec st =
     (if ok then AList.update (record_file (pr_job_id rec)) (sz rec, Some rec) st else st)"

definition storage_stats :: "storage \<Rightarrow> nat \<times> nat" where
  "storage_stats st =
     (let fs = filter (\<lambda>f. is_json_file (fst f)) st
      in (length fs, sum_list (map (\<lambda>f. fst (snd f)) fs)))"

definition summary_of :: "proof_record \<Rightarrow> proof_summary" where
  "summary_of r =
     \<lparr>ps_job_id = pr_job_id r, ps_label = pr_label r, ps_network = pr_network r,
      ps_created_at_ms = pr_created_at_ms r, ps_prove_ms = pr_prove_ms r, ps_status = pr_status r,
      ps_proof_bytes = (case Option.bind (pr_proof r) (\<lambda>p. get_str p ''proof'') of
          None \<Rightarrow> 0 | Some s \<Rightarrow> length s),
      ps_error = pr_error r\<rparr>"

definition storage_list :: "storage \<Rightarrow> proof_summary list" where
  "storage_list st =
     sort_key (\<lambda>s. - int (ps_created_at_ms s))
       (map summary_of (List.map_filter (\<lambda>f. snd (snd f)) (filter (\<lambda>f. is_json_file (fst f)) st)))"

definition seq_of_file :: "string \<Rightarrow> nat option" where
  "seq_of_file name =
     Option.bind (strip_suffix ''.json'' name) (\<lambda>s.
     Option.bind (strip_prefix ''p'' s) (parse_radix 10 (2 ^ 64)))"

definition max_seq :: "storage \<Rightarrow> nat option" where
  "max_seq st =
     fold (\<lambda>f mx. case seq_of_file (fst f) of None \<Rightarrow> mx
                  | Some n \<Rightarrow> (case mx of None \<Rightarrow> Some n | Some m \<Rightarrow> Some (max m n))) st None"

definition get_record :: "storage \<Rightarrow> string \<Rightarrow> proof_record option" where
  "get_record st job_id =
     (if job_id = [] \<or> \<not> (\<forall>c \<in> set job_id. is_ascii_alphanumeric c \<or> c = CHR ''_'' \<or> c = CHR ''-'')
      then None
      else Option.bind (map_of st (record_file job_id)) snd)"

definition storage_clear :: "storage \<Rightarrow> nat \<times> storage" where
  "storage_clear st =
     (length (filter (\<lambda>f. is_json_file (fst f)) st), filter (\<lambda>f. \<not> is_json_file (fst f)) st)"

section \<open>Proving\<close>

record prover_state =
  pv_jobs :: jobs
  pv_storage :: storage

text \<open>\<open>build_prover_state\<close>: the counter starts past the records on disk; the addition is on \<open>u64\<close>.\<close>

definition build_prover_state :: "storage \<Rightarrow> prover_state" where
  "build_prover_state st =
     \<lparr>pv_jobs = jobs_new (case max_seq st of None \<Rightarrow> 0 | Some m \<Rightarrow> word_of_nat m + 1), pv_storage = st\<rparr>"

definition enqueue_prove :: "nat \<Rightarrow> string option \<Rightarrow> prover_state \<Rightarrow> string \<times> prover_state" where
  "enqueue_prove now_ms label s =
     (let (jid, js) = jobs_create now_ms label (pv_jobs s) in (jid, s\<lparr>pv_jobs := js\<rparr>))"

definition prove_task ::
  "(proof_record \<Rightarrow> nat) \<Rightarrow> bool \<Rightarrow> nat \<Rightarrow> nat \<Rightarrow> string \<Rightarrow> json \<Rightarrow> string option \<Rightarrow> string
     \<Rightarrow> string + json \<Rightarrow> prover_state \<Rightarrow> prover_state" where
  "prove_task sz ok now_ms prove_ms jid payload label network res s =
     (let js1 = jobs_set_status jid Proving (pv_jobs s);
          rec = \<lparr>pr_job_id = jid, pr_label = label, pr_network = network, pr_created_at_ms = now_ms,
                 pr_prove_ms = prove_ms, pr_status = [], pr_payload = payload, pr_proof = None,
                 pr_error = None\<rparr>
      in case res of
           Inr out \<Rightarrow>
             s\<lparr>pv_jobs := jobs_succeed jid out js1,
               pv_storage := storage_save sz ok
                 (rec\<lparr>pr_status := ''succeeded'', pr_proof := Some out\<rparr>) (pv_storage s)\<rparr>
         | Inl e \<Rightarrow>
             s\<lparr>pv_jobs := jobs_fail jid e js1,
               pv_storage := storage_save sz ok
                 (rec\<lparr>pr_status := ''failed'', pr_error := Some e\<rparr>) (pv_storage s)\<rparr>)"

definition prove_unrecorded ::
  "nat \<Rightarrow> string option \<Rightarrow> string + json \<Rightarrow> prover_state \<Rightarrow> (string + json) \<times> prover_state" where
  "prove_unrecorded now_ms label res s =
     (let (jid, js) = jobs_create now_ms label (pv_jobs s);
          js1 = jobs_set_status jid Proving js;
          js2 = (case res of Inr out \<Rightarrow> jobs_succeed jid out js1 | Inl e \<Rightarrow> jobs_fail jid e js1)
      in (res, s\<lparr>pv_jobs := js2\<rparr>))"

section \<open>The feed and the jobs\<close>

definition consecutive :: "activity list \<Rightarrow> bool" where
  "consecutive as \<longleftrightarrow> (\<forall>i. Suc i < length as \<longrightarrow> av_seq (as ! Suc i) = Suc (av_seq (as ! i)))"

definition job_wf :: "string \<Rightarrow> job \<Rightarrow> bool" where
  "job_wf jid j \<longleftrightarrow> j_job_id j = jid
     \<and> (j_status j = Succeeded \<longleftrightarrow> j_result j \<noteq> None) \<and> (j_status j = Failed \<longleftrightarrow> j_error j \<noteq> None)"

definition jobs_wf :: "jobs \<Rightarrow> bool" where
  "jobs_wf s \<longleftrightarrow> length (jb_activity s) \<le> ACTIVITY_CAP \<and> consecutive (jb_activity s)
     \<and> (\<forall>jid j. jb_jobs s jid = Some j \<longrightarrow> job_wf jid j)"

lemma jobs_wf_new [simp]: "jobs_wf (jobs_new n)"
  by (simp add: jobs_wf_def jobs_new_def consecutive_def)

lemma consecutive_drop: "consecutive as \<Longrightarrow> consecutive (drop k as)"
  by (simp add: consecutive_def)

lemma consecutive_snoc:
  assumes "consecutive as" "as \<noteq> [] \<Longrightarrow> av_seq e = Suc (av_seq (last as))"
  shows "consecutive (as @ [e])"
  unfolding consecutive_def
proof (intro allI impI)
  fix i assume i: "Suc i < length (as @ [e])"
  show "av_seq ((as @ [e]) ! Suc i) = Suc (av_seq ((as @ [e]) ! i))"
  proof (cases "Suc i < length as")
    case True
    then show ?thesis using assms(1) by (simp add: consecutive_def nth_append)
  next
    case False
    then have n: "length as = Suc i" using i by simp
    then have "as \<noteq> []" by auto
    moreover from this have "as ! i = last as" using n by (simp add: last_conv_nth)
    ultimately show ?thesis using assms(2) n by (simp add: nth_append)
  qed
qed

lemma push_activity_jobs [simp]: "jb_jobs (push_activity j s) = jb_jobs s"
  by (simp add: push_activity_def Let_def)

lemma push_activity_feed:
  assumes "length (jb_activity s) \<le> ACTIVITY_CAP" "consecutive (jb_activity s)"
  shows "length (jb_activity (push_activity j s)) \<le> ACTIVITY_CAP" "consecutive (jb_activity (push_activity j s))"
    "\<exists>a. last (jb_activity (push_activity j s)) = a \<and> av_job_id a = j_job_id j \<and> av_status a = j_status j"
proof -
  define e where "e = \<lparr>av_seq = (if jb_activity s = [] then 0 else av_seq (last (jb_activity s)) + 1),
      av_job_id = j_job_id j, av_status = j_status j, av_started_at_ms = j_started_at_ms j,
      av_label = j_label j\<rparr>"
  define as where "as = jb_activity s @ [e]"
  have eq: "jb_activity (push_activity j s) = drop (length as - ACTIVITY_CAP) as"
    by (simp add: push_activity_def as_def e_def)
  have "consecutive as" unfolding as_def using assms(2) by (rule consecutive_snoc) (simp add: e_def)
  then show "consecutive (jb_activity (push_activity j s))" unfolding eq by (rule consecutive_drop)
  show "length (jb_activity (push_activity j s)) \<le> ACTIVITY_CAP" unfolding eq by simp
  have "length as - ACTIVITY_CAP < length as" by (simp add: as_def ACTIVITY_CAP_def)
  then have "last (jb_activity (push_activity j s)) = last as" unfolding eq by simp
  then show "\<exists>a. last (jb_activity (push_activity j s)) = a \<and> av_job_id a = j_job_id j \<and> av_status a = j_status j"
    by (simp add: as_def e_def)
qed

lemma push_activity_wf: "jobs_wf s \<Longrightarrow> jobs_wf (push_activity j s)"
  by (simp add: jobs_wf_def push_activity_feed)

lemma update_job_wf:
  assumes "jobs_wf s" "\<And>j. jb_jobs s jid = Some j \<Longrightarrow> job_wf jid j \<Longrightarrow> job_wf jid (f j)"
  shows "jobs_wf (update_job jid f s)"
proof (cases "jb_jobs s jid")
  case (Some j)
  have "jobs_wf (s\<lparr>jb_jobs := (jb_jobs s)(jid \<mapsto> f j)\<rparr>)" using assms Some by (auto simp: jobs_wf_def)
  then show ?thesis using Some by (simp add: update_job_def push_activity_wf)
qed (use assms in \<open>simp add: update_job_def\<close>)

lemma jobs_create_wf: "jobs_wf s \<Longrightarrow> jobs_wf (snd (jobs_create now label s))"
  unfolding jobs_create_def Let_def snd_conv
  by (intro push_activity_wf) (auto simp: jobs_wf_def job_wf_def)

text \<open>The life of a job: queued, proving, then done once.\<close>

definition is_running :: "string \<Rightarrow> jobs \<Rightarrow> bool" where
  "is_running jid s \<longleftrightarrow> (\<exists>j. jb_jobs s jid = Some j \<and> j_status j \<in> {Queued, Proving})"

lemma jobs_step_wf:
  assumes "jobs_wf s" "is_running jid s"
  shows "jobs_wf (jobs_set_status jid Proving s)" "is_running jid (jobs_set_status jid Proving s)"
    "jobs_wf (jobs_succeed jid out s)" "jobs_wf (jobs_fail jid e s)"
  using assms
  by (auto simp: jobs_set_status_def jobs_succeed_def jobs_fail_def is_running_def job_wf_def
      intro!: update_job_wf) (auto simp: update_job_def)

lemma jobs_get_update [simp]:
  "jb_jobs (update_job jid f s) k = (if k = jid then map_option f (jb_jobs s jid) else jb_jobs s k)"
  by (auto simp: update_job_def split: option.splits)

lemma jobs_create_get:
  "jobs_create now label s = (jid, s') \<Longrightarrow>
     jobs_get jid s' = Some \<lparr>j_job_id = jid, j_status = Queued, j_started_at_ms = now, j_label = label,
               j_result = None, j_error = None\<rparr>"
  by (auto simp: jobs_create_def Let_def jobs_get_def)

lemma prove_unrecorded_spec:
  assumes "prove_unrecorded now label res s = (r, s')" "jobs_wf (pv_jobs s)"
  shows "r = res" "pv_storage s' = pv_storage s" "jobs_wf (pv_jobs s')"
    "\<exists>j. jobs_get (job_id_of (jb_seq (pv_jobs s))) (pv_jobs s') = Some j
       \<and> (case res of Inr out \<Rightarrow> j_status j = Succeeded \<and> j_result j = Some out
                    | Inl e \<Rightarrow> j_status j = Failed \<and> j_error j = Some e)"
proof -
  obtain jid js where c: "jobs_create now label (pv_jobs s) = (jid, js)" by fastforce
  have jid: "jid = job_id_of (jb_seq (pv_jobs s))" using c by (auto simp: jobs_create_def Let_def)
  have get: "jobs_get jid js = Some \<lparr>j_job_id = jid, j_status = Queued, j_started_at_ms = now,
      j_label = label, j_result = None, j_error = None\<rparr>" by (rule jobs_create_get [OF c])
  have js: "jobs_wf js" "is_running jid js"
    using jobs_create_wf [OF assms(2), of now label] c get by (auto simp: is_running_def jobs_get_def)
  note st = jobs_step_wf [OF js]
  note fin = jobs_step_wf [OF st(1,2)]
  show "r = res" "pv_storage s' = pv_storage s" using assms(1) c by (auto simp: prove_unrecorded_def Let_def)
  show "jobs_wf (pv_jobs s')" using assms(1) c fin by (auto simp: prove_unrecorded_def Let_def split: sum.splits)
  show "\<exists>j. jobs_get (job_id_of (jb_seq (pv_jobs s))) (pv_jobs s') = Some j
       \<and> (case res of Inr out \<Rightarrow> j_status j = Succeeded \<and> j_result j = Some out
                    | Inl e \<Rightarrow> j_status j = Failed \<and> j_error j = Some e)"
    using assms(1) c get
    by (auto simp: prove_unrecorded_def Let_def jid [symmetric] jobs_get_def jobs_set_status_def
        jobs_succeed_def jobs_fail_def split: sum.splits)
qed

section \<open>A restart does not overwrite records\<close>

lemma seq_of_record_file: "seq_of_file (record_file (job_id_of n)) = Some (unat n)"
proof -
  have "strip_suffix ''.json'' (record_file j) = Some j" for j
  proof -
    have "strip_prefix (rev ''.json'') (rev ''.json'' @ rev j) = Some (rev j)" by (rule strip_prefix_append)
    then show ?thesis unfolding strip_suffix_def record_file_def rev_append by simp
  qed
  moreover have "unat n < 2 ^ 64" using unat_less_exp [of n] by simp
  ultimately show ?thesis
    by (simp add: seq_of_file_def job_id_of_def nat_dec_def parse_radix_digits)
qed

lemma max_seq_ge:
  assumes "f \<in> set st" "seq_of_file (fst f) = Some n"
  shows "\<exists>m. max_seq st = Some m \<and> n \<le> m"
proof -
  let ?step = "\<lambda>f mx. case seq_of_file (fst f) of None \<Rightarrow> mx
      | Some n \<Rightarrow> (case mx of None \<Rightarrow> Some n | Some m \<Rightarrow> Some (max m n))"
  have mono: "\<exists>m'. fold ?step st (Some m) = Some m' \<and> m \<le> m'" for m and st :: storage
  proof (induction st arbitrary: m)
    case (Cons g st)
    have "\<exists>k. ?step g (Some m) = Some k \<and> m \<le> k" by (cases "seq_of_file (fst g)") auto
    then obtain k where k: "?step g (Some m) = Some k" "m \<le> k" by blast
    then show ?case using Cons [of k] by fastforce
  qed simp
  have "\<exists>m. fold ?step st mx = Some m \<and> n \<le> m" for mx using assms
  proof (induction st arbitrary: mx)
    case (Cons g st)
    show ?case
    proof (cases "f = g")
      case True
      have "\<exists>k. ?step g mx = Some k \<and> n \<le> k" using True Cons.prems by (cases mx) auto
      then obtain k where "?step g mx = Some k" "n \<le> k" by blast
      then show ?thesis using mono [of st k] by fastforce
    qed (use Cons in simp)
  qed simp
  then show ?thesis by (simp add: max_seq_def)
qed

lemma build_prover_fresh:
  assumes "max_seq st = None \<or> the (max_seq st) + k + 1 < 2 ^ 64" "k < 2 ^ 64"
  shows "record_file (job_id_of (jb_seq (pv_jobs (build_prover_state st)) + word_of_nat k)) \<notin> fst ` set st"
proof
  let ?n = "jb_seq (pv_jobs (build_prover_state st)) + word_of_nat k"
  assume "record_file (job_id_of ?n) \<in> fst ` set st"
  then obtain f where f: "f \<in> set st" "fst f = record_file (job_id_of ?n)" by auto
  then obtain m where m: "max_seq st = Some m" "unat ?n \<le> m"
    using max_seq_ge [of f st "unat ?n"] by (auto simp: seq_of_record_file)
  have "?n = word_of_nat (m + 1 + k)" using m(1) by (simp add: build_prover_state_def jobs_new_def)
  moreover have "m + 1 + k < 2 ^ 64" using assms m(1) by simp
  ultimately have "unat ?n = m + 1 + k" by (simp only: unsigned_of_nat) (simp add: take_bit_nat_eq_self)
  then show False using m(2) by simp
qed

end
