(* ===== verification/Prover_Snip36.thy ===== *)
theory Prover_Snip36
  imports Prover_Jobs
begin

text \<open>
  \<open>crates/prover/src/snip36.rs\<close> and the lookup of \<open>settings.rs\<close>: what happens around a local proof. The
  node is the function \<open>rpc\<close> (URL, method, parameters), \<open>sj\<close> prints a JSON value.
\<close>

record strk20_config =
  sk_pool :: string
  sk_starkscan_api_key :: string
  sk_deposit_prover_url :: string
  sk_avnu_api_key :: string
  sk_paymaster_url :: string

record network_config =
  nc_rpc_url :: string
  nc_prover_url :: string
  nc_prover_api_key :: string
  nc_strk20 :: strk20_config

record settings =
  se_mainnet :: network_config
  se_testnet :: network_config
  se_prover_backend :: string

definition for_network :: "settings \<Rightarrow> string \<Rightarrow> network_config" where
  "for_network s net = (if net = ''testnet'' \<or> net = ''sepolia'' then se_testnet s else se_mainnet s)"

definition STRK_FEE_TOKEN :: string where
  "STRK_FEE_TOKEN = ''0x04718f5a0fc34cc1af16a1cdee98ffb20c31f5cd61d6ab07201858f4287c938d''"

definition MAX_COMPONENT_LOG_ROWS :: nat where "MAX_COMPONENT_LOG_ROWS = 20"
definition APPROX_MAX_STEPS :: nat where "APPROX_MAX_STEPS = 1000000"

definition snippet :: "string \<Rightarrow> string" where
  "snippet s = take_chars 300 (trim s)"

definition ESC :: char where "ESC = CHR 0x1B"

definition is_ascii_alphabetic :: "char \<Rightarrow> bool" where
  "is_ascii_alphabetic c \<longleftrightarrow> is_ascii_upper c \<or> is_ascii_lower c"

text \<open>After \<open>ESC [\<close>, everything up to and including the first letter is dropped.\<close>

fun skip_escape :: "string \<Rightarrow> string" where
  "skip_escape [] = []"
| "skip_escape (c # cs) = (if is_ascii_alphabetic c then cs else skip_escape cs)"

lemma length_skip_escape: "length (skip_escape s) \<le> length s"
  by (induction s) auto

function strip_ansi :: "string \<Rightarrow> string" where
  "strip_ansi [] = []"
| "strip_ansi (c # cs) =
     (if c = ESC \<and> cs \<noteq> [] \<and> hd cs = CHR ''['' then strip_ansi (skip_escape (tl cs))
      else c # strip_ansi cs)"
  by pat_completeness auto
termination
  by (relation "measure length")
    (auto simp: neq_Nil_conv less_Suc_eq_le intro: le_trans [OF length_skip_escape])

text \<open>\<open>rfind\<close>: the last occurrence.\<close>

fun rfind_sub :: "string \<Rightarrow> string \<Rightarrow> nat option" where
  "rfind_sub p [] = (if p = [] then Some 0 else None)"
| "rfind_sub p (c # cs) =
     (case rfind_sub p cs of
        Some i \<Rightarrow> Some (Suc i)
      | None \<Rightarrow> if starts_with p (c # cs) then Some 0 else None)"

definition error_part :: "string \<Rightarrow> string" where
  "error_part stderr =
     (let clean = strip_ansi stderr
      in case rfind_sub ''Error:'' clean of Some i \<Rightarrow> drop i clean | None \<Rightarrow> clean)"

definition too_large_message :: string where
  "too_large_message =
     ''transaction too large to prove: its execution trace exceeds the SNIP-36 prover's '' @
     ''fixed size '' @ utf8_dash @ '' at most 2^'' @ nat_dec MAX_COMPONENT_LOG_ROWS
     @ '' rows in any one AIR component '' @
     ''('' @ utf8_approx @ nat_dec APPROX_MAX_STEPS
     @ '' Cairo steps as a rule of thumb). This is a protocol constant '' @
     ''of the verifier the network accepts (PROOF1), not a machine limit: more RAM or a '' @
     ''retry won't help. Split the work across separate transactions, each '' @
     ''proved on its own (several calls inside one tx share one trace). ec_op and keccak '' @
     ''are emulated in Cairo by the prover's bootloader, so ECDSA/keccak-heavy code hits '' @
     ''the cap well before 1M steps '' @ utf8_dash @ '' find the largest batch that proves and chunk below '' @
     ''it. raw: ''"

definition throttled_message :: string where
  "throttled_message =
     ''upstream RPC throttled (HTTP 429 / provider error) '' @ utf8_dash
     @ '' proving fetches lots of state; '' @
     ''use a higher-quota RPC in Settings. raw: ''"

definition old_rpc_message :: string where
  "old_rpc_message =
     ''RPC too old (missing `state_diff_commitment`) '' @ utf8_dash @ '' needs a spec '' @ utf8_geq
     @ ''0.10 endpoint. raw: ''"

definition port_message :: string where
  "port_message =
     ''prover port in use (stale runner) '' @ utf8_dash @ '' retry; strkd picks a fresh port per prove. raw: ''"

definition version_message :: string where
  "version_message =
     ''the bundled prover does not support this network's Starknet protocol version '' @ utf8_dash @ '' it '' @
     ''rejected the reference block header, so the pinned prover stack predates the network's '' @
     ''current protocol. Fix: update the prover pin (desktop/scripts/prover-pin.env) to a '' @
     ''release that supports it and re-stage, or set the prover backend to `remote` (Settings) '' @
     ''and point at a compatible prover. raw: ''"

definition classify_prover_error :: "string \<Rightarrow> string" where
  "classify_prover_error stderr0 =
     (let stderr = error_part stderr0; low = to_lowercase stderr
      in if contains low ''not enough twiddles'' then too_large_message @ snippet stderr
         else if contains low ''429'' \<or> contains low ''too many requests'' \<or> contains low ''rpc provider error''
           then throttled_message @ snippet stderr
         else if contains low ''state_diff_commitment'' then old_rpc_message @ snippet stderr
         else if contains low ''port'' \<and> contains low ''already in use'' then port_message @ snippet stderr
         else if contains low ''invalid starknet version'' \<or> contains low ''convert block header''
           then version_message @ snippet stderr
         else ''prover failed: '' @ snippet stderr)"

definition net_params :: "string \<Rightarrow> string \<times> string" where
  "net_params network =
     (if network = ''testnet'' \<or> network = ''sepolia'' then (''SN_SEPOLIA'', STRK_FEE_TOKEN)
      else (''SN_MAIN'', STRK_FEE_TOKEN))"

record prove_inputs =
  pi_tx :: json
  pi_block_number :: u64
  pi_chain_id :: string
  pi_strk :: string
  pi_rpc_url :: string

type_synonym prover_rpc = "string \<Rightarrow> string \<Rightarrow> json \<Rightarrow> string + json"

definition latest_block :: "(json \<Rightarrow> string) \<Rightarrow> prover_rpc \<Rightarrow> string \<Rightarrow> string + u64" where
  "latest_block sj rpc url =
     bindE (rpc url ''starknet_blockNumber'' (JArr [])) (\<lambda>v.
     ok_or (''rpc blockNumber: unexpected response '' @ sj v) (get_u64 v ''result''))"

fun trim_start_matches :: "nat \<Rightarrow> string \<Rightarrow> string \<Rightarrow> string" where
  "trim_start_matches 0 p s = s"
| "trim_start_matches (Suc k) p s =
     (case strip_prefix p s of None \<Rightarrow> s | Some r \<Rightarrow> trim_start_matches k p r)"

definition parse_hex_u64 :: "string \<Rightarrow> nat option" where
  "parse_hex_u64 s = parse_radix 16 (2 ^ 64) (trim_start_matches (length s) ''0x'' s)"

definition check_nonce :: "prover_rpc \<Rightarrow> string \<Rightarrow> json \<Rightarrow> u64 \<Rightarrow> string + unit" where
  "check_nonce rpc url tx block =
     (case (get_str tx ''sender_address'', get_str tx ''nonce'') of
        (Some sender, Some tx_nonce) \<Rightarrow>
          bindE (rpc url ''starknet_getNonce''
            (JArr [JObj [(''block_number'', json_u64 block)], JStr sender])) (\<lambda>v.
          case get_str v ''result'' of
            None \<Rightarrow> Ok ()
          | Some chain_nonce \<Rightarrow>
              (case (parse_hex_u64 tx_nonce, parse_hex_u64 chain_nonce) of
                 (Some a, Some b) \<Rightarrow>
                   if a \<noteq> b then
                     Err (''nonce mismatch: virtual tx has nonce '' @ tx_nonce @ '' but account '' @ sender
                       @ '' had '' @ ''nonce '' @ chain_nonce @ '' at block '' @ nat_dec (unat block)
                       @ ''. The virtual tx nonce must equal the ''
                       @ ''account nonce at the reference block, not just the current nonce.'')
                   else Ok ()
               | _ \<Rightarrow> Ok ()))
      | _ \<Rightarrow> Ok ())"

definition saturating_sub2 :: "u64 \<Rightarrow> u64" where
  "saturating_sub2 n = (if n < 2 then 0 else n - 2)"

definition is_signed_tx :: "json \<Rightarrow> bool" where
  "is_signed_tx tx \<longleftrightarrow> (case get_array tx ''signature'' of None \<Rightarrow> False | Some a \<Rightarrow> a \<noteq> [])"

definition preflight ::
  "(json \<Rightarrow> string) \<Rightarrow> prover_rpc \<Rightarrow> settings \<Rightarrow> json \<Rightarrow> string \<Rightarrow> string + prove_inputs" where
  "preflight sj rpc s payload network =
     (let net = for_network s network
      in if nc_rpc_url net = []
         then Err (''no RPC URL configured for '' @ network @ '' (set it in Settings)'')
         else
           bindE (ok_or ''payload missing `transaction` (the signed Tx A)''
                    (json_get payload ''transaction'')) (\<lambda>tx.
           if \<not> is_signed_tx tx
           then Err (''transaction is not signed (missing/empty `signature`); the prover proves ''
                   @ ''pre-signed transactions only and never signs'')
           else
             bindE (case get_u64 payload ''block_number'' of
                 Some n \<Rightarrow> Ok n
               | None \<Rightarrow> bindE (latest_block sj rpc (nc_rpc_url net)) (\<lambda>b. Ok (saturating_sub2 b)))
               (\<lambda>block_number.
             bindE (check_nonce rpc (nc_rpc_url net) tx block_number) (\<lambda>_.
             let (chain_id, strk) = net_params network
             in Ok \<lparr>pi_tx = tx, pi_block_number = block_number, pi_chain_id = chain_id,
                   pi_strk = strk, pi_rpc_url = nc_rpc_url net\<rparr>))))"

definition prove_env :: "prove_inputs \<Rightarrow> (string \<times> string) list" where
  "prove_env inp =
     [(''STARKNET_CHAIN_ID'', pi_chain_id inp),
      (''STARKNET_RPC_URL'', pi_rpc_url inp),
      (''STARKNET_STRK_TOKEN'', pi_strk inp),
      (''STARKNET_ACCOUNT_ADDRESS'', ''0x1''),
      (''STARKNET_PRIVATE_KEY'', ''0x1'')]"

text \<open>The three output files: the proof's text, the parsed facts, the parsed messages.\<close>

definition parse_outputs :: "string + string \<Rightarrow> json option \<Rightarrow> json option \<Rightarrow> string + json" where
  "parse_outputs proof_file facts_file messages_file =
     bindE (map_err (\<lambda>e. ''read proof: '' @ e) proof_file) (\<lambda>text.
     let proof = trim text;
         facts = (case facts_file of None \<Rightarrow> JNull | Some v \<Rightarrow> v);
         messages = (case Option.bind messages_file (\<lambda>v. json_get v ''l2_to_l1_messages'') of
             None \<Rightarrow> JArr [] | Some m \<Rightarrow> m)
     in Ok (JObj [(''proof'', JStr proof), (''proof_facts'', facts), (''l2_to_l1_messages'', messages)]))"

section \<open>Properties\<close>

lemma strip_ansi_plain: "ESC \<notin> set s \<Longrightarrow> strip_ansi s = s"
  by (induction s rule: strip_ansi.induct) auto

lemma strip_ansi_sequence:
  "\<forall>c \<in> set ps. \<not> is_ascii_alphabetic c \<Longrightarrow> is_ascii_alphabetic l \<Longrightarrow>
     strip_ansi (ESC # CHR ''['' # ps @ l # rest) = strip_ansi rest"
proof -
  assume "\<forall>c \<in> set ps. \<not> is_ascii_alphabetic c" "is_ascii_alphabetic l"
  then have "skip_escape (ps @ l # rest) = rest" by (induction ps) auto
  then show ?thesis by simp
qed

text \<open>A prove only starts on a signed transaction whose nonce was not found to differ.\<close>

lemma preflight_Ok:
  assumes "preflight sj rpc s payload network = Ok inp"
  shows "json_get payload ''transaction'' = Some (pi_tx inp)" "is_signed_tx (pi_tx inp)"
    "pi_rpc_url inp = nc_rpc_url (for_network s network)" "pi_rpc_url inp \<noteq> []"
    "(pi_chain_id inp, pi_strk inp) = net_params network"
    "check_nonce rpc (pi_rpc_url inp) (pi_tx inp) (pi_block_number inp) = Ok ()"
  using assms by (auto simp: preflight_def Let_def result_simps case_prod_beta split: if_splits)

lemma check_nonce_Ok:
  assumes "check_nonce rpc url tx block = Ok ()"
    and "get_str tx ''sender_address'' = Some sender" "get_str tx ''nonce'' = Some n" "parse_hex_u64 n = Some a"
    and "rpc url ''starknet_getNonce'' (JArr [JObj [(''block_number'', json_u64 block)], JStr sender]) = Ok v"
    and "get_str v ''result'' = Some m" "parse_hex_u64 m = Some b"
  shows "a = b"
  using assms by (simp add: check_nonce_def split: if_splits)

lemma is_signed_tx_iff: "is_signed_tx tx \<longleftrightarrow> (\<exists>x xs. json_get tx ''signature'' = Some (JArr (x # xs)))"
  by (auto simp: is_signed_tx_def get_array_def neq_Nil_conv bind_eq_Some_conv split: option.splits elim!: as_array.elims)

text \<open>The CLI is never given a key.\<close>

lemma prove_env_no_key:
  "map_of (prove_env inp) ''STARKNET_PRIVATE_KEY'' = Some ''0x1''"
  by (simp add: prove_env_def)

lemma classify_keeps_cause:
  "\<exists>prefix. classify_prover_error stderr = prefix @ snippet (error_part stderr)"
  by (auto simp: classify_prover_error_def Let_def)

end
