(* ===== verification/Rpc_Auth.thy ===== *)
theory Rpc_Auth
  imports Text
begin

text \<open>
  \<open>crates/wallet-rpc/src/auth.rs\<close>: the store of paired clients. SHA-256 (as lowercase hex) is the parameter
  \<open>H\<close>; the bytes of the OS RNG are arguments. The backing file is the component \<open>cs_disk\<close>;
  \<open>cs_write_ok\<close> says whether a write to it succeeds, since \<open>persist\<close> ignores failures.
  \<open>store_wf\<close> is the invariant of a store whose random draws do not repeat.
\<close>

datatype client_kind = AgentClient | AppClient   \<comment> \<open>\<open>ClientKind::Agent\<close>, \<open>ClientKind::App\<close>\<close>

record paired_client =
  pc_id :: string
  pc_label :: string
  pc_kind :: client_kind
  pc_granted_until :: "u64 option"
  pc_token_hash :: string

definition grant_active :: "paired_client \<Rightarrow> u64 \<Rightarrow> bool" where
  "grant_active c now_ms = (case pc_granted_until c of None \<Rightarrow> False | Some t \<Rightarrow> now_ms < t)"

record client_info =
  ci_id :: string
  ci_label :: string
  ci_kind :: client_kind
  ci_granted_until :: "u64 option"

record client_store =
  cs_clients :: "paired_client list"
  cs_path :: "string option"
  cs_disk :: "paired_client list option"
  cs_write_ok :: bool

type_synonym token_hash = "string \<Rightarrow> string"

text \<open>\<open>hex::encode\<close>\<close>

definition hex_encode :: "bytes \<Rightarrow> string" where
  "hex_encode bs = concat (map (\<lambda>b. [digit_char (unat b div 16), digit_char (unat b mod 16)]) bs)"

definition store_new :: client_store where
  "store_new = \<lparr>cs_clients = [], cs_path = None, cs_disk = None, cs_write_ok = True\<rparr>"

text \<open>\<open>on_disk\<close> is the parsed file, \<open>None\<close> when it is missing or unreadable.\<close>

definition store_open :: "string \<Rightarrow> paired_client list option \<Rightarrow> bool \<Rightarrow> client_store" where
  "store_open path on_disk ok =
     \<lparr>cs_clients = (case on_disk of None \<Rightarrow> [] | Some cs \<Rightarrow> cs), cs_path = Some path,
      cs_disk = on_disk, cs_write_ok = ok\<rparr>"

definition store_persist :: "client_store \<Rightarrow> client_store" where
  "store_persist s =
     (if cs_path s = None then s
      else if \<not> cs_write_ok s then s
      else s\<lparr>cs_disk := Some (cs_clients s)\<rparr>)"

definition pair ::
  "token_hash \<Rightarrow> bytes \<Rightarrow> bytes \<Rightarrow> string \<Rightarrow> client_kind \<Rightarrow> client_store
     \<Rightarrow> (string \<times> string) \<times> client_store" where
  "pair H id_draw token_draw label kind s =
     (let cid = ''client-'' @ hex_encode id_draw;
          token = hex_encode token_draw;
          c = \<lparr>pc_id = cid, pc_label = label, pc_kind = kind, pc_granted_until = None,
               pc_token_hash = H token\<rparr>
      in ((cid, token), store_persist (s\<lparr>cs_clients := cs_clients s @ [c]\<rparr>)))"

text \<open>\<open>iter_mut().find(p)\<close> followed by an update of the client found.\<close>

fun update_first :: "('a \<Rightarrow> bool) \<Rightarrow> ('a \<Rightarrow> 'a) \<Rightarrow> 'a list \<Rightarrow> 'a list" where
  "update_first p f [] = []"
| "update_first p f (x # xs) = (if p x then f x # xs else x # update_first p f xs)"

definition grant :: "string \<Rightarrow> u64 \<Rightarrow> client_store \<Rightarrow> bool \<times> client_store" where
  "grant cid until_ms s =
     (if \<exists>c \<in> set (cs_clients s). pc_id c = cid
      then (True, store_persist (s\<lparr>cs_clients := update_first (\<lambda>c. pc_id c = cid)
              (\<lambda>c. c\<lparr>pc_granted_until := Some until_ms\<rparr>) (cs_clients s)\<rparr>))
      else (False, s))"

definition revoke_grant :: "string \<Rightarrow> client_store \<Rightarrow> bool \<times> client_store" where
  "revoke_grant cid s =
     (if \<exists>c \<in> set (cs_clients s). pc_id c = cid
      then (True, store_persist (s\<lparr>cs_clients := update_first (\<lambda>c. pc_id c = cid)
              (\<lambda>c. c\<lparr>pc_granted_until := None\<rparr>) (cs_clients s)\<rparr>))
      else (False, s))"

definition find_id :: "string \<Rightarrow> client_kind \<Rightarrow> client_store \<Rightarrow> string option" where
  "find_id name kind s =
     map_option pc_id (List.find (\<lambda>c. pc_label c = name \<and> pc_kind c = kind) (cs_clients s))"

definition reattach ::
  "token_hash \<Rightarrow> bytes \<Rightarrow> string \<Rightarrow> client_kind \<Rightarrow> client_store
     \<Rightarrow> (string \<times> string) option \<times> client_store" where
  "reattach H token_draw name kind s =
     (let token = hex_encode token_draw
      in case List.find (\<lambda>c. pc_label c = name \<and> pc_kind c = kind) (cs_clients s) of
           None \<Rightarrow> (None, s)
         | Some c \<Rightarrow>
             (Some (pc_id c, token),
              store_persist (s\<lparr>cs_clients := update_first (\<lambda>c. pc_label c = name \<and> pc_kind c = kind)
                 (\<lambda>c. c\<lparr>pc_token_hash := H token\<rparr>) (cs_clients s)\<rparr>)))"

definition list_clients :: "client_store \<Rightarrow> client_info list" where
  "list_clients s = map (\<lambda>c. \<lparr>ci_id = pc_id c, ci_label = pc_label c, ci_kind = pc_kind c,
     ci_granted_until = pc_granted_until c\<rparr>) (cs_clients s)"

definition verify :: "token_hash \<Rightarrow> client_store \<Rightarrow> string \<Rightarrow> paired_client option" where
  "verify H s token = List.find (\<lambda>c. pc_token_hash c = H token) (cs_clients s)"

definition revoke :: "string \<Rightarrow> client_store \<Rightarrow> bool \<times> client_store" where
  "revoke cid s =
     (let kept = filter (\<lambda>c. pc_id c \<noteq> cid) (cs_clients s);
          removed = length kept \<noteq> length (cs_clients s);
          s' = s\<lparr>cs_clients := kept\<rparr>
      in (removed, if removed then store_persist s' else s'))"

definition store_len :: "client_store \<Rightarrow> nat" where
  "store_len s = length (cs_clients s)"

section \<open>Tokens resolve to their own client\<close>

definition store_wf :: "client_store \<Rightarrow> bool" where
  "store_wf s \<longleftrightarrow> distinct (map pc_id (cs_clients s)) \<and> distinct (map pc_token_hash (cs_clients s))"

lemma clients_persist [simp]: "cs_clients (store_persist s) = cs_clients s"
  by (simp add: store_persist_def)

lemma store_wf_persist [simp]: "store_wf (store_persist s) = store_wf s"
  by (simp add: store_wf_def)

lemma find_distinct:
  "distinct (map f xs) \<Longrightarrow> x \<in> set xs \<Longrightarrow> List.find (\<lambda>y. f y = f x) xs = Some x"
  by (induction xs) (auto simp: image_iff)

lemma verify_Some: "verify H s token = Some c \<Longrightarrow> c \<in> set (cs_clients s) \<and> pc_token_hash c = H token"
  unfolding verify_def find_Some_iff by (auto intro: nth_mem)

lemma verify_None: "verify H s token = None \<longleftrightarrow> H token \<notin> pc_token_hash ` set (cs_clients s)"
  unfolding verify_def find_None_iff by force

lemma find_append:
  "List.find p (xs @ ys) = (case List.find p xs of None \<Rightarrow> List.find p ys | Some x \<Rightarrow> Some x)"
  by (induction xs) simp_all

lemma verify_iff:
  assumes "store_wf s"
  shows "verify H s token = Some c \<longleftrightarrow> c \<in> set (cs_clients s) \<and> pc_token_hash c = H token"
proof
  assume c: "c \<in> set (cs_clients s) \<and> pc_token_hash c = H token"
  have "List.find (\<lambda>d. pc_token_hash d = pc_token_hash c) (cs_clients s) = Some c"
    using assms c by (intro find_distinct) (simp_all add: store_wf_def)
  then show "verify H s token = Some c" using c by (simp add: verify_def)
qed (rule verify_Some)

lemma map_update_first:
  "(\<And>x. g (f x) = g x) \<Longrightarrow> map g (update_first p f xs) = map g xs"
  by (induction xs) simp_all

lemma set_update_first_distinct:
  "distinct (map g xs) \<Longrightarrow> set (update_first (\<lambda>x. g x = k) f xs) = (\<lambda>x. if g x = k then f x else x) ` set xs"
proof (induction xs)
  case (Cons x xs)
  show ?case
  proof (cases "g x = k")
    case True
    have "\<forall>y \<in> set xs. g y \<noteq> g x" using Cons.prems by (auto simp: image_iff)
    then have "\<forall>y \<in> set xs. g y \<noteq> k" using True by simp
    then show ?thesis using True by (auto simp: image_iff)
  qed (use Cons in auto)
qed simp

lemma set_update_first: "y \<in> set (update_first p f xs) \<Longrightarrow> y \<in> set xs \<or> (\<exists>x \<in> set xs. p x \<and> y = f x)"
  by (induction xs) (auto split: if_splits)

lemma pair_wf:
  assumes "store_wf s" "pair H i t label kind s = ((cid, token), s')"
    and "cid \<notin> pc_id ` set (cs_clients s)" "H token \<notin> pc_token_hash ` set (cs_clients s)"
  shows "store_wf s'"
  using assms by (auto simp: pair_def Let_def store_wf_def)

lemma verify_pair:
  assumes "store_wf s" "pair H i t label kind s = ((cid, token), s')"
    and "H token \<notin> pc_token_hash ` set (cs_clients s)"
  shows "\<exists>c. verify H s' token = Some c \<and> pc_id c = cid \<and> pc_label c = label \<and> pc_kind c = kind
      \<and> pc_granted_until c = None"
    and "H tk \<noteq> H token \<Longrightarrow> verify H s' tk = verify H s tk"
proof -
  have "verify H s token = None" using assms(3) by (simp add: verify_None)
  then show "\<exists>c. verify H s' token = Some c \<and> pc_id c = cid \<and> pc_label c = label \<and> pc_kind c = kind
      \<and> pc_granted_until c = None"
    using assms(2) by (auto simp: pair_def Let_def verify_def find_append)
  show "H tk \<noteq> H token \<Longrightarrow> verify H s' tk = verify H s tk"
    using assms(2) by (auto simp: pair_def Let_def verify_def find_append split: option.splits)
qed

lemma find_split:
  "List.find p xs = Some c \<Longrightarrow>
     \<exists>as bs. xs = as @ c # bs \<and> p c \<and> (\<forall>f. update_first p f xs = as @ f c # bs)"
proof (induction xs)
  case (Cons x xs)
  show ?case
  proof (cases "p x")
    case True
    then show ?thesis using Cons.prems by (intro exI [of _ "[]"] exI [of _ xs]) simp
  next
    case False
    then obtain as bs where "xs = as @ c # bs" "p c" "\<forall>f. update_first p f xs = as @ f c # bs"
      using Cons by auto
    then show ?thesis using False by (intro exI [of _ "x # as"] exI [of _ bs]) simp
  qed
qed simp

text \<open>A new token for the same client: the old one is no longer accepted, no other client is touched.\<close>

lemma reattach_Some:
  assumes wf: "store_wf s" and step: "reattach H d name kind s = (Some (cid, token), s')"
    and fresh: "H token \<notin> pc_token_hash ` set (cs_clients s)"
  obtains c as bs where "cs_clients s = as @ c # bs"
    "cs_clients s' = as @ c\<lparr>pc_token_hash := H token\<rparr> # bs"
    "pc_label c = name" "pc_kind c = kind" "pc_id c = cid" "store_wf s'"
proof -
  let ?p = "\<lambda>c. pc_label c = name \<and> pc_kind c = kind"
  obtain c where c: "List.find ?p (cs_clients s) = Some c" "pc_id c = cid"
    and s': "cs_clients s' = update_first ?p (\<lambda>c. c\<lparr>pc_token_hash := H token\<rparr>) (cs_clients s)"
    using step by (auto simp: reattach_def Let_def split: option.splits)
  obtain as bs where split: "cs_clients s = as @ c # bs" "?p c"
    "\<forall>f. update_first ?p f (cs_clients s) = as @ f c # bs"
    using find_split [OF c(1)] by blast
  have eq: "cs_clients s' = as @ c\<lparr>pc_token_hash := H token\<rparr> # bs" unfolding s' by (rule split(3) [THEN spec])
  have "store_wf s'" using wf fresh by (auto simp: store_wf_def eq split(1))
  then show thesis using split c(2) eq by (intro that [of as c bs]) simp_all
qed

lemma verify_reattach:
  assumes wf: "store_wf s" and step: "reattach H d name kind s = (Some (cid, token), s')"
    and fresh: "H token \<notin> pc_token_hash ` set (cs_clients s)"
    and old: "verify H s old = Some c" and new: "pc_id c = cid"
  shows "verify H s' token = Some (c\<lparr>pc_token_hash := H token\<rparr>)" "verify H s' old = None"
    "verify H s other = Some d' \<Longrightarrow> pc_id d' \<noteq> cid \<Longrightarrow> verify H s' other = Some d'"
proof -
  obtain e as bs where e: "cs_clients s = as @ e # bs"
    "cs_clients s' = as @ e\<lparr>pc_token_hash := H token\<rparr> # bs" "pc_id e = cid" and wf': "store_wf s'"
    by (rule reattach_Some [OF wf step fresh])
  have c: "c \<in> set (cs_clients s)" "pc_token_hash c = H old" using verify_Some [OF old] by simp_all
  have "inj_on pc_id (set (cs_clients s))" using wf by (simp add: store_wf_def distinct_map)
  then have ce: "c = e" by (rule inj_onD) (use c(1) e(1,3) new in simp_all)
  have "c\<lparr>pc_token_hash := H token\<rparr> \<in> set (cs_clients s')" by (simp add: e(2) ce)
  then show "verify H s' token = Some (c\<lparr>pc_token_hash := H token\<rparr>)"
    by (simp add: verify_iff [OF wf'])
  have "H old \<in> pc_token_hash ` set (cs_clients s)" using c by (metis imageI)
  then have "H old \<noteq> H token" using fresh by metis
  moreover have "H old \<notin> pc_token_hash ` set as" "H old \<notin> pc_token_hash ` set bs"
    using wf c(2) ce by (simp_all add: store_wf_def e(1))
  ultimately show "verify H s' old = None" by (simp add: verify_None e(2) image_Un)
  show "verify H s' other = Some d'" if o: "verify H s other = Some d'" "pc_id d' \<noteq> cid"
  proof -
    have "d' \<in> set (cs_clients s)" "pc_token_hash d' = H other" using verify_Some [OF o(1)] by simp_all
    moreover have "d' \<noteq> e" using o(2) e(3) by auto
    ultimately show ?thesis by (simp add: verify_iff [OF wf'] e(1,2))
  qed
qed

lemma grant_wf: "store_wf s \<Longrightarrow> store_wf (snd (grant cid t s))"
  "store_wf s \<Longrightarrow> store_wf (snd (revoke_grant cid s))"
  by (auto simp: grant_def revoke_grant_def store_wf_def map_update_first)

lemma revoke_wf: "store_wf s \<Longrightarrow> store_wf (snd (revoke cid s))"
  by (auto simp: revoke_def Let_def store_wf_def distinct_map_filter)

text \<open>A grant changes the expiry of its client and nothing else.\<close>

lemma verify_grant:
  assumes wf: "store_wf s" and "verify H s token = Some c"
  shows "verify H (snd (grant cid t s)) token
    = Some (if pc_id c = cid then c\<lparr>pc_granted_until := Some t\<rparr> else c)"
proof -
  have mem: "c \<in> set (cs_clients s)" "pc_token_hash c = H token" using verify_Some [OF assms(2)] by simp_all
  have wf': "store_wf (snd (grant cid t s))" using grant_wf(1) [OF wf] .
  have "set (cs_clients (snd (grant cid t s)))
      = (\<lambda>c. if pc_id c = cid then c\<lparr>pc_granted_until := Some t\<rparr> else c) ` set (cs_clients s)"
    using set_update_first_distinct [of pc_id "cs_clients s" cid] wf
    by (auto simp: grant_def store_wf_def image_iff)
  then show ?thesis using mem by (auto simp: verify_iff [OF wf'])
qed

lemma verify_grant_all:
  assumes wf: "store_wf s"
  shows "verify H (snd (grant cid t s)) token
    = map_option (\<lambda>c. if pc_id c = cid then c\<lparr>pc_granted_until := Some t\<rparr> else c) (verify H s token)"
proof (cases "verify H s token")
  case None
  have "set (cs_clients (snd (grant cid t s)))
      = (\<lambda>c. if pc_id c = cid then c\<lparr>pc_granted_until := Some t\<rparr> else c) ` set (cs_clients s)"
    using set_update_first_distinct [of pc_id "cs_clients s" cid] wf
    by (auto simp: grant_def store_wf_def image_iff)
  then have "verify H (snd (grant cid t s)) token = None"
    using None unfolding verify_None by auto
  with None show ?thesis by simp
qed (use verify_grant [OF wf] in auto)

lemma verify_revoke:
  assumes wf: "store_wf s"
  shows "verify H (snd (revoke cid s)) token = (case verify H s token of
      None \<Rightarrow> None | Some c \<Rightarrow> if pc_id c = cid then None else Some c)"
proof -
  have wf': "store_wf (snd (revoke cid s))" by (rule revoke_wf [OF wf])
  have set: "set (cs_clients (snd (revoke cid s))) = {c \<in> set (cs_clients s). pc_id c \<noteq> cid}"
    by (auto simp: revoke_def Let_def)
  show ?thesis
  proof (cases "verify H s token")
    case None
    then have "verify H (snd (revoke cid s)) token = None" by (auto simp: verify_None set)
    then show ?thesis using None by simp
  next
    case (Some c)
    then have c: "c \<in> set (cs_clients s)" "pc_token_hash c = H token" using verify_Some by blast+
    show ?thesis
    proof (cases "pc_id c = cid")
      case True
      have "d = c" if "d \<in> set (cs_clients s)" "pc_token_hash d = H token" for d
        using that c wf by (auto simp: store_wf_def distinct_map inj_on_def)
      then have "verify H (snd (revoke cid s)) token = None" using True by (auto simp: verify_None set)
      then show ?thesis using Some True by simp
    next
      case False
      then show ?thesis using Some c by (simp add: verify_iff [OF wf'] set)
    qed
  qed
qed

text \<open>Every mutation that changed the clients wrote them, when the write succeeded.\<close>

definition disk_synced :: "client_store \<Rightarrow> bool" where
  "disk_synced s \<longleftrightarrow> cs_path s = None \<or> \<not> cs_write_ok s \<or> cs_disk s = Some (cs_clients s)"

lemma disk_synced_persist [simp]: "disk_synced (store_persist s)"
  by (simp add: disk_synced_def store_persist_def)

lemma disk_synced_ops:
  "disk_synced (snd (pair H i t label kind s))"
  "disk_synced s \<Longrightarrow> disk_synced (snd (grant cid u s))"
  "disk_synced s \<Longrightarrow> disk_synced (snd (revoke_grant cid s))"
  "disk_synced s \<Longrightarrow> disk_synced (snd (reattach H t label kind s))"
  "disk_synced s \<Longrightarrow> disk_synced (snd (revoke cid s))"
proof -
  have "filter (\<lambda>c. pc_id c \<noteq> cid) (cs_clients s) = cs_clients s"
    if "length (filter (\<lambda>c. pc_id c \<noteq> cid) (cs_clients s)) = length (cs_clients s)"
    using that by (metis length_filter_less filter_True less_irrefl)
  then show "disk_synced s \<Longrightarrow> disk_synced (snd (revoke cid s))"
    by (auto simp: revoke_def Let_def disk_synced_def store_persist_def)
qed (auto simp: pair_def Let_def grant_def revoke_grant_def reattach_def split: option.splits)

end
