(* ===== verification/Instances.thy ===== *)
theory Instances
  imports Core_ClassHash Rpc_Log Rpc_Node Session Strk20_Ledger Strk20_Apply Prover_Jobs Prover_Snip36 Rpc_Auth
begin

text \<open>
  Concrete functions for the parameters of the model, used to evaluate it: a hex parser, a toy
  hash, curve, key derivation, signature and cipher, and a small pool state. They model no code of the
  repository. The laws the properties assume of the parameters hold of them (\<open>demo_laws\<close>), so
  those hypotheses can be met.
\<close>

definition demo_from_hex :: "string \<Rightarrow> felt option" where
  "demo_from_hex s = Option.bind (strip_prefix ''0x'' s) (\<lambda>h.
     if h = [] then None else map_option felt_of_nat (parse_digits 16 (16 ^ 64) 0 h))"

definition demo_hash :: "felt list \<Rightarrow> felt" where
  "demo_hash fs = foldl (\<lambda>h f. h * 31 + f + 1) 5 fs"

definition demo_keccak :: "bytes \<Rightarrow> bytes" where
  "demo_keccak bs = be_bytes 32 (foldl (\<lambda>h b. (h * 31 + unat b + 1) mod 2 ^ 64) 7 bs)"

definition demo_curve :: "felt curve" where
  "demo_curve = \<lparr>generator = 1, point_mul = (\<lambda>p k. p * k), point_x = (\<lambda>p. p),
     new_from_x = (\<lambda>x _. Some x)\<rparr>"

definition demo_oz :: oz_account where
  "demo_oz = \<lparr>oz_class_hash = 9, oz_build_calldata = (\<lambda>pk. [pk]),
     oz_descriptor = (\<lambda>pk _. Some \<lparr>dd_address = pk * 7 + 3, dd_class_hash = 9, dd_salt = 0,
        dd_constructor_calldata = [pk]\<rparr>)\<rparr>"

definition demo_ext :: ext where
  "demo_ext = \<lparr>felt_from_hex = demo_from_hex,
     felt_from_dec = (\<lambda>s. map_option felt_of_nat (parse_radix 10 (2 ^ 251) s)),
     poseidon_many = demo_hash,
     keccak256 = demo_keccak,
     chain_as_felt = (\<lambda>c. case c of Mainnet \<Rightarrow> 1 | Sepolia \<Rightarrow> 2),
     chain_from_felt = (\<lambda>f. if f = 1 then Some Mainnet else if f = 2 then Some Sepolia else None),
     derive_private_key = (\<lambda>_ i a _ _. Some (felt_of_word i * 11 + felt_of_word a * 5 + 17)),
     stark_public_key = (\<lambda>sk. Some (sk + 4)),
     sign_stark_hash = (\<lambda>sk h. Some \<lparr>sig_public_key = sk + 4, sig_r = sk + h, sig_s = h\<rparr>),
     compute_typed_data_message_hash = (\<lambda>td a. Some (a + felt_of_nat (length td))),
     derive_scoped_strk20_viewing_key = (\<lambda>sk _ _. Some (sk + 1)),
     krusty_generate_mnemonic = (\<lambda>n. Some (replicate n (CHR ''a''))),
     krusty_validate_mnemonic = (\<lambda>s. s \<noteq> []),
     oz_latest = (\<lambda>_. Some demo_oz),
     compute_invoke_v3_hash = (\<lambda>s cd c n _ t _ _ _ _ _ _ pf. demo_hash ([s, c, n, felt_of_word t] @ cd @ pf)),
     compute_deploy_account_v3_hash = (\<lambda>a b cd s c n _ _ _ _ _ _ _. demo_hash ([a, b, s, c, n] @ cd)),
     compute_declare_v3_hash = (\<lambda>a b c d n _ _ _ _ _ _ _ xs. demo_hash ([a, b, c, d, n] @ xs)),
     argon2id = (\<lambda>_ _ _ n pw salt. Some (be_bytes n (length pw * 256 + length salt))),
     aes_encrypt = (\<lambda>key _ m. Some (key @ m)),
     aes_decrypt = (\<lambda>key _ c. if take (length key) c = key then Some (drop (length key) c) else None)\<rparr>"

text \<open>
  A codec for \<open>VaultContents\<close>: five strings for each account, each character preceded by 1 and each
  string ended by 0.
\<close>

fun demo_put :: "string \<Rightarrow> bytes" where
  "demo_put [] = [0]"
| "demo_put (c # cs) = 1 # word_of_nat (of_char c) # demo_put cs"

fun demo_take :: "string \<Rightarrow> bytes \<Rightarrow> string list" where
  "demo_take acc [] = []"
| "demo_take acc [b] = (if b = 0 then [acc] else [])"
| "demo_take acc (b # c # bs) =
     (if b = 0 then acc # demo_take [] (c # bs) else demo_take (acc @ [char_of (unat c)]) bs)"

fun demo_put_accounts :: "registry \<Rightarrow> string list" where
  "demo_put_accounts [] = []"
| "demo_put_accounts (a # as) =
     [case acc_domain a of User \<Rightarrow> ''u'' | Agent \<Rightarrow> ''a'', nat_dec (unat (acc_index a)),
      acc_address a, acc_label a, case acc_owner a of None \<Rightarrow> [] | Some c \<Rightarrow> CHR ''c'' # c]
     @ demo_put_accounts as"

fun demo_take_accounts :: "string list \<Rightarrow> registry" where
  "demo_take_accounts (d # i # address # label # owner # ss) =
     \<lparr>acc_domain = (if d = ''u'' then User else Agent),
      acc_index = (case parse_radix 10 (2 ^ 32) i of None \<Rightarrow> 0 | Some n \<Rightarrow> word_of_nat n),
      acc_address = address, acc_label = label, acc_contract = OpenZeppelin,
      acc_owner = (case owner of [] \<Rightarrow> None | _ # c \<Rightarrow> Some c)\<rparr> # demo_take_accounts ss"
| "demo_take_accounts _ = []"

definition demo_codec :: vault_codec where
  "demo_codec = \<lparr>to_bytes = (\<lambda>c. concat (map demo_put (vc_mnemonic c # demo_put_accounts (vc_registry c)))),
     of_bytes = (\<lambda>b. case demo_take [] b of [] \<Rightarrow> None
        | m # ss \<Rightarrow> Some \<lparr>vc_mnemonic = m, vc_registry = demo_take_accounts ss\<rparr>)\<rparr>"

lemma unat_byte_of_char: "(char_of (unat (word_of_nat (of_char c) :: u8)) :: char) = c"
proof -
  have "unat (word_of_nat (of_char c) :: u8) = (of_char c :: nat) mod 256" by (simp add: unat_of_nat)
  then show ?thesis by simp
qed

lemma demo_take_put: "demo_take acc (demo_put s @ rest) = (acc @ s) # demo_take [] rest"
proof (induction s arbitrary: acc)
  case Nil
  show ?case by (cases rest) simp_all
next
  case (Cons c cs)
  then show ?case by (simp add: unat_byte_of_char)
qed

lemma demo_take_strings: "demo_take [] (concat (map demo_put ss)) = ss"
proof (induction ss)
  case (Cons s ss)
  then show ?case using demo_take_put [of "[]" s "concat (map demo_put ss)"] by simp
qed simp

lemma demo_index: "parse_radix 10 (2 ^ 32) (nat_dec (unat (i :: u32))) = Some (unat i)"
  using unat_less_exp [of i] by (simp add: nat_dec_def parse_radix_digits)

lemma demo_accounts: "demo_take_accounts (demo_put_accounts as) = as"
proof (induction as)
  case (Cons a as)
  obtain d i ad l c w where "a = \<lparr>acc_domain = d, acc_index = i, acc_address = ad, acc_label = l,
      acc_contract = c, acc_owner = w\<rparr>" by (cases a)
  moreover have "c = OpenZeppelin" by (cases c)
  ultimately show ?case
    using Cons demo_index [of i] by (cases d; cases w; simp)
qed simp

section \<open>The laws\<close>

lemma demo_codec_ok: "vault_codec_ok demo_codec"
  unfolding vault_codec_ok_def demo_codec_def by (simp add: demo_take_put demo_take_strings demo_accounts)

lemma demo_aead: "aead_correct demo_ext"
  by (auto simp: aead_correct_def demo_ext_def) (metis append_take_drop_id)

lemma felt_lower_hex_not_Nil: "pad_zeros w (felt_lower_hex f) \<noteq> []"
  by (simp add: pad_zeros_def felt_lower_hex_def nat_hex_def)

lemma demo_hex: "hex_reader demo_ext"
proof -
  have "felt_of_nat (nat (felt_val f)) = f" for f by (simp add: felt_of_nat_def)
  then show ?thesis
    by (simp add: hex_reader_def demo_ext_def demo_from_hex_def parse_felt_hex [simplified] felt_lower_hex_not_Nil)
qed

lemma demo_hex_roundtrip: "hex_roundtrip demo_ext"
  using demo_hex by (rule hex_reader_roundtrip)

section \<open>Keys and classes\<close>

lemma demo_signs: "sign_hash demo_ext m Agent 0 pw h
    = Ok \<lparr>sig_public_key = 1095192148 * 5 + 17 + 4, sig_r = 1095192148 * 5 + 17 + h, sig_s = h\<rparr>"
proof -
  have "felt_of_word (AGENT_ACCOUNT_INDEX :: u32) = 1095192148" "felt_of_word (0 :: u32) = 0"
    by (simp_all add: felt_eq_iff AGENT_ACCOUNT_INDEX_def felt_val_numeral stark_prime_num)
  then show ?thesis
    by (simp add: sign_hash_def private_key_def check_index_def AGENT_INDEX_LIMIT_def demo_ext_def)
qed

lemma demo_class:
  "\<exists>c. class_from_json demo_ext scalar
     (JObj [(''sierra_program'', JArr [JStr ''0x1'']), (''abi'', JStr ''[]'')]) = Ok c"
  by (simp add: class_from_json_def program_of_json_def version_of_json_def entry_points_of_json_def
      abi_of_json_def felt_of_json_def demo_ext_def demo_from_hex_def char_digit_def)

section \<open>A session, a pool and a plan\<close>

definition demo_session :: wallet_session where
  "demo_session = \<lparr>s_chain = Sepolia, s_unlocked = Some \<lparr>u_mnemonic = ''seed'', u_vault_passphrase = ''pw'',
     u_registry = []\<rparr>\<rparr>"

definition demo_account :: account_ref where
  "demo_account = \<lparr>acc_domain = Agent, acc_index = 0,
     acc_address = address_hex ((1095192148 * 5 + 17 + 4) * 7 + 3), acc_label = ''bot'',
     acc_contract = OpenZeppelin, acc_owner = Some ''client-1''\<rparr>"

text \<open>A pool with nothing in it but the keys registered by everyone.\<close>

definition demo_pool :: "felt pool_ctx" where
  "demo_pool = \<lparr>px_ext = demo_ext, px_poseidon = demo_hash, px_curve = demo_curve,
     px_call = (\<lambda>sel cd. if sel = get_selector_from_name demo_ext ''get_public_key'' then Ok [5] else Ok [0, 0, 0])\<rparr>"

definition demo_note :: pool_note where
  "demo_note = \<lparr>note_id_of = 100, note_token = 7, note_amount = 10, note_channel_key = 40, note_index = 3,
     note_sender = 2, note_open = False\<rparr>"

definition demo_state :: plan_state where
  "demo_state = \<lparr>st_user = 1, st_user_sk = 6, st_registered = True, st_outgoing_channels = 1,
     st_channels =
       [(1, \<lparr>ch_recipient = 1, ch_recipient_public_key = 6, ch_key = 50, ch_open = True,
             ch_subchannels = [(7, \<lparr>sc_index = 0, sc_next_note_index = 2\<rparr>)]\<rparr>),
        (2, \<lparr>ch_recipient = 2, ch_recipient_public_key = 8, ch_key = 60, ch_open = False, ch_subchannels = []\<rparr>)],
     st_notes = [demo_note\<lparr>note_id_of := 101, note_amount := 4, note_index := 4\<rparr>, demo_note]\<rparr>"

definition demo_intent :: intent where
  "demo_intent = \<lparr>in_register = False, in_deposits = [], in_transfers = [(2, 7, 8)], in_withdrawals = []\<rparr>"

definition demo_rng :: randomness where
  "demo_rng = \<lparr>rnd_felts = [21, 22, 23], rnd_salts = [1, 900, 901], rnd_error = ''dry''\<rparr>"

definition demo_plan :: plan_result where
  "demo_plan = \<lparr>pl_actions =
       [OpenChannel 2 1 21 22, OpenSubchannel 2 8 60 0 7 23, UseNote 40 7 3,
        CreateEncNote 2 8 7 8 0 900, CreateEncNote 1 6 7 2 2 901],
     pl_spent = [100], pl_change = [(7, 2)], pl_warnings = []\<rparr>"

lemma demo_candidates:
  "candidates (st_notes demo_state) 7
     = [demo_note, demo_note\<lparr>note_id_of := 101, note_amount := 4, note_index := 4\<rparr>]"
  by (simp add: candidates_def demo_state_def demo_note_def sort_key_def)

lemma demo_plan_Ok: "plan demo_pool demo_intent demo_state demo_rng = Ok demo_plan"
  apply (simp add: plan_def demo_intent_def plan_balances_def nonzero_def signed_i128_def i128_def
      bt_get_or_def bt_get_def cover_token_def demo_candidates)
  apply (simp add: demo_state_def demo_note_def signed_i128_def i128_def)
  apply (simp add: add_note_def ensure_channel_def ensure_subchannel_def bt_get_def rng_felt_def
      demo_rng_def u32_inc_def note_salt.simps rng_salt120_def OPEN_NOTE_SALT_def use_note_def
      demo_plan_def felt_eq_iff felt_val_numeral stark_prime_num felt_less_iff Let_def)
  done

lemma demo_state_wf: "plan_state_wf demo_state"
  by (auto simp: plan_state_wf_def demo_state_def bt_get_def bt_wf_def split: if_splits)

section \<open>A pool with a note\<close>

text \<open>User 1 (viewing key 6) has one channel to itself, with one subchannel for token 7 and one note of 10 on it.\<close>

definition demo_ck :: felt where
  "demo_ck = channel_key demo_hash 1 6 1 6"

definition demo_full_pool :: "felt pool_ctx" where
  "demo_full_pool = \<lparr>px_ext = demo_ext, px_poseidon = demo_hash, px_curve = demo_curve,
     px_call = (\<lambda>sel cd.
       if sel = get_selector_from_name demo_ext ''get_public_key'' then Ok [6]
       else if sel = get_selector_from_name demo_ext ''get_num_of_channels'' then Ok [1]
       else if sel = get_selector_from_name demo_ext ''get_channel_info''
         then Ok [4, demo_ck + enc_channel_key_hash demo_hash 24, 1 + enc_sender_addr_hash demo_hash 24]
       else if sel = get_selector_from_name demo_ext ''get_subchannel_info''
         then (if cd = [subchannel_id demo_hash demo_ck 0]
               then Ok [1, 7 + enc_token_hash demo_hash demo_ck 0 1] else Ok [0, 0])
       else if sel = get_selector_from_name demo_ext ''get_note''
         then (if cd = [note_id demo_hash demo_ck 7 0]
               then Ok [encrypt_note_value demo_hash 10 900 demo_ck 7 0] else Ok [0])
       else if sel = get_selector_from_name demo_ext ''channel_exists'' then Ok [1]
       else if sel = get_selector_from_name demo_ext ''get_outgoing_channel_info''
         then (if cd = [outgoing_channel_id demo_hash 1 6 0] then Ok [1, 77] else Ok [0, 0])
       else Ok [0])\<rparr>"

lemma demo_selector: "felt_val (get_selector_from_name demo_ext name) =
   int (foldl (\<lambda>h c. (h * 31 + of_char c + 1) mod 2 ^ 64) 7 name)"
proof -
  have f: "unat (word_of_nat (of_char c) :: u8) = of_char c" for c :: char
    by (simp add: unat_of_nat take_bit_eq_mod)
  have "foldl (\<lambda>h c. (h * 31 + of_char c + 1) mod 2 ^ 64) n cs < (2 :: nat) ^ 64"
    if "n < 2 ^ 64" for n and cs :: string
    using that by (induction cs arbitrary: n) auto
  from this [of 7 name]
  have "foldl (\<lambda>h c. (h * 31 + of_char c + 1) mod 2 ^ 64) 7 name < (2 :: nat) ^ 64" by simp
  moreover have "foldl (\<lambda>h b. (h * 31 + unat b + 1) mod 2 ^ 64) n
      (map (\<lambda>c. word_of_nat (of_char c) :: u8) cs)
     = foldl (\<lambda>h c. (h * 31 + of_char c + 1) mod 2 ^ 64) n cs" for n and cs :: string
    by (induction cs arbitrary: n) (simp_all add: f)
  ultimately show ?thesis
    unfolding get_selector_from_name_def
    by (subst starknet_keccak_250) (simp_all add: demo_ext_def demo_keccak_def be_val_be_bytes)
qed

lemma demo_views:
  "view demo_full_pool ''get_public_key'' cd 1 = Ok [6]"
  "view demo_full_pool ''get_num_of_channels'' cd 1 = Ok [1]"
  "view demo_full_pool ''get_channel_info'' cd 3
     = Ok [4, demo_ck + enc_channel_key_hash demo_hash 24, 1 + enc_sender_addr_hash demo_hash 24]"
  "view demo_full_pool ''get_subchannel_info'' cd 2
     = (if cd = [subchannel_id demo_hash demo_ck 0]
        then Ok [1, 7 + enc_token_hash demo_hash demo_ck 0 1] else Ok [0, 0])"
  "view demo_full_pool ''get_note'' cd 1
     = (if cd = [note_id demo_hash demo_ck 7 0]
        then Ok [encrypt_note_value demo_hash 10 900 demo_ck 7 0] else Ok [0])"
  "view demo_full_pool ''channel_exists'' cd 1 = Ok [1]"
  "view demo_full_pool ''get_outgoing_channel_info'' cd 2
     = (if cd = [outgoing_channel_id demo_hash 1 6 0] then Ok [1, 77] else Ok [0, 0])"
  "view demo_full_pool ''nullifier_exists'' cd 1 = Ok [0]"
  by (simp_all add: view_def demo_full_pool_def felt_eq_iff demo_selector)

lemmas demo_reads = demo_views demo_views [unfolded One_nat_def] note_packed_value_def flag_def
  subchannel_info_def registered_public_key_def index_u32_def

lemmas demo_num = felt_eq_iff demo_hash_def hash_tagged_def tag_defs short_string_def felt_from_bytes_be_def
  string_bytes_def be_val_def felt_val_numeral stark_prime_num idx_def

lemma demo_slots:
  "subchannel_id demo_hash demo_ck 1 \<noteq> subchannel_id demo_hash demo_ck 0"
  "note_id demo_hash demo_ck 7 1 \<noteq> note_id demo_hash demo_ck 7 0"
  "outgoing_channel_id demo_hash 1 6 1 \<noteq> outgoing_channel_id demo_hash 1 6 0"
  by (simp_all add: demo_ck_def channel_key_def subchannel_id_def note_id_def outgoing_channel_id_def demo_num)

lemma demo_full_simps [simp]:
  "px_ext demo_full_pool = demo_ext" "px_poseidon demo_full_pool = demo_hash" "px_curve demo_full_pool = demo_curve"
  by (simp_all add: demo_full_pool_def)

definition demo_found :: pool_note where
  "demo_found = \<lparr>note_id_of = note_id demo_hash demo_ck 7 0, note_token = 7, note_amount = 10,
     note_channel_key = demo_ck, note_index = 0, note_sender = 1, note_open = False\<rparr>"

lemma demo_value:
  "decrypt_note_value demo_hash (encrypt_note_value demo_hash 10 900 demo_ck 7 0) demo_ck 7 0
     = Some \<lparr>nv_amount = 10, nv_salt = 900, nv_open = False\<rparr>"
  by (rule note_value_roundtrip) simp_all

lemma demo_note_loop:
  "note_loop demo_full_pool 6 \<lparr>key = demo_ck, sender = 1\<rparr> 7 0 [] = Ok [demo_found]"
proof -
  have "note_loop demo_full_pool 6 \<lparr>key = demo_ck, sender = 1\<rparr> 7 1 [demo_found] = Ok [demo_found]"
    using demo_slots(2) by (subst note_loop.simps) (simp add: demo_reads Let_def decrypt_note_value_def)
  then show ?thesis
    by (subst note_loop.simps) (simp add: demo_reads Let_def demo_value demo_found_def)
qed

lemma demo_discover_notes: "discover_notes demo_full_pool 1 6 [] = Ok [demo_found]"
proof -
  have "subchannel_loop demo_full_pool 6 [] \<lparr>key = demo_ck, sender = 1\<rparr> 1 [demo_found] = Ok [demo_found]"
    using demo_slots(1) by (subst subchannel_loop.simps) (simp add: demo_reads)
  then have "subchannel_loop demo_full_pool 6 [] \<lparr>key = demo_ck, sender = 1\<rparr> 0 [] = Ok [demo_found]"
    using demo_note_loop
    by (subst subchannel_loop.simps) (simp add: demo_reads decrypt_subchannel_token_def Let_def)
  moreover have "(felt_to_word (1 :: felt) :: u64 option) = Some 1" by (simp add: felt_to_word_def)
  ultimately show ?thesis
    by (simp add: discover_notes_def demo_reads channel_step_def decrypt_channel_info_def shared_x_def demo_curve_def)
qed

lemma demo_discover_channel:
  "discover_channel demo_full_pool 1 6 1 = Ok \<lparr>ch_recipient = 1, ch_recipient_public_key = 6,
     ch_key = demo_ck, ch_open = True, ch_subchannels = [(7, \<lparr>sc_index = 0, sc_next_note_index = 1\<rparr>)]\<rparr>"
proof -
  have "encrypt_note_value demo_hash 10 900 demo_ck 7 0 \<noteq> 0"
    using demo_value by (auto simp: decrypt_note_value_def)
  moreover have "next_note_loop demo_full_pool demo_ck 7 1 = Ok 1"
    using demo_slots(2) by (subst next_note_loop.simps) (simp add: demo_reads)
  ultimately have next1: "next_note_loop demo_full_pool demo_ck 7 0 = Ok 1"
    by (subst next_note_loop.simps) (simp add: demo_reads)
  let ?subs = "[(7, \<lparr>sc_index = 0, sc_next_note_index = 1\<rparr>)]"
  have "own_subchannels_loop demo_full_pool demo_ck 1 ?subs = Ok ?subs"
    using demo_slots(1) by (subst own_subchannels_loop.simps) (simp add: demo_reads)
  then have "own_subchannels_loop demo_full_pool demo_ck 0 [] = Ok ?subs"
    using next1 by (subst own_subchannels_loop.simps) (simp add: demo_reads decrypt_subchannel_token_def)
  moreover have "(6 :: felt) \<noteq> 0" by (simp add: felt_eq_iff felt_val_numeral stark_prime_num)
  ultimately show ?thesis
    by (simp add: discover_channel_def demo_reads demo_ck_def [symmetric] Let_def)
qed

lemma demo_outgoing_count: "outgoing_channel_count demo_full_pool 1 6 = Ok 1"
proof -
  have "outgoing_count_loop demo_full_pool 1 6 1 = Ok 1"
    using demo_slots(3) by (subst outgoing_count_loop.simps) (simp add: demo_reads)
  then have "outgoing_count_loop demo_full_pool 1 6 0 = Ok 1"
    by (subst outgoing_count_loop.simps) (simp add: demo_reads)
  then show ?thesis by (simp add: outgoing_channel_count_def)
qed

section \<open>Sessions, clients, settings\<close>

lemma demo_seal: "\<exists>v. seal demo_ext (Some (replicate 16 1)) (Some (replicate 12 2)) pw m = Ok v"
  by (simp add: seal_def random_bytes_def derive_key_def demo_ext_def Let_def)

lemma demo_reseal:
  "\<exists>v. reseal demo_ext demo_codec (Some (replicate 16 1)) (Some (replicate 12 2)) demo_session = Ok v"
proof -
  obtain v where "seal demo_ext (Some (replicate 16 1)) (Some (replicate 12 2)) ''pw''
      (to_bytes demo_codec \<lparr>vc_mnemonic = ''seed'', vc_registry = []\<rparr>) = Ok v"
    using demo_seal by blast
  then show ?thesis by (simp add: reseal_def require_unlocked_def demo_session_def)
qed

lemma demo_create:
  "\<exists>s'. create_account demo_ext demo_session Agent ''bot'' (Some ''client-1'') = (Ok demo_account, s')"
proof -
  have "felt_of_word (AGENT_ACCOUNT_INDEX :: u32) = 1095192148" "felt_of_word (0 :: u32) = 0"
    by (simp_all add: felt_eq_iff AGENT_ACCOUNT_INDEX_def felt_val_numeral stark_prime_num)
  then show ?thesis
    by (simp add: create_account_def demo_session_def demo_account_def account_address_def
        account_deployment_data_def account_public_key_def private_key_def check_index_def AGENT_INDEX_LIMIT_def
        next_index_def demo_ext_def demo_oz_def Let_def)
qed

definition demo_client :: paired_client where
  "demo_client = \<lparr>pc_id = ''client-1'', pc_label = ''bot'', pc_kind = AgentClient, pc_granted_until = None,
     pc_token_hash = ''old''\<rparr>"

definition demo_store :: client_store where
  "demo_store = \<lparr>cs_clients = [demo_client], cs_path = None, cs_disk = None, cs_write_ok = True\<rparr>"

lemma demo_store_wf: "store_wf demo_store"
  by (simp add: store_wf_def demo_store_def)

lemma demo_verify: "verify (\<lambda>t. t) demo_store ''old'' = Some demo_client"
  by (simp add: verify_def demo_store_def demo_client_def)

lemma demo_reattach:
  "\<exists>token s'. reattach (\<lambda>t. t) (9 # replicate 31 9) ''bot'' AgentClient demo_store = (Some (''client-1'', token), s')
     \<and> token \<notin> pc_token_hash ` set (cs_clients demo_store)"
  by (simp add: reattach_def demo_store_def demo_client_def Let_def hex_encode_def digit_char_def char_of_def)

definition demo_settings :: settings where
  "demo_settings =
     (let sk = \<lparr>sk_pool = [], sk_starkscan_api_key = [], sk_deposit_prover_url = [], sk_avnu_api_key = [],
            sk_paymaster_url = []\<rparr>;
          net = \<lparr>nc_rpc_url = ''http://127.0.0.1:9545'', nc_prover_url = [], nc_prover_api_key = [], nc_strk20 = sk\<rparr>
      in \<lparr>se_mainnet = net, se_testnet = net, se_prover_backend = ''native''\<rparr>)"

lemma demo_preflight:
  "\<exists>inp. preflight (\<lambda>_. []) (\<lambda>_ _ _. Err []) demo_settings
     (JObj [(''transaction'', JObj [(''signature'', JArr [JStr ''0x1''])]), (''block_number'', json_u64 7)]) ''mainnet'' = Ok inp"
  by (simp add: preflight_def for_network_def demo_settings_def is_signed_tx_def get_array_def get_u64_def
      check_nonce_def get_str_def net_params_def Let_def)

definition demo_entry :: log_entry where
  "demo_entry = \<lparr>le_ts_unix_ms = 5, le_method = ''wallet_signTypedData'', le_client = Some ''client-1'',
     le_network = Some ''sepolia'', le_decision = ''approved'', le_outcome = ''ok'', le_error_code = None,
     le_latency_ms = 2, le_params_json = Some ''{}'', le_result_json = Some ''[]''\<rparr>"

end
