(* ===== verification/Prover_Settings.thy ===== *)
theory Prover_Settings
  imports Prover_Snip36
begin

text \<open>
  \<open>crates/prover/src/settings.rs\<close>: \<open>SettingsStore\<close>, the settings of the prover in memory and in their file,
  and what serde's derived readers do with a struct whose fields have defaults. An object is its members as they stand in the file: a field given
  twice is refused, and a struct is also read from an array.
\<close>

section \<open>Reading a struct whose fields have defaults\<close>

definition members_named :: "string \<Rightarrow> (string \<times> json) list \<Rightarrow> json list" where
  "members_named k ms = map snd (filter (\<lambda>m. fst m = k) ms)"

text \<open>One field: absent, the default; twice, an error; else its value must have the type.\<close>

definition field_or :: "'a \<Rightarrow> (json \<Rightarrow> 'a option) \<Rightarrow> string \<Rightarrow> (string \<times> json) list \<Rightarrow> 'a option" where
  "field_or d rd k ms =
     (case members_named k ms of [] \<Rightarrow> Some d | [v] \<Rightarrow> rd v | _ \<Rightarrow> None)"

definition elem_or :: "'a \<Rightarrow> (json \<Rightarrow> 'a option) \<Rightarrow> nat \<Rightarrow> json list \<Rightarrow> 'a option" where
  "elem_or d rd i xs = (if i < length xs then rd (xs ! i) else Some d)"

section \<open>The settings\<close>

definition default_strk20_config :: strk20_config where
  "default_strk20_config =
     \<lparr>sk_pool = [], sk_starkscan_api_key = [], sk_deposit_prover_url = [], sk_avnu_api_key = [],
      sk_paymaster_url = []\<rparr>"

definition strk20_config_from_json :: "json \<Rightarrow> strk20_config option" where
  "strk20_config_from_json v =
     (let rd = (\<lambda>i k. case v of
            JObj ms \<Rightarrow> field_or [] as_str k ms
          | JArr xs \<Rightarrow> if 5 < length xs then None else elem_or [] as_str i xs
          | _ \<Rightarrow> None)
      in Option.bind (rd 0 ''pool'') (\<lambda>a.
         Option.bind (rd 1 ''starkscan_api_key'') (\<lambda>b.
         Option.bind (rd 2 ''deposit_prover_url'') (\<lambda>c.
         Option.bind (rd 3 ''avnu_api_key'') (\<lambda>d.
         Option.bind (rd 4 ''paymaster_url'') (\<lambda>e.
         Some \<lparr>sk_pool = a, sk_starkscan_api_key = b, sk_deposit_prover_url = c, sk_avnu_api_key = d,
               sk_paymaster_url = e\<rparr>))))))"

definition network_config_from_json :: "json \<Rightarrow> network_config option" where
  "network_config_from_json v =
     (let rd = (\<lambda>i k. case v of
            JObj ms \<Rightarrow> field_or [] as_str k ms
          | JArr xs \<Rightarrow> if 4 < length xs then None else elem_or [] as_str i xs
          | _ \<Rightarrow> None)
      in Option.bind (rd 0 ''rpc_url'') (\<lambda>a.
         Option.bind (rd 1 ''prover_url'') (\<lambda>b.
         Option.bind (rd 2 ''prover_api_key'') (\<lambda>c.
         Option.bind (case v of
             JObj ms \<Rightarrow> field_or default_strk20_config strk20_config_from_json ''strk20'' ms
           | JArr xs \<Rightarrow> elem_or default_strk20_config strk20_config_from_json 3 xs
           | _ \<Rightarrow> None) (\<lambda>d.
         Some \<lparr>nc_rpc_url = a, nc_prover_url = b, nc_prover_api_key = c, nc_strk20 = d\<rparr>)))))"

definition empty_network_config :: network_config where
  "empty_network_config =
     \<lparr>nc_rpc_url = [], nc_prover_url = [], nc_prover_api_key = [], nc_strk20 = default_strk20_config\<rparr>"

definition default_prover_settings :: settings where
  "default_prover_settings =
     \<lparr>se_mainnet = empty_network_config, se_testnet = empty_network_config, se_prover_backend = []\<rparr>"

definition prover_settings_from_json :: "json \<Rightarrow> settings option" where
  "prover_settings_from_json v =
     (let net = (\<lambda>i k. case v of
            JObj ms \<Rightarrow> field_or empty_network_config network_config_from_json k ms
          | JArr xs \<Rightarrow> if 3 < length xs then None else elem_or empty_network_config network_config_from_json i xs
          | _ \<Rightarrow> None)
      in Option.bind (net 0 ''mainnet'') (\<lambda>a.
         Option.bind (net 1 ''testnet'') (\<lambda>b.
         Option.bind (case v of
             JObj ms \<Rightarrow> field_or [] as_str ''prover_backend'' ms
           | JArr xs \<Rightarrow> elem_or [] as_str 2 xs
           | _ \<Rightarrow> None) (\<lambda>c.
         Some \<lparr>se_mainnet = a, se_testnet = b, se_prover_backend = c\<rparr>))))"

definition network_config_to_json :: "network_config \<Rightarrow> json" where
  "network_config_to_json n =
     JObj [(''rpc_url'', JStr (nc_rpc_url n)), (''prover_url'', JStr (nc_prover_url n)),
           (''prover_api_key'', JStr (nc_prover_api_key n)),
           (''strk20'', JObj
              [(''pool'', JStr (sk_pool (nc_strk20 n))),
               (''starkscan_api_key'', JStr (sk_starkscan_api_key (nc_strk20 n))),
               (''deposit_prover_url'', JStr (sk_deposit_prover_url (nc_strk20 n))),
               (''avnu_api_key'', JStr (sk_avnu_api_key (nc_strk20 n))),
               (''paymaster_url'', JStr (sk_paymaster_url (nc_strk20 n)))])]"

definition prover_settings_to_json :: "settings \<Rightarrow> json" where
  "prover_settings_to_json st =
     JObj [(''mainnet'', network_config_to_json (se_mainnet st)), (''testnet'', network_config_to_json (se_testnet st)),
           (''prover_backend'', JStr (se_prover_backend st))]"

lemma network_config_roundtrip [simp]: "network_config_from_json (network_config_to_json n) = Some n"
  by (simp add: network_config_from_json_def network_config_to_json_def strk20_config_from_json_def field_or_def
      members_named_def Let_def)

lemma prover_settings_roundtrip [simp]: "prover_settings_from_json (prover_settings_to_json st) = Some st"
  by (simp add: prover_settings_from_json_def prover_settings_to_json_def field_or_def members_named_def Let_def)

text \<open>The file with its modification time, as long as it exists; the store with what it last read.\<close>

record settings_file =
  sf_mtime :: nat
  sf_json :: "json option"

record settings_store =
  ss_inner :: settings
  ss_mtime :: "nat option"

definition read_settings_file :: "settings_file option \<Rightarrow> settings option" where
  "read_settings_file f = Option.bind (Option.bind f sf_json) prover_settings_from_json"

definition settings_store_load :: "settings_file option \<Rightarrow> settings_store" where
  "settings_store_load f =
     \<lparr>ss_inner = (case read_settings_file f of None \<Rightarrow> default_prover_settings | Some st \<Rightarrow> st),
      ss_mtime = map_option sf_mtime f\<rparr>"

definition reload_if_changed :: "settings_file option \<Rightarrow> settings_store \<Rightarrow> settings_store" where
  "reload_if_changed f ss =
     (let cur = map_option sf_mtime f
      in if cur \<noteq> None \<and> ss_mtime ss \<noteq> cur
         then (case read_settings_file f of
                 None \<Rightarrow> ss
               | Some st \<Rightarrow> ss\<lparr>ss_inner := st, ss_mtime := cur\<rparr>)
         else ss)"

definition settings_get :: "settings_file option \<Rightarrow> settings_store \<Rightarrow> settings \<times> settings_store" where
  "settings_get f ss = (let ss' = reload_if_changed f ss in (ss_inner ss', ss'))"

definition store_for_network :: "settings_file option \<Rightarrow> settings_store \<Rightarrow> string \<Rightarrow> network_config \<times> settings_store" where
  "store_for_network f ss net =
     (let ss' = reload_if_changed f ss
      in (if net = ''testnet'' \<or> net = ''sepolia'' then se_testnet (ss_inner ss') else se_mainnet (ss_inner ss'), ss'))"

text \<open>Read without waiting: \<open>held\<close> says that a writer has the lock.\<close>

definition prover_backend_blocking :: "bool \<Rightarrow> settings_store \<Rightarrow> string" where
  "prover_backend_blocking held ss = (if held then [] else se_prover_backend (ss_inner ss))"

definition try_snapshot :: "bool \<Rightarrow> settings_store \<Rightarrow> settings option" where
  "try_snapshot held ss = (if held then None else Some (ss_inner ss))"

text \<open>The steps of a save that can fail: the directory, and the write, which may leave anything behind.\<close>

datatype save_outcome = DirFails string | SaveFails "settings_file option" string | SaveDone nat

definition settings_update ::
  "save_outcome \<Rightarrow> settings \<Rightarrow> settings_file option \<Rightarrow> settings_store
     \<Rightarrow> (string + unit) \<times> settings_file option \<times> settings_store" where
  "settings_update out new f ss =
     (let ss' = ss\<lparr>ss_inner := new\<rparr>
      in case out of
           DirFails e \<Rightarrow> (Err e, f, ss')
         | SaveFails left e \<Rightarrow> (Err e, left, ss')
         | SaveDone t \<Rightarrow> (Ok (), Some \<lparr>sf_mtime = t, sf_json = Some (prover_settings_to_json new)\<rparr>,
                          ss'\<lparr>ss_mtime := Some t\<rparr>))"

text \<open>What was saved is what is read, before and after a restart; a file changed from outside is taken over when it reads.\<close>

lemma settings_update_get:
  assumes "settings_update out new f ss = (Ok (), f', ss')"
  shows "fst (settings_get f' ss') = new" "ss_inner (settings_store_load f') = new"
  using assms
  by (auto simp: settings_update_def settings_get_def reload_if_changed_def settings_store_load_def read_settings_file_def
      Let_def split: save_outcome.splits)

lemma settings_get_edited:
  assumes "map_option sf_mtime f \<noteq> ss_mtime ss" "read_settings_file f = Some st"
  shows "fst (settings_get f ss) = st"
  using assms by (auto simp: settings_get_def reload_if_changed_def read_settings_file_def Let_def)

lemma settings_get_damaged: "read_settings_file f = None \<Longrightarrow> settings_get f ss = (ss_inner ss, ss)"
  by (simp add: settings_get_def reload_if_changed_def Let_def)

lemma store_for_network_get: "fst (store_for_network f ss net) = for_network (fst (settings_get f ss)) net"
  by (simp add: store_for_network_def settings_get_def for_network_def Let_def)

end
