(* ===== verification/Rpc_State.thy ===== *)
theory Rpc_State
  imports Session Rpc_Auth Rpc_Log Rpc_Node Prover_Settings Strk20_Planner Strk20_Apply
begin

text \<open>
  The state behind the service and the effects of its handlers: \<open>ServerState\<close> of
  \<open>crates/wallet-rpc/src/dispatch.rs\<close>, the broker of \<open>approval.rs\<close> and the vault file of \<open>store.rs\<close>.

  A handler is an action on \<open>sys\<close>: the server, the number of the next step, and the trace of what
  the handler did that the world can see (prompts, signatures, broadcasts, changes of the shared
  state). No action reads the trace. Every lock or await of the code is one step, before which
  \<open>e_interfere\<close> may change the server in any way, so that what is proved holds whatever other
  requests and the user interface do in between. The clock, the user's answers, the random draws
  and the outcome of disk writes are functions of the step.

  A Rust \<open>Result\<close> of a handler is \<open>Rpc e\<close> or a value; \<open>Crash\<close> is a panic.
\<close>

section \<open>Approvals\<close>

record approval_request =
  ap_client_label :: string
  ap_method :: string
  ap_summary :: string

datatype decision = Approve | Reject

text \<open>\<open>AutoApprover\<close>, and \<open>ChannelApprover\<close>: the prompt is sent over a channel (\<open>send\<close> fails when the
  receiver is gone), the answer awaited on another (\<open>None\<close> when its sender is dropped).\<close>

definition auto_approver :: "decision \<Rightarrow> approval_request \<Rightarrow> decision" where
  "auto_approver d _ = d"

definition channel_approver ::
  "(approval_request \<Rightarrow> bool) \<Rightarrow> (approval_request \<Rightarrow> decision option) \<Rightarrow> approval_request \<Rightarrow> decision" where
  "channel_approver send answer req =
     (if \<not> send req then Reject
      else case answer req of None \<Rightarrow> Reject | Some d \<Rightarrow> d)"

lemma channel_approver_Approve:
  "channel_approver send answer req = Approve \<longleftrightarrow> send req \<and> answer req = Some Approve"
  by (auto simp: channel_approver_def split: option.splits)

section \<open>The vault file\<close>

text \<open>The bytes of the file, if it exists; \<open>vault_format\<close> is the JSON form of the sealed vault with
  the UTF-8 check of reading it.\<close>

record vault_format =
  vault_to_json :: "encrypted_vault \<Rightarrow> bytes option"
  vault_utf8 :: "bytes \<Rightarrow> string option"
  vault_from_json :: "string \<Rightarrow> encrypted_vault option"

datatype io_error = InvalidData string | IoOther string | IoFailed

text \<open>\<open>VaultStore\<close>: \<open>vf_readable\<close> says whether reading an existing file succeeds.\<close>

record vault_file =
  vf_content :: "bytes option"
  vf_tmp :: "bytes option"
  vf_readable :: bool

definition vault_exists :: "vault_file \<Rightarrow> bool" where
  "vault_exists f \<longleftrightarrow> vf_content f \<noteq> None"

definition vault_load :: "vault_format \<Rightarrow> vault_file \<Rightarrow> io_error + encrypted_vault option" where
  "vault_load F f =
     (case vf_content f of
        None \<Rightarrow> Ok None
      | Some bytes \<Rightarrow>
          if \<not> vf_readable f then Err IoFailed
          else bindE (ok_or (InvalidData ''vault not utf-8'') (vault_utf8 F bytes)) (\<lambda>s.
               bindE (ok_or (InvalidData ''vault parse failed'') (vault_from_json F s)) (\<lambda>vault.
               Ok (Some vault))))"

text \<open>The three fallible steps of a save: writing the temporary file (which may leave part of it),
  restricting its mode, and the rename that replaces the vault.\<close>

datatype write_outcome = WriteFails "bytes option" | ModeFails | RenameFails | Written

definition vault_save ::
  "vault_format \<Rightarrow> write_outcome \<Rightarrow> encrypted_vault \<Rightarrow> vault_file \<Rightarrow> (io_error + unit) \<times> vault_file" where
  "vault_save F outcome vault f =
     (case vault_to_json F vault of
        None \<Rightarrow> (Err (IoOther ''vault serialize failed''), f)
      | Some json \<Rightarrow>
          (case outcome of
             WriteFails part \<Rightarrow> (Err IoFailed, f\<lparr>vf_tmp := part\<rparr>)
           | ModeFails \<Rightarrow> (Err IoFailed, f\<lparr>vf_tmp := Some json\<rparr>)
           | RenameFails \<Rightarrow> (Err IoFailed, f\<lparr>vf_tmp := Some json\<rparr>)
           | Written \<Rightarrow> (Ok (), f\<lparr>vf_content := Some json, vf_tmp := None\<rparr>)))"

definition vault_format_ok :: "vault_format \<Rightarrow> bool" where
  "vault_format_ok F \<longleftrightarrow> (\<forall>v b. vault_to_json F v = Some b \<longrightarrow>
     (\<exists>s. vault_utf8 F b = Some s \<and> vault_from_json F s = Some v))"

lemma vault_save_cases:
  assumes "vault_save F out v f = (r, f')"
  shows "r \<noteq> Ok () \<Longrightarrow> vf_content f' = vf_content f"
    and "r = Ok () \<Longrightarrow> vf_content f' = vault_to_json F v \<and> vault_to_json F v \<noteq> None"
  using assms by (auto simp: vault_save_def split: option.splits write_outcome.splits)

lemma vault_load_saved:
  assumes "vault_format_ok F" "vf_readable f" "vault_save F out v f = (Ok (), f')"
  shows "vault_load F f' = Ok (Some v)"
  using assms by (auto simp: vault_save_def vault_load_def vault_format_ok_def
      split: option.splits write_outcome.splits) fastforce

section \<open>The server\<close>

record server =
  sv_session :: wallet_session
  sv_clients :: client_store
  sv_log :: request_log
  sv_vault_store :: "vault_file option"
  sv_nodes :: "chain \<Rightarrow> starknet_rpc option"
  sv_watched :: "json list"
  sv_last_activity_ms :: u64
  sv_issue_repo :: string
  sv_prover :: "prover_state option"
  sv_prover_settings :: settings
  sv_prover_native :: bool                        \<comment> \<open>\<open>prover.kind() == "native"\<close>\<close>
  sv_api_version :: string
  sv_spec_versions :: "string list"

definition STRK_TOKEN_ADDRESS :: string where
  "STRK_TOKEN_ADDRESS = ''0x04718f5a0fc34cc1af16a1cdee98ffb20c31f5cd61d6ab07201858f4287c938d''"

definition DEFAULT_ISSUE_REPO :: string where
  "DEFAULT_ISSUE_REPO = ''starknet-innovation/strkd''"

text \<open>\<open>str::split\<close> at a character.\<close>

fun split_on :: "char \<Rightarrow> string \<Rightarrow> string list" where
  "split_on c [] = [[]]"
| "split_on c (x # xs) =
     (if x = c then [] # split_on c xs
      else case split_on c xs of [] \<Rightarrow> [[x]] | p # ps \<Rightarrow> (x # p) # ps)"

definition is_valid_repo_slug :: "string \<Rightarrow> bool" where
  "is_valid_repo_slug s \<longleftrightarrow>
     (case split_on (CHR ''/'') s of
        [owner, name] \<Rightarrow>
          owner \<noteq> [] \<and> name \<noteq> [] \<and>
          list_all (\<lambda>b. is_ascii_alphanumeric b \<or> b = CHR ''-'' \<or> b = CHR ''_'' \<or> b = CHR ''.'' \<or> b = CHR ''/'') s
      | _ \<Rightarrow> False)"

text \<open>The settings and kind of a prover that is not there are never read.\<close>

definition server_with_log :: "u64 \<Rightarrow> wallet_session \<Rightarrow> request_log \<Rightarrow> server" where
  "server_with_log now_ms session log =
     \<lparr>sv_session = session, sv_clients = store_new, sv_log = log, sv_vault_store = None,
      sv_nodes = (\<lambda>_. None), sv_watched = [], sv_last_activity_ms = now_ms,
      sv_issue_repo = DEFAULT_ISSUE_REPO, sv_prover = None, sv_prover_settings = default_prover_settings,
      sv_prover_native = False, sv_api_version = ''0.1.0'',
      sv_spec_versions = [''0.10.2'']\<rparr>"

definition server_new :: "u64 \<Rightarrow> wallet_session \<Rightarrow> server" where
  "server_new now_ms session = server_with_log now_ms session (log_init True True)"

definition with_issue_repo :: "string \<Rightarrow> server \<Rightarrow> server" where
  "with_issue_repo repo sv = (if is_valid_repo_slug repo then sv\<lparr>sv_issue_repo := repo\<rparr> else sv)"

definition with_vault_store :: "vault_file \<Rightarrow> server \<Rightarrow> server" where
  "with_vault_store store sv = sv\<lparr>sv_vault_store := Some store\<rparr>"

definition with_clients_path :: "string \<Rightarrow> paired_client list option \<Rightarrow> bool \<Rightarrow> server \<Rightarrow> server" where
  "with_clients_path file on_disk ok sv = sv\<lparr>sv_clients := store_open file on_disk ok\<rparr>"

definition with_prover :: "prover_state \<Rightarrow> settings \<Rightarrow> bool \<Rightarrow> server \<Rightarrow> server" where
  "with_prover prover settings native sv =
     sv\<lparr>sv_prover := Some prover, sv_prover_settings := settings, sv_prover_native := native\<rparr>"

definition set_node :: "chain \<Rightarrow> starknet_rpc option \<Rightarrow> server \<Rightarrow> server" where
  "set_node chain node sv = sv\<lparr>sv_nodes := (sv_nodes sv)(chain := node)\<rparr>"

definition with_node :: "chain \<Rightarrow> starknet_rpc \<Rightarrow> server \<Rightarrow> server" where
  "with_node chain node sv = set_node chain (Some node) sv"

definition has_node_for :: "server \<Rightarrow> chain \<Rightarrow> bool" where
  "has_node_for sv chain \<longleftrightarrow> sv_nodes sv chain \<noteq> None"

definition touch_activity :: "u64 \<Rightarrow> server \<Rightarrow> server" where
  "touch_activity now_ms sv = sv\<lparr>sv_last_activity_ms := now_ms\<rparr>"

definition add_watched_asset :: "json \<Rightarrow> server \<Rightarrow> server" where
  "add_watched_asset asset sv = sv\<lparr>sv_watched := sv_watched sv @ [asset]\<rparr>"

section \<open>Actions\<close>

text \<open>An HTTP exchange: a POST of a JSON body, or a GET; the status and the body as JSON, if it is.\<close>

record http_request =
  hr_url :: string
  hr_headers :: "(string \<times> string) list"
  hr_body :: "json option"

datatype http_reply = NoAnswer string | Answer nat "string + json"

text \<open>What the world sees of a request. A signature is recorded with the account that made it and
  what was signed, a broadcast with what was sent, a pairing with the clients before and after (for a
  re-attached one also with the clients it was searched among and the session its accounts were counted in).\<close>

datatype event =
    Prompted approval_request decision
  | GrantUsed string string u64                   \<comment> \<open>client id, method, when\<close>
  | SignedTypedData account_ref string
  | SignedInvoke account_ref "call list" chain invoke_v3_params
  | SignedDeclare account_ref felt felt chain invoke_v3_params
  | SignedDeploy account_ref chain invoke_v3_params
  | SignedHash account_ref felt
  | Simulated chain felt "felt list"              \<comment> \<open>a fee estimate sends the calldata to the node\<close>
  | SentInvoke chain felt "felt list" "felt list" felt fee_bounds "felt list" "string option"
  | SentDeclare chain felt felt json "felt list" felt fee_bounds
  | SentDeploy chain felt "felt list" felt "felt list" fee_bounds
  | ProveQueued string json string                \<comment> \<open>job id, payload, network\<close>
  | LocalProof json string                         \<comment> \<open>payload and network, to the wired prover\<close>
  | RemoteProof string json                        \<comment> \<open>who proves, and the signed invocation\<close>
  | HttpSent http_request
  | NotesRead account_ref                          \<comment> \<open>discovery with the viewing key, to plan a payment\<close>
  | BalancesRead account_ref "felt list"
  | Paired client_store client_store
  | Reattached client_store wallet_session client_store client_store
  | GrantGiven string u64
  | ChainSwitched chain
  | AssetWatched json
  | AccountCreated account_ref

record sys =
  sy_server :: server
  sy_step :: nat
  sy_trace :: "event list"

record 'pt env =
  e_ext :: ext
  e_codec :: vault_codec
  e_format :: vault_format
  e_hash :: token_hash
  e_poseidon :: poseidon
  e_curve :: "'pt curve"
  e_to_string :: "json \<Rightarrow> string"                  \<comment> \<open>\<open>serde_json::to_string\<close>\<close>
  e_attestation :: "json \<Rightarrow> string + screening_attestation" \<comment> \<open>\<open>serde_json::from_value\<close>\<close>
  e_strk :: "u128 \<Rightarrow> string"                       \<comment> \<open>\<open>{:.4}\<close> of the amount over 1e18 in \<open>f64\<close>\<close>
  e_status :: "nat \<Rightarrow> string"                      \<comment> \<open>an HTTP status with its reason phrase\<close>
  e_clock :: "nat \<Rightarrow> u64"
  e_elapsed :: "nat \<Rightarrow> u64"
  e_decide :: "nat \<Rightarrow> approval_request \<Rightarrow> decision"
  e_draw :: "nat \<Rightarrow> nat \<Rightarrow> bytes"                \<comment> \<open>that many bytes of the RNG\<close>
  e_seal_draw :: "nat \<Rightarrow> nat \<Rightarrow> bytes option"      \<comment> \<open>the same for sealing, where a draw can fail\<close>
  e_randomness :: "nat \<Rightarrow> randomness"              \<comment> \<open>\<open>OsRandomness\<close> of one plan\<close>
  e_write :: "nat \<Rightarrow> write_outcome"
  e_prove :: "nat \<Rightarrow> json \<Rightarrow> string \<Rightarrow> string + json" \<comment> \<open>the wired prover's answer\<close>
  e_patience :: nat                               \<comment> \<open>polls of a remote prover before the caller gives up\<close>
  e_http :: "nat \<Rightarrow> http_request \<Rightarrow> http_reply"
  e_interfere :: "nat \<Rightarrow> server \<Rightarrow> server"

datatype rpc_failure = Rpc wallet_rpc_error | Crash string

type_synonym 'a act = "sys \<Rightarrow> (rpc_failure + 'a) \<times> sys"

definition ret :: "'a \<Rightarrow> 'a act" where "ret x s = (Ok x, s)"
definition fail :: "wallet_rpc_error \<Rightarrow> 'a act" where "fail e s = (Err (Rpc e), s)"
definition crash :: "string \<Rightarrow> 'a act" where "crash m s = (Err (Crash m), s)"

definition bnd :: "'a act \<Rightarrow> ('a \<Rightarrow> 'b act) \<Rightarrow> 'b act" where
  "bnd m f s = (case m s of (Inl e, s') \<Rightarrow> (Inl e, s') | (Inr x, s') \<Rightarrow> f x s')"

definition lift :: "wallet_rpc_error + 'a \<Rightarrow> 'a act" where
  "lift r s = (map_err Rpc r, s)"

text \<open>Addition of machine words: an overflow is a panic (release builds wrap).\<close>

definition checked_add :: "'n::len word \<Rightarrow> 'n word \<Rightarrow> 'n word act" where
  "checked_add a b =
     (if unat a + unat b < 2 ^ LENGTH('n) then ret (a + b) else crash ''attempt to add with overflow'')"

text \<open>\<open>map_err\<close> on the error of an action.\<close>

fun map_failure :: "(wallet_rpc_error \<Rightarrow> wallet_rpc_error) \<Rightarrow> rpc_failure + 'a \<Rightarrow> rpc_failure + 'a" where
  "map_failure f (Inl (Rpc e)) = Inl (Rpc (f e))"
| "map_failure f (Inl (Crash m)) = Inl (Crash m)"
| "map_failure f (Inr x) = Inr x"

definition map_fail :: "(wallet_rpc_error \<Rightarrow> wallet_rpc_error) \<Rightarrow> 'a act \<Rightarrow> 'a act" where
  "map_fail f m s = (let (r, s') = m s in (map_failure f r, s'))"

text \<open>The server after what happened since the last step, and a critical section on it.\<close>

definition now_server :: "'pt env \<Rightarrow> sys \<Rightarrow> server" where
  "now_server V s = e_interfere V (sy_step s) (sy_server s)"

definition locked :: "'pt env \<Rightarrow> (server \<Rightarrow> 'a \<times> server) \<Rightarrow> 'a act" where
  "locked V f s =
     (let (x, sv) = f (now_server V s)
      in (Ok x, s\<lparr>sy_server := sv, sy_step := Suc (sy_step s)\<rparr>))"

definition reads :: "'pt env \<Rightarrow> (server \<Rightarrow> 'a) \<Rightarrow> 'a act" where
  "reads V f = locked V (\<lambda>sv. (f sv, sv))"

definition writes :: "'pt env \<Rightarrow> (server \<Rightarrow> server) \<Rightarrow> unit act" where
  "writes V f = locked V (\<lambda>sv. ((), f sv))"

definition at_step :: "(nat \<Rightarrow> 'a) \<Rightarrow> 'a act" where
  "at_step f s = (Ok (f (sy_step s)), s\<lparr>sy_step := Suc (sy_step s)\<rparr>)"

definition now_unix_ms :: "'pt env \<Rightarrow> u64 act" where
  "now_unix_ms V = at_step (e_clock V)"

definition emit :: "event \<Rightarrow> unit act" where
  "emit ev s = (Ok (), s\<lparr>sy_trace := sy_trace s @ [ev]\<rparr>)"

definition request_approval :: "'pt env \<Rightarrow> approval_request \<Rightarrow> decision act" where
  "request_approval V req =
     bnd (at_step (\<lambda>n. e_decide V n req)) (\<lambda>d.
     bnd (emit (Prompted req d)) (\<lambda>_. ret d))"

text \<open>\<open>session.lock().await\<close> for one fallible reading of the session; the same for a node client.\<close>

definition with_session :: "'pt env \<Rightarrow> (wallet_session \<Rightarrow> wallet_rpc_error + 'a) \<Rightarrow> 'a act" where
  "with_session V f = bnd (reads V (\<lambda>sv. f (sv_session sv))) lift"

definition node_for :: "'pt env \<Rightarrow> chain \<Rightarrow> starknet_rpc option act" where
  "node_for V chain = reads V (\<lambda>sv. sv_nodes sv chain)"

definition node_or :: "'pt env \<Rightarrow> chain \<Rightarrow> starknet_rpc act" where
  "node_or V chain = bnd (node_for V chain) (\<lambda>n. lift (ok_or NoNode n))"

definition node_result :: "node_error + 'a \<Rightarrow> 'a act" where
  "node_result r = lift (map_err (\<lambda>e. Node (node_error_string e)) r)"

section \<open>What an action does\<close>

text \<open>
  \<open>emits m T\<close>: from every state, \<open>m\<close> only appends to the trace, and \<open>T\<close> holds of its result and of
  what it appends. \<open>silent m\<close>: it appends nothing. \<open>yields m x\<close>: from some state \<open>m\<close> returns \<open>x\<close>.
  The rules follow the code from left to right: silent steps are passed, an event moves into \<open>T\<close>.
\<close>

named_theorems silent \<open>actions that leave the trace alone\<close>
named_theorems emits_rules \<open>rules for the trace of an action\<close>

definition emits :: "'a act \<Rightarrow> (rpc_failure + 'a \<Rightarrow> event list \<Rightarrow> bool) \<Rightarrow> bool" where
  "emits m T \<longleftrightarrow> (\<forall>s. \<exists>es. sy_trace (snd (m s)) = sy_trace s @ es \<and> T (fst (m s)) es)"

definition silent :: "'a act \<Rightarrow> bool" where
  "silent m \<longleftrightarrow> (\<forall>s. sy_trace (snd (m s)) = sy_trace s)"

definition yields :: "'a act \<Rightarrow> 'a \<Rightarrow> bool" where
  "yields m x \<longleftrightarrow> (\<exists>s s'. m s = (Inr x, s'))"

lemmas act_defs =
  ret_def fail_def crash_def bnd_def lift_def locked_def reads_def writes_def at_step_def emit_def

lemma bnd_simps [simp]:
  "bnd (ret x) f = f x" "bnd (fail e) f = fail e" "bnd (bnd m f) g = bnd m (\<lambda>x. bnd (f x) g)"
  by (auto simp: bnd_def ret_def fail_def fun_eq_iff split: prod.splits sum.splits)

lemma bnd_if [simp]: "bnd (if c then m else n) f = (if c then bnd m f else bnd n f)"
  by simp

lemma silent_basic [silent, simp]:
  "silent (ret x)" "silent (fail e)" "silent (crash c)" "silent (lift r)"
  "silent (locked V f)" "silent (reads V g)" "silent (writes V h)" "silent (at_step k)"
  by (simp_all add: silent_def act_defs Let_def split: prod.splits)

lemma silent_bnd [silent]: "silent m \<Longrightarrow> (\<And>x. silent (f x)) \<Longrightarrow> silent (bnd m f)"
  unfolding silent_def bnd_def by (auto split: prod.splits sum.splits) (metis snd_conv)+

lemma silent_case [silent]:
  "silent m \<Longrightarrow> (\<And>x. silent (f x)) \<Longrightarrow> silent (case y of None \<Rightarrow> m | Some x \<Rightarrow> f x)"
  "silent m \<Longrightarrow> silent n \<Longrightarrow> silent (if c then m else n)"
  "(\<And>a b. silent (g a b)) \<Longrightarrow> silent (case p of (a, b) \<Rightarrow> g a b)"
  by (auto split: option.split prod.split)

lemma silent_services [silent, simp]:
  "silent (now_unix_ms V)" "silent (with_session V f)" "silent (node_for V c)"
  "silent (node_or V c)" "silent (node_result r)"
  by (simp_all add: now_unix_ms_def with_session_def node_for_def node_or_def node_result_def silent)

lemma yields_basic [simp]:
  "yields (ret x) y \<longleftrightarrow> y = x" "\<not> yields (fail e) y" "\<not> yields (crash c) y"
  "yields (lift r) y \<longleftrightarrow> r = Ok y"
  by (auto simp: yields_def act_defs result_simps)

lemma bnd_Inr: "bnd m f s = (Inr y, s'') \<longleftrightarrow> (\<exists>x s'. m s = (Inr x, s') \<and> f x s' = (Inr y, s''))"
  by (cases "m s"; cases "fst (m s)") (auto simp: bnd_def)

lemma yields_bnd: "yields (bnd m f) y \<Longrightarrow> \<exists>x. yields m x \<and> yields (f x) y"
  unfolding yields_def bnd_Inr by blast

lemma yields_reads: "yields (reads V f) y \<Longrightarrow> \<exists>sv. y = f sv"
  by (auto simp: yields_def act_defs Let_def)

lemma yields_locked: "yields (locked V f) y \<Longrightarrow> \<exists>sv. y = fst (f sv)"
proof -
  assume "yields (locked V f) y"
  then obtain s s' where "locked V f s = (Inr y, s')" by (auto simp: yields_def)
  then have "y = fst (f (now_server V s))" by (simp add: locked_def split: prod.splits)
  then show ?thesis ..
qed

lemma yields_with_session: "yields (with_session V f) y \<Longrightarrow> \<exists>se. f se = Ok y"
  by (auto simp: with_session_def dest!: yields_bnd yields_reads)

lemma yields_node_or: "yields (node_or V c) n \<Longrightarrow> \<exists>sv :: server. sv_nodes sv c = Some n"
proof -
  assume "yields (node_or V c) n"
  then obtain m where "yields (node_for V c) m" "m = Some n"
    by (auto simp: node_or_def result_simps dest: yields_bnd)
  moreover have "\<exists>sv :: server. m = sv_nodes sv c"
    using calculation(1) unfolding node_for_def by (rule yields_reads)
  ultimately show ?thesis by metis
qed

lemma yields_node_result [simp]: "yields (node_result r) x \<longleftrightarrow> r = Ok x"
  by (simp add: node_result_def result_simps)

lemma emits_silent:
  assumes "silent m" "\<And>e. T (Inl e) []" "\<And>x. yields m x \<Longrightarrow> T (Inr x) []"
  shows "emits m T"
  unfolding emits_def
proof
  fix s
  have "T (fst (m s)) []"
    using assms(2,3) by (cases "m s"; cases "fst (m s)") (auto simp: yields_def)
  then show "\<exists>es. sy_trace (snd (m s)) = sy_trace s @ es \<and> T (fst (m s)) es"
    using assms(1) by (auto simp: silent_def)
qed

lemma emits_bnd:
  assumes m: "emits m T1" and f: "\<And>x es. T1 (Inr x) es \<Longrightarrow> yields m x \<Longrightarrow> emits (f x) (\<lambda>r fs. T r (es @ fs))"
    and e: "\<And>e es. T1 (Inl e) es \<Longrightarrow> T (Inl e) es"
  shows "emits (bnd m f) T"
  unfolding emits_def
proof
  fix s
  obtain r s' where ms: "m s = (r, s')" by fastforce
  obtain es where es: "sy_trace s' = sy_trace s @ es" "T1 r es"
    using m ms unfolding emits_def by (metis fst_conv snd_conv)
  show "\<exists>es. sy_trace (snd (bnd m f s)) = sy_trace s @ es \<and> T (fst (bnd m f s)) es"
  proof (cases r)
    case (Inl x)
    then show ?thesis using ms es e by (auto simp: bnd_def)
  next
    case (Inr x)
    then have "yields m x" using ms by (auto simp: yields_def)
    with f [of x es] es Inr obtain fs where
      "sy_trace (snd (f x s')) = sy_trace s' @ fs" "T (fst (f x s')) (es @ fs)"
      unfolding emits_def by blast
    then show ?thesis using ms es Inr by (auto simp: bnd_def)
  qed
qed

lemma emits_bnd_silent [emits_rules]:
  assumes "silent m" "\<And>x. yields m x \<Longrightarrow> emits (f x) T" "\<And>e. T (Inl e) []"
  shows "emits (bnd m f) T"
  by (rule emits_bnd [where ?T1.0 = "\<lambda>r es. es = []"]) (use assms in \<open>auto intro: emits_silent\<close>)

lemma emits_bnd_emit [emits_rules]:
  "emits (f ()) (\<lambda>r es. T r (ev # es)) \<Longrightarrow> emits (bnd (emit ev) f) T"
proof -
  assume f: "emits (f ()) (\<lambda>r es. T r (ev # es))"
  show ?thesis unfolding emits_def
  proof
    fix s :: sys
    let ?s = "s\<lparr>sy_trace := sy_trace s @ [ev]\<rparr>"
    obtain es where "sy_trace (snd (f () ?s)) = sy_trace ?s @ es" "T (fst (f () ?s)) (ev # es)"
      using f [unfolded emits_def, THEN spec, of ?s] by blast
    then show "\<exists>es. sy_trace (snd (bnd (emit ev) f s)) = sy_trace s @ es \<and> T (fst (bnd (emit ev) f s)) es"
      by (auto simp: bnd_def emit_def)
  qed
qed

lemma emits_bnd_approval [emits_rules]:
  assumes "\<And>d. emits (f d) (\<lambda>r es. T r (Prompted req d # es))"
  shows "emits (bnd (request_approval V req) f) T"
  unfolding emits_def
proof
  fix s :: sys
  let ?d = "e_decide V (sy_step s) req"
  let ?s = "s\<lparr>sy_step := Suc (sy_step s), sy_trace := sy_trace s @ [Prompted req ?d]\<rparr>"
  have eq: "bnd (request_approval V req) f s = f ?d ?s"
    by (simp add: request_approval_def act_defs)
  moreover obtain es where "sy_trace (snd (f ?d ?s)) = sy_trace ?s @ es"
    "T (fst (f ?d ?s)) (Prompted req ?d # es)"
    using assms [of ?d] unfolding emits_def by blast
  ultimately show "\<exists>es. sy_trace (snd (bnd (request_approval V req) f s)) = sy_trace s @ es
      \<and> T (fst (bnd (request_approval V req) f s)) es"
    by auto
qed

lemma emits_mono: "emits m T \<Longrightarrow> (\<And>r es. T r es \<Longrightarrow> T' r es) \<Longrightarrow> emits m T'"
  unfolding emits_def by blast

lemma emits_if [emits_rules]:
  "(c \<Longrightarrow> emits m T) \<Longrightarrow> (\<not> c \<Longrightarrow> emits n T) \<Longrightarrow> emits (if c then m else n) T"
  by simp

lemma emits_ret [emits_rules]: "T (Inr x) [] \<Longrightarrow> emits (ret x) T"
  by (simp add: emits_def ret_def)

lemma emits_fail [emits_rules]: "T (Inl (Rpc e)) [] \<Longrightarrow> emits (fail e) T"
  by (simp add: emits_def fail_def)

lemma emits_lift [emits_rules]:
  "(\<And>e. T (Inl e) []) \<Longrightarrow> (\<And>x. r = Ok x \<Longrightarrow> T (Inr x) []) \<Longrightarrow> emits (lift r) T"
  by (rule emits_silent) simp_all

lemma emits_map_fail:
  "emits m (\<lambda>r es. T (map_failure f r) es) \<Longrightarrow> emits (map_fail f m) T"
  unfolding emits_def map_fail_def by (auto split: prod.splits) (metis fst_conv snd_conv)

lemma silent_checked_add [silent, simp]: "silent (checked_add a b)"
  by (simp add: checked_add_def)

lemma emitsE:
  assumes "emits m T" "m s = (r, s')"
  obtains es where "sy_trace s' = sy_trace s @ es" "T r es"
  using assms unfolding emits_def by (metis fst_conv snd_conv)

end
