(* ===== verification/Rpc_Params.thy ===== *)
theory Rpc_Params
  imports Rpc_State
begin

text \<open>
  The pure helpers of \<open>crates/wallet-rpc/src/dispatch.rs\<close>: reading parameters, the prefilled issue
  link, the checks of a proof, and the lines shown in prompts. \<open>decode_query\<close> is the reader of a
  percent-encoded value, with which the encoding is shown to lose nothing.
\<close>

definition in_quotes :: "string \<Rightarrow> string" where
  "in_quotes s = [CHR 0x27] @ s @ [CHR 0x27]"

definition in_dquotes :: "string \<Rightarrow> string" where
  "in_dquotes s = [CHR 0x22] @ s @ [CHR 0x22]"

definition dec :: "'n::len word \<Rightarrow> string" where
  "dec n = nat_dec (unat n)"

section \<open>Text for the issue link\<close>

definition upper_hex_digit :: "nat \<Rightarrow> char" where
  "upper_hex_digit d = (if d < 10 then char_of (48 + d) else char_of (55 + d))"

definition unreserved :: "char \<Rightarrow> bool" where
  "unreserved b \<longleftrightarrow> is_ascii_alphanumeric b \<or> b = CHR ''-'' \<or> b = CHR ''_'' \<or> b = CHR ''.'' \<or> b = CHR ''~''"

definition encode_query :: "string \<Rightarrow> string" where
  "encode_query s =
     concat (map (\<lambda>b. if unreserved b then [b]
       else [CHR ''%'', upper_hex_digit (of_char b div 16), upper_hex_digit (of_char b mod 16)]) s)"

definition truncate_chars :: "string \<Rightarrow> nat \<Rightarrow> string" where
  "truncate_chars s mx = (if count_chars s \<le> mx then s else take_chars (mx - 1) s @ utf8_ellipsis)"

definition push_field :: "string \<Rightarrow> string \<Rightarrow> string \<Rightarrow> string" where
  "push_field body label val =
     (let v = trim val
      in if v \<noteq> [] then body @ ''**'' @ label @ '':** '' @ v @ [CHR 0x0A, CHR 0x0A] else body)"

section \<open>Reading parameters\<close>

definition felt_hex :: "felt \<Rightarrow> string" where
  "felt_hex f = felt_0x f"

definition felt_strs :: "felt list \<Rightarrow> json" where
  "felt_strs fs = JArr (map (\<lambda>f. JStr (felt_hex f)) fs)"

definition read_u128 :: "string \<Rightarrow> u128 option" where
  "read_u128 s =
     (case strip_prefix ''0x'' s of
        Some h \<Rightarrow> map_option word_of_nat (parse_radix 16 (2 ^ 128) h)
      | None \<Rightarrow> map_option word_of_nat (parse_radix 10 (2 ^ 128) s))"

definition parse_u128_str :: "string \<Rightarrow> wallet_rpc_error + u128" where
  "parse_u128_str s =
     (let s = trim s
      in ok_or (InvalidRequest (''invalid u128 value '' @ in_quotes s)) (read_u128 s))"

definition parse_u128_field :: "json \<Rightarrow> string \<Rightarrow> wallet_rpc_error + u128" where
  "parse_u128_field params k =
     (case json_get params k of
        Some (JStr s) \<Rightarrow> parse_u128_str s
      | Some (JNum n) \<Rightarrow> ok_or (InvalidRequest (''bad '' @ k)) (map_option ucast (as_u64 (JNum n)))
      | _ \<Rightarrow> Err (InvalidRequest (''missing '' @ in_quotes k)))"

fun chain_name :: "chain \<Rightarrow> string" where
  "chain_name Mainnet = ''SN_MAIN''"
| "chain_name Sepolia = ''SN_SEPOLIA''"

fun prover_network :: "chain \<Rightarrow> string" where
  "prover_network Mainnet = ''mainnet''"
| "prover_network Sepolia = ''testnet''"

definition param_str :: "json \<Rightarrow> string \<Rightarrow> wallet_rpc_error + string" where
  "param_str params k = ok_or (InvalidRequest (''missing string param '' @ in_quotes k)) (get_str params k)"

definition opt_param_str :: "json \<Rightarrow> string \<Rightarrow> string option" where
  "opt_param_str params k = get_str params k"

definition normalize_address :: "ext \<Rightarrow> string \<Rightarrow> wallet_rpc_error + string" where
  "normalize_address E s =
     bindE (ok_or (InvalidRequest ''invalid account_address'') (felt_from_hex E s)) (\<lambda>f.
     Ok (address_hex f))"

definition scope_for :: "paired_client \<Rightarrow> string option" where
  "scope_for client = (case pc_kind client of AgentClient \<Rightarrow> Some (pc_id client) | AppClient \<Rightarrow> None)"

fun domain_json :: "domain \<Rightarrow> string" where
  "domain_json User = ''user''"
| "domain_json Agent = ''agent''"

definition account_to_json :: "account_ref \<Rightarrow> json" where
  "account_to_json a =
     JObj [(''domain'', JStr (domain_json (acc_domain a))), (''index'', json_u64 (ucast (acc_index a))),
           (''address'', JStr (acc_address a)), (''label'', JStr (acc_label a))]"

definition is_deferred :: "string \<Rightarrow> bool" where
  "is_deferred m \<longleftrightarrow> m = ''wallet_addStarknetChain'' \<or> m = ''wallet_strk20ShadowAccountCommitment''
     \<or> m = ''wallet_strk20SubaccountCommitment''"

text \<open>The typed data of a request: a string as it is, anything else printed.\<close>

definition typed_data_of :: "(json \<Rightarrow> string) \<Rightarrow> json \<Rightarrow> wallet_rpc_error + string" where
  "typed_data_of print params =
     bindE (ok_or (InvalidRequest (''missing '' @ in_quotes ''typed_data'')) (json_get params ''typed_data'')) (\<lambda>v.
     Ok (case v of JStr s \<Rightarrow> s | other \<Rightarrow> print other))"

definition felt_from :: "ext \<Rightarrow> json \<Rightarrow> string \<Rightarrow> wallet_rpc_error + felt" where
  "felt_from E v what =
     bindE (ok_or (InvalidRequest (what @ '' must be a hex string'')) (as_str v)) (\<lambda>s.
     ok_or (InvalidRequest (''invalid felt for '' @ what)) (felt_from_hex E s))"

definition bound_field :: "json \<Rightarrow> string \<Rightarrow> wallet_rpc_error + u128" where
  "bound_field v field =
     (case json_get v field of
        Some (JStr s) \<Rightarrow> ok_or (InvalidRequest (''bad '' @ field)) (read_u128 (trim s))
      | Some (JNum n) \<Rightarrow> ok_or (InvalidRequest (''bad '' @ field)) (map_option ucast (as_u64 (JNum n)))
      | _ \<Rightarrow> Ok 0)"

text \<open>\<open>as u64\<close> truncates \<open>max_amount\<close>.\<close>

definition parse_resource_bounds :: "json \<Rightarrow> wallet_rpc_error + resource_bounds" where
  "parse_resource_bounds v =
     bindE (bound_field v ''max_amount'') (\<lambda>amount.
     bindE (bound_field v ''max_price_per_unit'') (\<lambda>price.
     Ok \<lparr>max_amount = ucast amount, max_price_per_unit = price\<rparr>))"

definition or_else :: "'a option \<Rightarrow> 'a option \<Rightarrow> 'a option" where
  "or_else a b = (case a of None \<Rightarrow> b | Some x \<Rightarrow> Some x)"

definition parse_call :: "ext \<Rightarrow> json \<Rightarrow> wallet_rpc_error + call" where
  "parse_call E c =
     bindE (ok_or (InvalidRequest ''call missing contract_address'')
       (or_else (or_else (json_get c ''contract_address'') (json_get c ''contractAddress'')) (json_get c ''to''))) (\<lambda>to_val.
     bindE (felt_from E to_val ''contract_address'') (\<lambda>to.
     bindE (ok_or (InvalidRequest (''call missing entry_point_selector (or entrypoint) '' @ utf8_dash
          @ '' a function name or 0x selector''))
       (Option.bind
         (or_else (or_else (or_else (json_get c ''entry_point_selector'') (json_get c ''entrypoint''))
            (json_get c ''entry_point'')) (json_get c ''selector'')) as_str)) (\<lambda>selector_field.
     bindE (map_err (\<lambda>_. InvalidRequest ''bad entry_point_selector'') (resolve_selector E selector_field)) (\<lambda>selector.
     bindE (case json_get c ''calldata'' of
              Some (JArr items) \<Rightarrow> collectE (\<lambda>v. felt_from E v ''calldata element'') items
            | None \<Rightarrow> Ok []
            | Some JNull \<Rightarrow> Ok []
            | _ \<Rightarrow> Err (InvalidRequest ''calldata must be an array'')) (\<lambda>calldata.
     Ok \<lparr>call_to = to, call_selector = selector, call_calldata = calldata\<rparr>)))))"

definition parse_calls :: "ext \<Rightarrow> json \<Rightarrow> wallet_rpc_error + call list" where
  "parse_calls E params =
     bindE (ok_or (InvalidRequest (''missing '' @ in_quotes ''calls'' @ '' array'')) (get_array params ''calls'')) (\<lambda>arr.
     if arr = [] then Err (InvalidRequest (in_quotes ''calls'' @ '' is empty''))
     else collectE (parse_call E) arr)"

definition opt_nonce :: "ext \<Rightarrow> json \<Rightarrow> wallet_rpc_error + felt option" where
  "opt_nonce E params =
     (case json_get params ''nonce'' of
        Some JNull \<Rightarrow> Ok None
      | None \<Rightarrow> Ok None
      | Some v \<Rightarrow> bindE (felt_from E v ''nonce'') (\<lambda>f. Ok (Some f)))"

definition bounds_member :: "json \<Rightarrow> string \<Rightarrow> wallet_rpc_error + resource_bounds" where
  "bounds_member rb k =
     bindE (ok_or (InvalidRequest (''resource_bounds missing '' @ in_quotes k)) (json_get rb k)) parse_resource_bounds"

definition opt_fee_bounds :: "json \<Rightarrow> wallet_rpc_error + fee_bounds option" where
  "opt_fee_bounds params =
     (case json_get params ''resource_bounds'' of
        Some JNull \<Rightarrow> Ok None
      | None \<Rightarrow> Ok None
      | Some rb \<Rightarrow>
          bindE (bounds_member rb ''l1_gas'') (\<lambda>l1.
          bindE (bounds_member rb ''l2_gas'') (\<lambda>l2.
          bindE (bounds_member rb ''l1_data_gas'') (\<lambda>l1d.
          Ok (Some \<lparr>fb_l1_gas = l1, fb_l2_gas = l2, fb_l1_data_gas = l1d\<rparr>)))))"

definition is_ascii_whitespace :: "char \<Rightarrow> bool" where
  "is_ascii_whitespace c \<longleftrightarrow> c = CHR '' '' \<or> c = CHR 0x09 \<or> c = CHR 0x0A \<or> c = CHR 0x0C \<or> c = CHR 0x0D"

definition is_b64 :: "char \<Rightarrow> bool" where
  "is_b64 b \<longleftrightarrow> is_ascii_alphanumeric b \<or> b = CHR ''+'' \<or> b = CHR ''/''"

definition normalize_proof_b64 :: "string \<Rightarrow> wallet_rpc_error + string" where
  "normalize_proof_b64 raw =
     (let cleaned = filter (\<lambda>c. \<not> is_ascii_whitespace c) raw;
          pad = length (takeWhile (\<lambda>b. b = CHR ''='') (rev cleaned));
          body = take (length cleaned - pad) cleaned
      in if body = [] then Err (InvalidRequest ''proof is empty or all padding after trimming whitespace'')
         else if pad > 2 \<or> list_ex (\<lambda>b. \<not> is_b64 b) body
         then Err (InvalidRequest (''proof is not valid standard base64 (expected A-Za-z0-9+/ with optional trailing ''
           @ in_quotes ''='' @ ''; check for url-safe '' @ in_quotes ''-'' @ ''/'' @ in_quotes ''_''
           @ '', embedded '' @ in_quotes ''='' @ '' padding, or stray characters)''))
         else Ok cleaned)"

section \<open>Lines of a prompt\<close>

definition bounds_summary :: "fee_bounds \<Rightarrow> string" where
  "bounds_summary b =
     ''l1 '' @ dec (max_amount (fb_l1_gas b)) @ utf8_times @ dec (max_price_per_unit (fb_l1_gas b))
     @ '' / l2 '' @ dec (max_amount (fb_l2_gas b)) @ utf8_times @ dec (max_price_per_unit (fb_l2_gas b))
     @ '' / l1_data '' @ dec (max_amount (fb_l1_data_gas b)) @ utf8_times
     @ dec (max_price_per_unit (fb_l1_data_gas b))"

definition summarize_calls :: "call list \<Rightarrow> string" where
  "summarize_calls calls =
     join ''; '' (map (\<lambda>c. utf8_arrow @ '' '' @ felt_hex (call_to c) @ '' :: selector ''
       @ felt_hex (call_selector c)) calls)"

definition bounds_json :: "fee_bounds \<Rightarrow> json" where
  "bounds_json b =
     (let rb = (\<lambda>r. JObj [(''max_amount'', JStr (''0x'' @ nat_hex (unat (max_amount r)))),
                          (''max_price_per_unit'', JStr (''0x'' @ nat_hex (unat (max_price_per_unit r))))])
      in JObj [(''l1_gas'', rb (fb_l1_gas b)), (''l2_gas'', rb (fb_l2_gas b)),
               (''l1_data_gas'', rb (fb_l1_data_gas b))])"

definition decision_label :: "wallet_rpc_error + json \<Rightarrow> string" where
  "decision_label result =
     (case result of
        Inl UserRefused \<Rightarrow> ''rejected''
      | Inr _ \<Rightarrow> ''approved''
      | Inl _ \<Rightarrow> ''n/a'')"

section \<open>Facts\<close>

lemma normalize_proof_Ok:
  assumes "normalize_proof_b64 raw = Ok p"
  shows "p = filter (\<lambda>c. \<not> is_ascii_whitespace c) raw"
    and "\<exists>body k. p = body @ replicate k (CHR ''='') \<and> k \<le> 2 \<and> body \<noteq> [] \<and> list_all is_b64 body"
proof -
  let ?p = "filter (\<lambda>c. \<not> is_ascii_whitespace c) raw"
  let ?pad = "takeWhile (\<lambda>b. b = CHR ''='') (rev ?p)"
  let ?body = "take (length ?p - length ?pad) ?p"
  show p: "p = ?p" using assms by (simp add: normalize_proof_b64_def Let_def split: if_splits)
  have ok: "?body \<noteq> []" "length ?pad \<le> 2" "\<not> list_ex (\<lambda>b. \<not> is_b64 b) ?body"
    using assms unfolding normalize_proof_b64_def Let_def by (metis Inl_Inr_False not_le)+
  have "?pad = replicate (length ?pad) (CHR ''='')"
    by (rule replicate_eqI) (auto dest: set_takeWhileD)
  then have "rev ?pad = replicate (length ?pad) (CHR ''='')" by (metis rev_replicate)
  moreover have "?p = rev (dropWhile (\<lambda>b. b = CHR ''='') (rev ?p)) @ rev ?pad"
    by (metis rev_append rev_rev_ident takeWhile_dropWhile_id)
  moreover have "?body = rev (dropWhile (\<lambda>b. b = CHR ''='') (rev ?p))"
    using calculation(2) by (metis append_eq_conv_conj diff_add_inverse2 length_append length_rev)
  ultimately have "p = ?body @ replicate (length ?pad) (CHR ''='')" using p by simp
  moreover have "list_all is_b64 ?body" using ok(3) by (simp add: list_ex_iff list_all_iff)
  ultimately show "\<exists>body k. p = body @ replicate k (CHR ''='') \<and> k \<le> 2 \<and> body \<noteq> [] \<and> list_all is_b64 body"
    using ok by blast
qed

lemma normalize_proof_idem:
  assumes "normalize_proof_b64 raw = Ok p" shows "normalize_proof_b64 p = Ok p"
proof -
  have p: "p = filter (\<lambda>c. \<not> is_ascii_whitespace c) raw" by (rule normalize_proof_Ok(1) [OF assms])
  then have "filter (\<lambda>c. \<not> is_ascii_whitespace c) p = p" by simp
  then have "normalize_proof_b64 p = normalize_proof_b64 raw"
    unfolding normalize_proof_b64_def Let_def by (simp only: p [symmetric])
  then show ?thesis using assms by simp
qed

text \<open>A reader of percent-encoded text.\<close>

fun decode_query :: "string \<Rightarrow> string option" where
  "decode_query [] = Some []"
| "decode_query (c # cs) =
     (if c \<noteq> CHR ''%'' then map_option ((#) c) (decode_query cs)
      else case cs of
             h # l # rest \<Rightarrow>
               (case (char_digit h, char_digit l) of
                  (Some a, Some b) \<Rightarrow> map_option ((#) (char_of (a * 16 + b))) (decode_query rest)
                | _ \<Rightarrow> None)
           | _ \<Rightarrow> None)"

lemma char_digit_upper: "d < 16 \<Longrightarrow> char_digit (upper_hex_digit d) = Some d"
  by (auto simp: char_digit_def upper_hex_digit_def Let_def)

lemma char_of_split: "char_of (of_char c div 16 * 16 + of_char c mod 16 :: nat) = c"
  by (simp add: div_mult_mod_eq)

lemma char_nibbles: "(of_char c :: nat) div 16 < 16"
  using nat_of_char_less_256 [of c] by (simp add: less_mult_imp_div_less)

lemma encode_query_Cons:
  "encode_query (c # cs) = (if unreserved c then [c]
     else [CHR ''%'', upper_hex_digit (of_char c div 16), upper_hex_digit (of_char c mod 16)]) @ encode_query cs"
  by (simp add: encode_query_def)

lemma not_unreserved_percent: "unreserved c \<Longrightarrow> c \<noteq> CHR ''%''"
  by (auto simp: unreserved_def is_ascii_alphanumeric_def is_ascii_digit_def is_ascii_upper_def is_ascii_lower_def)

lemma decode_encode_query: "decode_query (encode_query s) = Some s"
proof (induction s)
  case Nil
  show ?case by (simp add: encode_query_def)
next
  case (Cons c cs)
  show ?case
  proof (cases "unreserved c")
    case True
    then show ?thesis using Cons not_unreserved_percent [of c] by (simp add: encode_query_Cons)
  next
    case False
    then show ?thesis using Cons char_nibbles [of c] char_of_split [of c]
      by (simp add: encode_query_Cons char_digit_upper)
  qed
qed

lemma upper_hex_unreserved: "d < 16 \<Longrightarrow> unreserved (upper_hex_digit d)"
  by (auto simp: upper_hex_digit_def unreserved_def is_ascii_alphanumeric_def is_ascii_digit_def
      is_ascii_upper_def)

lemma encode_query_chars: "c \<in> set (encode_query s) \<Longrightarrow> unreserved c \<or> c = CHR ''%''"
proof (induction s)
  case (Cons d ds)
  then show ?case using upper_hex_unreserved [of "of_char d div 16"] upper_hex_unreserved [of "of_char d mod 16"]
      char_nibbles [of d]
    by (auto simp: encode_query_Cons split: if_splits)
qed (simp add: encode_query_def)

text \<open>A slug is an owner and a name.\<close>

lemma split_on_not_Nil [simp]: "split_on c s \<noteq> []"
  by (cases s) (auto split: list.splits)

lemma join_split_on: "join [c] (split_on c s) = s"
proof (induction c s rule: split_on.induct)
  case (2 c x xs)
  show ?case
  proof (cases "split_on c xs")
    case Nil
    then show ?thesis by simp
  next
    case (Cons p ps)
    then show ?thesis using 2 by (cases ps) auto
  qed
qed simp

lemma split_on_no_sep: "p \<in> set (split_on c s) \<Longrightarrow> c \<notin> set p"
  by (induction c s arbitrary: p rule: split_on.induct) (auto split: if_splits list.splits)

lemma valid_repo_slug:
  assumes "is_valid_repo_slug s"
  obtains owner name where "s = owner @ [CHR ''/''] @ name" "owner \<noteq> []" "name \<noteq> []"
    "CHR ''/'' \<notin> set owner" "CHR ''/'' \<notin> set name"
    "list_all (\<lambda>b. unreserved b \<and> b \<noteq> CHR ''~'') (owner @ name)"
proof -
  obtain owner name where sp: "split_on (CHR ''/'') s = [owner, name]"
    using assms unfolding is_valid_repo_slug_def by (auto split: list.splits)
  have s: "s = owner @ [CHR ''/''] @ name" using join_split_on [of "CHR ''/''" s] sp by simp
  have no: "CHR ''/'' \<notin> set owner" "CHR ''/'' \<notin> set name" using split_on_no_sep [of _ "CHR ''/''" s] sp by auto
  have tilde: "\<not> is_ascii_alphanumeric (CHR ''~'')"
    by (simp add: is_ascii_alphanumeric_def is_ascii_digit_def is_ascii_upper_def is_ascii_lower_def)
  have "list_all (\<lambda>b. unreserved b \<and> b \<noteq> CHR ''~'') (owner @ name)"
    using assms no sp s tilde unfolding is_valid_repo_slug_def
    by (auto simp: list_all_iff unreserved_def)
  then show thesis using that s no sp assms unfolding is_valid_repo_slug_def by auto
qed

lemma scope_agent: "pc_kind cl = AgentClient \<Longrightarrow> scope_for cl = Some (pc_id cl)"
  by (simp add: scope_for_def)

lemma normalize_address_Ok:
  "normalize_address E s = Ok w \<longleftrightarrow> (\<exists>f. felt_from_hex E s = Some f \<and> w = address_hex f)"
  by (auto simp: normalize_address_def result_simps)

lemma normalize_address_idem:
  "hex_reader E \<Longrightarrow> normalize_address E s = Ok w \<Longrightarrow> normalize_address E w = Ok w"
  by (auto simp: normalize_address_Ok address_hex_def hex_reader_0x64)

lemma scoped_for_scope:
  assumes "a \<in> set (scoped_for reg (scope_for cl))"
  shows "case pc_kind cl of AgentClient \<Rightarrow> acc_owner a = Some (pc_id cl) | AppClient \<Rightarrow> acc_domain a = User"
  using assms by (auto simp: scope_for_def set_scoped_for split: client_kind.splits)

end
