(* ===== verification/Rpc_Handlers.thy ===== *)
theory Rpc_Handlers
  imports Rpc_Params
begin

text \<open>
  The handlers of \<open>crates/wallet-rpc/src/dispatch.rs\<close> that sign: typed data, invokes, declares,
  deploys, funding transfers and signing for the prover, with the steps they share (the approval
  gate, the account in the caller's scope, chain, nonce and fee). Each is the whole handler, in the
  order of the code.
\<close>

section \<open>Shared steps\<close>

definition client_label :: "paired_client \<Rightarrow> string" where
  "client_label client = pc_label client @ '' ('' @ pc_id client @ '')''"

definition gated_approval :: "'pt env \<Rightarrow> paired_client \<Rightarrow> string \<Rightarrow> string \<Rightarrow> decision act" where
  "gated_approval V client m summary =
     bnd (now_unix_ms V) (\<lambda>now_ms.
     if grant_active client now_ms then bnd (emit (GrantUsed (pc_id client) m now_ms)) (\<lambda>_. ret Approve)
     else request_approval V \<lparr>ap_client_label = client_label client, ap_method = m, ap_summary = summary\<rparr>)"

text \<open>\<open>if decision == Reject { return Err(UserRefused) }\<close>\<close>

definition unless_rejected :: "decision \<Rightarrow> 'a act \<Rightarrow> 'a act" where
  "unless_rejected d m = (if d = Reject then fail UserRefused else m)"

definition scoped_account :: "wallet_session \<Rightarrow> paired_client \<Rightarrow> string \<Rightarrow> wallet_rpc_error + account_ref" where
  "scoped_account se client want =
     bindE (session_registry se) (\<lambda>reg.
     ok_or Forbidden (List.find (\<lambda>a. acc_address a = want) (scoped_for reg (scope_for client))))"

text \<open>The account named by an optional parameter, else the caller's first.\<close>

definition chosen_account ::
  "ext \<Rightarrow> string option \<Rightarrow> wallet_rpc_error \<Rightarrow> wallet_session \<Rightarrow> paired_client \<Rightarrow> wallet_rpc_error + account_ref" where
  "chosen_account E given none_err se client =
     bindE (session_registry se) (\<lambda>reg.
     let accounts = scoped_for reg (scope_for client)
     in bindE (case given of
          Some s \<Rightarrow> bindE (normalize_address E s) (\<lambda>addr. Ok (List.find (\<lambda>a. acc_address a = addr) accounts))
        | None \<Rightarrow> Ok (case accounts of [] \<Rightarrow> None | a # _ \<Rightarrow> Some a)) (\<lambda>found.
     ok_or none_err found))"

definition bad_chain_id :: string where
  "bad_chain_id = ''invalid chainId (expected a felt-encoded chain id, e.g. SN_SEPOLIA / SN_MAIN)''"

definition resolve_chain :: "'pt env \<Rightarrow> json \<Rightarrow> chain act" where
  "resolve_chain V params =
     (case json_get params ''chainId'' of
        None \<Rightarrow> reads V (\<lambda>sv. s_chain (sv_session sv))
      | Some JNull \<Rightarrow> reads V (\<lambda>sv. s_chain (sv_session sv))
      | Some (JStr s) \<Rightarrow>
          lift (bindE (ok_or (InvalidRequest bad_chain_id) (felt_from_hex (e_ext V) s)) (\<lambda>f.
                ok_or ChainIdNotSupported (chain_from_felt (e_ext V) f)))
      | Some _ \<Rightarrow> fail (InvalidRequest ''chainId must be a felt-encoded string''))"

definition resolve_nonce :: "'pt env \<Rightarrow> chain \<Rightarrow> felt \<Rightarrow> json \<Rightarrow> felt act" where
  "resolve_nonce V chain sender_addr params =
     bnd (lift (opt_nonce (e_ext V) params)) (\<lambda>given.
     case given of
       Some n \<Rightarrow> ret n
     | None \<Rightarrow> bnd (node_or V chain) (\<lambda>node. node_result (get_nonce node sender_addr)))"

definition proof_needs_bounds :: string where
  "proof_needs_bounds = ''proof-carrying invoke (proof_facts) without '' @ in_quotes ''proof''
     @ '' needs explicit resource_bounds: the fee can only be estimated with the proof attached. Pass ''
     @ in_quotes ''proof'' @ '', or set resource_bounds manually (e.g. ~2'' @ utf8_times @ '' current gas prices).''"

definition resolve_exec ::
  "'pt env \<Rightarrow> chain \<Rightarrow> felt \<Rightarrow> felt list \<Rightarrow> json \<Rightarrow> (felt list \<times> string option) option
     \<Rightarrow> (felt \<times> fee_bounds) act" where
  "resolve_exec V chain sender_addr encoded params proof_carrying =
     bnd (resolve_nonce V chain sender_addr params) (\<lambda>nonce.
     bnd (lift (opt_fee_bounds params)) (\<lambda>given.
     bnd (case given of
            Some b \<Rightarrow> ret b
          | None \<Rightarrow>
              (case proof_carrying of
                 Some (facts, Some proof) \<Rightarrow>
                   bnd (node_or V chain) (\<lambda>node.
                   bnd (emit (Simulated chain sender_addr encoded)) (\<lambda>_.
                   node_result (estimate_invoke_with_proof node sender_addr encoded nonce facts proof)))
               | Some (_, None) \<Rightarrow> fail (InvalidRequest proof_needs_bounds)
               | None \<Rightarrow>
                   bnd (node_or V chain) (\<lambda>node.
                   bnd (emit (Simulated chain sender_addr encoded)) (\<lambda>_.
                   node_result (estimate_invoke node sender_addr encoded nonce))))) (\<lambda>bounds.
     ret (nonce, bounds))))"

definition fee_params :: "felt \<Rightarrow> fee_bounds \<Rightarrow> felt list \<Rightarrow> invoke_v3_params" where
  "fee_params nonce bounds facts =
     default_params\<lparr>p_nonce := nonce, p_tip := 0, p_l1_gas := fb_l1_gas bounds,
       p_l2_gas := fb_l2_gas bounds, p_l1_data_gas := fb_l1_data_gas bounds, p_proof_facts := facts\<rparr>"

definition sign_and_submit ::
  "'pt env \<Rightarrow> chain \<Rightarrow> account_ref \<Rightarrow> call list \<Rightarrow> felt \<Rightarrow> fee_bounds \<Rightarrow> bool \<Rightarrow> felt list \<Rightarrow> string option
     \<Rightarrow> json act" where
  "sign_and_submit V chain account calls nonce bounds submit proof_facts proof =
     (let params = fee_params nonce bounds proof_facts
      in bnd (with_session V (\<lambda>se. sign_invoke_for (e_ext V) se account calls chain params)) (\<lambda>signed.
         bnd (emit (SignedInvoke account calls chain params)) (\<lambda>_.
         bnd (lift (stored_address (e_ext V) account)) (\<lambda>sender_addr.
         if submit then
           bnd (node_or V chain) (\<lambda>node.
           bnd (emit (SentInvoke chain sender_addr (si_calldata signed) (si_signature signed) nonce bounds proof_facts proof)) (\<lambda>_.
           bnd (node_result (add_invoke node sender_addr (si_calldata signed) (si_signature signed) nonce bounds
                  proof_facts proof)) (\<lambda>hash.
           ret (JObj [(''transaction_hash'', JStr (felt_hex hash)), (''submitted'', JBool True)]))))
         else
           ret (JObj [(''transaction_hash'', JStr (felt_hex (si_transaction_hash signed))),
                      (''signature'', felt_strs (si_signature signed)),
                      (''signed_transaction'', invoke_v3_tx_json sender_addr (si_calldata signed)
                         (si_signature signed) nonce bounds proof_facts proof),
                      (''submitted'', JBool False)])))))"

section \<open>Typed data\<close>

definition typed_data_summary :: "account_ref \<Rightarrow> string" where
  "typed_data_summary account = ''Sign typed data with account '' @ acc_address account"

definition handle_sign_typed_data :: "'pt env \<Rightarrow> paired_client \<Rightarrow> json \<Rightarrow> json act" where
  "handle_sign_typed_data V client params =
     bnd (lift (param_str params ''account_address'')) (\<lambda>account_address.
     bnd (lift (normalize_address (e_ext V) account_address)) (\<lambda>want.
     bnd (lift (typed_data_of (e_to_string V) params)) (\<lambda>typed_data_json.
     bnd (with_session V (\<lambda>se. scoped_account se client want)) (\<lambda>account.
     bnd (gated_approval V client ''wallet_signTypedData'' (typed_data_summary account)) (\<lambda>d.
     unless_rejected d
       (bnd (with_session V (\<lambda>se. sign_typed_data_for (e_ext V) se account typed_data_json)) (\<lambda>sig.
        bnd (emit (SignedTypedData account typed_data_json)) (\<lambda>_.
        ret (felt_strs (serialize_signature (acc_contract account) sig))))))))))"

section \<open>Invoke\<close>

definition wants_submit :: "json \<Rightarrow> bool" where
  "wants_submit params \<longleftrightarrow> get_bool params ''submit'' = Some True"

definition proof_facts_of :: "ext \<Rightarrow> json \<Rightarrow> wallet_rpc_error + felt list" where
  "proof_facts_of E params =
     (case json_get params ''proof_facts'' of
        Some (JArr items) \<Rightarrow> collectE (\<lambda>v. felt_from E v ''proof_facts element'') items
      | None \<Rightarrow> Ok []
      | Some JNull \<Rightarrow> Ok []
      | _ \<Rightarrow> Err (InvalidRequest ''proof_facts must be an array''))"

definition proof_of :: "json \<Rightarrow> wallet_rpc_error + string option" where
  "proof_of params =
     (case get_str params ''proof'' of
        Some s \<Rightarrow> bindE (normalize_proof_b64 s) (\<lambda>p. Ok (Some p))
      | None \<Rightarrow> Ok None)"

definition invoke_summary :: "bool \<Rightarrow> call list \<Rightarrow> felt list \<Rightarrow> account_ref \<Rightarrow> chain \<Rightarrow> fee_bounds \<Rightarrow> string" where
  "invoke_summary submit calls proof_facts account chain bounds =
     (if submit then ''Submit'' else ''Sign'') @ '' '' @ nat_dec (length calls) @ '' call(s)''
     @ (if proof_facts = [] then [] else '' (SNIP-36 proof-carrying)'') @ '' from '' @ acc_address account
     @ '' on '' @ chain_name chain @ ''. '' @ summarize_calls calls @ ''. Max fee: '' @ bounds_summary bounds"

definition handle_add_invoke :: "'pt env \<Rightarrow> paired_client \<Rightarrow> json \<Rightarrow> json act" where
  "handle_add_invoke V client params =
     (let E = e_ext V; submit = wants_submit params in
     bnd (lift (param_str params ''account_address'')) (\<lambda>account_address.
     bnd (lift (normalize_address E account_address)) (\<lambda>want.
     bnd (lift (parse_calls E params)) (\<lambda>calls.
     bnd (lift (proof_facts_of E params)) (\<lambda>proof_facts.
     bnd (lift (proof_of params)) (\<lambda>proof.
     if submit \<and> proof_facts \<noteq> [] \<and> proof = None
     then fail (InvalidRequest (''broadcasting a proof-carrying invoke (proof_facts) requires '' @ in_quotes ''proof''))
     else
     bnd (with_session V (\<lambda>se. scoped_account se client want)) (\<lambda>account.
     bnd (lift (stored_address E account)) (\<lambda>sender_addr.
     bnd (resolve_chain V params) (\<lambda>chain.
     bnd (resolve_exec V chain sender_addr (encode_calls calls) params
            (if proof_facts = [] then None else Some (proof_facts, proof))) (\<lambda>(nonce, bounds).
     bnd (gated_approval V client ''wallet_addInvokeTransaction''
            (invoke_summary submit calls proof_facts account chain bounds)) (\<lambda>d.
     unless_rejected d
       (sign_and_submit V chain account calls nonce bounds submit proof_facts proof))))))))))))"

section \<open>Declare\<close>

definition class_mismatch :: "felt \<Rightarrow> felt \<Rightarrow> string" where
  "class_mismatch given derived =
     ''class_hash '' @ felt_hex given @ '' does not match the supplied contract_class, which hashes to ''
     @ felt_hex derived @ ''. The node derives the class hash from contract_class and validates the signature against THAT transaction hash, so signing ''
     @ felt_hex given @ '' would be rejected on-chain as an invalid signature. Check the class (the abi string is hashed byte-for-byte; pass the abi as the JSON array to have it serialised the way the compiler hashes it), or omit class_hash to sign the derived one.''"

text \<open>\<open>Some(v) if !v.is_null()\<close>\<close>

definition non_null :: "json \<Rightarrow> string \<Rightarrow> json option" where
  "non_null params k =
     (case json_get params k of Some v \<Rightarrow> if v \<noteq> JNull then Some v else None | None \<Rightarrow> None)"

definition declared_class ::
  "ext \<Rightarrow> (json \<Rightarrow> string) \<Rightarrow> json \<Rightarrow> wallet_rpc_error + (sierra_class option \<times> felt)" where
  "declared_class E scalar params =
     bindE (case non_null params ''contract_class'' of
              Some v \<Rightarrow> bindE (map_err rpc_error_of_core (class_from_json E scalar v)) (\<lambda>c. Ok (Some c))
            | None \<Rightarrow> Ok None) (\<lambda>contract_class.
     bindE (case non_null params ''class_hash'' of
              Some v \<Rightarrow> bindE (felt_from E v ''class_hash'') (\<lambda>f. Ok (Some f))
            | None \<Rightarrow> Ok None) (\<lambda>given_class_hash.
     case (contract_class, given_class_hash) of
       (Some cc, Some given) \<Rightarrow>
         (let derived = class_hash E cc
          in if derived \<noteq> given then Err (InvalidRequest (class_mismatch given derived))
             else Ok (contract_class, derived))
     | (Some cc, None) \<Rightarrow> Ok (contract_class, class_hash E cc)
     | (None, Some given) \<Rightarrow> Ok (contract_class, given)
     | (None, None) \<Rightarrow>
         Err (InvalidRequest (''missing '' @ in_quotes ''class_hash'' @ '' (or pass ''
           @ in_quotes ''contract_class'' @ '' and it is derived)''))))"

definition declare_summary :: "bool \<Rightarrow> felt \<Rightarrow> account_ref \<Rightarrow> chain \<Rightarrow> fee_bounds \<Rightarrow> string" where
  "declare_summary submit ch account chain bounds =
     (if submit then ''Declare'' else ''Sign declaration of'') @ '' class '' @ felt_hex ch @ '' from ''
     @ acc_address account @ '' on '' @ chain_name chain @ ''. Max fee: '' @ bounds_summary bounds"

definition handle_add_declare :: "'pt env \<Rightarrow> paired_client \<Rightarrow> json \<Rightarrow> json act" where
  "handle_add_declare V client params =
     (let E = e_ext V; submit = wants_submit params in
     bnd (lift (param_str params ''account_address'')) (\<lambda>account_address.
     bnd (lift (normalize_address E account_address)) (\<lambda>want.
     bnd (with_session V (\<lambda>se. scoped_account se client want)) (\<lambda>account.
     bnd (lift (stored_address E account)) (\<lambda>sender_addr.
     bnd (lift (declared_class E (e_to_string V) params)) (\<lambda>(contract_class, ch).
     bnd (lift (bindE (ok_or (InvalidRequest (''missing '' @ in_quotes ''compiled_class_hash''))
                  (json_get params ''compiled_class_hash'')) (\<lambda>v. felt_from E v ''compiled_class_hash''))) (\<lambda>cch.
     let cc_json = map_option class_to_rpc_json contract_class in
     bnd (resolve_chain V params) (\<lambda>chain.
     bnd (resolve_nonce V chain sender_addr params) (\<lambda>nonce.
     bnd (lift (opt_fee_bounds params)) (\<lambda>given.
     bnd (case given of
            Some b \<Rightarrow> ret b
          | None \<Rightarrow>
              bnd (node_or V chain) (\<lambda>node.
              bnd (lift (ok_or (InvalidRequest (''to estimate a declare, provide '' @ in_quotes ''contract_class''
                     @ '' (or pass resource_bounds)'')) cc_json)) (\<lambda>cc.
              node_result (estimate_declare node sender_addr cch cc nonce)))) (\<lambda>bounds.
     bnd (gated_approval V client ''wallet_addDeclareTransaction''
            (declare_summary submit ch account chain bounds)) (\<lambda>d.
     unless_rejected d
       (let ps = fee_params nonce bounds []
        in bnd (with_session V (\<lambda>se. sign_declare_for E se account ch cch chain ps)) (\<lambda>signed.
           bnd (emit (SignedDeclare account ch cch chain ps)) (\<lambda>_.
           if submit then
             bnd (node_or V chain) (\<lambda>node.
             bnd (lift (ok_or (InvalidRequest (''submit:true requires '' @ in_quotes ''contract_class'')) cc_json)) (\<lambda>cc.
             bnd (emit (SentDeclare chain sender_addr cch cc (sc_signature signed) nonce bounds)) (\<lambda>_.
             bnd (node_result (add_declare node sender_addr cch cc (sc_signature signed) nonce bounds)) (\<lambda>hash.
             ret (JObj [(''transaction_hash'', JStr (felt_hex hash)), (''class_hash'', JStr (felt_hex ch)),
                        (''submitted'', JBool True)])))))
           else
             ret (JObj [(''transaction_hash'', JStr (felt_hex (sc_transaction_hash signed))),
                        (''class_hash'', JStr (felt_hex ch)),
                        (''signature'', felt_strs (sc_signature signed)),
                        (''signed_transaction'', declare_v3_tx_json sender_addr cch cc_json (sc_signature signed)
                           nonce bounds),
                        (''submitted'', JBool False)]))))))))))))))))"

section \<open>Deploy\<close>

definition deploy_summary :: "bool \<Rightarrow> account_ref \<Rightarrow> chain \<Rightarrow> fee_bounds \<Rightarrow> string" where
  "deploy_summary submit account chain bounds =
     (if submit then ''Deploy'' else ''Sign deployment of'') @ '' account '' @ acc_address account
     @ '' on '' @ chain_name chain @ ''. Max fee: '' @ bounds_summary bounds"

text \<open>Refuse an account that the node already knows, when there is a node.\<close>

definition refuse_deployed :: "'pt env \<Rightarrow> chain \<Rightarrow> account_ref \<Rightarrow> unit act" where
  "refuse_deployed V chain account =
     bnd (node_for V chain) (\<lambda>node.
     case node of
       None \<Rightarrow> ret ()
     | Some node \<Rightarrow>
         bnd (lift (stored_address (e_ext V) account)) (\<lambda>addr.
         bnd (node_result (is_deployed node addr)) (\<lambda>deployed.
         if deployed
         then fail (Precondition (''account '' @ acc_address account @ '' is already deployed on '' @ chain_name chain))
         else ret ())))"

definition handle_deploy_account :: "'pt env \<Rightarrow> paired_client \<Rightarrow> json \<Rightarrow> json act" where
  "handle_deploy_account V client params =
     (let E = e_ext V; submit = wants_submit params in
     bnd (with_session V (\<lambda>se. chosen_account E (opt_param_str params ''account'')
            (InvalidRequest ''no account in scope to deploy'') se client)) (\<lambda>account.
     bnd (resolve_chain V params) (\<lambda>chain.
     bnd (refuse_deployed V chain account) (\<lambda>_.
     bnd (with_session V (\<lambda>se. deployment_data_for E se account)) (\<lambda>d.
     bnd (lift (opt_fee_bounds params)) (\<lambda>given.
     bnd (case given of
            Some b \<Rightarrow> ret b
          | None \<Rightarrow>
              bnd (node_or V chain) (\<lambda>node.
              node_result (estimate_deploy_account node (dd_address d) (dd_class_hash d)
                (dd_constructor_calldata d) (dd_salt d)))) (\<lambda>bounds.
     bnd (gated_approval V client ''companion_deployAccount''
            (deploy_summary submit account chain bounds)) (\<lambda>dec.
     unless_rejected dec
       (let ps = fee_params 0 bounds []
        in bnd (with_session V (\<lambda>se. sign_deploy_account_for E se account chain ps)) (\<lambda>signed.
           bnd (emit (SignedDeploy account chain ps)) (\<lambda>_.
           if submit then
             bnd (node_or V chain) (\<lambda>node.
             bnd (emit (SentDeploy chain (sd_class_hash signed) (sd_constructor_calldata signed) (sd_salt signed)
                    (sd_signature signed) bounds)) (\<lambda>_.
             bnd (node_result (add_deploy_account node (sd_class_hash signed) (sd_constructor_calldata signed)
                    (sd_salt signed) (sd_signature signed) bounds)) (\<lambda>hash.
             ret (JObj [(''transaction_hash'', JStr (felt_hex hash)),
                        (''contract_address'', JStr (acc_address account)), (''submitted'', JBool True)]))))
           else
             ret (JObj [(''transaction_hash'', JStr (felt_hex (sd_transaction_hash signed))),
                        (''contract_address'', JStr (acc_address account)),
                        (''signature'', felt_strs (sd_signature signed)),
                        (''signed_transaction'', JObj
                           [(''type'', JStr ''DEPLOY_ACCOUNT''), (''version'', JStr ''0x3''),
                            (''class_hash'', JStr (felt_hex (sd_class_hash signed))),
                            (''contract_address_salt'', JStr (felt_hex (sd_salt signed))),
                            (''constructor_calldata'', felt_strs (sd_constructor_calldata signed)),
                            (''nonce'', JStr ''0x0'')]),
                        (''submitted'', JBool False)]))))))))))))"

section \<open>Funding\<close>

definition funding_source_index :: "json \<Rightarrow> wallet_rpc_error + u32" where
  "funding_source_index params =
     (case json_get params ''funding_source_index'' of
        None \<Rightarrow> Ok 0
      | Some JNull \<Rightarrow> Ok 0
      | Some v \<Rightarrow> ok_or (InvalidRequest ''bad funding_source_index'')
          (Option.bind (as_u64 v) (\<lambda>n. if unat n < 2 ^ 32 then Some (ucast n) else None)))"

definition transfer_call :: "ext \<Rightarrow> felt \<Rightarrow> felt \<Rightarrow> u128 \<Rightarrow> call" where
  "transfer_call E token recipient amount =
     \<lparr>call_to = token, call_selector = get_selector_from_name E ''transfer'',
      call_calldata = [recipient, felt_of_word amount, 0]\<rparr>"

definition funding_summary ::
  "'pt env \<Rightarrow> paired_client \<Rightarrow> u128 \<Rightarrow> chain \<Rightarrow> u32 \<Rightarrow> account_ref \<Rightarrow> account_ref \<Rightarrow> string" where
  "funding_summary V client amount chain index manager recipient =
     ''Agent '' @ pc_label client @ '' ('' @ pc_id client @ '') requests a top-up of '' @ e_strk V amount
     @ '' STRK ('' @ dec amount @ '' fri) on '' @ chain_name chain @ '' from manager #'' @ dec index @ '' ''
     @ acc_address manager @ '' '' @ utf8_arrow @ '' account '' @ acc_address recipient"

definition require_manager_deployed :: "'pt env \<Rightarrow> chain \<Rightarrow> account_ref \<Rightarrow> felt \<Rightarrow> unit act" where
  "require_manager_deployed V chain manager sender_addr =
     bnd (node_for V chain) (\<lambda>node.
     case node of
       None \<Rightarrow> ret ()
     | Some node \<Rightarrow>
         bnd (node_result (is_deployed node sender_addr)) (\<lambda>deployed.
         if \<not> deployed
         then fail (Precondition (''funding source (manager) account '' @ acc_address manager
                @ '' is not deployed on '' @ chain_name chain @ ''. Deploy and fund it on ''
                @ chain_name chain @ '' first '' @ utf8_dash @ '' it pays the transfer fee.''))
         else ret ()))"

definition annotate_funding :: "account_ref \<Rightarrow> u128 \<Rightarrow> string \<Rightarrow> json \<Rightarrow> json" where
  "annotate_funding recipient amount token_str result =
     (case result of
        JObj ms \<Rightarrow> JObj (obj_insert ''token'' (JStr token_str) (obj_insert ''amount'' (JStr (dec amount))
                   (obj_insert ''recipient'' (JStr (acc_address recipient)) ms)))
      | other \<Rightarrow> other)"

definition handle_request_funding :: "'pt env \<Rightarrow> paired_client \<Rightarrow> json \<Rightarrow> json act" where
  "handle_request_funding V client params =
     (let E = e_ext V; submit = wants_submit params in
     if pc_kind client \<noteq> AgentClient then fail Forbidden
     else
     bnd (lift (parse_u128_field params ''amount'')) (\<lambda>amount.
     if amount = 0 then fail (InvalidRequest ''amount must be > 0'')
     else
     (let token_str = (case opt_param_str params ''token'' of Some s \<Rightarrow> s | None \<Rightarrow> STRK_TOKEN_ADDRESS) in
     bnd (lift (ok_or (InvalidRequest ''bad token address'') (felt_from_hex E token_str))) (\<lambda>token.
     bnd (lift (funding_source_index params)) (\<lambda>index.
     bnd (with_session V (\<lambda>se. chosen_account E (opt_param_str params ''recipient'')
            (InvalidRequest ''no account to fund (create one with companion_createAgentAccount, or pass a recipient you own)'')
            se client)) (\<lambda>recipient_acct.
     bnd (lift (stored_address E recipient_acct)) (\<lambda>recipient.
     bnd (with_session V (\<lambda>se. manager_account E se index)) (\<lambda>manager.
     bnd (lift (ok_or (Unknown ''bad manager address'') (felt_from_hex E (acc_address manager)))) (\<lambda>manager_sender.
     let calls = [transfer_call E token recipient amount] in
     bnd (resolve_chain V params) (\<lambda>chain.
     bnd (require_manager_deployed V chain manager manager_sender) (\<lambda>_.
     bnd (resolve_exec V chain manager_sender (encode_calls calls) params None) (\<lambda>(nonce, bounds).
     bnd (request_approval V \<lparr>ap_client_label = client_label client, ap_method = ''companion_requestFunding'',
            ap_summary = funding_summary V client amount chain index manager recipient_acct\<rparr>) (\<lambda>d.
     unless_rejected d
       (bnd (sign_and_submit V chain manager calls nonce bounds submit [] None) (\<lambda>result.
        ret (annotate_funding recipient_acct amount token_str result))))))))))))))))"

section \<open>Signing for the prover\<close>

definition no_prover :: string where
  "no_prover = ''on-device proving is not available on this service''"

definition prover_or_err :: "'pt env \<Rightarrow> prover_state act" where
  "prover_or_err V = bnd (reads V sv_prover) (\<lambda>p. lift (ok_or (NotImplemented no_prover) p))"

text \<open>\<open>prover::enqueue_prove\<close> on the server's prover, which is fixed when the server is built.\<close>

definition enqueue_job :: "'pt env \<Rightarrow> json \<Rightarrow> string option \<Rightarrow> string \<Rightarrow> string act" where
  "enqueue_job V payload label network =
     bnd (now_unix_ms V) (\<lambda>now_ms.
     bnd (locked V (\<lambda>sv. case sv_prover sv of
            None \<Rightarrow> (None, sv)
          | Some p \<Rightarrow> (let (jid, p') = enqueue_prove (unat now_ms) label p in (Some jid, sv\<lparr>sv_prover := Some p'\<rparr>)))) (\<lambda>r.
     bnd (lift (ok_or (NotImplemented no_prover) r)) (\<lambda>jid.
     bnd (emit (ProveQueued jid payload network)) (\<lambda>_. ret jid))))"

definition explicit_bounds :: string where
  "explicit_bounds = ''companion_signAndProve requires explicit resource_bounds: the virtual tx carries private calldata, so it must NOT be fee-estimated online (that would send the private inputs to the RPC node). Set resource_bounds manually (~2''
     @ utf8_times @ '' current gas prices).''"

definition prove_summary :: "call list \<Rightarrow> account_ref \<Rightarrow> chain \<Rightarrow> fee_bounds \<Rightarrow> string" where
  "prove_summary calls account chain bounds =
     ''Sign + locally prove '' @ nat_dec (length calls) @ '' virtual call(s) from '' @ acc_address account
     @ '' on '' @ chain_name chain @ '' (SNIP-36; the signed tx is proven on-device, never broadcast). ''
     @ summarize_calls calls @ ''. Max fee: '' @ bounds_summary bounds"

definition prove_payload :: "json \<Rightarrow> json \<Rightarrow> json" where
  "prove_payload tx params =
     (case get_u64 params ''block_number'' of
        Some bn \<Rightarrow> JObj (obj_insert ''block_number'' (json_u64 bn) [(''transaction'', tx)])
      | None \<Rightarrow> JObj [(''transaction'', tx)])"

definition handle_sign_and_prove :: "'pt env \<Rightarrow> paired_client \<Rightarrow> json \<Rightarrow> json act" where
  "handle_sign_and_prove V client params =
     (let E = e_ext V in
     bnd (prover_or_err V) (\<lambda>_.
     bnd (lift (param_str params ''account_address'')) (\<lambda>account_address.
     bnd (lift (normalize_address E account_address)) (\<lambda>want.
     bnd (lift (parse_calls E params)) (\<lambda>calls.
     bnd (resolve_chain V params) (\<lambda>chain.
     bnd (with_session V (\<lambda>se. scoped_account se client want)) (\<lambda>account.
     bnd (lift (stored_address E account)) (\<lambda>sender_addr.
     bnd (resolve_nonce V chain sender_addr params) (\<lambda>nonce.
     bnd (lift (bindE (opt_fee_bounds params) (ok_or (InvalidRequest explicit_bounds)))) (\<lambda>bounds.
     bnd (gated_approval V client ''companion_signAndProve'' (prove_summary calls account chain bounds)) (\<lambda>d.
     unless_rejected d
       (let ps = fee_params nonce bounds []
        in bnd (with_session V (\<lambda>se. sign_invoke_for E se account calls chain ps)) (\<lambda>signed.
           bnd (emit (SignedInvoke account calls chain ps)) (\<lambda>_.
           bnd (enqueue_job V (prove_payload (invoke_v3_tx_json sender_addr (si_calldata signed)
                  (si_signature signed) nonce bounds [] None) params)
                (opt_param_str params ''label'') (prover_network chain)) (\<lambda>jid.
           ret (JObj [(''job_id'', JStr jid), (''status'', JStr ''queued''),
                      (''transaction_hash'', JStr (felt_hex (si_transaction_hash signed))),
                      (''next'', JStr ''poll companion_proveStatus { job_id }; on success take result.proof / result.proof_facts / result.l2_to_l1_messages, build the verifier invoke from the message, and broadcast it via wallet_addInvokeTransaction { proof_facts, proof, submit:true }'')]))))))))))))))))"

end
