(* ===== verification/Rpc_Companion.thy ===== *)
theory Rpc_Companion
  imports Rpc_Handlers
begin

text \<open>
  The handlers of \<open>crates/wallet-rpc/src/dispatch.rs\<close> that do not sign: reading addresses and
  hashes, the issue link, proving jobs, grants, switching the network, watching tokens, creating an
  agent account and pairing. \<open>create_and_persist\<close> is the part of account creation that runs under the
  session lock, with the write of the vault file and the rollback.
\<close>

section \<open>Reading\<close>

definition handle_deployment_data :: "'pt env \<Rightarrow> paired_client \<Rightarrow> json act" where
  "handle_deployment_data V client =
     bnd (with_session V (\<lambda>se. bindE (session_registry se) (\<lambda>reg.
       ok_or DeploymentDataNotAvailable
         (case scoped_for reg (scope_for client) of [] \<Rightarrow> None | a # _ \<Rightarrow> Some a)))) (\<lambda>account.
     bnd (with_session V (\<lambda>se. deployment_data_for (e_ext V) se account)) (\<lambda>d.
     ret (JObj [(''address'', JStr (address_hex (dd_address d))),
                (''class_hash'', JStr (felt_hex (dd_class_hash d))),
                (''salt'', JStr (felt_hex (dd_salt d))),
                (''constructor_calldata'', felt_strs (dd_constructor_calldata d))])))"

definition handle_accounts :: "'pt env \<Rightarrow> paired_client \<Rightarrow> bool \<Rightarrow> json act" where
  "handle_accounts V client detailed =
     bnd (with_session V session_registry) (\<lambda>reg.
     ret (JArr (map (\<lambda>a. if detailed then account_to_json a else JStr (acc_address a))
       (scoped_for reg (scope_for client)))))"

definition handle_typed_data_hash :: "'pt env \<Rightarrow> json \<Rightarrow> wallet_rpc_error + json" where
  "handle_typed_data_hash V params =
     bindE (param_str params ''account_address'') (\<lambda>account_address.
     bindE (ok_or (InvalidRequest (''invalid '' @ in_quotes ''account_address''))
       (felt_from_hex (e_ext V) account_address)) (\<lambda>account.
     bindE (typed_data_of (e_to_string V) params) (\<lambda>typed_data_json.
     bindE (map_err rpc_error_of_core (typed_data_message_hash (e_ext V) typed_data_json account)) (\<lambda>hash.
     Ok (JObj [(''hash'', JStr (felt_hex hash)), (''revision'', JStr ''1'')])))))"

definition handle_funding_source :: "'pt env \<Rightarrow> json act" where
  "handle_funding_source V =
     bnd (with_session V (\<lambda>se. manager_account (e_ext V) se 0)) (\<lambda>manager.
     ret (JObj [(''address'', JStr (acc_address manager)), (''index'', json_u64 0)]))"

definition handle_estimate_fee :: "'pt env \<Rightarrow> paired_client \<Rightarrow> json \<Rightarrow> json act" where
  "handle_estimate_fee V client params =
     (let E = e_ext V in
     bnd (lift (param_str params ''account_address'')) (\<lambda>account_address.
     bnd (lift (normalize_address E account_address)) (\<lambda>want.
     bnd (lift (parse_calls E params)) (\<lambda>calls.
     bnd (with_session V (\<lambda>se. scoped_account se client want)) (\<lambda>account.
     bnd (lift (stored_address E account)) (\<lambda>sender_addr.
     bnd (resolve_chain V params) (\<lambda>chain.
     bnd (node_or V chain) (\<lambda>node.
     bnd (lift (opt_nonce E params)) (\<lambda>given.
     bnd (case given of Some n \<Rightarrow> ret n | None \<Rightarrow> node_result (get_nonce node sender_addr)) (\<lambda>nonce.
     bnd (emit (Simulated chain sender_addr (encode_calls calls))) (\<lambda>_.
     bnd (node_result (estimate_invoke node sender_addr (encode_calls calls) nonce)) (\<lambda>bounds.
     ret (JObj [(''nonce'', JStr (felt_hex nonce)), (''resource_bounds'', bounds_json bounds)])))))))))))))"

section \<open>The issue link\<close>

definition issue_fields :: "(string \<times> string) list" where
  "issue_fields =
     [(''Attempted'', ''attempted''), (''Observed'', ''observed''), (''Limitation'', ''limitation''),
      (''Impact'', ''impact''), (''Workaround avoided'', ''workaround_avoided''), (''Context'', ''context'')]"

definition issue_body :: "paired_client \<Rightarrow> json \<Rightarrow> string \<Rightarrow> string \<Rightarrow> string" where
  "issue_body client params goal needed =
     foldl (\<lambda>body (label, k). case opt_param_str params k of
              Some v \<Rightarrow> push_field body label v | None \<Rightarrow> body)
       (push_field (push_field [] ''Goal'' goal) ''Needed'' needed) issue_fields
     @ ''---'' @ [CHR 0x0A] @ ''_Filed via strkd `companion_reportIssue` by **'' @ pc_label client @ ''** (''
     @ pc_id client @ ''). strkd is alpha '' @ utf8_dash
     @ '' review and edit before submitting, and remove anything sensitive._''"

definition issue_url :: "string \<Rightarrow> string \<Rightarrow> string \<Rightarrow> string" where
  "issue_url repo title body =
     ''https://github.com/'' @ repo @ ''/issues/new?title='' @ encode_query title @ ''&body='' @ encode_query body"

definition handle_report_issue :: "'pt env \<Rightarrow> paired_client \<Rightarrow> json \<Rightarrow> json act" where
  "handle_report_issue V client params =
     bnd (lift (param_str params ''goal'')) (\<lambda>goal.
     bnd (lift (param_str params ''needed'')) (\<lambda>needed.
     if trim goal = [] \<or> trim needed = []
     then fail (InvalidRequest ''`goal` and `needed` must be non-empty'')
     else
     bnd (reads V sv_issue_repo) (\<lambda>repo.
     (let raw_title = (case opt_param_str params ''title'' of Some t \<Rightarrow> t | None \<Rightarrow> goal);
          title = ''[agent-feedback] '' @ truncate_chars (trim raw_title) 120;
          body = truncate_chars (issue_body client params goal needed) 5000
      in ret (JObj
        [(''url'', JStr (issue_url repo title body)), (''title'', JStr title), (''body'', JStr body),
         (''repo'', JStr repo), (''filed'', JBool False),
         (''instructions'', JStr ''Give this `url` to your operator. Opening it loads a prefilled GitHub issue draft; they review, edit, and submit it in their browser. strkd does not file it for you, and stores no GitHub credential.'')])))))"

section \<open>Proving jobs\<close>

fun job_status_name :: "job_status \<Rightarrow> string" where
  "job_status_name Queued = ''queued''"
| "job_status_name Proving = ''proving''"
| "job_status_name Succeeded = ''succeeded''"
| "job_status_name Failed = ''failed''"

text \<open>A number that fits no JSON integer makes \<open>json!\<close> panic.\<close>

definition json_millis :: "nat \<Rightarrow> json option" where
  "json_millis n = (if n < 2 ^ 64 then Some (json_u64 (word_of_nat n)) else None)"

definition optional :: "string \<Rightarrow> json option \<Rightarrow> (string \<times> json) list" where
  "optional k v = (case v of None \<Rightarrow> [] | Some x \<Rightarrow> [(k, x)])"

definition job_to_json :: "job \<Rightarrow> json option" where
  "job_to_json j =
     map_option (\<lambda>ms. JObj ([(''job_id'', JStr (j_job_id j)), (''status'', JStr (job_status_name (j_status j))),
         (''started_at_ms'', ms)]
       @ optional ''label'' (map_option JStr (j_label j)) @ optional ''result'' (j_result j)
       @ optional ''error'' (map_option JStr (j_error j)))) (json_millis (j_started_at_ms j))"

definition activity_to_json :: "activity \<Rightarrow> json option" where
  "activity_to_json a =
     map_option (\<lambda>ms. JObj ([(''seq'', json_u64 (word_of_nat (av_seq a))), (''job_id'', JStr (av_job_id a)),
         (''status'', JStr (job_status_name (av_status a))), (''started_at_ms'', ms)]
       @ optional ''label'' (map_option JStr (av_label a)))) (json_millis (av_started_at_ms a))"

definition or_crash :: "'a option \<Rightarrow> 'a act" where
  "or_crash v = (case v of None \<Rightarrow> crash ''number out of range'' | Some x \<Rightarrow> ret x)"

definition handle_prove :: "'pt env \<Rightarrow> json \<Rightarrow> json act" where
  "handle_prove V params =
     bnd (prover_or_err V) (\<lambda>_.
     (let network = (case opt_param_str params ''network'' of Some n \<Rightarrow> n | None \<Rightarrow> ''mainnet'');
          payload = (case json_get params ''payload'' of Some p \<Rightarrow> p | None \<Rightarrow> params)
      in bnd (enqueue_job V payload (opt_param_str params ''label'') network) (\<lambda>jid.
         ret (JObj [(''job_id'', JStr jid), (''status'', JStr ''queued''),
                    (''next'', JStr (''poll companion_proveStatus { job_id } until status is ''
                       @ in_dquotes ''succeeded'' @ '' or '' @ in_dquotes ''failed''))]))))"

definition handle_prove_status :: "'pt env \<Rightarrow> json \<Rightarrow> json act" where
  "handle_prove_status V params =
     bnd (prover_or_err V) (\<lambda>_.
     bnd (lift (param_str params ''job_id'')) (\<lambda>job_id.
     bnd (prover_or_err V) (\<lambda>prover.
     case jobs_get job_id (pv_jobs prover) of
       Some j \<Rightarrow> or_crash (job_to_json j)
     | None \<Rightarrow> fail (InvalidRequest (''unknown job '' @ in_quotes job_id)))))"

definition handle_proof_activity :: "'pt env \<Rightarrow> json act" where
  "handle_proof_activity V =
     bnd (prover_or_err V) (\<lambda>prover.
     bnd (or_crash (those (map activity_to_json (recent_activity (pv_jobs prover))))) (\<lambda>items.
     ret (JObj [(''activity'', JArr items)])))"

section \<open>Changes that are always prompted\<close>

definition ask_client :: "'pt env \<Rightarrow> paired_client \<Rightarrow> string \<Rightarrow> string \<Rightarrow> decision act" where
  "ask_client V client m summary =
     request_approval V \<lparr>ap_client_label = client_label client, ap_method = m, ap_summary = summary\<rparr>"

definition grant_days :: "json \<Rightarrow> u64" where
  "grant_days params =
     (let days = (case get_u64 params ''days'' of Some d \<Rightarrow> d | None \<Rightarrow> 30) in max 1 (min 90 days))"

definition grant_summary :: "paired_client \<Rightarrow> u64 \<Rightarrow> string" where
  "grant_summary client days =
     ''Agent '' @ pc_label client @ '' ('' @ pc_id client @ '') requests auto-approval for '' @ dec days
     @ '' day(s) '' @ utf8_dash
     @ '' its own-account operations would skip prompts (funding still always prompts). Approve?''"

text \<open>The result of \<open>grant\<close> is ignored.\<close>

definition handle_request_grant :: "'pt env \<Rightarrow> paired_client \<Rightarrow> json \<Rightarrow> json act" where
  "handle_request_grant V client params =
     (let days = grant_days params in
     bnd (ask_client V client ''companion_requestGrant'' (grant_summary client days)) (\<lambda>d.
     unless_rejected d
       (bnd (now_unix_ms V) (\<lambda>now_ms.
        bnd (checked_add now_ms (days * 24 * 60 * 60 * 1000)) (\<lambda>until.
        bnd (locked V (\<lambda>sv. let (granted, cs) = grant (pc_id client) until (sv_clients sv)
                            in (granted, sv\<lparr>sv_clients := cs\<rparr>))) (\<lambda>granted.
        bnd (if granted then emit (GrantGiven (pc_id client) until) else ret ()) (\<lambda>_.
        ret (JObj [(''granted'', JBool True), (''expires_at'', json_u64 until), (''days'', json_u64 days)]))))))))"

definition handle_switch_chain :: "'pt env \<Rightarrow> paired_client \<Rightarrow> json \<Rightarrow> json act" where
  "handle_switch_chain V client params =
     (let E = e_ext V in
     bnd (lift (param_str params ''chainId'')) (\<lambda>chain_id_str.
     bnd (lift (ok_or (InvalidRequest ''invalid chainId'') (felt_from_hex E chain_id_str))) (\<lambda>f.
     bnd (lift (ok_or ChainIdNotSupported (chain_from_felt E f))) (\<lambda>target.
     bnd (ask_client V client ''wallet_switchStarknetChain'' (''Switch the wallet network to '' @ chain_name target)) (\<lambda>d.
     unless_rejected d
       (bnd (writes V (\<lambda>sv. sv\<lparr>sv_session := set_chain (sv_session sv) target\<rparr>)) (\<lambda>_.
        bnd (emit (ChainSwitched target)) (\<lambda>_.
        ret (JBool True)))))))))"

definition watched_asset :: "json \<Rightarrow> json" where
  "watched_asset params =
     (case or_else (json_get params ''asset'') (json_get params ''options'') of Some a \<Rightarrow> a | None \<Rightarrow> params)"

definition watch_summary :: "string \<Rightarrow> string \<Rightarrow> string" where
  "watch_summary symbol address = ''Watch token '' @ symbol @ '' at '' @ address"

definition handle_watch_asset :: "'pt env \<Rightarrow> paired_client \<Rightarrow> json \<Rightarrow> json act" where
  "handle_watch_asset V client params =
     (let asset = watched_asset params in
     bnd (lift (ok_or (InvalidRequest (''asset missing '' @ in_quotes ''address'')) (get_str asset ''address''))) (\<lambda>address.
     let symbol = (case get_str asset ''symbol'' of Some s \<Rightarrow> s | None \<Rightarrow> ''token'') in
     bnd (ask_client V client ''wallet_watchAsset'' (watch_summary symbol address)) (\<lambda>d.
     unless_rejected d
       (bnd (writes V (add_watched_asset asset)) (\<lambda>_.
        bnd (emit (AssetWatched asset)) (\<lambda>_.
        ret (JBool True)))))))"

section \<open>Creating an agent account\<close>

definition persist_session ::
  "'pt env \<Rightarrow> bytes option \<Rightarrow> bytes option \<Rightarrow> write_outcome \<Rightarrow> wallet_session \<Rightarrow> vault_file
     \<Rightarrow> (wallet_rpc_error + unit) \<times> vault_file" where
  "persist_session V salt nonce out se file =
     (case reseal (e_ext V) (e_codec V) salt nonce se of
        Inl e \<Rightarrow> (Err e, file)
      | Inr vault \<Rightarrow>
          (let (r, file') = vault_save (e_format V) out vault file
           in (map_err (\<lambda>_. Unknown ''failed to persist vault'') r, file')))"

definition create_and_persist ::
  "'pt env \<Rightarrow> bytes option \<Rightarrow> bytes option \<Rightarrow> write_outcome \<Rightarrow> string \<Rightarrow> string \<Rightarrow> server
     \<Rightarrow> (wallet_rpc_error + account_ref) \<times> server" where
  "create_and_persist V salt nonce out client_id label sv =
     (case create_agent_account (e_ext V) (sv_session sv) client_id label of
        (Inl e, se) \<Rightarrow> (Err e, sv\<lparr>sv_session := se\<rparr>)
      | (Inr account, se) \<Rightarrow>
          (case sv_vault_store sv of
             None \<Rightarrow> (Ok account, sv\<lparr>sv_session := se\<rparr>)
           | Some file \<Rightarrow>
               (case persist_session V salt nonce out se file of
                  (Inl e, file') \<Rightarrow>
                    (Err e, sv\<lparr>sv_session := rollback_account se (acc_address account),
                               sv_vault_store := Some file'\<rparr>)
                | (Inr _, file') \<Rightarrow>
                    (Ok account, sv\<lparr>sv_session := se, sv_vault_store := Some file'\<rparr>))))"

definition create_summary :: "string \<Rightarrow> string" where
  "create_summary label = ''Create a new agent account labelled '' @ in_dquotes label"

definition handle_create_agent_account :: "'pt env \<Rightarrow> paired_client \<Rightarrow> json \<Rightarrow> json act" where
  "handle_create_agent_account V client params =
     (if pc_kind client \<noteq> AgentClient then fail Forbidden
      else
      (let label = (case opt_param_str params ''label'' of Some l \<Rightarrow> l | None \<Rightarrow> pc_label client) in
      bnd (gated_approval V client ''companion_createAgentAccount'' (create_summary label)) (\<lambda>d.
      unless_rejected d
        (bnd (at_step (e_seal_draw V SALT_LEN)) (\<lambda>salt.
         bnd (at_step (e_seal_draw V NONCE_LEN)) (\<lambda>nonce.
         bnd (at_step (e_write V)) (\<lambda>out.
         bnd (locked V (create_and_persist V salt nonce out (pc_id client) label)) (\<lambda>r.
         bnd (lift r) (\<lambda>account.
         bnd (emit (AccountCreated account)) (\<lambda>_.
         ret (account_to_json account)))))))))))"

section \<open>Facts\<close>

text \<open>Whatever repository is configured, and whatever the caller writes, the link leads to a new issue of one repository.\<close>

lemma issue_repo_valid: "is_valid_repo_slug (sv_issue_repo (with_issue_repo given (server_with_log t session log)))"
proof -
  have "is_valid_repo_slug DEFAULT_ISSUE_REPO" by code_simp
  then show ?thesis by (simp add: with_issue_repo_def server_with_log_def)
qed

lemma issue_url_parts:
  assumes "is_valid_repo_slug repo"
  shows "\<exists>owner name t b. issue_url repo title body
      = ''https://github.com/'' @ owner @ ''/'' @ name @ ''/issues/new?title='' @ t @ ''&body='' @ b
    \<and> owner \<noteq> [] \<and> name \<noteq> [] \<and> list_all unreserved (owner @ name)
    \<and> list_all (\<lambda>c. unreserved c \<or> c = CHR ''%'') (t @ b)
    \<and> decode_query t = Some title \<and> decode_query b = Some body"
proof -
  obtain owner name where s: "repo = owner @ [CHR ''/''] @ name" "owner \<noteq> []" "name \<noteq> []"
    and ok: "list_all (\<lambda>b. unreserved b \<and> b \<noteq> CHR ''~'') (owner @ name)"
    using assms by (rule valid_repo_slug)
  have "list_all unreserved (owner @ name)" using ok by (auto simp: list_all_iff)
  moreover have "list_all (\<lambda>c. unreserved c \<or> c = CHR ''%'') (encode_query title @ encode_query body)"
    by (auto simp: list_all_iff dest: encode_query_chars)
  ultimately show ?thesis using s
    by (intro exI [of _ owner] exI [of _ name] exI [of _ "encode_query title"] exI [of _ "encode_query body"])
      (simp add: issue_url_def decode_encode_query)
qed

end
