(* ===== verification/Rpc_Strk20_Remote.thy ===== *)
theory Rpc_Strk20_Remote
  imports Rpc_Params
begin

text \<open>
  \<open>crates/wallet-rpc/src/strk20/remote.rs\<close> and \<open>paymaster.rs\<close>: proving a deposit on a screening prover,
  and the AVNU relay. An HTTP exchange is one step of the environment and is recorded in the trace.
  The polling of Starkscan's relay has no bound in the code: \<open>fuel\<close> is the number of polls until the
  caller stops waiting, after which the action does not return (\<open>Crash\<close>).
\<close>

section \<open>Where a deposit is proved\<close>

definition BRAMBLE_PROVER_URL :: string where
  "BRAMBLE_PROVER_URL = ''https://wallet.nodes.starknet.org/api/strk20/prover''"

definition STARKSCAN_API :: string where
  "STARKSCAN_API = ''https://api.starkscan.co''"

datatype deposit_prover = JsonRpcProver (dp_url: string) (dp_label: string) | StarkscanProver string

definition resolve_deposit_prover :: "strk20_config \<Rightarrow> chain \<Rightarrow> string + deposit_prover" where
  "resolve_deposit_prover cfg chain =
     (if trim (sk_deposit_prover_url cfg) \<noteq> []
      then Ok (JsonRpcProver (trim (sk_deposit_prover_url cfg)) ''your deposit prover'')
      else case chain of
             Mainnet \<Rightarrow>
               if trim (sk_starkscan_api_key cfg) \<noteq> []
               then Ok (StarkscanProver (trim (sk_starkscan_api_key cfg)))
               else Ok (JsonRpcProver BRAMBLE_PROVER_URL ''the bramble gateway'')
           | Sepolia \<Rightarrow> Err (''deposits on Sepolia need a screening prover: set a deposit prover URL in Settings ''
               @ utf8_arrow @ '' STRK20 (Starkscan and the bramble gateway are mainnet-only)''))"

fun describe_prover :: "deposit_prover \<Rightarrow> string" where
  "describe_prover (JsonRpcProver _ label) = label"
| "describe_prover (StarkscanProver _) = ''Starkscan'' @ [CHR 0x27] @ ''s STRK20 prover''"

datatype remote_error =
    ScreeningRejected string
  | Unavailable string
  | DeliveryUnknown string
  | RemoteOther string

fun remote_error_string :: "remote_error \<Rightarrow> string" where
  "remote_error_string (ScreeningRejected m) = ''deposit screening rejected the depositor: '' @ m"
| "remote_error_string (Unavailable m) = ''deposit prover unavailable, try again later: '' @ m"
| "remote_error_string (DeliveryUnknown m) =
     ''the deposit prover'' @ [CHR 0x27] @ ''s result was lost; do not resubmit before checking: '' @ m"
| "remote_error_string (RemoteOther m) = ''deposit prover error: '' @ m"

fun as_i64 :: "json \<Rightarrow> int option" where
  "as_i64 (JNum (PosInt n)) = (if unat n < 2 ^ 63 then Some (int (unat n)) else None)"
| "as_i64 (JNum (NegInt i)) = Some i"
| "as_i64 _ = None"

definition classify_rpc_error :: "(json \<Rightarrow> string) \<Rightarrow> json \<Rightarrow> remote_error" where
  "classify_rpc_error print err =
     (let code = Option.bind (json_get err ''code'') as_i64;
          data = (case get_str err ''data'' of Some d \<Rightarrow> d | None \<Rightarrow> [])
      in if code = Some 10000 \<and> data = ''address_blocked'' then ScreeningRejected ''address_blocked''
         else if code = Some 10000 \<and> (data = ''screening_unavailable'' \<or> data = ''screening_policy_unavailable'')
         then Unavailable data
         else if code = Some (- 32005) then Unavailable (print err)
         else RemoteOther (print err))"

section \<open>The exchanges\<close>

definition http_send :: "'pt env \<Rightarrow> http_request \<Rightarrow> http_reply act" where
  "http_send V req = bnd (emit (HttpSent req)) (\<lambda>_. at_step (\<lambda>n. e_http V n req))"

definition post_json :: "string \<Rightarrow> (string \<times> string) list \<Rightarrow> json \<Rightarrow> http_request" where
  "post_json url headers body = \<lparr>hr_url = url, hr_headers = headers, hr_body = Some body\<rparr>"

definition block_json :: "u64 \<Rightarrow> json" where
  "block_json n = JObj [(''block_number'', json_u64 n)]"

definition rpc_body :: "string \<Rightarrow> json \<Rightarrow> json" where
  "rpc_body m params =
     JObj [(''jsonrpc'', JStr ''2.0''), (''id'', json_u64 1), (''method'', JStr m), (''params'', params)]"

definition prove_json_rpc ::
  "'pt env \<Rightarrow> string \<Rightarrow> u64 \<Rightarrow> json \<Rightarrow> (remote_error + json) act" where
  "prove_json_rpc V url block_number tx =
     bnd (http_send V (post_json url [] (rpc_body ''starknet_proveTransaction''
            (JObj [(''block_id'', block_json block_number), (''transaction'', tx)])))) (\<lambda>reply.
     ret (case reply of
            NoAnswer e \<Rightarrow> Err (Unavailable e)
          | Answer status body \<Rightarrow>
              if status = 503 \<or> status = 429 then Err (Unavailable (''HTTP '' @ e_status V status))
              else case body of
                Inl e \<Rightarrow> Err (RemoteOther (''HTTP '' @ e_status V status @ '': '' @ e))
              | Inr v \<Rightarrow>
                  (case json_get v ''error'' of
                     Some err \<Rightarrow> Err (classify_rpc_error (e_to_string V) err)
                   | None \<Rightarrow> ok_or (RemoteOther ''no result'') (json_get v ''result''))))"

fun chain_slug :: "chain \<Rightarrow> string" where
  "chain_slug Mainnet = ''SN_MAIN''"
| "chain_slug Sepolia = ''SN_SEPOLIA''"

definition trim_end_slash :: "string \<Rightarrow> string" where
  "trim_end_slash s = rev (dropWhile (\<lambda>c. c = CHR ''/'') (rev s))"

definition is_success :: "nat \<Rightarrow> bool" where
  "is_success status \<longleftrightarrow> 200 \<le> status \<and> status < 300"

definition starkscan_http_error :: "'pt env \<Rightarrow> nat \<Rightarrow> json \<Rightarrow> remote_error" where
  "starkscan_http_error V status body =
     (let what = e_to_string V (case json_get body ''error'' of Some e \<Rightarrow> e | None \<Rightarrow> body)
      in if status = 401 then RemoteOther (''Starkscan rejected the API key ('' @ what @ '')'')
         else if status = 403 then RemoteOther (''the Starkscan API key lacks the `prove` scope ('' @ what @ '')'')
         else if status = 404
         then Unavailable (''Starkscan'' @ [CHR 0x27] @ ''s STRK20 relay is not enabled ('' @ what @ '')'')
         else if status = 429 \<or> status = 503 then Unavailable (''HTTP '' @ e_status V status @ '': '' @ what)
         else RemoteOther (''HTTP '' @ e_status V status @ '': '' @ what))"

text \<open>\<open>resp.json().unwrap_or(Null)\<close>\<close>

definition body_or_null :: "string + json \<Rightarrow> json" where
  "body_or_null b = (case b of Inl _ \<Rightarrow> JNull | Inr v \<Rightarrow> v)"

text \<open>The polling loop: \<open>None\<close> when the job asks to be submitted again. The pauses are not modelled.\<close>

fun starkscan_poll ::
  "'pt env \<Rightarrow> nat \<Rightarrow> string \<Rightarrow> string \<Rightarrow> string \<Rightarrow> (remote_error + json) option act" where
  "starkscan_poll V 0 root api_key job_id = crash ''the prover never answered''"
| "starkscan_poll V (Suc fuel) root api_key job_id =
     bnd (http_send V \<lparr>hr_url = root @ ''/'' @ job_id, hr_headers = [(''X-Starkscan-Api-Key'', api_key)],
            hr_body = None\<rparr>) (\<lambda>reply.
     case reply of
       NoAnswer e \<Rightarrow> ret (Some (Err (Unavailable e)))
     | Answer status body \<Rightarrow>
         (let v = body_or_null body in
          if \<not> is_success status then ret (Some (Err (starkscan_http_error V status v)))
          else case get_str v ''status'' of
            Some st \<Rightarrow>
              if st = ''succeeded'' then
                ret (Some (ok_or (DeliveryUnknown (''job '' @ job_id @ '' succeeded but carried no result (''
                  @ e_to_string V (case json_get v ''resultUnavailableReason'' of Some r \<Rightarrow> r | None \<Rightarrow> JNull) @ '')''))
                  (json_get v ''result'')))
              else if st = ''failed'' then
                ret (Some (Err (classify_rpc_error (e_to_string V)
                  (case json_get v ''error'' of Some e \<Rightarrow> e | None \<Rightarrow> JNull))))
              else if st = ''unavailable'' then ret None
              else if st = ''unknown_delivery'' then
                ret (Some (Err (DeliveryUnknown (''job '' @ job_id @ '': prover_delivery_unknown''))))
              else starkscan_poll V fuel root api_key job_id
          | None \<Rightarrow> starkscan_poll V fuel root api_key job_id))"

fun starkscan_submit ::
  "'pt env \<Rightarrow> nat \<Rightarrow> nat \<Rightarrow> string \<Rightarrow> string \<Rightarrow> string \<Rightarrow> json \<Rightarrow> (remote_error + json) act" where
  "starkscan_submit V fuel 0 root api_key idempotency_key body =
     ret (Err (Unavailable ''Starkscan kept reporting the prover unavailable''))"
| "starkscan_submit V fuel (Suc n) root api_key idempotency_key body =
     bnd (http_send V (post_json root
            [(''X-Starkscan-Api-Key'', api_key), (''Idempotency-Key'', idempotency_key)] body)) (\<lambda>reply.
     case reply of
       NoAnswer e \<Rightarrow> ret (Err (Unavailable e))
     | Answer status b \<Rightarrow>
         (let v = body_or_null b in
          if \<not> is_success status then ret (Err (starkscan_http_error V status v))
          else case get_str v ''jobId'' of
            None \<Rightarrow> ret (Err (RemoteOther (''no jobId in '' @ e_to_string V v)))
          | Some job_id \<Rightarrow>
              bnd (starkscan_poll V fuel root api_key job_id) (\<lambda>r.
              case r of
                Some answer \<Rightarrow> ret answer
              | None \<Rightarrow> starkscan_submit V fuel n root api_key idempotency_key body)))"

definition prove_starkscan ::
  "'pt env \<Rightarrow> nat \<Rightarrow> string \<Rightarrow> string \<Rightarrow> chain \<Rightarrow> u64 \<Rightarrow> json \<Rightarrow> (remote_error + json) act" where
  "prove_starkscan V fuel base api_key chain block_number tx =
     (if chain \<noteq> Mainnet
      then ret (Err (RemoteOther (''Starkscan'' @ [CHR 0x27] @ ''s STRK20 prover is mainnet-only'')))
      else
        bnd (at_step (e_draw V 16)) (\<lambda>draw.
        starkscan_submit V fuel 5 (trim_end_slash base @ ''/v1/'' @ chain_slug chain @ ''/prove'') api_key
          (hex_encode draw) (JObj [(''block_id'', block_json block_number), (''transaction'', tx)])))"

definition remote_prove ::
  "'pt env \<Rightarrow> nat \<Rightarrow> deposit_prover \<Rightarrow> chain \<Rightarrow> u64 \<Rightarrow> json \<Rightarrow> (remote_error + json) act" where
  "remote_prove V fuel prover chain block_number tx =
     (case prover of
        JsonRpcProver url _ \<Rightarrow> prove_json_rpc V url block_number tx
      | StarkscanProver api_key \<Rightarrow> prove_starkscan V fuel STARKSCAN_API api_key chain block_number tx)"

section \<open>A prover's result\<close>

record proved_invocation =
  pi_proof :: string
  pi_proof_facts :: "felt list"
  pi_output :: "felt list"
  pi_screening :: "screening_attestation option"

definition result_felts :: "ext \<Rightarrow> (json \<Rightarrow> string) \<Rightarrow> json \<Rightarrow> string \<Rightarrow> string + felt list" where
  "result_felts E print v what =
     bindE (ok_or (what @ '': not an array'') (as_array v)) (\<lambda>items.
     collectE (\<lambda>x. ok_or (what @ '': bad felt '' @ print x) (Option.bind (as_str x) (felt_from_hex E))) items)"

definition parse_result :: "'pt env \<Rightarrow> json \<Rightarrow> felt \<Rightarrow> string + proved_invocation" where
  "parse_result V result pool =
     (let E = e_ext V; print = e_to_string V in
     bindE (ok_or ''no proof in the prover result'' (get_str result ''proof'')) (\<lambda>proof.
     bindE (result_felts E print (json_index result ''proof_facts'') ''proof_facts'') (\<lambda>facts.
     bindE (ok_or ''no l2_to_l1_messages'' (get_array result ''l2_to_l1_messages'')) (\<lambda>messages.
     bindE (ok_or ''the proof carries no message from the pool''
       (List.find (\<lambda>m. Option.bind (get_str m ''from_address'') (felt_from_hex E) = Some pool) messages)) (\<lambda>message.
     bindE (result_felts E print (json_index message ''payload'') ''payload'') (\<lambda>output.
     bindE (case Option.bind (json_get result ''additional_data'') (\<lambda>d. json_get d ''signature'') of
              None \<Rightarrow> Ok None
            | Some JNull \<Rightarrow> Ok None
            | Some sig \<Rightarrow> bindE (map_err (\<lambda>e. ''bad screening attestation: '' @ e) (e_attestation V sig)) (\<lambda>a.
                Ok (Some a))) (\<lambda>screening.
     Ok \<lparr>pi_proof = proof, pi_proof_facts = facts, pi_output = output, pi_screening = screening\<rparr>)))))))"

section \<open>The relay\<close>

definition AVNU_MAINNET :: string where "AVNU_MAINNET = ''https://starknet.paymaster.avnu.fi''"
definition AVNU_SEPOLIA :: string where "AVNU_SEPOLIA = ''https://sepolia.paymaster.avnu.fi''"

fun default_paymaster_url :: "chain \<Rightarrow> string" where
  "default_paymaster_url Mainnet = AVNU_MAINNET"
| "default_paymaster_url Sepolia = AVNU_SEPOLIA"

record fee_action =
  fa_token :: felt
  fa_amount :: u128
  fa_recipient :: felt

record paymaster =
  pm_url :: string
  pm_api_key :: string
  pm_fee_token :: felt

definition paymaster_new :: "string \<Rightarrow> string \<Rightarrow> felt \<Rightarrow> paymaster" where
  "paymaster_new url api_key fee_token =
     \<lparr>pm_url = trim_end_slash url, pm_api_key = api_key, pm_fee_token = fee_token\<rparr>"

definition paymaster_parameters :: "paymaster \<Rightarrow> json" where
  "paymaster_parameters pm =
     JObj [(''version'', JStr ''0x1''),
           (''fee_mode'', JObj [(''mode'', JStr ''sponsored_private''),
             (''pool_fee_token'', JStr (felt_0x (pm_fee_token pm))), (''tip'', JStr ''normal'')])]"

definition paymaster_rpc :: "'pt env \<Rightarrow> paymaster \<Rightarrow> string \<Rightarrow> json \<Rightarrow> (string + json) act" where
  "paymaster_rpc V pm m params =
     bnd (http_send V (post_json (pm_url pm) [(''x-paymaster-api-key'', pm_api_key pm)] (rpc_body m params))) (\<lambda>reply.
     ret (case reply of
            NoAnswer e \<Rightarrow> Err (''paymaster unreachable: '' @ e)
          | Answer status body \<Rightarrow>
              (case body of
                 Inl e \<Rightarrow> Err (''paymaster: bad response: '' @ e)
               | Inr v \<Rightarrow>
                   (case json_get v ''error'' of
                      Some err \<Rightarrow> Err (''paymaster refused '' @ m @ '': '' @ e_to_string V err)
                    | None \<Rightarrow> ok_or (''paymaster: '' @ m @ '' returned no result'') (json_get v ''result'')))))"

definition fee_field :: "ext \<Rightarrow> json \<Rightarrow> string \<Rightarrow> string + felt" where
  "fee_field E fa k = ok_or (''fee_action.'' @ k @ '' missing'') (Option.bind (get_str fa k) (felt_from_hex E))"

definition parse_fee_action ::
  "ext \<Rightarrow> (json \<Rightarrow> string) \<Rightarrow> json \<Rightarrow> felt \<Rightarrow> felt \<Rightarrow> string + fee_action" where
  "parse_fee_action E print quote fee_token user =
     (if get_str quote ''type'' \<noteq> Some ''apply_action''
      then Err (''unexpected paymaster quote: '' @ print quote)
      else
      bindE (ok_or ''the paymaster quote has no fee_action'' (json_get quote ''fee_action'')) (\<lambda>fa.
      if get_str fa ''type'' \<noteq> Some ''withdraw''
      then Err (''unexpected paymaster fee action: '' @ print fa)
      else
      bindE (fee_field E fa ''token'') (\<lambda>token.
      bindE (fee_field E fa ''recipient'') (\<lambda>recipient.
      bindE (bindE (fee_field E fa ''amount'') (\<lambda>f.
        ok_or ''fee_action.amount exceeds u128'' (felt_to_word f))) (\<lambda>amount.
      if token \<noteq> fee_token
      then Err (''the paymaster asked for its fee in '' @ felt_0x token @ '', not the configured '' @ felt_0x fee_token)
      else if recipient = user \<or> recipient = 0
      then Err (''the paymaster'' @ [CHR 0x27] @ ''s fee recipient is your own address, which would link the batch to you'')
      else Ok \<lparr>fa_token = token, fa_amount = amount, fa_recipient = recipient\<rparr>)))))"

definition paymaster_quote :: "'pt env \<Rightarrow> paymaster \<Rightarrow> felt \<Rightarrow> felt \<Rightarrow> (string + fee_action) act" where
  "paymaster_quote V pm pool user =
     bnd (paymaster_rpc V pm ''paymaster_buildTransaction''
            (JObj [(''transaction'', JObj [(''type'', JStr ''apply_action''),
                     (''apply_action'', JObj [(''pool_address'', JStr (felt_0x pool))])]),
                   (''parameters'', paymaster_parameters pm)])) (\<lambda>r.
     ret (bindE r (\<lambda>q. parse_fee_action (e_ext V) (e_to_string V) q (pm_fee_token pm) user)))"

definition paymaster_execute ::
  "'pt env \<Rightarrow> paymaster \<Rightarrow> call \<Rightarrow> string \<Rightarrow> felt list \<Rightarrow> (string + felt) act" where
  "paymaster_execute V pm c proof proof_facts =
     bnd (paymaster_rpc V pm ''paymaster_executeTransaction''
            (JObj [(''transaction'', JObj [(''type'', JStr ''apply_action''),
                     (''apply_action'', JObj
                        [(''apply_actions_call'', JObj [(''to'', JStr (felt_0x (call_to c))),
                            (''selector'', JStr (felt_0x (call_selector c))),
                            (''calldata'', felt_strs (call_calldata c))]),
                         (''proof'', JStr proof), (''proof_facts'', felt_strs proof_facts)])]),
                   (''parameters'', paymaster_parameters pm)])) (\<lambda>r.
     ret (bindE (map_err (\<lambda>e. e @ '' (the relay may still have submitted it: check before retrying)'') r) (\<lambda>v.
       ok_or ''the relay accepted the batch but returned no transaction hash: check before retrying''
         (case Option.bind (get_str v ''transaction_hash'') (felt_from_hex (e_ext V)) of
            None \<Rightarrow> None | Some h \<Rightarrow> if h \<noteq> 0 then Some h else None))))"

section \<open>Facts\<close>

text \<open>Only the two exact reasons of the interceptor are verdicts; nothing else is final.\<close>

lemma classify_rejected:
  "classify_rpc_error print err = ScreeningRejected m \<longleftrightarrow>
     m = ''address_blocked'' \<and> Option.bind (json_get err ''code'') as_i64 = Some 10000
     \<and> get_str err ''data'' = Some ''address_blocked''"
  by (auto simp: classify_rpc_error_def Let_def split: option.splits if_splits)

lemma parse_fee_action_Ok:
  assumes "parse_fee_action E print q fee_token user = Ok fa"
  shows "fa_token fa = fee_token" "fa_recipient fa \<noteq> user" "fa_recipient fa \<noteq> 0"
  using assms by (auto simp: parse_fee_action_def result_simps split: if_splits)

lemma parse_result_Ok:
  assumes "parse_result V result pool = Ok p"
  obtains m where "m \<in> set (case get_array result ''l2_to_l1_messages'' of None \<Rightarrow> [] | Some ms \<Rightarrow> ms)"
    "Option.bind (get_str m ''from_address'') (felt_from_hex (e_ext V)) = Some pool"
    "result_felts (e_ext V) (e_to_string V) (json_index m ''payload'') ''payload'' = Ok (pi_output p)"
    "get_str result ''proof'' = Some (pi_proof p)"
proof -
  obtain messages m where "get_array result ''l2_to_l1_messages'' = Some messages"
    "List.find (\<lambda>m. Option.bind (get_str m ''from_address'') (felt_from_hex (e_ext V)) = Some pool) messages = Some m"
    "result_felts (e_ext V) (e_to_string V) (json_index m ''payload'') ''payload'' = Ok (pi_output p)"
    "get_str result ''proof'' = Some (pi_proof p)"
    using assms by (auto simp: parse_result_def Let_def result_simps)
  then show thesis using that [of m] by (auto simp: find_Some_iff)
qed

end
