(* ===== verification/Rpc_Strk20.thy ===== *)
theory Rpc_Strk20
  imports Rpc_Companion Rpc_Strk20_Remote
begin

text \<open>
  \<open>crates/wallet-rpc/src/strk20/mod.rs\<close>: the private operations over the wallet API. A node answers
  the same read in the same way during one request (the reader is a function of the node, the pool
  and the block). The accumulations that could overflow are \<open>Crash\<close> where they do, as in the planner.
\<close>

section \<open>Constants, errors, scrubbing\<close>

definition MAINNET_POOL :: string where
  "MAINNET_POOL = ''0x040337b1af3c663e86e333bab5a4b28da8d4652a15a69beee2b677776ffe812a''"
definition SEPOLIA_POOL :: string where
  "SEPOLIA_POOL = ''0x03ce2d315cb201ac87f4ff1736d366b39e18fdcac669ea007a51a74407803a3e''"
definition STRK :: string where
  "STRK = ''0x04718f5a0fc34cc1af16a1cdee98ffb20c31f5cd61d6ab07201858f4287c938d''"
definition PROVING_LAG :: u64 where "PROVING_LAG = 12"
definition MAX_ACTIONS :: nat where "MAX_ACTIONS = 32"
definition MAX_TOKENS :: nat where "MAX_TOKENS = 64"

text \<open>\<open>Felt::from_hex(s).expect("constant felt")\<close>\<close>

definition const_felt :: "'pt env \<Rightarrow> string \<Rightarrow> felt act" where
  "const_felt V s = (case felt_from_hex (e_ext V) s of None \<Rightarrow> crash ''constant felt'' | Some f \<Rightarrow> ret f)"

definition pool_revert :: "string \<Rightarrow> string option" where
  "pool_revert e =
     Option.bind (find_sub [CHR ''('', CHR 0x27] e) (\<lambda>i.
     let rest = drop (i + 2) e
     in Option.bind (find_sub [CHR 0x27, CHR '')''] rest) (\<lambda>n.
        let reason = take n rest
        in if reason \<noteq> [] \<and> list_all (\<lambda>b. is_ascii_upper b \<or> b = CHR ''_'' \<or> is_ascii_digit b) reason
           then Some reason else None))"

text \<open>\<open>str::replace\<close> for a pattern that is not empty.\<close>

function replace_all :: "string \<Rightarrow> string \<Rightarrow> string \<Rightarrow> string" where
  "replace_all p r [] = []"
| "replace_all p r (c # cs) =
     (if p \<noteq> [] \<and> starts_with p (c # cs) then r @ replace_all p r (drop (length p) (c # cs))
      else c # replace_all p r cs)"
  by pat_completeness auto
termination
  by (relation "measure (\<lambda>(p, r, s). length s)") auto

definition viewing_key_mark :: string where "viewing_key_mark = ''<viewing key>''"

definition scrub :: "string \<Rightarrow> felt \<Rightarrow> string" where
  "scrub txt user_sk =
     replace_all (nat_dec (nat (felt_val user_sk))) viewing_key_mark
       (replace_all (felt_0x user_sk) viewing_key_mark
         (replace_all (felt_0x64 user_sk) viewing_key_mark txt))"

definition explain_revert :: "string \<Rightarrow> string" where
  "explain_revert r =
     (if r = ''SCREENING_REQUIRED''
      then ''the pool refused the deposit ('' @ r @ ''): the deposit prover returned no screening attestation. Use a screening prover (Starkscan, the bramble gateway, or the pool operator'' @ [CHR 0x27] @ ''s).''
      else if r = ''SCREENING_EXPIRED'' \<or> r = ''SCREENING_FUTURE_DATED''
      then ''the pool refused the deposit ('' @ r @ ''): its screening attestation is no longer valid; retry the deposit''
      else if r = ''NON_ZERO_VALUE''
      then ''the pool refused the batch ('' @ r @ ''): it was proved against state that a more recent transaction from this account has since changed (a note spent, or a note or channel slot taken). Retry in about a minute.''
      else ''the pool refused the transaction: '' @ r)"

definition submit_err :: "string \<Rightarrow> wallet_rpc_error" where
  "submit_err txt = (case pool_revert txt of Some r \<Rightarrow> Precondition (explain_revert r) | None \<Rightarrow> Node txt)"

definition insufficient_text :: "felt \<Rightarrow> u128 \<Rightarrow> u128 \<Rightarrow> string" where
  "insufficient_text token shortfall available =
     felt_0x token @ '': '' @ dec shortfall @ '' short of the '' @ dec available @ '' spendable. Notes younger than ''
     @ dec PROVING_LAG @ '' blocks are not spendable yet; retry in a minute if you just received or changed some.''"

fun map_strk20 :: "strk20_error \<Rightarrow> rpc_failure" where
  "map_strk20 (PoolNotRegistered a) = Rpc (Strk20NotRegistered (felt_0x a))"
| "map_strk20 (InsufficientBalance token shortfall available) =
     Rpc (InsufficientPrivateBalance (insufficient_text token shortfall available))"
| "map_strk20 ZeroAmount = Rpc (InvalidRequest ''amounts must be positive'')"
| "map_strk20 (ReadError m) = Rpc (Node m)"
| "map_strk20 (NotOnCurve f) = Rpc (Unknown (felt_0x f @ '' is not the x-coordinate of a point on the Stark curve''))"
| "map_strk20 EmptyProofOutput = Rpc (Unknown ''the proof carries no message from the pool'')"
| "map_strk20 (RandomError m) = Rpc (Unknown (''randomness unavailable: '' @ m))"
| "map_strk20 Panic = Crash ''arithmetic overflow''"

definition lift20 :: "strk20_error + 'a \<Rightarrow> 'a act" where
  "lift20 r s = (map_err map_strk20 r, s)"

section \<open>Reading the pool\<close>

definition node_reader :: "'pt env \<Rightarrow> starknet_rpc \<Rightarrow> felt \<Rightarrow> json \<Rightarrow> pool_reader" where
  "node_reader V node pool block selector calldata =
     (let request = JObj [(''contract_address'', JStr (felt_0x pool)),
                          (''entry_point_selector'', JStr (felt_0x selector)),
                          (''calldata'', felt_strs calldata)]
      in bindE (map_err (\<lambda>e. ReadError (node_error_string e))
           (raw_call node ''starknet_call'' (JObj [(''request'', request), (''block_id'', block)]))) (\<lambda>out.
         bindE (ok_or (ReadError ''starknet_call: not an array'') (as_array out)) (\<lambda>items.
         collectE (\<lambda>v. ok_or (ReadError (''bad felt '' @ e_to_string V v))
           (Option.bind (as_str v) (felt_from_hex (e_ext V)))) items)))"

definition block_number :: "starknet_rpc \<Rightarrow> u64 act" where
  "block_number node =
     bnd (node_result (raw_call node ''starknet_blockNumber'' (JArr []))) (\<lambda>v.
     lift (ok_or (Node ''blockNumber: not a number'') (as_u64 v)))"

section \<open>Who, where, which pool\<close>

datatype caller = RpcCaller paired_client | Desktop

definition caller_approve :: "'pt env \<Rightarrow> caller \<Rightarrow> string \<Rightarrow> string \<Rightarrow> unit act" where
  "caller_approve V caller m summary =
     (case caller of
        Desktop \<Rightarrow> ret ()
      | RpcCaller client \<Rightarrow> bnd (gated_approval V client m summary) (\<lambda>d. unless_rejected d (ret ())))"

record strk20_ctx =
  cx_account :: account_ref
  cx_user :: felt
  cx_chain :: chain
  cx_pool :: felt
  cx_node :: starknet_rpc
  cx_cfg :: strk20_config

definition pool_for :: "'pt env \<Rightarrow> strk20_config \<Rightarrow> chain \<Rightarrow> felt act" where
  "pool_for V cfg chain =
     (let p = trim (sk_pool cfg)
      in if p = [] then const_felt V (case chain of Mainnet \<Rightarrow> MAINNET_POOL | Sepolia \<Rightarrow> SEPOLIA_POOL)
         else lift (ok_or (InvalidRequest (''Settings: STRK20 pool '' @ p @ '' is not a felt''))
                (felt_from_hex (e_ext V) p)))"

definition caller_scope :: "caller \<Rightarrow> string option" where
  "caller_scope caller = (case caller of RpcCaller client \<Rightarrow> scope_for client | Desktop \<Rightarrow> None)"

definition caller_account :: "ext \<Rightarrow> json \<Rightarrow> wallet_session \<Rightarrow> caller \<Rightarrow> wallet_rpc_error + account_ref" where
  "caller_account E params se caller =
     bindE (session_registry se) (\<lambda>reg.
     let accounts = scoped_for reg (caller_scope caller)
     in case opt_param_str params ''account_address'' of
          Some a \<Rightarrow> bindE (normalize_address E a) (\<lambda>want.
            ok_or Forbidden (List.find (\<lambda>acc. acc_address acc = want) accounts))
        | None \<Rightarrow> ok_or Forbidden (case accounts of [] \<Rightarrow> None | a # _ \<Rightarrow> Some a))"

definition strk20_config_of :: "server \<Rightarrow> chain \<Rightarrow> strk20_config" where
  "strk20_config_of sv chain =
     (case sv_prover sv of
        Some _ \<Rightarrow> nc_strk20 (for_network (sv_prover_settings sv) (prover_network chain))
      | None \<Rightarrow> default_strk20_config)"

definition strk20_context :: "'pt env \<Rightarrow> caller \<Rightarrow> json \<Rightarrow> strk20_ctx act" where
  "strk20_context V caller params =
     bnd (resolve_chain V params) (\<lambda>chain.
     bnd (with_session V (\<lambda>se. caller_account (e_ext V) params se caller)) (\<lambda>account.
     bnd (lift (stored_address (e_ext V) account)) (\<lambda>user.
     bnd (node_or V chain) (\<lambda>node.
     bnd (reads V (\<lambda>sv. strk20_config_of sv chain)) (\<lambda>cfg.
     bnd (pool_for V cfg chain) (\<lambda>pool.
     ret \<lparr>cx_account = account, cx_user = user, cx_chain = chain, cx_pool = pool, cx_node = node,
          cx_cfg = cfg\<rparr>))))))"

definition ctx_pool :: "'pt env \<Rightarrow> strk20_ctx \<Rightarrow> json \<Rightarrow> 'pt pool_ctx" where
  "ctx_pool V cx block =
     \<lparr>px_ext = e_ext V, px_poseidon = e_poseidon V, px_curve = e_curve V,
      px_call = node_reader V (cx_node cx) (cx_pool cx) block\<rparr>"

definition viewing_key :: "'pt env \<Rightarrow> strk20_ctx \<Rightarrow> felt act" where
  "viewing_key V cx =
     with_session V (\<lambda>se. strk20_viewing_key_for (e_ext V) se (cx_account cx) (cx_chain cx) (cx_pool cx))"

section \<open>Actions\<close>

datatype strk20_action =
    DepositAction felt u128
  | WithdrawAction felt u128 felt
  | TransferAction felt u128 felt

definition field_felt :: "ext \<Rightarrow> json \<Rightarrow> string \<Rightarrow> wallet_rpc_error + felt" where
  "field_felt E a k =
     ok_or (InvalidRequest (''action.'' @ k @ '': expected a felt'')) (Option.bind (get_str a k) (felt_from_hex E))"

definition field_amount :: "ext \<Rightarrow> json \<Rightarrow> wallet_rpc_error + u128" where
  "field_amount E a =
     (if get_str a ''amount'' = Some ''OPEN''
      then Err (NotImplemented (''open notes (transfer amount '' @ in_dquotes ''OPEN'' @ '') are not supported yet''))
      else bindE (field_felt E a ''amount'') (\<lambda>f.
           bindE (ok_or (InvalidRequest ''action.amount exceeds u128'') (felt_to_word f)) (\<lambda>n.
           if n = 0 then Err (InvalidRequest ''action.amount must be positive'') else Ok n)))"

definition parse_action :: "ext \<Rightarrow> (json \<Rightarrow> string) \<Rightarrow> json \<Rightarrow> wallet_rpc_error + strk20_action" where
  "parse_action E print a =
     (case get_str a ''type'' of
        Some t \<Rightarrow>
          if t = ''deposit'' then
            bindE (field_felt E a ''token'') (\<lambda>token. bindE (field_amount E a) (\<lambda>amount.
            Ok (DepositAction token amount)))
          else if t = ''withdraw'' then
            bindE (field_felt E a ''token'') (\<lambda>token. bindE (field_amount E a) (\<lambda>amount.
            bindE (field_felt E a ''recipient'') (\<lambda>recipient. Ok (WithdrawAction token amount recipient))))
          else if t = ''transfer'' then
            bindE (field_felt E a ''token'') (\<lambda>token. bindE (field_amount E a) (\<lambda>amount.
            bindE (field_felt E a ''recipient'') (\<lambda>recipient. Ok (TransferAction token amount recipient))))
          else if t = ''invoke'' \<or> t = ''shadow_account_invoke'' \<or> t = ''subaccount_invoke'' then
            Err (NotImplemented (''STRK20 `'' @ t @ ''` actions are not supported yet''))
          else Err (InvalidRequest (''unknown STRK20 action '' @ print a))
      | None \<Rightarrow> Err (InvalidRequest (''unknown STRK20 action '' @ print a)))"

definition parse_actions :: "ext \<Rightarrow> (json \<Rightarrow> string) \<Rightarrow> json \<Rightarrow> wallet_rpc_error + strk20_action list" where
  "parse_actions E print params =
     bindE (ok_or (InvalidRequest (''missing array param '' @ in_quotes ''actions'')) (get_array params ''actions'')) (\<lambda>xs.
     if xs = [] \<or> MAX_ACTIONS < length xs
     then Err (InvalidRequest (''actions: between 1 and '' @ nat_dec MAX_ACTIONS @ '' required''))
     else collectE (parse_action E print) xs)"

definition default_intent :: intent where
  "default_intent = \<lparr>in_register = False, in_deposits = [], in_transfers = [], in_withdrawals = []\<rparr>"

fun push_action :: "intent \<Rightarrow> strk20_action \<Rightarrow> intent" where
  "push_action it (DepositAction token amount) = it\<lparr>in_deposits := in_deposits it @ [(token, amount)]\<rparr>"
| "push_action it (WithdrawAction token amount recipient) =
     it\<lparr>in_withdrawals := in_withdrawals it @ [(recipient, token, amount)]\<rparr>"
| "push_action it (TransferAction token amount recipient) =
     it\<lparr>in_transfers := in_transfers it @ [(recipient, token, amount)]\<rparr>"

definition intent_of :: "strk20_action list \<Rightarrow> intent" where
  "intent_of acts = foldl push_action default_intent acts"

definition wei :: "u128 \<Rightarrow> string" where "wei a = dec a @ '' (base units)''"

definition describe_intent :: "intent \<Rightarrow> string" where
  "describe_intent it =
     join ''; ''
       ((if in_register it then [''register your viewing key (public: links this address to the pool)''] else [])
        @ map (\<lambda>(t, a). ''deposit '' @ wei a @ '' of '' @ felt_0x t @ '' (public)'') (in_deposits it)
        @ map (\<lambda>(r, t, a). ''send '' @ wei a @ '' of '' @ felt_0x t @ '' privately to '' @ felt_0x r) (in_transfers it)
        @ map (\<lambda>(r, t, a). ''withdraw '' @ wei a @ '' of '' @ felt_0x t @ '' to '' @ felt_0x r) (in_withdrawals it))"

section \<open>Discover, plan, approve, sign, prove\<close>

datatype proving = LocalProving | RemoteProving deposit_prover

record prepared =
  pp_call :: call
  pp_proved :: proved_invocation

fun discover_channels ::
  "'pt pool_ctx \<Rightarrow> felt \<Rightarrow> felt \<Rightarrow> felt list \<Rightarrow> (felt, outgoing_channel) btree
     \<Rightarrow> strk20_error + (felt, outgoing_channel) btree" where
  "discover_channels X user user_sk [] m = Ok m"
| "discover_channels X user user_sk (r # rs) m =
     (if bt_get m r \<noteq> None then discover_channels X user user_sk rs m
      else bindE (discover_channel X user user_sk r) (\<lambda>c.
           discover_channels X user user_sk rs (bt_insert r c m)))"

definition discover_state :: "'pt pool_ctx \<Rightarrow> felt \<Rightarrow> felt \<Rightarrow> intent \<Rightarrow> strk20_error + plan_state" where
  "discover_state X user user_sk it =
     bindE (registered_public_key X user) (\<lambda>pk.
     let registered = (pk \<noteq> None) in
     bindE (if registered then discover_channels X user user_sk (map fst (in_transfers it) @ [user]) []
            else Ok []) (\<lambda>channels.
     let tokens = map (fst \<circ> snd) (in_transfers it) @ map (fst \<circ> snd) (in_withdrawals it) in
     bindE (if registered \<and> tokens \<noteq> [] then discover_notes X user user_sk tokens else Ok []) (\<lambda>notes.
     bindE (if registered then outgoing_channel_count X user user_sk else Ok 0) (\<lambda>outgoing.
     Ok \<lparr>st_user = user, st_user_sk = user_sk, st_registered = registered, st_outgoing_channels = outgoing,
         st_channels = channels, st_notes = notes\<rparr>))))"

definition same_state :: "plan_state \<Rightarrow> plan_state \<Rightarrow> bool" where
  "same_state a b \<longleftrightarrow> st_registered a = st_registered b \<and> st_outgoing_channels a = st_outgoing_channels b
     \<and> st_channels a = st_channels b \<and> st_notes a = st_notes b"

definition not_settled :: string where
  "not_settled = ''a recent STRK20 transaction from this account is not yet '' @ dec PROVING_LAG
     @ '' blocks old, and proofs run '' @ dec PROVING_LAG @ '' blocks behind the chain head. Retry in about a minute.''"

definition linkage_text :: string where
  "linkage_text = ''this batch would open more than one channel at once, letting an observer link them to one sender. Send to one new recipient per batch.''"

definition where_proved :: "bool \<Rightarrow> proving \<Rightarrow> string" where
  "where_proved native proving =
     (case proving of
        LocalProving \<Rightarrow>
          if native then ''proved on this machine''
          else ''proved by your configured remote prover, which will see your viewing key''
      | RemoteProving p \<Rightarrow>
          ''proved by '' @ describe_prover p @ '', which screens the depositor and will see your viewing key'')"

definition strk20_summary :: "strk20_ctx \<Rightarrow> intent \<Rightarrow> string \<Rightarrow> nat \<Rightarrow> string \<Rightarrow> string" where
  "strk20_summary cx it proved n submission =
     ''STRK20 on '' @ chain_name (cx_chain cx) @ '' from '' @ acc_address (cx_account cx) @ '': ''
     @ describe_intent it @ ''. '' @ proved @ '' ('' @ nat_dec n @ '' action(s), pool '' @ felt_0x (cx_pool cx)
     @ ''); '' @ submission @ ''.''"

text \<open>\<open>prover::prove_unrecorded\<close>: the job appears, the backend answers, the job ends; nothing is stored.\<close>

definition on_jobs :: "'pt env \<Rightarrow> (jobs \<Rightarrow> 'a \<times> jobs) \<Rightarrow> 'a act" where
  "on_jobs V f =
     bnd (locked V (\<lambda>sv. case sv_prover sv of
            None \<Rightarrow> (None, sv)
          | Some p \<Rightarrow> (let (x, js) = f (pv_jobs p) in (Some x, sv\<lparr>sv_prover := Some (p\<lparr>pv_jobs := js\<rparr>)\<rparr>)))) (\<lambda>r.
     lift (ok_or (NotImplemented no_prover) r))"

definition prove_locally :: "'pt env \<Rightarrow> json \<Rightarrow> string \<Rightarrow> string \<Rightarrow> (string + json) act" where
  "prove_locally V payload label network =
     bnd (now_unix_ms V) (\<lambda>now_ms.
     bnd (on_jobs V (\<lambda>js. let (jid, js1) = jobs_create (unat now_ms) (Some label) js
                          in (jid, jobs_set_status jid Proving js1))) (\<lambda>jid.
     bnd (emit (LocalProof payload network)) (\<lambda>_.
     bnd (at_step (\<lambda>n. e_prove V n payload network)) (\<lambda>res.
     bnd (on_jobs V (\<lambda>js. ((), case res of Inr out \<Rightarrow> jobs_succeed jid out js | Inl e \<Rightarrow> jobs_fail jid e js))) (\<lambda>_.
     ret res)))))"

definition remote_failure :: "felt \<Rightarrow> remote_error \<Rightarrow> wallet_rpc_error" where
  "remote_failure user_sk e =
     (case e of
        ScreeningRejected _ \<Rightarrow> Precondition (remote_error_string e)
      | _ \<Rightarrow> Unknown (scrub (remote_error_string e) user_sk))"

definition run_prover ::
  "'pt env \<Rightarrow> strk20_ctx \<Rightarrow> string \<Rightarrow> proving \<Rightarrow> u64 \<Rightarrow> felt \<Rightarrow> json \<Rightarrow> json act" where
  "run_prover V cx m proving block user_sk tx =
     (case proving of
        LocalProving \<Rightarrow>
          bnd (prove_locally V (JObj [(''transaction'', tx), (''block_number'', json_u64 block)])
                 (''STRK20 '' @ m) (prover_network (cx_chain cx))) (\<lambda>res.
          lift (map_err (\<lambda>e. Unknown (scrub (''proving failed: '' @ e) user_sk)) res))
      | RemoteProving p \<Rightarrow>
          bnd (emit (RemoteProof (describe_prover p) tx)) (\<lambda>_.
          bnd (remote_prove V (e_patience V) p (cx_chain cx) block tx) (\<lambda>res.
          lift (map_err (remote_failure user_sk) res))))"

definition saturating_lag :: "u64 \<Rightarrow> u64" where
  "saturating_lag head = (if head < PROVING_LAG then 0 else head - PROVING_LAG)"

text \<open>What is fixed before the user is asked.\<close>

definition discover_and_plan ::
  "'pt env \<Rightarrow> strk20_ctx \<Rightarrow> intent \<Rightarrow> (u64 \<times> felt \<times> plan_result) act" where
  "discover_and_plan V cx it =
     bnd (block_number (cx_node cx)) (\<lambda>head.
     let block = saturating_lag head in
     bnd (viewing_key V cx) (\<lambda>user_sk.
     bnd (emit (NotesRead (cx_account cx))) (\<lambda>_.
     bnd (lift20 (discover_state (ctx_pool V cx (block_json block)) (cx_user cx) user_sk it)) (\<lambda>st.
     bnd (lift20 (discover_state (ctx_pool V cx (JStr ''latest'')) (cx_user cx) user_sk it)) (\<lambda>now.
     if \<not> same_state st now then fail (Precondition not_settled)
     else
     bnd (at_step (e_randomness V)) (\<lambda>rng.
     bnd (lift20 (plan (ctx_pool V cx (block_json block)) it st rng)) (\<lambda>p.
     if UserLinkage \<in> set (pl_warnings p) then fail (PrivacyLeak linkage_text)
     else ret (block, user_sk, p))))))))"

definition pool_nonce_at :: "'pt env \<Rightarrow> strk20_ctx \<Rightarrow> u64 \<Rightarrow> felt act" where
  "pool_nonce_at V cx block =
     bnd (node_result (raw_call (cx_node cx) ''starknet_getNonce''
            (JObj [(''block_id'', block_json block), (''contract_address'', JStr (felt_0x (cx_pool cx)))]))) (\<lambda>v.
     lift (ok_or (Node ''getNonce: bad felt'') (Option.bind (as_str v) (felt_from_hex (e_ext V)))))"

text \<open>The end of \<open>prepare\<close>: the signed invocation goes to its prover, and the call is built from the answer.\<close>

definition prove_invocation ::
  "'pt env \<Rightarrow> strk20_ctx \<Rightarrow> string \<Rightarrow> proving \<Rightarrow> u64 \<Rightarrow> felt \<Rightarrow> json \<Rightarrow> prepared act" where
  "prove_invocation V cx m proving block user_sk tx =
     bnd (run_prover V cx m proving block user_sk tx) (\<lambda>result.
     bnd (lift (map_err (\<lambda>e. Unknown (scrub e user_sk)) (parse_result V result (cx_pool cx)))) (\<lambda>proved.
     bnd (lift20 (apply_actions_call (e_ext V) (cx_pool cx) (pi_output proved) (pi_screening proved))) (\<lambda>c.
     ret \<lparr>pp_call = c, pp_proved = proved\<rparr>)))"

definition strk20_prepare ::
  "'pt env \<Rightarrow> caller \<Rightarrow> string \<Rightarrow> strk20_ctx \<Rightarrow> intent \<Rightarrow> proving \<Rightarrow> string \<Rightarrow> prepared act" where
  "strk20_prepare V caller m cx it proving submission =
     bnd (prover_or_err V) (\<lambda>_.
     bnd (discover_and_plan V cx it) (\<lambda>(block, user_sk, p).
     bnd (reads V sv_prover_native) (\<lambda>native.
     bnd (caller_approve V caller m
            (strk20_summary cx it (where_proved native proving) (length (pl_actions p)) submission)) (\<lambda>_.
     bnd (pool_nonce_at V cx block) (\<lambda>nonce.
     let inv = proof_invocation_new (e_ext V) (cx_pool cx) (cx_chain cx) nonce (cx_user cx) user_sk (pl_actions p);
         h = invocation_hash (e_ext V) inv
     in bnd (with_session V (\<lambda>se. sign_hash_for (e_ext V) se (cx_account cx) h)) (\<lambda>signature.
        bnd (emit (SignedHash (cx_account cx) h)) (\<lambda>_.
        prove_invocation V cx m proving block user_sk (invocation_to_rpc_json inv signature))))))))"

definition call_and_proof :: "prepared \<Rightarrow> bool \<Rightarrow> json" where
  "call_and_proof p simulate =
     (let proof = (if simulate
            then JObj [(''data'', JStr []), (''output'', JArr []), (''proof_facts'', JArr [])]
            else JObj [(''data'', JStr (pi_proof (pp_proved p))),
                       (''output'', felt_strs (pi_output (pp_proved p))),
                       (''proof_facts'', felt_strs (pi_proof_facts (pp_proved p)))])
      in JObj [(''call'', JObj [(''contract_address'', JStr (felt_0x (call_to (pp_call p)))),
                                (''entry_point'', JStr ''apply_actions''),
                                (''calldata'', felt_strs (call_calldata (pp_call p)))]),
               (''proof'', proof)])"

fun is_deposit_action :: "strk20_action \<Rightarrow> bool" where
  "is_deposit_action (DepositAction _ _) = True"
| "is_deposit_action _ = False"

definition has_deposit :: "strk20_action list \<Rightarrow> bool" where
  "has_deposit acts \<longleftrightarrow> list_ex is_deposit_action acts"

definition proving_for :: "strk20_ctx \<Rightarrow> strk20_action list \<Rightarrow> wallet_rpc_error + proving" where
  "proving_for cx acts =
     (if has_deposit acts
      then bindE (map_err Precondition (resolve_deposit_prover (cx_cfg cx) (cx_chain cx))) (\<lambda>p. Ok (RemoteProving p))
      else Ok LocalProving)"

section \<open>Submitting from the user's own account\<close>

definition pool_fee :: "'pt env \<Rightarrow> strk20_ctx \<Rightarrow> u128 act" where
  "pool_fee V cx =
     bnd (lift20 (node_reader V (cx_node cx) (cx_pool cx) (JStr ''latest'')
            (get_selector_from_name (e_ext V) ''get_fee_amount'') [])) (\<lambda>out.
     lift (ok_or (Node ''get_fee_amount exceeds u128'') (felt_to_word (case out of [] \<Rightarrow> 0 | f # _ \<Rightarrow> f))))"

text \<open>\<open>*m.entry(token).or_default() += amount\<close>\<close>

definition add_entry :: "felt \<Rightarrow> u128 \<Rightarrow> (felt, u128) btree \<Rightarrow> (felt, u128) btree act" where
  "add_entry token amount m =
     bnd (checked_add (bt_get_or 0 m token) amount) (\<lambda>s. ret (bt_insert token s m))"

fun add_entries :: "(felt \<times> u128) list \<Rightarrow> (felt, u128) btree \<Rightarrow> (felt, u128) btree act" where
  "add_entries [] m = ret m"
| "add_entries ((token, amount) # es) m = bnd (add_entry token amount m) (add_entries es)"

definition public_balance :: "'pt env \<Rightarrow> strk20_ctx \<Rightarrow> felt \<Rightarrow> u128 act" where
  "public_balance V cx token =
     bnd (node_result (raw_call (cx_node cx) ''starknet_call'' (JObj
            [(''request'', JObj [(''contract_address'', JStr (felt_0x token)),
                (''entry_point_selector'', JStr (felt_0x (get_selector_from_name (e_ext V) ''balance_of''))),
                (''calldata'', JArr [JStr (felt_0x (cx_user cx))])]),
             (''block_id'', JStr ''latest'')]))) (\<lambda>out.
     bnd (lift (ok_or (Node ''balance_of: bad result'')
            (Option.bind (Option.bind (json_at out 0) as_str) (felt_from_hex (e_ext V))))) (\<lambda>low.
     ret (case felt_to_word low of Some w \<Rightarrow> w | None \<Rightarrow> - 1)))"

definition underfunded_text :: "strk20_ctx \<Rightarrow> felt \<Rightarrow> u128 \<Rightarrow> felt \<Rightarrow> u128 \<Rightarrow> u128 \<Rightarrow> string" where
  "underfunded_text cx strk fee token have_amount need =
     acc_address (cx_account cx) @ '' holds '' @ dec have_amount @ '' of '' @ felt_0x token
     @ '', and this deposit needs '' @ dec need @ '' (the deposit''
     @ (if token = strk \<and> 0 < fee then '' plus the pool'' @ [CHR 0x27] @ ''s fee of '' @ dec fee else [])
     @ ''), plus gas. Fund the account first.''"

fun require_funds ::
  "'pt env \<Rightarrow> strk20_ctx \<Rightarrow> felt \<Rightarrow> u128 \<Rightarrow> (felt \<times> u128) list \<Rightarrow> unit act" where
  "require_funds V cx strk fee [] = ret ()"
| "require_funds V cx strk fee ((token, need) # es) =
     bnd (public_balance V cx token) (\<lambda>have_amount.
     if have_amount < need
     then fail (Precondition (underfunded_text cx strk fee token have_amount need))
     else require_funds V cx strk fee es)"

definition check_public_funds :: "'pt env \<Rightarrow> strk20_ctx \<Rightarrow> (felt \<times> u128) list \<Rightarrow> unit act" where
  "check_public_funds V cx deposits =
     bnd (add_entries deposits []) (\<lambda>needed.
     bnd (pool_fee V cx) (\<lambda>fee.
     bnd (const_felt V STRK) (\<lambda>strk.
     bnd (add_entry strk fee needed) (\<lambda>needed'.
     require_funds V cx strk fee needed'))))"

definition approve_call :: "ext \<Rightarrow> felt \<Rightarrow> felt \<Rightarrow> u128 \<Rightarrow> call" where
  "approve_call E token spender amount =
     \<lparr>call_to = token, call_selector = get_selector_from_name E ''approve'',
      call_calldata = [spender, felt_of_word amount, 0]\<rparr>"

definition expired_text :: string where
  "expired_text = ''the deposit'' @ [CHR 0x27] @ ''s screening attestation expired before it could be submitted; retry the deposit''"

definition check_attestation :: "'pt env \<Rightarrow> screening_attestation option \<Rightarrow> unit act" where
  "check_attestation V screening =
     (case screening of
        None \<Rightarrow> ret ()
      | Some a \<Rightarrow>
          bnd (now_unix_ms V) (\<lambda>now_ms.
          bnd (checked_add (now_ms div 1000) 60) (\<lambda>inclusion.
          bnd (checked_add (issued_at a) ATTESTATION_MAX_AGE_SECS) (\<lambda>expiry.
          if expiry < inclusion then fail (Precondition expired_text) else ret ()))))"

definition submission_calls ::
  "'pt env \<Rightarrow> strk20_ctx \<Rightarrow> prepared \<Rightarrow> (felt, u128) btree \<Rightarrow> call list" where
  "submission_calls V cx p approvals =
     map (\<lambda>(t, a). approve_call (e_ext V) t (cx_pool cx) a) approvals @ [pp_call p]"

definition submit_from_account ::
  "'pt env \<Rightarrow> strk20_ctx \<Rightarrow> prepared \<Rightarrow> (felt \<times> u128) list \<Rightarrow> felt act" where
  "submit_from_account V cx p deposits =
     (let proved = pp_proved p; node = cx_node cx in
     bnd (check_attestation V (pi_screening proved)) (\<lambda>_.
     bnd (const_felt V STRK) (\<lambda>strk.
     bnd (add_entries deposits []) (\<lambda>m.
     bnd (pool_fee V cx) (\<lambda>fee.
     bnd (if 0 < fee then add_entry strk fee m else ret m) (\<lambda>approvals.
     let calls = submission_calls V cx p approvals;
         calldata = encode_calls calls in
     bnd (node_result (get_nonce node (cx_user cx))) (\<lambda>nonce.
     bnd (emit (Simulated (cx_chain cx) (cx_user cx) calldata)) (\<lambda>_.
     bnd (lift (map_err (\<lambda>e. submit_err (node_error_string e))
            (estimate_invoke_with_proof node (cx_user cx) calldata nonce (pi_proof_facts proved) (pi_proof proved)))) (\<lambda>bounds.
     let ps = fee_params nonce bounds (pi_proof_facts proved) in
     bnd (with_session V (\<lambda>se. sign_invoke_for (e_ext V) se (cx_account cx) calls (cx_chain cx) ps)) (\<lambda>signed.
     bnd (emit (SignedInvoke (cx_account cx) calls (cx_chain cx) ps)) (\<lambda>_.
     bnd (emit (SentInvoke (cx_chain cx) (cx_user cx) (si_calldata signed) (si_signature signed) nonce bounds
            (pi_proof_facts proved) (Some (pi_proof proved)))) (\<lambda>_.
     lift (map_err (\<lambda>e. submit_err (node_error_string e))
       (add_invoke node (cx_user cx) (si_calldata signed) (si_signature signed) nonce bounds
          (pi_proof_facts proved) (Some (pi_proof proved))))))))))))))))"

section \<open>Handlers\<close>

definition parse_tokens :: "ext \<Rightarrow> json \<Rightarrow> wallet_rpc_error + felt list" where
  "parse_tokens E params =
     bindE (ok_or (InvalidRequest (''missing array param '' @ in_quotes ''tokens'')) (get_array params ''tokens'')) (\<lambda>xs.
     bindE (collectE (\<lambda>t. ok_or (InvalidRequest ''tokens: expected felts'')
              (Option.bind (as_str t) (felt_from_hex E))) xs) (\<lambda>tokens.
     if tokens = [] \<or> MAX_TOKENS < length tokens
     then Err (InvalidRequest (''tokens: between 1 and '' @ nat_dec MAX_TOKENS @ '' required''))
     else Ok tokens))"

definition balances_summary :: "strk20_ctx \<Rightarrow> felt list \<Rightarrow> string" where
  "balances_summary cx tokens =
     ''Reveal the private (STRK20) balance of '' @ nat_dec (length tokens) @ '' token(s) held by ''
     @ acc_address (cx_account cx) @ '' on '' @ chain_name (cx_chain cx) @ ''.''"

definition token_balance :: "pool_note list \<Rightarrow> felt \<Rightarrow> strk20_error + json" where
  "token_balance notes t =
     bindE (sum_u128 (map note_amount (filter (\<lambda>n. note_token n = t) notes))) (\<lambda>s.
     Ok (JObj [(''token'', JStr (felt_0x t)), (''balance'', JStr (u128_to_hex s))]))"

definition strk20_balances :: "'pt env \<Rightarrow> caller \<Rightarrow> json \<Rightarrow> json act" where
  "strk20_balances V caller params =
     bnd (lift (parse_tokens (e_ext V) params)) (\<lambda>tokens.
     bnd (strk20_context V caller params) (\<lambda>cx.
     bnd (caller_approve V caller ''wallet_strk20Balances'' (balances_summary cx tokens)) (\<lambda>_.
     bnd (viewing_key V cx) (\<lambda>user_sk.
     let X = ctx_pool V cx (JStr ''latest'') in
     bnd (lift20 (registered_public_key X (cx_user cx))) (\<lambda>pk.
     if pk = None then fail (Strk20NotRegistered (acc_address (cx_account cx)))
     else
     bnd (emit (BalancesRead (cx_account cx) tokens)) (\<lambda>_.
     bnd (lift20 (discover_notes X (cx_user cx) user_sk tokens)) (\<lambda>notes.
     bnd (lift20 (collectE (token_balance notes) tokens)) (\<lambda>items.
     ret (JArr items)))))))))"

definition strk20_register :: "'pt env \<Rightarrow> caller \<Rightarrow> json \<Rightarrow> json act" where
  "strk20_register V caller params =
     bnd (strk20_context V caller params) (\<lambda>cx.
     bnd (lift20 (registered_public_key (ctx_pool V cx (JStr ''latest'')) (cx_user cx))) (\<lambda>pk.
     if pk \<noteq> None
     then fail (Precondition (acc_address (cx_account cx) @ '' is already registered with the pool''))
     else
     bnd (strk20_prepare V caller ''companion_strk20Register'' cx (default_intent\<lparr>in_register := True\<rparr>)
            LocalProving ''submitted from this account'') (\<lambda>p.
     bnd (submit_from_account V cx p []) (\<lambda>hash.
     ret (JObj [(''transaction_hash'', JStr (felt_0x hash))])))))"

definition strk20_prepare_invoke :: "'pt env \<Rightarrow> caller \<Rightarrow> json \<Rightarrow> json act" where
  "strk20_prepare_invoke V caller params =
     bnd (lift (parse_actions (e_ext V) (e_to_string V) params)) (\<lambda>acts.
     bnd (strk20_context V caller params) (\<lambda>cx.
     let simulate = (get_bool params ''simulate'' = Some True) in
     bnd (lift (proving_for cx acts)) (\<lambda>proving.
     bnd (strk20_prepare V caller ''wallet_strk20PrepareInvoke'' cx (intent_of acts) proving
            ''returned to the caller unsubmitted'') (\<lambda>p.
     ret (call_and_proof p simulate)))))"

definition mixed_deposit_text :: string where
  "mixed_deposit_text = ''deposits are submitted publicly from your account, so they can'' @ [CHR 0x27]
     @ ''t share a batch with transfers or withdrawals: send the deposit first, then the private actions''"

definition no_relay_text :: string where
  "no_relay_text = ''private transfers and withdrawals are relayed through the AVNU paymaster, and no AVNU API key is set (Settings ''
     @ utf8_arrow @ '' STRK20). Without one, call wallet_strk20PrepareInvoke and submit the returned call and proof from another account.''"

definition relay_submission :: "fee_action \<Rightarrow> string" where
  "relay_submission fee =
     ''relayed privately by the AVNU paymaster for a fee of '' @ dec (fa_amount fee) @ '' (base units of ''
     @ felt_0x (fa_token fee) @ '')''"

definition with_relay_fee :: "fee_action \<Rightarrow> wallet_rpc_error \<Rightarrow> wallet_rpc_error" where
  "with_relay_fee fee e =
     (case e of
        InsufficientPrivateBalance m \<Rightarrow> InsufficientPrivateBalance (m @ '' The amount includes the AVNU relay fee of ''
          @ dec (fa_amount fee) @ '' (base units of '' @ felt_0x (fa_token fee)
          @ ''), which covers the pool'' @ [CHR 0x27] @ ''s fee.'')
      | other \<Rightarrow> other)"

definition invoke_deposit :: "'pt env \<Rightarrow> caller \<Rightarrow> strk20_ctx \<Rightarrow> strk20_action list \<Rightarrow> json act" where
  "invoke_deposit V caller cx acts =
     (let it = intent_of acts in
     if list_ex (\<lambda>a. \<not> is_deposit_action a) acts then fail (InvalidRequest mixed_deposit_text)
     else
     bnd (lift (proving_for cx acts)) (\<lambda>proving.
     bnd (check_public_funds V cx (in_deposits it)) (\<lambda>_.
     bnd (strk20_prepare V caller ''wallet_strk20InvokeTransaction'' cx it proving
            ''submitted from this account'') (\<lambda>p.
     bnd (submit_from_account V cx p (in_deposits it)) (\<lambda>hash.
     ret (JObj [(''transaction_hash'', JStr (felt_0x hash))]))))))"

definition invoke_relayed :: "'pt env \<Rightarrow> caller \<Rightarrow> strk20_ctx \<Rightarrow> strk20_action list \<Rightarrow> json act" where
  "invoke_relayed V caller cx acts =
     (let cfg = cx_cfg cx in
     if trim (sk_avnu_api_key cfg) = [] then fail (Precondition no_relay_text)
     else
     (let url = (if trim (sk_paymaster_url cfg) = [] then default_paymaster_url (cx_chain cx)
                 else trim (sk_paymaster_url cfg)) in
     bnd (const_felt V STRK) (\<lambda>strk.
     let relay = paymaster_new url (trim (sk_avnu_api_key cfg)) strk in
     bnd (paymaster_quote V relay (cx_pool cx) (cx_user cx)) (\<lambda>q.
     bnd (lift (map_err Unknown q)) (\<lambda>fee.
     let it = intent_of acts;
         it' = it\<lparr>in_withdrawals := in_withdrawals it @ [(fa_recipient fee, fa_token fee, fa_amount fee)]\<rparr> in
     bnd (map_fail (with_relay_fee fee)
            (strk20_prepare V caller ''wallet_strk20InvokeTransaction'' cx it' LocalProving (relay_submission fee))) (\<lambda>p.
     bnd (paymaster_execute V relay (pp_call p) (pi_proof (pp_proved p)) (pi_proof_facts (pp_proved p))) (\<lambda>r.
     bnd (lift (map_err Unknown r)) (\<lambda>hash.
     ret (JObj [(''transaction_hash'', JStr (felt_0x hash))])))))))))"

definition strk20_invoke_transaction :: "'pt env \<Rightarrow> caller \<Rightarrow> json \<Rightarrow> json act" where
  "strk20_invoke_transaction V caller params =
     bnd (lift (parse_actions (e_ext V) (e_to_string V) params)) (\<lambda>acts.
     bnd (strk20_context V caller params) (\<lambda>cx.
     if has_deposit acts then invoke_deposit V caller cx acts else invoke_relayed V caller cx acts))"

end
