(* ===== verification/Rpc_Consent.thy ===== *)
theory Rpc_Consent
  imports Rpc_Strk20
begin

text \<open>
  What a request may do, and with whose word. \<open>covers V client seen e\<close> says that the events \<open>seen\<close> so far
  entitle the request of \<open>client\<close> to \<open>e\<close>: a prompt the user approved, or the use of an active grant, whose text is the
  text of exactly this \<open>e\<close>; for what leaves the wallet, the signature it carries. \<open>consented\<close> says it of every event of a
  trace. Each handler of \<open>Rpc_Handlers\<close> and \<open>Rpc_Companion\<close> is shown to be consented here, those of \<open>Rpc_Strk20\<close> in
  \<open>Rpc_Consent_Strk20\<close>.
\<close>

section \<open>Words of the user\<close>

definition own_account :: "paired_client \<Rightarrow> account_ref \<Rightarrow> bool" where
  "own_account client a \<longleftrightarrow>
     (case pc_kind client of AgentClient \<Rightarrow> acc_owner a = Some (pc_id client) | AppClient \<Rightarrow> acc_domain a = User)"

definition prompted :: "paired_client \<Rightarrow> string \<Rightarrow> string \<Rightarrow> event \<Rightarrow> bool" where
  "prompted client m summary c \<longleftrightarrow>
     c = Prompted \<lparr>ap_client_label = client_label client, ap_method = m, ap_summary = summary\<rparr> Approve"

definition agreed :: "'pt env \<Rightarrow> paired_client \<Rightarrow> string \<Rightarrow> string \<Rightarrow> event \<Rightarrow> bool" where
  "agreed V client m summary c \<longleftrightarrow> prompted client m summary c
     \<or> (\<exists>n. c = GrantUsed (pc_id client) m (e_clock V n) \<and> grant_active client (e_clock V n))"

text \<open>The same of one of the events so far.\<close>

definition prompted_in :: "paired_client \<Rightarrow> string \<Rightarrow> string \<Rightarrow> event list \<Rightarrow> bool" where
  "prompted_in client m summary seen \<longleftrightarrow> (\<exists>c \<in> set seen. prompted client m summary c)"

definition agreed_in :: "'pt env \<Rightarrow> paired_client \<Rightarrow> string \<Rightarrow> string \<Rightarrow> event list \<Rightarrow> bool" where
  "agreed_in V client m summary seen \<longleftrightarrow> (\<exists>c \<in> set seen. agreed V client m summary c)"

definition bounds_of :: "invoke_v3_params \<Rightarrow> fee_bounds" where
  "bounds_of ps = \<lparr>fb_l1_gas = p_l1_gas ps, fb_l2_gas = p_l2_gas ps, fb_l1_data_gas = p_l1_data_gas ps\<rparr>"

section \<open>A private payment\<close>

text \<open>
  The plan is made before the user is asked, from what the viewing key finds in the pool at the block that is proved
  at; the prompt names the account, the network, the pool, the intent, the number of actions, where it is proved and how
  it is submitted. Only then the invocation of that plan is signed.
\<close>

definition fixed_plan :: "'pt env \<Rightarrow> strk20_ctx \<Rightarrow> intent \<Rightarrow> u64 \<Rightarrow> felt \<Rightarrow> plan_result \<Rightarrow> bool" where
  "fixed_plan V cx it block user_sk p \<longleftrightarrow>
     (\<exists>se st rng.
        strk20_viewing_key_for (e_ext V) se (cx_account cx) (cx_chain cx) (cx_pool cx) = Ok user_sk
      \<and> discover_state (ctx_pool V cx (block_json block)) (cx_user cx) user_sk it = Ok st
      \<and> plan (ctx_pool V cx (block_json block)) it st rng = Ok p)"

text \<open>Which operation is asked for: the method with its intent, where it is proved, and the words on its submission.\<close>

definition purpose :: "string \<Rightarrow> intent \<Rightarrow> proving \<Rightarrow> string \<Rightarrow> bool" where
  "purpose m it proving submission \<longleftrightarrow>
     m = ''companion_strk20Register'' \<and> it = default_intent\<lparr>in_register := True\<rparr> \<and> proving = LocalProving
       \<and> submission = ''submitted from this account''
     \<or> m = ''wallet_strk20PrepareInvoke'' \<and> submission = ''returned to the caller unsubmitted''
     \<or> m = ''wallet_strk20InvokeTransaction'' \<and> in_transfers it = [] \<and> in_withdrawals it = []
       \<and> submission = ''submitted from this account''
     \<or> m = ''wallet_strk20InvokeTransaction'' \<and> proving = LocalProving
       \<and> (\<exists>fee. submission = relay_submission fee
            \<and> (fa_recipient fee, fa_token fee, fa_amount fee) \<in> set (in_withdrawals it))"

definition private_payment ::
  "'pt env \<Rightarrow> paired_client \<Rightarrow> event list \<Rightarrow> strk20_ctx \<Rightarrow> intent \<Rightarrow> proving \<Rightarrow> string \<Rightarrow> u64 \<Rightarrow> proof_invocation \<Rightarrow> bool" where
  "private_payment V client seen cx it proving submission block iv \<longleftrightarrow>
     own_account client (cx_account cx) \<and> stored_address (e_ext V) (cx_account cx) = Ok (cx_user cx)
   \<and> (\<exists>m native user_sk p nonce.
        purpose m it proving submission \<and> fixed_plan V cx it block user_sk p
      \<and> iv = proof_invocation_new (e_ext V) (cx_pool cx) (cx_chain cx) nonce (cx_user cx) user_sk (pl_actions p)
      \<and> agreed_in V client m
          (strk20_summary cx it (where_proved native proving) (length (pl_actions p)) submission) seen)"

text \<open>The signed invocation that a prover may see, its hand-over, and the call that its proof entitles to.\<close>

definition proof_ready ::
  "'pt env \<Rightarrow> paired_client \<Rightarrow> event list \<Rightarrow> strk20_ctx \<Rightarrow> intent \<Rightarrow> proving \<Rightarrow> string \<Rightarrow> u64 \<Rightarrow> json \<Rightarrow> bool" where
  "proof_ready V client seen cx it proving submission block tx \<longleftrightarrow>
     (\<exists>iv se sig. private_payment V client seen cx it proving submission block iv
      \<and> SignedHash (cx_account cx) (invocation_hash (e_ext V) iv) \<in> set seen
      \<and> sign_hash_for (e_ext V) se (cx_account cx) (invocation_hash (e_ext V) iv) = Ok sig
      \<and> tx = invocation_to_rpc_json iv sig)"

definition proof_event :: "strk20_ctx \<Rightarrow> proving \<Rightarrow> u64 \<Rightarrow> json \<Rightarrow> event" where
  "proof_event cx proving block tx =
     (case proving of
        LocalProving \<Rightarrow> LocalProof (JObj [(''transaction'', tx), (''block_number'', json_u64 block)])
                          (prover_network (cx_chain cx))
      | RemoteProving p \<Rightarrow> RemoteProof (describe_prover p) tx)"

definition paid_call ::
  "'pt env \<Rightarrow> paired_client \<Rightarrow> event list \<Rightarrow> strk20_ctx \<Rightarrow> intent \<Rightarrow> string \<Rightarrow> prepared \<Rightarrow> bool" where
  "paid_call V client seen cx it submission p \<longleftrightarrow>
     (\<exists>proving block tx result. proof_ready V client seen cx it proving submission block tx
      \<and> proof_event cx proving block tx \<in> set seen
      \<and> parse_result V result (cx_pool cx) = Ok (pp_proved p)
      \<and> apply_actions_call (e_ext V) (cx_pool cx) (pi_output (pp_proved p)) (pi_screening (pp_proved p))
          = Ok (pp_call p))"

text \<open>The approvals before the pool's call: per token what is deposited, and for STRK the pool's own fee on top.\<close>

definition exact_approvals :: "'pt env \<Rightarrow> strk20_ctx \<Rightarrow> (felt \<times> u128) list \<Rightarrow> (felt \<times> u128) list \<Rightarrow> bool" where
  "exact_approvals V cx deposits approvals \<longleftrightarrow>
     (\<exists>strk out fee. felt_from_hex (e_ext V) STRK = Some strk
      \<and> node_reader V (cx_node cx) (cx_pool cx) (JStr ''latest'')
          (get_selector_from_name (e_ext V) ''get_fee_amount'') [] = Ok out
      \<and> felt_to_word (case out of [] \<Rightarrow> 0 | f # _ \<Rightarrow> f) = Some (fee :: u128)
      \<and> distinct (map fst approvals)
      \<and> fst ` set approvals = fst ` set deposits \<union> (if 0 < fee then {strk} else {})
      \<and> (\<forall>(t, n) \<in> set approvals. int (unat n) = total deposits t + (if t = strk then int (unat fee) else 0)))"

definition pool_covers ::
  "'pt env \<Rightarrow> paired_client \<Rightarrow> event list \<Rightarrow> account_ref \<Rightarrow> call list \<Rightarrow> chain \<Rightarrow> invoke_v3_params \<Rightarrow> bool" where
  "pool_covers V client seen a calls chain ps \<longleftrightarrow>
     (\<exists>cx it p approvals. cx_account cx = a \<and> cx_chain cx = chain
      \<and> paid_call V client seen cx it ''submitted from this account'' p
      \<and> exact_approvals V cx (in_deposits it) approvals
      \<and> calls = map (\<lambda>(t, n). approve_call (e_ext V) t (cx_pool cx) n) approvals @ [pp_call p]
      \<and> p_proof_facts ps = pi_proof_facts (pp_proved p))"

text \<open>What goes over HTTP: to a remote prover the signed invocation and the questions after its job, to the relay the
  question for its fee, and the proved call.\<close>

definition prover_request :: "deposit_prover \<Rightarrow> chain \<Rightarrow> u64 \<Rightarrow> json \<Rightarrow> http_request \<Rightarrow> bool" where
  "prover_request prover chain block tx req \<longleftrightarrow>
     (let body = JObj [(''block_id'', block_json block), (''transaction'', tx)] in
      case prover of
        JsonRpcProver url _ \<Rightarrow> req = post_json url [] (rpc_body ''starknet_proveTransaction'' body)
      | StarkscanProver api_key \<Rightarrow>
          (let root = trim_end_slash STARKSCAN_API @ ''/v1/'' @ chain_slug chain @ ''/prove'' in
           (\<exists>k. req = post_json root [(''X-Starkscan-Api-Key'', api_key), (''Idempotency-Key'', k)] body)
         \<or> (\<exists>job. req = \<lparr>hr_url = root @ ''/'' @ job, hr_headers = [(''X-Starkscan-Api-Key'', api_key)], hr_body = None\<rparr>)))"

definition relay_of :: "strk20_ctx \<Rightarrow> felt \<Rightarrow> paymaster" where
  "relay_of cx strk =
     (let cfg = cx_cfg cx in
      paymaster_new (if trim (sk_paymaster_url cfg) = [] then default_paymaster_url (cx_chain cx)
                     else trim (sk_paymaster_url cfg)) (trim (sk_avnu_api_key cfg)) strk)"

definition relay_request :: "paymaster \<Rightarrow> string \<Rightarrow> (string \<times> json) list \<Rightarrow> http_request" where
  "relay_request pm m action =
     post_json (pm_url pm) [(''x-paymaster-api-key'', pm_api_key pm)]
       (rpc_body m (JObj [(''transaction'', JObj [(''type'', JStr ''apply_action''), (''apply_action'', JObj action)]),
                          (''parameters'', paymaster_parameters pm)]))"

definition http_covers :: "'pt env \<Rightarrow> paired_client \<Rightarrow> event list \<Rightarrow> http_request \<Rightarrow> bool" where
  "http_covers V client seen req \<longleftrightarrow>
     (\<exists>cx it prover submission block tx. proof_ready V client seen cx it (RemoteProving prover) submission block tx
        \<and> RemoteProof (describe_prover prover) tx \<in> set seen
        \<and> prover_request prover (cx_chain cx) block tx req)
   \<or> (\<exists>cx strk. own_account client (cx_account cx)
        \<and> req = relay_request (relay_of cx strk) ''paymaster_buildTransaction''
            [(''pool_address'', JStr (felt_0x (cx_pool cx)))])
   \<or> (\<exists>cx it strk fee p. paid_call V client seen cx it (relay_submission fee) p
        \<and> req = relay_request (relay_of cx strk) ''paymaster_executeTransaction''
            [(''apply_actions_call'', JObj [(''to'', JStr (felt_0x (call_to (pp_call p)))),
                (''selector'', JStr (felt_0x (call_selector (pp_call p)))),
                (''calldata'', felt_strs (call_calldata (pp_call p)))]),
             (''proof'', JStr (pi_proof (pp_proved p))), (''proof_facts'', felt_strs (pi_proof_facts (pp_proved p)))])"

section \<open>Consent\<close>

text \<open>
  The account is the caller's own, and the text the user approved is the text of exactly what was
  signed: account, network, calls, fee bounds. An active grant stands for the user except for a
  grant, a change of the wallet's configuration, and funding, which moves funds of a manager account
  into an account of the caller; these are always prompted.
\<close>

definition funding_covers :: "'pt env \<Rightarrow> paired_client \<Rightarrow> event list \<Rightarrow> account_ref \<Rightarrow> call list \<Rightarrow> chain \<Rightarrow> bool" where
  "funding_covers V client seen manager calls chain \<longleftrightarrow>
     (\<exists>amount index recipient token to se.
        own_account client recipient \<and> pc_kind client = AgentClient \<and> amount \<noteq> 0
        \<and> manager_account (e_ext V) se index = Ok manager
        \<and> stored_address (e_ext V) recipient = Ok to
        \<and> calls = [transfer_call (e_ext V) token to amount]
        \<and> prompted_in client ''companion_requestFunding''
            (funding_summary V client amount chain index manager recipient) seen)"

definition invoke_covers ::
  "'pt env \<Rightarrow> paired_client \<Rightarrow> event list \<Rightarrow> bool \<Rightarrow> account_ref \<Rightarrow> call list \<Rightarrow> chain \<Rightarrow> invoke_v3_params \<Rightarrow> bool" where
  "invoke_covers V client seen submit a calls chain ps \<longleftrightarrow>
     own_account client a \<and>
       (agreed_in V client ''wallet_addInvokeTransaction''
          (invoke_summary submit calls (p_proof_facts ps) a chain (bounds_of ps)) seen
        \<or> \<not> submit \<and> agreed_in V client ''companion_signAndProve'' (prove_summary calls a chain (bounds_of ps)) seen
        \<or> pool_covers V client seen a calls chain ps)
     \<or> funding_covers V client seen a calls chain"

text \<open>A job for the prover holds the transaction that was just signed for it, and no other.\<close>

definition job_covers :: "'pt env \<Rightarrow> paired_client \<Rightarrow> event list \<Rightarrow> json \<Rightarrow> string \<Rightarrow> bool" where
  "job_covers V client seen payload network \<longleftrightarrow>
     (\<exists>a calls chain nonce b se si addr params. own_account client a
        \<and> agreed_in V client ''companion_signAndProve'' (prove_summary calls a chain b) seen
        \<and> SignedInvoke a calls chain (fee_params nonce b []) \<in> set seen
        \<and> sign_invoke_for (e_ext V) se a calls chain (fee_params nonce b []) = Ok si
        \<and> stored_address (e_ext V) a = Ok addr
        \<and> payload = prove_payload (invoke_v3_tx_json addr (si_calldata si) (si_signature si) nonce b [] None) params
        \<and> network = prover_network chain)"

text \<open>
  What needs no word of the user: the prompts themselves, in the name of this client; the use of its grant; the reading
  of an own account's notes to plan a payment; and a fee estimate for an own account or, for an agent, a manager account.
\<close>

fun covers :: "'pt env \<Rightarrow> paired_client \<Rightarrow> event list \<Rightarrow> event \<Rightarrow> bool" where
  "covers V client seen (Prompted req d) \<longleftrightarrow> ap_client_label req = client_label client"
| "covers V client seen (GrantUsed cid m now_ms) \<longleftrightarrow>
     cid = pc_id client \<and> grant_active client now_ms \<and> (\<exists>n. now_ms = e_clock V n)"
| "covers V client seen (NotesRead a) \<longleftrightarrow> own_account client a"
| "covers V client seen (Simulated chain sender_addr encoded) \<longleftrightarrow>
     (\<exists>a. felt_from_hex (e_ext V) (acc_address a) = Some sender_addr
        \<and> (own_account client a
           \<or> pc_kind client = AgentClient \<and> (\<exists>se index. manager_account (e_ext V) se index = Ok a)))"
| "covers V client seen (SignedTypedData a td) \<longleftrightarrow>
     own_account client a \<and> agreed_in V client ''wallet_signTypedData'' (typed_data_summary a) seen"
| "covers V client seen (SignedInvoke a calls chain ps) \<longleftrightarrow>
     (\<exists>submit. invoke_covers V client seen submit a calls chain ps)"
| "covers V client seen (SignedDeclare a ch cch chain ps) \<longleftrightarrow>
     own_account client a \<and> (\<exists>submit. agreed_in V client ''wallet_addDeclareTransaction''
       (declare_summary submit ch a chain (bounds_of ps)) seen)"
| "covers V client seen (SignedDeploy a chain ps) \<longleftrightarrow>
     own_account client a \<and> (\<exists>submit. agreed_in V client ''companion_deployAccount''
       (deploy_summary submit a chain (bounds_of ps)) seen)"
| "covers V client seen (SignedHash a h) \<longleftrightarrow>
     (\<exists>cx it proving submission block iv. private_payment V client seen cx it proving submission block iv
        \<and> a = cx_account cx \<and> h = invocation_hash (e_ext V) iv)"
| "covers V client seen (LocalProof payload network) \<longleftrightarrow>
     (\<exists>cx it submission block tx. proof_ready V client seen cx it LocalProving submission block tx
        \<and> LocalProof payload network = proof_event cx LocalProving block tx)"
| "covers V client seen (RemoteProof who tx) \<longleftrightarrow>
     (\<exists>cx it p submission block. proof_ready V client seen cx it (RemoteProving p) submission block tx
        \<and> who = describe_prover p)"
| "covers V client seen (ProveQueued jid payload network) \<longleftrightarrow> job_covers V client seen payload network"
| "covers V client seen (HttpSent req) \<longleftrightarrow> http_covers V client seen req"
| "covers V client seen (BalancesRead a tokens) \<longleftrightarrow>
     own_account client a \<and> (\<exists>cx. cx_account cx = a
       \<and> agreed_in V client ''wallet_strk20Balances'' (balances_summary cx tokens) seen)"
| "covers V client seen (SentInvoke chain from_addr cd sg nonce b facts proof) \<longleftrightarrow>
     (\<exists>a calls se si. SignedInvoke a calls chain (fee_params nonce b facts) \<in> set seen
        \<and> invoke_covers V client seen True a calls chain (fee_params nonce b facts)
        \<and> stored_address (e_ext V) a = Ok from_addr
        \<and> sign_invoke_for (e_ext V) se a calls chain (fee_params nonce b facts) = Ok si
        \<and> cd = si_calldata si \<and> sg = si_signature si)"
| "covers V client seen (SentDeclare chain from_addr cch cc sg nonce b) \<longleftrightarrow>
     (\<exists>a cl se sd. SignedDeclare a (class_hash (e_ext V) cl) cch chain (fee_params nonce b []) \<in> set seen
        \<and> own_account client a
        \<and> agreed_in V client ''wallet_addDeclareTransaction'' (declare_summary True (class_hash (e_ext V) cl) a chain b) seen
        \<and> cc = class_to_rpc_json cl \<and> stored_address (e_ext V) a = Ok from_addr
        \<and> sign_declare_for (e_ext V) se a (class_hash (e_ext V) cl) cch chain (fee_params nonce b []) = Ok sd
        \<and> sg = sc_signature sd)"
| "covers V client seen (SentDeploy chain ch cd salt sg b) \<longleftrightarrow>
     (\<exists>a se sd. SignedDeploy a chain (fee_params 0 b []) \<in> set seen
        \<and> own_account client a
        \<and> agreed_in V client ''companion_deployAccount'' (deploy_summary True a chain b) seen
        \<and> sign_deploy_account_for (e_ext V) se a chain (fee_params 0 b []) = Ok sd
        \<and> ch = sd_class_hash sd \<and> cd = sd_constructor_calldata sd \<and> salt = sd_salt sd \<and> sg = sd_signature sd)"
| "covers V client seen (GrantGiven cid until) \<longleftrightarrow>
     cid = pc_id client \<and> (\<exists>days n. 1 \<le> days \<and> days \<le> 90
       \<and> unat until = unat (e_clock V n) + unat days * 86400000
       \<and> prompted_in client ''companion_requestGrant'' (grant_summary client days) seen)"
| "covers V client seen (ChainSwitched target) \<longleftrightarrow>
     prompted_in client ''wallet_switchStarknetChain'' (''Switch the wallet network to '' @ chain_name target) seen"
| "covers V client seen (AssetWatched asset) \<longleftrightarrow>
     (\<exists>symbol address. get_str asset ''address'' = Some address
        \<and> prompted_in client ''wallet_watchAsset'' (watch_summary symbol address) seen)"
| "covers V client seen (AccountCreated a) \<longleftrightarrow>
     acc_owner a = Some (pc_id client) \<and> pc_kind client = AgentClient
     \<and> agreed_in V client ''companion_createAgentAccount'' (create_summary (acc_label a)) seen"
| "covers V client seen (Paired before after) \<longleftrightarrow> False"
| "covers V client seen (Reattached found se before after) \<longleftrightarrow> False"

text \<open>Every event of the trace is covered by the events before it.\<close>

fun consented_after :: "'pt env \<Rightarrow> paired_client \<Rightarrow> event list \<Rightarrow> event list \<Rightarrow> bool" where
  "consented_after V client seen [] \<longleftrightarrow> True"
| "consented_after V client seen (e # es) \<longleftrightarrow> covers V client seen e \<and> consented_after V client (e # seen) es"

definition consented :: "'pt env \<Rightarrow> paired_client \<Rightarrow> event list \<Rightarrow> bool" where
  "consented V client es \<longleftrightarrow> consented_after V client [] es"

declare covers.simps [simp del]

section \<open>Rules\<close>

lemma bounds_of_fee_params [simp]: "bounds_of (fee_params n b f) = b" "p_proof_facts (fee_params n b f) = f"
  "p_nonce (fee_params n b f) = n"
  by (simp_all add: bounds_of_def fee_params_def)

lemma not_Reject: "d \<noteq> Reject \<longleftrightarrow> d = Approve"
  by (cases d) simp_all

lemma unless_rejected_simps [simp]:
  "unless_rejected Approve m = m" "unless_rejected Reject m = fail UserRefused"
  by (simp_all add: unless_rejected_def)

lemma emits_rejected [emits_rules]:
  "(d = Approve \<Longrightarrow> emits m T) \<Longrightarrow> (d = Reject \<Longrightarrow> T (Inl (Rpc UserRefused)) []) \<Longrightarrow> emits (unless_rejected d m) T"
  by (cases d) (auto intro: emits_fail)

lemma agreed_in_simps [simp]:
  "\<not> agreed_in V client m sm []" "\<not> prompted_in client m sm []"
  "agreed_in V client m sm (c # seen) \<longleftrightarrow> agreed V client m sm c \<or> agreed_in V client m sm seen"
  "prompted_in client m sm (c # seen) \<longleftrightarrow> prompted client m sm c \<or> prompted_in client m sm seen"
  "agreed_in V client m sm (seen @ seen') \<longleftrightarrow> agreed_in V client m sm seen \<or> agreed_in V client m sm seen'"
  by (auto simp: agreed_in_def prompted_in_def)

lemma agreed_simps [simp]:
  "agreed V client m sm (Prompted \<lparr>ap_client_label = client_label client, ap_method = m, ap_summary = sm\<rparr> Approve)"
  "prompted client m sm (Prompted \<lparr>ap_client_label = client_label client, ap_method = m, ap_summary = sm\<rparr> Approve)"
  by (simp_all add: agreed_def prompted_def)

lemma agreed_covers: "agreed V client m sm c \<Longrightarrow> covers V client seen c"
  by (auto simp: agreed_def prompted_def covers.simps)

lemma covers_prompt [simp]: "covers V client seen (Prompted req d) \<longleftrightarrow> ap_client_label req = client_label client"
  by (simp add: covers.simps)

lemma emits_bnd_gate [emits_rules]:
  assumes ok: "\<And>c. agreed V client m sm c \<Longrightarrow> emits (f Approve) (\<lambda>r es. T r (c # es))"
    and no: "emits (f Reject) (\<lambda>r es. T r
       (Prompted \<lparr>ap_client_label = client_label client, ap_method = m, ap_summary = sm\<rparr> Reject # es))"
  shows "emits (bnd (gated_approval V client m sm) f) T"
proof -
  let ?req = "\<lparr>ap_client_label = client_label client, ap_method = m, ap_summary = sm\<rparr>"
  have gate: "emits (gated_approval V client m sm) (\<lambda>r es. \<exists>d c. r = Inr d \<and> es = [c]
      \<and> (d = Approve \<and> agreed V client m sm c \<or> d = Reject \<and> c = Prompted ?req Reject))"
    unfolding emits_def gated_approval_def now_unix_ms_def request_approval_def
    by (auto simp: act_defs not_Reject agreed_def prompted_def split: if_splits)
  show ?thesis
    by (rule emits_bnd [OF gate]) (use ok no in auto)
qed

lemma scoped_for_own: "a \<in> set (scoped_for reg (scope_for client)) \<Longrightarrow> own_account client a"
  unfolding own_account_def by (rule scoped_for_scope)

lemma find_in_set: "List.find p xs = Some a \<Longrightarrow> a \<in> set xs"
  by (auto simp: find_Some_iff)

lemma scoped_account_own: "scoped_account se client want = Ok a \<Longrightarrow> own_account client a"
  unfolding scoped_account_def by (auto simp: result_simps intro: scoped_for_own dest: find_in_set)

lemma chosen_account_own: "chosen_account E given e se client = Ok a \<Longrightarrow> own_account client a"
proof -
  assume "chosen_account E given e se client = Ok a"
  then obtain reg where "a \<in> set (scoped_for reg (scope_for client))"
    unfolding chosen_account_def Let_def
    by (cases given; cases "session_registry se")
      (auto simp: result_simps dest: find_in_set split: list.splits, metis list.set_intros(1))
  then show ?thesis by (rule scoped_for_own)
qed

lemma yields_scoped: "yields (with_session V (\<lambda>se. scoped_account se client want)) a \<Longrightarrow> own_account client a"
  by (blast dest: yields_with_session scoped_account_own)

lemma yields_chosen: "yields (with_session V (\<lambda>se. chosen_account E given e se client)) a \<Longrightarrow> own_account client a"
  by (blast dest: yields_with_session chosen_account_own)

lemma silent_resolve [silent, simp]:
  "silent (resolve_chain V params)" "silent (resolve_nonce V chain sender_addr params)"
  "silent (refuse_deployed V chain account)" "silent (require_manager_deployed V chain manager s)"
  "silent (prover_or_err V)"
  unfolding resolve_chain_def resolve_nonce_def refuse_deployed_def require_manager_deployed_def prover_or_err_def
  by (auto intro!: silent split: option.split json.split)

text \<open>Resolving nonce and fee sends at most the calldata of a simulation.\<close>

lemma emits_resolve_exec:
  "emits (resolve_exec V chain sender_addr encoded params pc) (\<lambda>r es. es = [] \<or> es = [Simulated chain sender_addr encoded])"
proof -
  have "bnd (case given of Some b \<Rightarrow> ret b | None \<Rightarrow> m) (\<lambda>b. ret (n, b))
      = (case given of Some b \<Rightarrow> ret (n, b) | None \<Rightarrow> bnd m (\<lambda>b. ret (n, b)))" for given :: "fee_bounds option" and m and n :: felt
    by (cases given) simp_all
  then show ?thesis
    unfolding resolve_exec_def by (auto intro!: emits_rules intro: emits_silent split: option.split)
qed

lemma emits_bnd_exec [emits_rules]:
  assumes ok: "\<And>nonce b pre. pre = [] \<or> pre = [Simulated chain sender_addr encoded] \<Longrightarrow>
      emits (f (nonce, b)) (\<lambda>r es. T r (pre @ es))"
    and err: "\<And>e pre. pre = [] \<or> pre = [Simulated chain sender_addr encoded] \<Longrightarrow> T (Inl e) pre"
  shows "emits (bnd (resolve_exec V chain sender_addr encoded params pc) f) T"
proof (rule emits_bnd [OF emits_resolve_exec])
  fix x es assume "es = [] \<or> es = [Simulated chain sender_addr encoded]"
  then show "emits (f x) (\<lambda>r fs. T r (es @ fs))" using ok [of es "fst x" "snd x"] by simp
qed (use err in auto)

lemma consented_simps [simp]:
  "consented V client []"
  "consented V client (e # es) \<longleftrightarrow> covers V client [] e \<and> consented_after V client [e] es"
  by (simp_all add: consented_def)

lemma yields_signed:
  "yields (with_session V (\<lambda>se. sign_invoke_for E se a calls chain ps)) si
     \<Longrightarrow> \<exists>se. sign_invoke_for E se a calls chain ps = Ok si"
  "yields (with_session V (\<lambda>se. sign_declare_for E se a ch cch chain ps)) sd
     \<Longrightarrow> \<exists>se. sign_declare_for E se a ch cch chain ps = Ok sd"
  "yields (with_session V (\<lambda>se. sign_deploy_account_for E se a chain ps)) sp
     \<Longrightarrow> \<exists>se. sign_deploy_account_for E se a chain ps = Ok sp"
  "yields (with_session V (\<lambda>se. manager_account E se index)) m
     \<Longrightarrow> \<exists>se. manager_account E se index = Ok m"
  by (blast dest: yields_with_session)+

lemma stored_address_hex: "stored_address E a = Ok x \<longleftrightarrow> felt_from_hex E (acc_address a) = Some x"
  by (simp add: stored_address_def result_simps)

lemma covers_simulated:
  "own_account client a \<Longrightarrow> stored_address (e_ext V) a = Ok x \<Longrightarrow> covers V client seen (Simulated chain x encoded)"
  "pc_kind client = AgentClient \<Longrightarrow> manager_account (e_ext V) se index = Ok a \<Longrightarrow>
     felt_from_hex (e_ext V) (acc_address a) = Some x \<Longrightarrow> covers V client seen (Simulated chain x encoded)"
  unfolding covers.simps stored_address_hex by blast+

lemma covers_intros:
  "agreed_in V client ''wallet_signTypedData'' (typed_data_summary a) seen \<Longrightarrow> own_account client a
     \<Longrightarrow> covers V client seen (SignedTypedData a td)"
  "agreed_in V client ''wallet_addInvokeTransaction'' (invoke_summary True calls facts a chain b) seen
     \<or> agreed_in V client ''wallet_addInvokeTransaction'' (invoke_summary False calls facts a chain b) seen
     \<Longrightarrow> own_account client a \<Longrightarrow> covers V client seen (SignedInvoke a calls chain (fee_params n b facts))"
  "agreed_in V client ''companion_signAndProve'' (prove_summary calls a chain b) seen
     \<Longrightarrow> own_account client a \<Longrightarrow> covers V client seen (SignedInvoke a calls chain (fee_params n b []))"
  "agreed_in V client ''wallet_addDeclareTransaction'' (declare_summary True ch a chain b) seen
     \<or> agreed_in V client ''wallet_addDeclareTransaction'' (declare_summary False ch a chain b) seen
     \<Longrightarrow> own_account client a \<Longrightarrow> covers V client seen (SignedDeclare a ch cch chain (fee_params n b []))"
  "agreed_in V client ''companion_deployAccount'' (deploy_summary True a chain b) seen
     \<or> agreed_in V client ''companion_deployAccount'' (deploy_summary False a chain b) seen
     \<Longrightarrow> own_account client a \<Longrightarrow> covers V client seen (SignedDeploy a chain (fee_params n b []))"
  unfolding covers.simps invoke_covers_def bounds_of_fee_params by blast+

lemma covers_job:
  "sign_invoke_for (e_ext V) se a calls chain (fee_params n b []) = Ok si \<Longrightarrow> stored_address (e_ext V) a = Ok s \<Longrightarrow>
     own_account client a \<Longrightarrow> agreed_in V client ''companion_signAndProve'' (prove_summary calls a chain b) seen \<Longrightarrow>
     SignedInvoke a calls chain (fee_params n b []) \<in> set seen \<Longrightarrow>
     covers V client seen (ProveQueued jid
       (prove_payload (invoke_v3_tx_json s (si_calldata si) (si_signature si) n b [] None) params) (prover_network chain))"
  unfolding covers.simps job_covers_def by blast

lemma covers_sent:
  "sign_invoke_for (e_ext V) se a calls chain (fee_params n b f) = Ok si \<Longrightarrow> stored_address (e_ext V) a = Ok s
     \<Longrightarrow> SignedInvoke a calls chain (fee_params n b f) \<in> set seen
     \<Longrightarrow> invoke_covers V client seen True a calls chain (fee_params n b f)
     \<Longrightarrow> covers V client seen (SentInvoke chain s (si_calldata si) (si_signature si) n b f p)"
  "sign_deploy_account_for (e_ext V) se a chain (fee_params 0 b []) = Ok sp \<Longrightarrow> own_account client a
     \<Longrightarrow> SignedDeploy a chain (fee_params 0 b []) \<in> set seen
     \<Longrightarrow> agreed_in V client ''companion_deployAccount'' (deploy_summary True a chain b) seen
     \<Longrightarrow> covers V client seen
           (SentDeploy chain (sd_class_hash sp) (sd_constructor_calldata sp) (sd_salt sp) (sd_signature sp) b)"
  by (auto simp: covers.simps)

lemma declared_class_hash: "declared_class E pr params = Ok (Some k, ch) \<Longrightarrow> class_hash E k = ch"
  by (auto simp: declared_class_def result_simps Let_def split: option.splits if_splits)

lemma covers_sent_declare:
  "sign_declare_for (e_ext V) se a ch cch chain (fee_params n b []) = Ok sd
     \<Longrightarrow> stored_address (e_ext V) a = Ok s \<Longrightarrow> own_account client a
     \<Longrightarrow> declared_class (e_ext V) pr params = Ok (cl, ch) \<Longrightarrow> cl = Some k
     \<Longrightarrow> SignedDeclare a ch cch chain (fee_params n b []) \<in> set seen
     \<Longrightarrow> agreed_in V client ''wallet_addDeclareTransaction'' (declare_summary True ch a chain b) seen
     \<Longrightarrow> covers V client seen (SentDeclare chain s cch (class_to_rpc_json k) (sc_signature sd) n b)"
  unfolding covers.simps by (hypsubst, drule declared_class_hash, hypsubst) blast

lemma funding_coversI:
  assumes "own_account client recipient" "pc_kind client = AgentClient" "amount \<noteq> 0"
    "manager_account (e_ext V) se index = Ok manager"
    "stored_address (e_ext V) recipient = Ok to"
    "prompted_in client ''companion_requestFunding''
       (funding_summary V client amount chain index manager recipient) seen"
  shows "invoke_covers V client seen submit manager [transfer_call (e_ext V) token to amount] chain ps"
    "covers V client seen (SignedInvoke manager [transfer_call (e_ext V) token to amount] chain ps)"
  using assms unfolding covers.simps invoke_covers_def funding_covers_def by blast+

section \<open>The signing handlers\<close>

lemma invoke_coversI:
  "agreed_in V client ''wallet_addInvokeTransaction'' (invoke_summary submit calls facts a chain b) seen
     \<Longrightarrow> own_account client a \<Longrightarrow> invoke_covers V client seen submit a calls chain (fee_params n b facts)"
  by (simp add: invoke_covers_def)

lemmas handler_facts = covers_intros covers_job covers_sent covers_sent_declare funding_coversI invoke_coversI
  covers_simulated agreed_covers not_Reject

lemma sign_typed_data_consented:
  "emits (handle_sign_typed_data V client params) (\<lambda>r. consented V client)"
  unfolding handle_sign_typed_data_def
  by (auto intro!: emits_rules simp: handler_facts dest!: yields_scoped)

lemma add_invoke_consented:
  "emits (handle_add_invoke V client params) (\<lambda>r. consented V client)"
  unfolding handle_add_invoke_def sign_and_submit_def Let_def
  by (cases "wants_submit params") (auto intro!: emits_rules simp: handler_facts dest!: yields_scoped yields_signed)

lemma add_declare_consented:
  "emits (handle_add_declare V client params) (\<lambda>r. consented V client)"
  unfolding handle_add_declare_def Let_def
  by (auto intro!: emits_rules silent simp: handler_facts result_simps dest!: yields_scoped yields_signed)

lemma deploy_account_consented:
  "emits (handle_deploy_account V client params) (\<lambda>r. consented V client)"
  unfolding handle_deploy_account_def Let_def
  by (auto intro!: emits_rules silent simp: handler_facts dest!: yields_chosen yields_signed)

lemma request_funding_consented:
  "emits (handle_request_funding V client params) (\<lambda>r. consented V client)"
  unfolding handle_request_funding_def sign_and_submit_def Let_def bnd_simps bnd_if
  by (auto intro!: emits_rules simp: handler_facts result_simps dest!: yields_chosen yields_signed)

lemma emits_bnd_enqueue [emits_rules]:
  assumes ok: "\<And>jid. emits (f jid) (\<lambda>r es. T r (ProveQueued jid payload network # es))"
    and err: "\<And>e. T (Inl e) []"
  shows "emits (bnd (enqueue_job V payload label network) f) T"
  unfolding enqueue_job_def by (auto intro!: emits_rules ok err)

lemma sign_and_prove_consented:
  "emits (handle_sign_and_prove V client params) (\<lambda>r. consented V client)"
  unfolding handle_sign_and_prove_def Let_def
  by (auto intro!: emits_rules simp: handler_facts dest!: yields_scoped yields_signed)

text \<open>
  Signing for the prover, step by step: a prompt or a use of the grant, the signature, the job. An error leaves the first steps only; an answer names
  the job and the hash of the transaction that the caller described, with the caller's own fee bounds.
\<close>

definition prove_trace :: "'pt env \<Rightarrow> paired_client \<Rightarrow> json \<Rightarrow> rpc_failure + json \<Rightarrow> event list \<Rightarrow> bool" where
  "prove_trace V client params r es \<longleftrightarrow>
     (case r of
        Inl _ \<Rightarrow> es = [] \<or> (\<exists>c summary. es = [c] \<and> (agreed V client ''companion_signAndProve'' summary c
              \<or> c = Prompted \<lparr>ap_client_label = client_label client, ap_method = ''companion_signAndProve'', ap_summary = summary\<rparr> Reject))
          \<or> (\<exists>c a calls chain nonce b. es = [c, SignedInvoke a calls chain (fee_params nonce b [])]
               \<and> agreed V client ''companion_signAndProve'' (prove_summary calls a chain b) c)
      | Inr v \<Rightarrow> \<exists>c a calls chain nonce b se si sender_addr jid.
          es = [c, SignedInvoke a calls chain (fee_params nonce b []),
                ProveQueued jid (prove_payload (invoke_v3_tx_json sender_addr (si_calldata si) (si_signature si) nonce b [] None) params)
                  (prover_network chain)]
        \<and> agreed V client ''companion_signAndProve'' (prove_summary calls a chain b) c
        \<and> own_account client a \<and> stored_address (e_ext V) a = Ok sender_addr
        \<and> parse_calls (e_ext V) params = Ok calls \<and> opt_fee_bounds params = Ok (Some b)
        \<and> sign_invoke_for (e_ext V) se a calls chain (fee_params nonce b []) = Ok si
        \<and> get_str v ''job_id'' = Some jid \<and> get_str v ''transaction_hash'' = Some (felt_hex (si_transaction_hash si)))"

lemma prove_trace_Inl [simp]:
  "prove_trace V client params (Inl e) []"
  "agreed V client ''companion_signAndProve'' summary c \<Longrightarrow> prove_trace V client params (Inl e) [c]"
  "prove_trace V client params (Inl e) [Prompted \<lparr>ap_client_label = client_label client,
     ap_method = ''companion_signAndProve'', ap_summary = summary\<rparr> Reject]"
  "agreed V client ''companion_signAndProve'' (prove_summary calls a chain b) c \<Longrightarrow>
   prove_trace V client params (Inl e) [c, SignedInvoke a calls chain (fee_params nonce b [])]"
  by (simp_all add: prove_trace_def) blast+

lemma prove_trace_Inr:
  assumes "agreed V client ''companion_signAndProve'' (prove_summary calls a chain b) c" "own_account client a"
    "stored_address (e_ext V) a = Ok sender_addr" "parse_calls (e_ext V) params = Ok calls" "opt_fee_bounds params = Ok (Some b)"
    "sign_invoke_for (e_ext V) se a calls chain (fee_params nonce b []) = Ok si"
    "get_str v ''job_id'' = Some jid" "get_str v ''transaction_hash'' = Some (felt_hex (si_transaction_hash si))"
  shows "prove_trace V client params (Inr v)
    [c, SignedInvoke a calls chain (fee_params nonce b []),
     ProveQueued jid (prove_payload (invoke_v3_tx_json sender_addr (si_calldata si) (si_signature si) nonce b [] None) params)
       (prover_network chain)]"
  unfolding prove_trace_def sum.case using assms by blast

lemma sign_and_prove_trace: "emits (handle_sign_and_prove V client params) (prove_trace V client params)"
  unfolding handle_sign_and_prove_def Let_def
  by (auto intro!: emits_rules prove_trace_Inr simp: result_simps get_str_def dest!: yields_scoped yields_signed)

section \<open>The other handlers\<close>

lemma consented_after_append:
  "consented_after V client seen (es @ fs)
     \<longleftrightarrow> consented_after V client seen es \<and> consented_after V client (rev es @ seen) fs"
  by (induction es arbitrary: seen) auto

lemma silent_companion [silent, simp]:
  "silent (handle_deployment_data V client)" "silent (handle_accounts V client detailed)"
  "silent (handle_funding_source V)" "silent (handle_report_issue V client params)"
  "silent (handle_prove_status V params)" "silent (handle_proof_activity V)"
  unfolding handle_deployment_data_def handle_accounts_def handle_funding_source_def
    handle_report_issue_def handle_prove_status_def handle_proof_activity_def or_crash_def Let_def
  by (auto intro!: silent split: option.split)

text \<open>A transaction that the caller signed itself goes to the prover as it came, and nothing else happens.\<close>

definition only_proves :: "json \<Rightarrow> event list \<Rightarrow> bool" where
  "only_proves params es \<longleftrightarrow>
     es = [] \<or> (\<exists>jid. es = [ProveQueued jid
       (case json_get params ''payload'' of Some p \<Rightarrow> p | None \<Rightarrow> params)
       (case opt_param_str params ''network'' of Some n \<Rightarrow> n | None \<Rightarrow> ''mainnet'')])"

lemma prove_only: "emits (handle_prove V params) (\<lambda>r. only_proves params)"
  unfolding handle_prove_def Let_def by (auto intro!: emits_rules simp: only_proves_def)

lemma estimate_fee_consented: "emits (handle_estimate_fee V client params) (\<lambda>r. consented V client)"
  unfolding handle_estimate_fee_def Let_def
  by (auto intro!: emits_rules silent simp: covers_simulated dest!: yields_scoped)

lemma grant_days_bounds: "1 \<le> grant_days params" "grant_days params \<le> 90"
  by (simp_all add: grant_days_def Let_def)

lemma unat_grant_millis:
  assumes "(days :: u64) \<le> 90" shows "unat (days * 24 * 60 * 60 * 1000) = unat days * 86400000"
proof -
  have "unat days \<le> 90" using assms by (simp add: word_le_nat_alt)
  then have small: "unat days * 86400000 < 2 ^ 64" by simp
  have "days * 24 * 60 * 60 * 1000 = of_nat (unat days * 86400000)" by simp
  then show ?thesis using small by (simp only: unat_of_nat) (simp add: take_bit_nat_eq_self)
qed

lemma yields_now: "yields (now_unix_ms V) t \<Longrightarrow> \<exists>n. t = e_clock V n"
  by (auto simp: now_unix_ms_def yields_def at_step_def)

lemma yields_checked_add: "yields (checked_add a b) c \<Longrightarrow> unat c = unat a + unat b"
  by (auto simp: checked_add_def unat_word_ariths split: if_splits)

lemma request_grant_consented:
  "emits (handle_request_grant V client params) (\<lambda>r. consented V client)"
proof -
  note b = grant_days_bounds [of params]
  have covers: "covers V client [Prompted \<lparr>ap_client_label = client_label client,
        ap_method = ''companion_requestGrant'', ap_summary = grant_summary client (grant_days params)\<rparr> Approve]
      (GrantGiven (pc_id client) until)"
    if "yields (now_unix_ms V) now_ms"
      "yields (checked_add now_ms (grant_days params * 24 * 60 * 60 * 1000)) until" for now_ms until
    using yields_now [OF that(1)] yields_checked_add [OF that(2)] unat_grant_millis [OF b(2)] b
    by (auto simp: covers.simps intro!: exI [of _ "grant_days params"])
  show ?thesis
    unfolding handle_request_grant_def ask_client_def Let_def
    by (auto intro!: emits_rules simp: not_Reject covers)
qed

lemma switch_chain_consented:
  "emits (handle_switch_chain V client params) (\<lambda>r. consented V client)"
  unfolding handle_switch_chain_def ask_client_def Let_def
  by (auto intro!: emits_rules simp: not_Reject covers.simps)

lemma covers_watch:
  "get_str asset ''address'' = Some x \<Longrightarrow>
     covers V client [Prompted \<lparr>ap_client_label = client_label client, ap_method = ''wallet_watchAsset'',
       ap_summary = watch_summary s x\<rparr> Approve] (AssetWatched asset)"
  by (auto simp: covers.simps intro!: exI [of _ s])

lemma watch_asset_consented:
  "emits (handle_watch_asset V client params) (\<lambda>r. consented V client)"
  unfolding handle_watch_asset_def ask_client_def Let_def
  by (auto intro!: emits_rules simp: not_Reject covers_watch result_simps)

lemma create_and_persist_Ok:
  assumes "fst (create_and_persist V salt nonce out cid label sv) = Ok a"
  shows "acc_owner a = Some cid" "acc_label a = label"
  using assms unfolding create_and_persist_def create_agent_account_def
  by (auto split: prod.splits sum.splits option.splits elim!: create_account_Ok)

lemma create_agent_account_consented:
  "emits (handle_create_agent_account V client params) (\<lambda>r. consented V client)"
  unfolding handle_create_agent_account_def Let_def
  by (auto intro!: emits_rules simp: agreed_covers covers.simps create_and_persist_Ok dest!: yields_locked
      dest: create_and_persist_Ok [OF sym])

end
