(* ===== verification/Rpc_Consent_Strk20.thy ===== *)
theory Rpc_Consent_Strk20
  imports Rpc_Consent
begin

text \<open>
  The private operations of \<open>Rpc_Strk20\<close> are consented: the user is asked after the plan is fixed and
  before the pool invocation is signed; what is signed, handed to a prover, sent over HTTP and submitted is the
  invocation of that plan and the call that its proof entitles to.
\<close>

section \<open>More may be seen\<close>

text \<open>What covers an event still covers it when more has been seen.\<close>

lemma agreed_in_mono: "agreed_in V client m sm seen \<Longrightarrow> set seen \<subseteq> set seen' \<Longrightarrow> agreed_in V client m sm seen'"
  unfolding agreed_in_def by blast

lemma prompted_in_mono: "prompted_in client m sm seen \<Longrightarrow> set seen \<subseteq> set seen' \<Longrightarrow> prompted_in client m sm seen'"
  unfolding prompted_in_def by blast

lemma private_payment_mono:
  "private_payment V client seen cx it proving sub block iv \<Longrightarrow> set seen \<subseteq> set seen' \<Longrightarrow>
     private_payment V client seen' cx it proving sub block iv"
  unfolding private_payment_def by (blast intro: agreed_in_mono)

lemma proof_ready_mono:
  "proof_ready V client seen cx it proving sub block tx \<Longrightarrow> set seen \<subseteq> set seen' \<Longrightarrow>
     proof_ready V client seen' cx it proving sub block tx"
  unfolding proof_ready_def by (blast intro: private_payment_mono)

lemma paid_call_mono:
  "paid_call V client seen cx it sub p \<Longrightarrow> set seen \<subseteq> set seen' \<Longrightarrow> paid_call V client seen' cx it sub p"
  unfolding paid_call_def by (blast intro: proof_ready_mono)

lemma pool_covers_mono:
  "pool_covers V client seen a calls chain ps \<Longrightarrow> set seen \<subseteq> set seen' \<Longrightarrow> pool_covers V client seen' a calls chain ps"
  unfolding pool_covers_def by (blast intro: paid_call_mono)

lemma invoke_covers_mono:
  "invoke_covers V client seen submit a calls chain ps \<Longrightarrow> set seen \<subseteq> set seen' \<Longrightarrow>
     invoke_covers V client seen' submit a calls chain ps"
  unfolding invoke_covers_def funding_covers_def
  by (elim disjE conjE; blast intro: agreed_in_mono prompted_in_mono pool_covers_mono)

lemma job_covers_mono:
  "job_covers V client seen payload network \<Longrightarrow> set seen \<subseteq> set seen' \<Longrightarrow> job_covers V client seen' payload network"
  unfolding job_covers_def by (elim exE conjE, intro exI conjI) (assumption | blast intro: agreed_in_mono)+

lemma http_covers_mono:
  "http_covers V client seen req \<Longrightarrow> set seen \<subseteq> set seen' \<Longrightarrow> http_covers V client seen' req"
  unfolding http_covers_def by (elim disjE; blast intro: proof_ready_mono paid_call_mono)

lemma covers_mono:
  assumes "covers V client seen e" "set seen \<subseteq> set seen'" shows "covers V client seen' e"
  using assms
  by (cases e; simp only: covers.simps; blast intro: agreed_in_mono prompted_in_mono private_payment_mono
    proof_ready_mono invoke_covers_mono job_covers_mono http_covers_mono)

lemma consented_after_mono:
  "consented_after V client seen es \<Longrightarrow> set seen \<subseteq> set seen' \<Longrightarrow> consented_after V client seen' es"
proof (induction es arbitrary: seen seen')
  case (Cons e es)
  have "set (e # seen) \<subseteq> set (e # seen')" using Cons.prems(2) by auto
  with Cons show ?case by (auto intro: covers_mono)
qed simp

lemma consented_append:
  "consented V client (es @ fs) \<longleftrightarrow> consented V client es \<and> consented_after V client (rev es) fs"
  by (simp add: consented_def consented_after_append)

lemma consented_weaken: "consented V client es \<Longrightarrow> consented_after V client seen es"
  unfolding consented_def by (erule consented_after_mono) simp

section \<open>Reading\<close>

lemma silent_lift20 [silent, simp]: "silent (lift20 r)"
  by (simp add: silent_def lift20_def)

lemma yields_lift20 [simp]: "yields (lift20 r) x \<longleftrightarrow> r = Ok x"
  by (auto simp: yields_def lift20_def result_simps)

lemma silent_add_entries [silent, simp]:
  "silent (add_entry token amount m)" "silent (add_entries es m)"
proof -
  show "silent (add_entry token amount m)" for token amount m
    unfolding add_entry_def by (auto intro!: silent)
  then show "silent (add_entries es m)"
    by (induction es m rule: add_entries.induct) (auto intro!: silent_bnd)
qed

lemma silent_const_felt [silent, simp]: "silent (const_felt V s)"
  by (auto simp: const_felt_def split: option.split)

lemma silent_reads20 [silent, simp]:
  "silent (block_number node)" "silent (pool_for V cfg chain)" "silent (strk20_context V caller params)"
  "silent (viewing_key V cx)" "silent (pool_nonce_at V cx block)"
  "silent (pool_fee V cx)" "silent (public_balance V cx token)" "silent (on_jobs V f)"
  "silent (check_attestation V screening)"
  unfolding block_number_def pool_for_def strk20_context_def viewing_key_def
    pool_nonce_at_def pool_fee_def public_balance_def on_jobs_def check_attestation_def Let_def
  by (auto intro!: silent split: option.split)

lemma silent_funds [silent, simp]:
  "silent (require_funds V cx strk fee es)" "silent (check_public_funds V cx deposits)"
proof -
  show "silent (require_funds V cx strk fee es)" for strk fee es
    by (induction V cx strk fee es rule: require_funds.induct) (auto intro!: silent)
  then show "silent (check_public_funds V cx deposits)"
    unfolding check_public_funds_def by (auto intro!: silent)
qed

lemma caller_account_chosen:
  "caller_account E params se (RpcCaller client)
     = chosen_account E (opt_param_str params ''account_address'') Forbidden se client"
  unfolding caller_account_def chosen_account_def caller_scope_def Let_def
  by (cases "opt_param_str params ''account_address''") (simp_all add: bindE_def split: sum.split)

lemma yields_caller:
  "yields (with_session V (\<lambda>se. caller_account E params se (RpcCaller client))) a \<Longrightarrow> own_account client a"
  unfolding caller_account_chosen by (rule yields_chosen)

text \<open>The context of a private operation is of an account of the caller.\<close>

definition own_ctx :: "'pt env \<Rightarrow> paired_client \<Rightarrow> strk20_ctx \<Rightarrow> bool" where
  "own_ctx V client cx \<longleftrightarrow>
     own_account client (cx_account cx) \<and> stored_address (e_ext V) (cx_account cx) = Ok (cx_user cx)"

lemma yields_ctx: "yields (strk20_context V (RpcCaller client) params) cx \<Longrightarrow> own_ctx V client cx"
  unfolding strk20_context_def own_ctx_def by (auto dest!: yields_bnd yields_caller)

lemma yields_const_felt: "yields (const_felt V s) x \<Longrightarrow> felt_from_hex (e_ext V) s = Some x"
  by (auto simp: const_felt_def split: option.splits)

lemma emits_bnd_plan [emits_rules]:
  assumes ok: "\<And>block user_sk p. fixed_plan V cx it block user_sk p \<Longrightarrow>
      emits (f (block, user_sk, p)) (\<lambda>r es. T r (NotesRead (cx_account cx) # es))"
    and err: "\<And>e. T (Inl e) []" "\<And>e. T (Inl e) [NotesRead (cx_account cx)]"
  shows "emits (bnd (discover_and_plan V cx it) f) T"
proof -
  have key: "\<exists>se. strk20_viewing_key_for (e_ext V) se (cx_account cx) (cx_chain cx) (cx_pool cx) = Ok sk"
    if "yields (viewing_key V cx) sk" for sk
    using that unfolding viewing_key_def by (rule yields_with_session)
  show ?thesis
    unfolding discover_and_plan_def Let_def bnd_simps bnd_if
    by (auto intro!: emits_rules ok err dest!: key simp: fixed_plan_def)
qed

section \<open>What goes over HTTP\<close>

definition sends :: "(http_request \<Rightarrow> bool) \<Rightarrow> event list \<Rightarrow> bool" where
  "sends P es \<longleftrightarrow> (\<forall>e \<in> set es. \<exists>req. e = HttpSent req \<and> P req)"

lemma sends_simps [simp]:
  "sends P []" "sends P (HttpSent req # es) \<longleftrightarrow> P req \<and> sends P es" "sends P (es @ fs) \<longleftrightarrow> sends P es \<and> sends P fs"
  by (auto simp: sends_def)

lemma emits_bnd_sends:
  assumes "emits m (\<lambda>r. sends P)" "\<And>x es. sends P es \<Longrightarrow> yields m x \<Longrightarrow> emits (f x) (\<lambda>r fs. T r (es @ fs))"
    "\<And>e es. sends P es \<Longrightarrow> T (Inl e) es"
  shows "emits (bnd m f) T"
  by (rule emits_bnd [OF assms(1)]) (use assms(2,3) in auto)

lemma emits_bnd_at_step:
  assumes "\<And>x. emits (f x) T" shows "emits (bnd (at_step k) f) T"
  unfolding emits_def
proof
  fix s :: sys
  let ?s = "s\<lparr>sy_step := Suc (sy_step s)\<rparr>"
  obtain es where "sy_trace (snd (f (k (sy_step s)) ?s)) = sy_trace ?s @ es"
    "T (fst (f (k (sy_step s)) ?s)) es"
    using assms [unfolded emits_def, THEN spec, of "k (sy_step s)" ?s] by blast
  then show "\<exists>es. sy_trace (snd (bnd (at_step k) f s)) = sy_trace s @ es \<and> T (fst (bnd (at_step k) f s)) es"
    by (auto simp: bnd_def at_step_def)
qed

lemma emits_bnd_http [emits_rules]:
  assumes "\<And>reply. emits (f reply) (\<lambda>r es. T r (HttpSent req # es))"
  shows "emits (bnd (http_send V req) f) T"
  unfolding http_send_def bnd_simps
  by (rule emits_bnd_emit, rule emits_bnd_at_step, rule assms)

lemma emits_reply [emits_rules]:
  assumes "\<And>e. emits (f e) T" "\<And>n b. emits (g n b) T"
  shows "emits (case reply of NoAnswer e \<Rightarrow> f e | Answer n b \<Rightarrow> g n b) T"
  using assms by (cases reply) auto

lemma emits_option [emits_rules]:
  "emits m T \<Longrightarrow> (\<And>x. emits (f x) T) \<Longrightarrow> emits (case y of None \<Rightarrow> m | Some x \<Rightarrow> f x) T"
  by (cases y) auto

lemma relay_sends:
  "emits (paymaster_quote V pm pool user) (\<lambda>r. sends (\<lambda>req.
     req = relay_request pm ''paymaster_buildTransaction'' [(''pool_address'', JStr (felt_0x pool))]))"
  "emits (paymaster_execute V pm c proof facts) (\<lambda>r. sends (\<lambda>req.
     req = relay_request pm ''paymaster_executeTransaction''
            [(''apply_actions_call'', JObj [(''to'', JStr (felt_0x (call_to c))),
                (''selector'', JStr (felt_0x (call_selector c))), (''calldata'', felt_strs (call_calldata c))]),
             (''proof'', JStr proof), (''proof_facts'', felt_strs facts)]))"
  unfolding paymaster_quote_def paymaster_execute_def paymaster_rpc_def bnd_simps relay_request_def
  by (auto intro!: emits_rules)

lemma starkscan_poll_sends:
  assumes P: "\<And>job. P \<lparr>hr_url = root @ ''/'' @ job, hr_headers = [(''X-Starkscan-Api-Key'', api_key)], hr_body = None\<rparr>"
  shows "emits (starkscan_poll V fuel root api_key job_id) (\<lambda>r. sends P)"
proof (induction fuel)
  case 0
  show ?case by (auto intro: emits_silent)
next
  case (Suc fuel)
  then have step: "emits (starkscan_poll V fuel root api_key job_id) (\<lambda>r es. sends P (HttpSent
      \<lparr>hr_url = root @ ''/'' @ job, hr_headers = [(''X-Starkscan-Api-Key'', api_key)], hr_body = None\<rparr> # es))" for job
    using P by simp
  show ?case
    unfolding starkscan_poll.simps Let_def
    by (rule emits_bnd_http, rule emits_reply, (intro emits_if emits_option emits_ret step | simp add: P [simplified])+)
qed

lemma starkscan_submit_sends:
  assumes P: "\<And>job. P \<lparr>hr_url = root @ ''/'' @ job, hr_headers = [(''X-Starkscan-Api-Key'', api_key)], hr_body = None\<rparr>"
    and Q: "P (post_json root [(''X-Starkscan-Api-Key'', api_key), (''Idempotency-Key'', ikey)] body)"
  shows "emits (starkscan_submit V fuel n root api_key ikey body) (\<lambda>r. sends P)"
proof (induction n)
  case 0
  show ?case by (auto intro!: emits_rules)
next
  case (Suc n)
  have poll: "emits (bnd (starkscan_poll V fuel root api_key job_id) (\<lambda>r. case r of
      Some answer \<Rightarrow> ret answer | None \<Rightarrow> starkscan_submit V fuel n root api_key ikey body)) (\<lambda>r. sends P)" for job_id
    using Suc by (auto intro!: emits_bnd_sends [OF starkscan_poll_sends [where P = P, OF P]] emits_rules)
  then have step: "emits (bnd (starkscan_poll V fuel root api_key job_id) (\<lambda>r. case r of
      Some answer \<Rightarrow> ret answer | None \<Rightarrow> starkscan_submit V fuel n root api_key ikey body))
      (\<lambda>r es. sends P (HttpSent (post_json root [(''X-Starkscan-Api-Key'', api_key), (''Idempotency-Key'', ikey)] body) # es))"
    for job_id using Q by simp
  show ?case
    unfolding starkscan_submit.simps Let_def
    by (rule emits_bnd_http, rule emits_reply, (intro emits_if emits_option emits_ret step | simp add: Q)+)
qed

lemma remote_prove_sends:
  "emits (remote_prove V fuel p chain block tx) (\<lambda>r. sends (prover_request p chain block tx))"
proof (cases p)
  case (JsonRpcProver url label)
  then show ?thesis unfolding remote_prove_def prove_json_rpc_def
    by (auto intro!: emits_rules simp: prover_request_def)
next
  case (StarkscanProver k)
  then show ?thesis
    unfolding remote_prove_def prove_starkscan_def
    by (auto intro!: emits_rules starkscan_submit_sends simp: prover_request_def Let_def)
qed

section \<open>Proving\<close>

lemma bnd_unless_rejected [simp]: "bnd (unless_rejected d m) f = unless_rejected d (bnd m f)"
  by (simp add: unless_rejected_def)

lemma caller_approve_rpc:
  "bnd (caller_approve V (RpcCaller client) m summary) f
     = bnd (gated_approval V client m summary) (\<lambda>d. unless_rejected d (f ()))"
  by (simp add: caller_approve_def)

text \<open>The hand-over to the prover is the first event, and then come only the requests to that prover.\<close>

definition handed :: "strk20_ctx \<Rightarrow> proving \<Rightarrow> u64 \<Rightarrow> json \<Rightarrow> event list \<Rightarrow> bool" where
  "handed cx proving block tx es \<longleftrightarrow>
     (\<exists>fs. es = proof_event cx proving block tx # fs
      \<and> sends (\<lambda>req. \<exists>p. proving = RemoteProving p \<and> prover_request p (cx_chain cx) block tx req) fs)"

lemma run_prover_events:
  "emits (run_prover V cx m proving block user_sk tx)
     (\<lambda>r es. handed cx proving block tx es \<or> es = [] \<and> (\<exists>e. r = Inl e))"
proof (cases proving)
  case LocalProving
  then show ?thesis unfolding run_prover_def prove_locally_def handed_def proof_event_def
    by (auto intro!: emits_rules silent intro: emits_silent)
next
  case (RemoteProving p)
  have "emits (bnd (remote_prove V (e_patience V) p (cx_chain cx) block tx) (\<lambda>res.
      lift (map_err (remote_failure user_sk) res)))
      (\<lambda>r es. handed cx proving block tx (RemoteProof (describe_prover p) tx # es))"
    by (rule emits_bnd_sends [OF remote_prove_sends])
      (auto simp: handed_def proof_event_def RemoteProving intro!: emits_silent)
  then show ?thesis unfolding run_prover_def RemoteProving
    by (auto intro!: emits_bnd_emit simp: RemoteProving elim: emits_mono)
qed

definition answered :: "'pt env \<Rightarrow> strk20_ctx \<Rightarrow> rpc_failure + prepared \<Rightarrow> bool" where
  "answered V cx r \<longleftrightarrow> (\<forall>p. r = Ok p \<longrightarrow> (\<exists>result. parse_result V result (cx_pool cx) = Ok (pp_proved p)
     \<and> apply_actions_call (e_ext V) (cx_pool cx) (pi_output (pp_proved p)) (pi_screening (pp_proved p)) = Ok (pp_call p)))"

lemma prove_invocation_events:
  "emits (prove_invocation V cx m proving block user_sk tx)
     (\<lambda>r es. (handed cx proving block tx es \<or> es = [] \<and> (\<exists>e. r = Inl e)) \<and> answered V cx r)"
  unfolding prove_invocation_def
proof (rule emits_bnd [OF run_prover_events])
  fix result es
  assume "handed cx proving block tx es \<or> es = [] \<and> (\<exists>e. (Inr result :: rpc_failure + json) = Inl e)"
  then have es: "handed cx proving block tx es" by simp
  show "emits (bnd (lift (map_err (\<lambda>e. Unknown (scrub e user_sk)) (parse_result V result (cx_pool cx)))) (\<lambda>proved.
      bnd (lift20 (apply_actions_call (e_ext V) (cx_pool cx) (pi_output proved) (pi_screening proved))) (\<lambda>c.
      ret \<lparr>pp_call = c, pp_proved = proved\<rparr>)))
    (\<lambda>r fs. (handed cx proving block tx (es @ fs) \<or> es @ fs = [] \<and> (\<exists>e. r = Inl e)) \<and> answered V cx r)"
    by (auto intro!: emits_rules simp: es answered_def result_simps)
qed (auto simp: answered_def)

lemma covers_proof_event:
  "proof_ready V client seen cx it proving sub block tx \<Longrightarrow> covers V client seen (proof_event cx proving block tx)"
  by (cases proving; simp add: proof_event_def covers.simps; blast)

lemma sends_consented:
  assumes "proof_ready V client seen cx it proving sub block tx" "proof_event cx proving block tx \<in> set seen"
    and "sends (\<lambda>req. \<exists>p. proving = RemoteProving p \<and> prover_request p (cx_chain cx) block tx req) fs"
  shows "consented_after V client seen fs"
  using assms
proof (induction fs arbitrary: seen)
  case (Cons f fs)
  then obtain req p where f: "f = HttpSent req" "proving = RemoteProving p" "prover_request p (cx_chain cx) block tx req"
    by (auto simp: sends_def)
  have "covers V client seen f"
    using Cons.prems(1,2) f unfolding f(1) covers.simps http_covers_def by (auto simp: proof_event_def)
  moreover have "consented_after V client (f # seen) fs"
    using Cons.prems by (intro Cons.IH) (auto intro: proof_ready_mono simp: sends_def)
  ultimately show ?case by simp
qed simp

lemma handed_consented:
  assumes "proof_ready V client seen cx it proving sub block tx" "handed cx proving block tx es"
  shows "consented_after V client seen es"
proof -
  obtain fs where es: "es = proof_event cx proving block tx # fs"
    and fs: "sends (\<lambda>req. \<exists>p. proving = RemoteProving p \<and> prover_request p (cx_chain cx) block tx req) fs"
    using assms(2) unfolding handed_def by blast
  have "proof_ready V client (proof_event cx proving block tx # seen) cx it proving sub block tx"
    by (rule proof_ready_mono [OF assms(1)]) auto
  from sends_consented [OF this _ fs] show ?thesis unfolding es using covers_proof_event [OF assms(1)] by simp
qed

lemma handed_paid:
  assumes "proof_ready V client seen cx it proving sub block tx" "handed cx proving block tx es" "answered V cx (Ok p)"
  shows "paid_call V client (rev es @ seen) cx it sub p"
proof -
  have "proof_ready V client (rev es @ seen) cx it proving sub block tx" by (rule proof_ready_mono [OF assms(1)]) auto
  moreover have "proof_event cx proving block tx \<in> set (rev es @ seen)" using assms(2) by (auto simp: handed_def)
  ultimately show ?thesis using assms(3) unfolding paid_call_def answered_def by blast
qed

text \<open>A preparation is consented, and what it returns is paid for by its proof.\<close>

definition prepare_ok ::
  "'pt env \<Rightarrow> paired_client \<Rightarrow> strk20_ctx \<Rightarrow> intent \<Rightarrow> string \<Rightarrow> rpc_failure + prepared \<Rightarrow> event list \<Rightarrow> bool" where
  "prepare_ok V client cx it sub r es \<longleftrightarrow> consented V client es
     \<and> (\<forall>p. r = Ok p \<longrightarrow> paid_call V client (rev es) cx it sub p)"

lemma prepare_ok_Err [simp]: "prepare_ok V client cx it sub (Inl e) es \<longleftrightarrow> consented V client es"
  by (simp add: prepare_ok_def)

lemma prepare_consented:
  assumes own: "own_ctx V client cx" and why: "purpose m it proving sub"
  shows "emits (strk20_prepare V (RpcCaller client) m cx it proving sub) (prepare_ok V client cx it sub)"
proof -
  let ?notes = "NotesRead (cx_account cx)"
  have read: "covers V client seen ?notes" for seen using own by (simp add: covers.simps own_ctx_def)
  have tail: "emits (prove_invocation V cx m proving block user_sk (invocation_to_rpc_json iv sig))
      (\<lambda>r es. prepare_ok V client cx it sub r (?notes # c # SignedHash (cx_account cx) (invocation_hash (e_ext V) iv) # es))"
    if p: "fixed_plan V cx it block user_sk p"
      and iv: "iv = proof_invocation_new (e_ext V) (cx_pool cx) (cx_chain cx) nonce (cx_user cx) user_sk (pl_actions p)"
      and c: "agreed V client m (strk20_summary cx it (where_proved native proving) (length (pl_actions p)) sub) c"
      and sig: "yields (with_session V (\<lambda>se. sign_hash_for (e_ext V) se (cx_account cx) (invocation_hash (e_ext V) iv))) sig"
    for block user_sk p iv nonce native c sig
  proof (rule emits_mono [OF prove_invocation_events])
    let ?h = "SignedHash (cx_account cx) (invocation_hash (e_ext V) iv)"
    let ?tx = "invocation_to_rpc_json iv sig"
    have "agreed_in V client m (strk20_summary cx it (where_proved native proving) (length (pl_actions p)) sub) [c, ?notes]"
      using c by simp
    then have pay: "private_payment V client [c, ?notes] cx it proving sub block iv"
      using own why p iv unfolding private_payment_def own_ctx_def by blast
    then have hash: "covers V client [c, ?notes] ?h" unfolding covers.simps by blast
    have "private_payment V client [?h, c, ?notes] cx it proving sub block iv"
      by (rule private_payment_mono [OF pay]) auto
    moreover obtain se where "sign_hash_for (e_ext V) se (cx_account cx) (invocation_hash (e_ext V) iv) = Ok sig"
      using yields_with_session [OF sig] by blast
    ultimately have ready: "proof_ready V client [?h, c, ?notes] cx it proving sub block ?tx"
      unfolding proof_ready_def by auto
    fix r es
    assume es: "(handed cx proving block ?tx es \<or> es = [] \<and> (\<exists>e. r = Inl e)) \<and> answered V cx r"
    have "consented_after V client [?h, c, ?notes] es"
      using es handed_consented [OF ready] by auto
    then have "consented V client (?notes # c # ?h # es)" using read agreed_covers [OF c] hash by simp
    moreover have "paid_call V client (rev (?notes # c # ?h # es)) cx it sub p" if "r = Ok p" for p
      using es that handed_paid [OF ready, of es p] by auto
    ultimately show "prepare_ok V client cx it sub r (?notes # c # ?h # es)" by (simp add: prepare_ok_def)
  qed
  show ?thesis
    unfolding strk20_prepare_def caller_approve_rpc Let_def
    by (auto intro!: emits_rules tail simp: read agreed_covers)
qed

section \<open>Submitting\<close>

lemma yields_add_entry:
  assumes "yields (add_entry token amount m) m'"
  shows "m' = bt_insert token (bt_get_or 0 m token + amount) m"
    "uint (bt_get_or 0 m token + amount) = uint (bt_get_or 0 m token) + uint amount"
proof -
  have *: "m' = bt_insert token (bt_get_or 0 m token + amount) m
      \<and> unat (bt_get_or 0 m token + amount) = unat (bt_get_or 0 m token) + unat amount"
    using assms unfolding add_entry_def
    by (auto dest!: yields_bnd simp: checked_add_def unat_word_ariths split: if_splits)
  then show "m' = bt_insert token (bt_get_or 0 m token + amount) m" by blast
  have "int (unat (bt_get_or 0 m token + amount)) = int (unat (bt_get_or 0 m token)) + int (unat amount)"
    using * by (simp only: of_nat_add)
  then show "uint (bt_get_or 0 m token + amount) = uint (bt_get_or 0 m token) + uint amount" by simp
qed

text \<open>What adding entries to a map adds to each token.\<close>

definition entry_sum :: "(felt, u128) btree \<Rightarrow> felt \<Rightarrow> int" where
  "entry_sum m t = int (unat (bt_get_or 0 m t))"

lemma yields_add_entries:
  "yields (add_entries es m) m' \<Longrightarrow> bt_wf m \<Longrightarrow>
     bt_wf m' \<and> fst ` set m' = fst ` set m \<union> fst ` set es \<and> (\<forall>t. entry_sum m' t = entry_sum m t + total es t)"
proof (induction es m rule: add_entries.induct)
  case (1 m)
  then show ?case by (simp add: total_def)
next
  case (2 token amount es m)
  obtain m1 where m1: "yields (add_entry token amount m) m1" "yields (add_entries es m1) m'"
    using "2.prems"(1) by (auto dest: yields_bnd)
  have ih: "bt_wf m1 \<Longrightarrow> bt_wf m' \<and> fst ` set m' = fst ` set m1 \<union> fst ` set es
      \<and> (\<forall>t. entry_sum m' t = entry_sum m1 t + total es t)"
    using "2.IH" m1(2) by blast
  show ?case using yields_add_entry [OF m1(1)] ih "2.prems"(2)
    by (auto simp: set_bt_insert_keys entry_sum_def total_def)
qed

lemma exact_approvalsI:
  assumes fee: "node_reader V (cx_node cx) (cx_pool cx) (JStr ''latest'')
      (get_selector_from_name (e_ext V) ''get_fee_amount'') [] = Ok out"
      "felt_to_word (case out of [] \<Rightarrow> 0 | f # _ \<Rightarrow> f) = Some (fee :: u128)"
    and strk: "felt_from_hex (e_ext V) STRK = Some strk"
    and m: "yields (add_entries deposits []) m"
    and approvals: "yields (if 0 < fee then add_entry strk fee m else ret m) approvals"
  shows "exact_approvals V cx deposits approvals"
proof -
  note sum = yields_add_entries [OF m bt_wf_Nil]
  have step: "bt_wf approvals \<and> fst ` set approvals = fst ` set deposits \<union> (if 0 < fee then {strk} else {})
      \<and> (\<forall>t. entry_sum approvals t = total deposits t + (if t = strk then int (unat fee) else 0))"
  proof (cases "0 < fee")
    case True
    then have "yields (add_entry strk fee m) approvals" using approvals by simp
    from yields_add_entry [OF this] show ?thesis using sum True
      by (auto simp: set_bt_insert_keys entry_sum_def)
  next
    case False
    then have "fee = 0" using word_neq_0_conv by blast
    then show ?thesis using sum approvals by (auto simp: entry_sum_def)
  qed
  have "int (unat n) = entry_sum approvals t" if "(t, n) \<in> set approvals" for t n
    using that bt_entries [of approvals t n] step by (simp add: entry_sum_def bt_get_or_def)
  then show ?thesis unfolding exact_approvals_def using fee strk step bt_wf_distinct [of approvals]
    by (intro exI [of _ strk] exI [of _ out] exI [of _ fee]) auto
qed

lemma exact_approvals_fee:
  "node_reader V (cx_node cx) (cx_pool cx) (JStr ''latest'')
      (get_selector_from_name (e_ext V) ''get_fee_amount'') [] = Ok out \<Longrightarrow>
    felt_to_word (case out of [] \<Rightarrow> 0 | f # _ \<Rightarrow> f) = Some (fee :: u128) \<Longrightarrow>
    felt_from_hex (e_ext V) STRK = Some strk \<Longrightarrow> yields (add_entries deposits []) m \<Longrightarrow>
    0 < fee \<Longrightarrow> yields (add_entry strk fee m) approvals \<Longrightarrow> exact_approvals V cx deposits approvals"
  by (rule exact_approvalsI, assumption+, subst if_P, assumption+)

lemma exact_approvals_no_fee:
  "node_reader V (cx_node cx) (cx_pool cx) (JStr ''latest'')
      (get_selector_from_name (e_ext V) ''get_fee_amount'') [] = Ok out \<Longrightarrow>
    felt_to_word (case out of [] \<Rightarrow> 0 | f # _ \<Rightarrow> f) = Some (fee :: u128) \<Longrightarrow>
    felt_from_hex (e_ext V) STRK = Some strk \<Longrightarrow> yields (add_entries deposits []) m \<Longrightarrow> \<not> 0 < fee \<Longrightarrow>
    exact_approvals V cx deposits m"
  by (rule exact_approvalsI, assumption+, subst if_not_P, assumption, simp only: yields_basic)

lemma yields_pool_fee:
  assumes "yields (pool_fee V cx) fee"
  obtains out where "node_reader V (cx_node cx) (cx_pool cx) (JStr ''latest'')
      (get_selector_from_name (e_ext V) ''get_fee_amount'') [] = Ok out"
    "felt_to_word (case out of [] \<Rightarrow> 0 | f # _ \<Rightarrow> f) = Some fee"
  using assms unfolding pool_fee_def by (auto dest!: yields_bnd simp: result_simps)

text \<open>The submission that follows a proved preparation.\<close>

lemma submit_consented:
  assumes own: "own_ctx V client cx"
    and paid: "paid_call V client seen cx it ''submitted from this account'' p" and d: "deposits = in_deposits it"
  shows "emits (submit_from_account V cx p deposits) (\<lambda>r. consented_after V client seen)"
proof -
  have acc: "own_account client (cx_account cx)" "stored_address (e_ext V) (cx_account cx) = Ok (cx_user cx)"
    using own by (simp_all add: own_ctx_def)
  have calls: "invoke_covers V client seen' submit (cx_account cx) (submission_calls V cx p approvals) (cx_chain cx)
      (fee_params nonce b (pi_proof_facts (pp_proved p)))"
    if "exact_approvals V cx deposits approvals" "set seen \<subseteq> set seen'" for seen' submit approvals nonce b
  proof -
    have "pool_covers V client seen' (cx_account cx) (submission_calls V cx p approvals) (cx_chain cx)
        (fee_params nonce b (pi_proof_facts (pp_proved p)))"
      using that(1) paid_call_mono [OF paid that(2)] unfolding pool_covers_def submission_calls_def d by auto
    then show ?thesis using acc(1) by (simp add: invoke_covers_def)
  qed
  have sim: "covers V client seen (Simulated (cx_chain cx) (cx_user cx) cd)" for cd
    using covers_simulated(1) [OF acc] .
  have signed: "covers V client (Simulated (cx_chain cx) (cx_user cx) cd # seen)
      (SignedInvoke (cx_account cx) (submission_calls V cx p approvals) (cx_chain cx)
        (fee_params nonce b (pi_proof_facts (pp_proved p))))"
    if "exact_approvals V cx deposits approvals" for cd approvals nonce b
    unfolding covers.simps by (intro exI calls [OF that]) auto
  have sent: "covers V client (SignedInvoke (cx_account cx) (submission_calls V cx p approvals) (cx_chain cx)
        (fee_params nonce b (pi_proof_facts (pp_proved p))) # Simulated (cx_chain cx) (cx_user cx) cd # seen)
      (SentInvoke (cx_chain cx) (cx_user cx) (si_calldata si) (si_signature si) nonce b (pi_proof_facts (pp_proved p)) pr)"
    if "exact_approvals V cx deposits approvals"
      and "sign_invoke_for (e_ext V) se (cx_account cx) (submission_calls V cx p approvals) (cx_chain cx)
        (fee_params nonce b (pi_proof_facts (pp_proved p))) = Ok si" for cd approvals nonce b se si pr
    by (intro covers_sent(1) [OF that(2) acc(2)] calls [OF that(1)]) auto
  show ?thesis
    unfolding submit_from_account_def Let_def
    by (auto intro!: emits_rules silent simp: sim dest!: yields_signed yields_const_felt elim!: yields_pool_fee)
      ((rule signed | rule sent), (rule exact_approvals_fee; assumption | rule exact_approvals_no_fee; assumption), assumption?)+
qed

lemma prepare_submit_consented:
  assumes own: "own_ctx V client cx" and why: "purpose m it proving ''submitted from this account''"
    and d: "deposits = in_deposits it"
  shows "emits (bnd (strk20_prepare V (RpcCaller client) m cx it proving ''submitted from this account'')
      (\<lambda>p. bnd (submit_from_account V cx p deposits) (\<lambda>h. ret (g h)))) (\<lambda>r. consented V client)"
proof (rule emits_bnd [OF prepare_consented [OF own why]])
  fix p es assume ok: "prepare_ok V client cx it ''submitted from this account'' (Inr p) es"
  then have "paid_call V client (rev es) cx it ''submitted from this account'' p" by (simp add: prepare_ok_def)
  from submit_consented [OF own this d]
  show "emits (bnd (submit_from_account V cx p deposits) (\<lambda>h. ret (g h))) (\<lambda>r fs. consented V client (es @ fs))"
    by (rule emits_bnd) (use ok in \<open>auto intro!: emits_rules simp: consented_append prepare_ok_def\<close>)
qed simp

section \<open>The handlers\<close>

lemma balances_consented:
  "emits (strk20_balances V (RpcCaller client) params) (\<lambda>r. consented V client)"
  unfolding strk20_balances_def caller_approve_rpc Let_def
  by (auto intro!: emits_rules silent simp: covers.simps agreed_covers own_ctx_def dest!: yields_ctx)

lemma register_consented:
  "emits (strk20_register V (RpcCaller client) params) (\<lambda>r. consented V client)"
  unfolding strk20_register_def
  by (auto intro!: emits_rules silent prepare_submit_consented dest!: yields_ctx
      simp: purpose_def default_intent_def)

lemma prepare_invoke_consented:
  "emits (strk20_prepare_invoke V (RpcCaller client) params) (\<lambda>r. consented V client)"
proof -
  have "emits (bnd (strk20_prepare V (RpcCaller client) ''wallet_strk20PrepareInvoke'' cx it proving
        ''returned to the caller unsubmitted'') (\<lambda>p. ret (g p))) (\<lambda>r. consented V client)"
    if "own_ctx V client cx" for cx it proving g
    by (rule emits_bnd [OF prepare_consented [OF that]])
      (auto intro!: emits_rules simp: prepare_ok_def purpose_def)
  then show ?thesis unfolding strk20_prepare_invoke_def Let_def
    by (intro emits_bnd_silent [OF silent_basic(4)] emits_bnd_silent [OF silent_reads20(3)])
      (auto dest!: yields_ctx)
qed

lemma push_deposits:
  "\<forall>a \<in> set acts. is_deposit_action a \<Longrightarrow>
     in_transfers (foldl push_action it acts) = in_transfers it
     \<and> in_withdrawals (foldl push_action it acts) = in_withdrawals it"
proof (induction acts arbitrary: it)
  case (Cons a acts)
  then show ?case by (cases a) auto
qed simp

lemma invoke_deposit_consented:
  assumes "own_ctx V client cx"
  shows "emits (invoke_deposit V (RpcCaller client) cx acts) (\<lambda>r. consented V client)"
proof -
  have "purpose ''wallet_strk20InvokeTransaction'' (intent_of acts) proving ''submitted from this account''"
    if "\<not> list_ex (\<lambda>a. \<not> is_deposit_action a) acts" for proving
    using that push_deposits [of acts default_intent]
    by (auto simp: purpose_def intent_of_def default_intent_def list_ex_iff)
  then show ?thesis unfolding invoke_deposit_def Let_def
    by (auto intro!: emits_rules silent prepare_submit_consented [OF assms])
qed

text \<open>The relay is asked for its fee before the prompt, and sent the proved call after it.\<close>

lemma consented_after_sends:
  assumes "sends P es" "\<And>req seen'. P req \<Longrightarrow> set seen \<subseteq> set seen' \<Longrightarrow> http_covers V client seen' req"
  shows "consented_after V client seen es"
  using assms
proof (induction es arbitrary: seen)
  case (Cons e es)
  then obtain req where e: "e = HttpSent req" "P req" by (auto simp: sends_def)
  have "consented_after V client (e # seen) es"
    using Cons.prems by (intro Cons.IH) (auto simp: sends_def)
  then show ?case using e Cons.prems(2) by (simp add: covers.simps)
qed simp

lemma invoke_relayed_consented:
  assumes own: "own_ctx V client cx"
  shows "emits (invoke_relayed V (RpcCaller client) cx acts) (\<lambda>r. consented V client)"
proof -
  have acc: "own_account client (cx_account cx)" using own by (simp add: own_ctx_def)
  have pay: "emits (bnd (paymaster_execute V (relay_of cx strk) (pp_call p) (pi_proof (pp_proved p))
          (pi_proof_facts (pp_proved p))) (\<lambda>r. bnd (lift (f r)) (\<lambda>h. ret (g h))))
      (\<lambda>r fs. consented V client (es @ fs))"
    if ok: "consented V client es" "paid_call V client (rev es) cx it (relay_submission fee) p" for strk it fee p es f g
  proof (rule emits_bnd_sends [OF relay_sends(2)])
    fix r fs
    assume "sends (\<lambda>req. req = relay_request (relay_of cx strk) ''paymaster_executeTransaction''
            [(''apply_actions_call'', JObj [(''to'', JStr (felt_0x (call_to (pp_call p)))),
                (''selector'', JStr (felt_0x (call_selector (pp_call p)))),
                (''calldata'', felt_strs (call_calldata (pp_call p)))]),
             (''proof'', JStr (pi_proof (pp_proved p))), (''proof_facts'', felt_strs (pi_proof_facts (pp_proved p)))]) fs"
    then have "consented_after V client (rev es) fs"
      by (rule consented_after_sends) (use paid_call_mono [OF ok(2)] in \<open>unfold http_covers_def, blast\<close>)
    then have fs: "consented V client (es @ fs)" using ok(1) by (simp add: consented_append)
    then show "emits (bnd (lift (f r)) (\<lambda>h. ret (g h))) (\<lambda>r gs. consented V client (es @ fs @ gs))" for r
      by (auto intro!: emits_rules)
    show "consented V client (es @ fs)" by (rule fs)
  qed
  have rest: "emits (bnd (map_fail k (strk20_prepare V (RpcCaller client) ''wallet_strk20InvokeTransaction'' cx
          (it\<lparr>in_withdrawals := in_withdrawals it @ [(fa_recipient fee, fa_token fee, fa_amount fee)]\<rparr>)
          LocalProving (relay_submission fee)))
      (\<lambda>p. bnd (paymaster_execute V (relay_of cx strk) (pp_call p) (pi_proof (pp_proved p)) (pi_proof_facts (pp_proved p)))
        (\<lambda>r. bnd (lift (f r)) (\<lambda>h. ret (g h))))) (\<lambda>r es. consented V client (pre @ es))"
    if pre: "\<And>es. consented V client es \<Longrightarrow> consented V client (pre @ es)" for k it fee strk f g pre
  proof (rule emits_mono [where T = "\<lambda>r. consented V client"])
    let ?it = "it\<lparr>in_withdrawals := in_withdrawals it @ [(fa_recipient fee, fa_token fee, fa_amount fee)]\<rparr>"
    have "purpose ''wallet_strk20InvokeTransaction'' ?it LocalProving (relay_submission fee)"
      by (auto simp: purpose_def)
    then have "emits (map_fail k (strk20_prepare V (RpcCaller client) ''wallet_strk20InvokeTransaction'' cx ?it
        LocalProving (relay_submission fee))) (prepare_ok V client cx ?it (relay_submission fee))"
      by (intro emits_map_fail emits_mono [OF prepare_consented [OF own]])
        (auto simp: prepare_ok_def elim!: map_failure.elims)
    then show "emits (bnd (map_fail k (strk20_prepare V (RpcCaller client) ''wallet_strk20InvokeTransaction'' cx ?it
          LocalProving (relay_submission fee)))
      (\<lambda>p. bnd (paymaster_execute V (relay_of cx strk) (pp_call p) (pi_proof (pp_proved p)) (pi_proof_facts (pp_proved p)))
        (\<lambda>r. bnd (lift (f r)) (\<lambda>h. ret (g h))))) (\<lambda>r. consented V client)"
      by (rule emits_bnd) (auto simp: prepare_ok_def intro: pay)
  qed (rule pre)
  have quoted: "emits (bnd (paymaster_quote V (relay_of cx strk) (cx_pool cx) user) (\<lambda>q. bnd (lift (map_err Unknown q)) (\<lambda>fee.
      bnd (map_fail (k fee) (strk20_prepare V (RpcCaller client) ''wallet_strk20InvokeTransaction'' cx
          (it\<lparr>in_withdrawals := in_withdrawals it @ [(fa_recipient fee, fa_token fee, fa_amount fee)]\<rparr>)
          LocalProving (relay_submission fee)))
      (\<lambda>p. bnd (paymaster_execute V (relay_of cx strk) (pp_call p) (pi_proof (pp_proved p)) (pi_proof_facts (pp_proved p)))
        (\<lambda>r. bnd (lift (f r)) (\<lambda>h. ret (g h))))))) (\<lambda>r. consented V client)" for k it strk f g user
  proof (rule emits_bnd_sends [OF relay_sends(1)])
    fix q es
    assume "sends (\<lambda>req. req = relay_request (relay_of cx strk) ''paymaster_buildTransaction''
        [(''pool_address'', JStr (felt_0x (cx_pool cx)))]) es"
    then have es: "consented V client es"
      unfolding consented_def by (rule consented_after_sends) (use acc in \<open>unfold http_covers_def, blast\<close>)
    then have pre: "consented V client (es @ fs)" if "consented V client fs" for fs
      using that consented_weaken unfolding consented_append by blast
    show "emits (bnd (lift (map_err Unknown q)) (\<lambda>fee.
      bnd (map_fail (k fee) (strk20_prepare V (RpcCaller client) ''wallet_strk20InvokeTransaction'' cx
          (it\<lparr>in_withdrawals := in_withdrawals it @ [(fa_recipient fee, fa_token fee, fa_amount fee)]\<rparr>)
          LocalProving (relay_submission fee)))
      (\<lambda>p. bnd (paymaster_execute V (relay_of cx strk) (pp_call p) (pi_proof (pp_proved p)) (pi_proof_facts (pp_proved p)))
        (\<lambda>r. bnd (lift (f r)) (\<lambda>h. ret (g h)))))) (\<lambda>r fs. consented V client (es @ fs))" for q
      by (rule emits_bnd_silent [OF silent_basic(4)], rule rest, rule pre) (use es in auto)
    show "consented V client es" by (rule es)
  qed
  show ?thesis
    unfolding invoke_relayed_def Let_def relay_of_def [unfolded Let_def, symmetric]
    by (intro emits_if emits_fail emits_bnd_silent [OF silent_const_felt] quoted) simp_all
qed

lemma invoke_transaction_consented:
  "emits (strk20_invoke_transaction V (RpcCaller client) params) (\<lambda>r. consented V client)"
  unfolding strk20_invoke_transaction_def
  by (intro emits_bnd_silent [OF silent_basic(4)] emits_bnd_silent [OF silent_reads20(3)] emits_if)
    (auto dest!: yields_ctx intro!: invoke_deposit_consented invoke_relayed_consented)

end
