(* ===== verification/Rpc_Server.thy ===== *)
theory Rpc_Server
  imports Rpc_Error Rpc_Auth
begin

text \<open>
  \<open>crates/wallet-rpc/src/server.rs\<close>: the loopback transport. Headers are name/value pairs with
  lowercase names; a value is a string of its bytes. \<open>rpc_handler\<close> takes the JSON parser of the body and the dispatcher
  as arguments and returns the HTTP status with the response. \<open>loopback_spec\<close> describes the
  accepted \<open>Host\<close> values.
\<close>

type_synonym headers = "(string \<times> string) list"

text \<open>\<open>HeaderValue::to_str\<close>: visible ASCII and tab only.\<close>

definition header_to_str :: "string \<Rightarrow> string option" where
  "header_to_str v =
     (if \<forall>c \<in> set v. (let n = of_char c :: nat in (32 \<le> n \<and> n < 127) \<or> n = 9) then Some v else None)"

definition header_get :: "headers \<Rightarrow> string \<Rightarrow> string option" where
  "header_get hs name = map_of hs name"

definition contains_key :: "headers \<Rightarrow> string \<Rightarrow> bool" where
  "contains_key hs name \<longleftrightarrow> header_get hs name \<noteq> None"

definition bearer :: "headers \<Rightarrow> string option" where
  "bearer hs =
     Option.bind (header_get hs ''authorization'') (\<lambda>v.
     Option.bind (header_to_str v) (\<lambda>raw.
     Some (case strip_prefix ''Bearer '' raw of Some t \<Rightarrow> t | None \<Rightarrow> raw)))"

definition is_loopback_host :: "string \<Rightarrow> bool" where
  "is_loopback_host host =
     (let h = (case strip_prefix ''['' host of
                 Some rest \<Rightarrow> takeWhile (\<lambda>c. c \<noteq> CHR '']'') rest
               | None \<Rightarrow>
                   if length (filter (\<lambda>c. c = CHR '':'') host) = 1
                   then takeWhile (\<lambda>c. c \<noteq> CHR '':'') host
                   else host)
      in h = ''127.0.0.1'' \<or> h = ''localhost'' \<or> h = ''::1'')"

definition transport_guard :: "headers \<Rightarrow> string + unit" where
  "transport_guard hs =
     (if contains_key hs ''origin'' \<or> contains_key hs ''referer''
      then Err ''Origin/Referer header not allowed''
      else case Option.bind (header_get hs ''host'') header_to_str of
        None \<Rightarrow> Err ''Host must be loopback''
      | Some h \<Rightarrow>
          if \<not> is_loopback_host h then Err ''Host must be loopback''
          else (case Option.bind (header_get hs ''x-companion-client'') header_to_str of
              None \<Rightarrow> Err ''missing X-Companion-Client header''
            | Some v \<Rightarrow> if v = [] then Err ''missing X-Companion-Client header'' else Ok ()))"

definition rpc_handler ::
  "(bytes \<Rightarrow> request option) \<Rightarrow> ('s \<Rightarrow> string option \<Rightarrow> request \<Rightarrow> response option \<times> 's)
     \<Rightarrow> 's \<Rightarrow> headers \<Rightarrow> bytes \<Rightarrow> (nat \<times> response) option \<times> 's" where
  "rpc_handler from_slice dispatch s hs body =
     (case transport_guard hs of
        Inl reason \<Rightarrow> (Some (403, response_err JNull (error_object (TransportRejected reason))), s)
      | Inr _ \<Rightarrow>
          (case from_slice body of
             None \<Rightarrow> (Some (200, response_err JNull (error_object Parse)), s)
           | Some req \<Rightarrow> (let (r, s') = dispatch s (bearer hs) req in (map_option (Pair 200) r, s'))))"

section \<open>The port lock\<close>

definition write_port_lock_doc :: "u16 \<Rightarrow> bytes \<Rightarrow> json" where
  "write_port_lock_doc port nonce =
     JObj [(''port'', json_u64 (ucast port)), (''nonce'', JStr (hex_encode nonce))]"

text \<open>\<open>try_into::<u16>\<close> of the \<open>u64\<close>; the file's parse is the argument.\<close>

definition read_locked_port :: "json option \<Rightarrow> u16 option" where
  "read_locked_port file =
     Option.bind file (\<lambda>d. Option.bind (get_u64 d ''port'') (\<lambda>n.
     if unat n < 2 ^ 16 then Some (ucast n) else None))"

text \<open>\<open>bind_sticky\<close>: \<open>try_bind p\<close> says whether port \<open>p\<close> is free, \<open>ephemeral\<close> is the OS's choice or its error.\<close>

definition bind_sticky :: "(u16 \<Rightarrow> bool) \<Rightarrow> string + u16 \<Rightarrow> u16 option \<Rightarrow> string + u16" where
  "bind_sticky try_bind ephemeral port =
     (case port of
        Some p \<Rightarrow> if p \<noteq> 0 \<and> try_bind p then Ok p else ephemeral
      | None \<Rightarrow> ephemeral)"

lemma locked_port_roundtrip: "read_locked_port (Some (write_port_lock_doc port nonce)) = Some port"
proof -
  have u: "unat (ucast port :: u64) = unat port" proof -
    have "unat port < 2 ^ 64" by (rule less_trans [OF unat_less_exp]) simp
    then show ?thesis by (simp only: unsigned_ucast_eq) (simp add: take_bit_nat_eq_self)
  qed
  have less: "unat port < 2 ^ 16" using unat_less_exp [of port] by simp
  have "unat (ucast (ucast port :: u64) :: u16) = take_bit LENGTH(16) (unat (ucast port :: u64))"
    by (rule unsigned_ucast_eq)
  also have "\<dots> = unat port" unfolding u using less by (simp add: take_bit_nat_eq_self)
  finally have "(ucast (ucast port :: u64) :: u16) = port" by (simp only: word_unat_eq_iff)
  with less show ?thesis
    by (simp add: read_locked_port_def write_port_lock_doc_def get_u64_def u)
qed

section \<open>What the guard lets through\<close>

text \<open>\<open>127.0.0.1\<close>, \<open>localhost\<close> and \<open>::1\<close>; the first two with any port text; any of the three in brackets, with anything after.\<close>

definition loopback_v4 :: "string set" where
  "loopback_v4 = {''127.0.0.1'', ''localhost''}"

definition loopback_names :: "string set" where
  "loopback_names = insert ''::1'' loopback_v4"

definition loopback_spec :: "string \<Rightarrow> bool" where
  "loopback_spec host \<longleftrightarrow>
     host \<in> loopback_names
     \<or> (\<exists>name \<in> loopback_v4. \<exists>port. host = name @ CHR '':'' # port \<and> CHR '':'' \<notin> set port)
     \<or> (\<exists>name \<in> loopback_names. host = CHR ''['' # name
          \<or> (\<exists>rest. host = CHR ''['' # name @ CHR '']'' # rest))"

lemma takeWhile_ne:
  assumes "x \<notin> set name"
  shows "takeWhile (\<lambda>c. c \<noteq> x) s = name \<longleftrightarrow> s = name \<or> (\<exists>r. s = name @ x # r)"
proof
  assume tw: "takeWhile (\<lambda>c. c \<noteq> x) s = name"
  show "s = name \<or> (\<exists>r. s = name @ x # r)"
  proof (cases "dropWhile (\<lambda>c. c \<noteq> x) s")
    case Nil
    then show ?thesis using tw takeWhile_dropWhile_id [of "\<lambda>c. c \<noteq> x" s] by (metis append_Nil2)
  next
    case (Cons y r)
    then have "y = x" using hd_dropWhile [of "\<lambda>c. c \<noteq> x" s] by simp
    then show ?thesis using Cons tw takeWhile_dropWhile_id [of "\<lambda>c. c \<noteq> x" s] by metis
  qed
next
  assume "s = name \<or> (\<exists>r. s = name @ x # r)"
  moreover have "takeWhile (\<lambda>c. c \<noteq> x) name = name" using assms by (simp add: takeWhile_eq_all_conv) metis
  moreover have "takeWhile (\<lambda>c. c \<noteq> x) (name @ x # r) = name" for r
    using assms by (subst takeWhile_append2) auto
  ultimately show "takeWhile (\<lambda>c. c \<noteq> x) s = name" by auto
qed

lemma takeWhile_in:
  "\<forall>n \<in> N. x \<notin> set n \<Longrightarrow>
     takeWhile (\<lambda>c. c \<noteq> x) s \<in> N \<longleftrightarrow> s \<in> N \<or> (\<exists>n \<in> N. \<exists>r. s = n @ x # r)"
  using takeWhile_ne by metis

lemma length_filter_0: "length (filter (\<lambda>c. c = x) s) = 0 \<longleftrightarrow> x \<notin> set s"
  by (induction s) auto

lemma loopback_chars:
  "\<forall>n \<in> loopback_names. CHR '']'' \<notin> set n" "\<forall>n \<in> loopback_v4. CHR '':'' \<notin> set n"
  "\<forall>n \<in> loopback_names. n \<noteq> [] \<and> hd n \<noteq> CHR ''[''" "CHR '':'' \<in> set ''::1''"
  "loopback_v4 \<subseteq> loopback_names" "length (filter (\<lambda>c. c = CHR '':'') ''::1'') = 2"
  by (simp_all add: loopback_v4_def loopback_names_def)

lemma loopback_in: "h = ''127.0.0.1'' \<or> h = ''localhost'' \<or> h = ''::1'' \<longleftrightarrow> h \<in> loopback_names"
  unfolding loopback_names_def loopback_v4_def by blast

lemma is_loopback_host_iff: "is_loopback_host host \<longleftrightarrow> loopback_spec host"
proof (cases "strip_prefix ''['' host")
  case (Some rest)
  then have host: "host = CHR ''['' # rest" by (simp add: strip_prefix_Some)
  have "is_loopback_host host \<longleftrightarrow> takeWhile (\<lambda>c. c \<noteq> CHR '']'') rest \<in> loopback_names"
    unfolding is_loopback_host_def Let_def Some option.case loopback_in ..
  also have "\<dots> \<longleftrightarrow> rest \<in> loopback_names \<or> (\<exists>n \<in> loopback_names. \<exists>r. rest = n @ CHR '']'' # r)"
    by (rule takeWhile_in [OF loopback_chars(1)])
  also have "\<dots> \<longleftrightarrow> loopback_spec host"
  proof -
    have "host \<notin> loopback_names" using loopback_chars(3) host by (metis list.sel(1))
    moreover have "host \<noteq> n @ CHR '':'' # p" if "n \<in> loopback_v4" for n p
      using loopback_chars(3,5) host that by (metis hd_append2 list.sel(1) subsetD)
    ultimately show ?thesis unfolding loopback_spec_def host by blast
  qed
  finally show ?thesis .
next
  case None
  then have nb: "host \<noteq> CHR ''['' # r" for r by (metis append_Cons append_Nil option.distinct(1) strip_prefix_append)
  let ?n = "length (filter (\<lambda>c. c = CHR '':'') host)"
  show ?thesis
  proof (cases "?n = 1")
    case True
    let ?h = "takeWhile (\<lambda>c. c \<noteq> CHR '':'') host"
    have "is_loopback_host host \<longleftrightarrow> ?h \<in> loopback_names"
      unfolding is_loopback_host_def Let_def None option.case loopback_in using True by simp
    also have "\<dots> \<longleftrightarrow> ?h \<in> loopback_v4"
      using loopback_chars(4) set_takeWhileD [of "CHR '':''" "\<lambda>c. c \<noteq> CHR '':''" host]
      unfolding loopback_names_def by (metis insert_iff)
    also have "\<dots> \<longleftrightarrow> host \<in> loopback_v4 \<or> (\<exists>n \<in> loopback_v4. \<exists>r. host = n @ CHR '':'' # r)"
      by (rule takeWhile_in [OF loopback_chars(2)])
    also have "\<dots> \<longleftrightarrow> (\<exists>n \<in> loopback_v4. \<exists>r. host = n @ CHR '':'' # r \<and> CHR '':'' \<notin> set r)"
    proof -
      have "CHR '':'' \<notin> set r" if "n \<in> loopback_v4" "host = n @ CHR '':'' # r" for n r
        using True that(2) by (simp flip: length_filter_0)
      moreover have "host \<notin> loopback_v4" using True loopback_chars(2) length_filter_0 by (metis zero_neq_one)
      ultimately show ?thesis by blast
    qed
    also have "\<dots> \<longleftrightarrow> loopback_spec host"
    proof -
      have "host \<noteq> ''::1''" using True loopback_chars(6) by (metis One_nat_def n_not_Suc_n numeral_2_eq_2)
      moreover have "host \<notin> loopback_v4" using True loopback_chars(2) length_filter_0 by (metis zero_neq_one)
      ultimately show ?thesis using nb unfolding loopback_spec_def loopback_names_def by blast
    qed
    finally show ?thesis .
  next
    case False
    have "is_loopback_host host \<longleftrightarrow> host \<in> loopback_names"
      unfolding is_loopback_host_def Let_def None option.case loopback_in using False by simp
    moreover have "host \<noteq> n @ CHR '':'' # p" if "n \<in> loopback_v4" "CHR '':'' \<notin> set p" for n p
    proof
      assume "host = n @ CHR '':'' # p"
      moreover have "filter (\<lambda>c. c = CHR '':'') n = []" "filter (\<lambda>c. c = CHR '':'') p = []"
        using that loopback_chars(2) length_filter_0 by (metis length_0_conv)+
      ultimately have "?n = 1" by simp
      then show False using False by simp
    qed
    ultimately show ?thesis using nb unfolding loopback_spec_def by blast
  qed
qed

lemma transport_guard_Ok:
  "transport_guard hs = Ok () \<longleftrightarrow>
     header_get hs ''origin'' = None \<and> header_get hs ''referer'' = None
     \<and> (\<exists>v h. header_get hs ''host'' = Some v \<and> header_to_str v = Some h \<and> loopback_spec h)
     \<and> (\<exists>v w. header_get hs ''x-companion-client'' = Some v \<and> header_to_str v = Some w \<and> w \<noteq> [])"
  unfolding transport_guard_def is_loopback_host_iff contains_key_def
  by (auto split: option.splits simp: bind_eq_Some_conv bind_eq_None_conv)

lemma rpc_handler_rejects:
  assumes "transport_guard hs = Err reason"
  shows "rpc_handler parse disp s hs body
    = (Some (403, response_err JNull (error_object (TransportRejected reason))), s)"
  using assms by (simp add: rpc_handler_def)

end
