(* ===== verification/Rpc_Dispatch.thy ===== *)
theory Rpc_Dispatch
  imports Rpc_Consent_Strk20 Rpc_Server
begin

text \<open>
  \<open>dispatch\<close> and \<open>handle\<close> of \<open>crates/wallet-rpc/src/dispatch.rs\<close>, with pairing: the public methods, the
  token, the method table, the decision label, and the one row of the request log. A handler that
  panics leaves the request without an answer and without a row.
\<close>

section \<open>Pairing\<close>

record handled =
  h_result :: "wallet_rpc_error + json"
  h_decision :: string
  h_client :: "string option"

text \<open>\<open>Err\<close> of a handler as a value; a panic goes through.\<close>

definition caught :: "'a act \<Rightarrow> (wallet_rpc_error + 'a) act" where
  "caught m s =
     (case m s of
        (Inl (Rpc e), s') \<Rightarrow> (Ok (Err e), s')
      | (Inl (Crash c), s') \<Rightarrow> (Err (Crash c), s')
      | (Inr x, s') \<Rightarrow> (Ok (Ok x), s'))"

definition public_answer :: "json \<Rightarrow> handled" where
  "public_answer v = \<lparr>h_result = Ok v, h_decision = ''n/a'', h_client = None\<rparr>"

definition verify_token :: "'pt env \<Rightarrow> string option \<Rightarrow> paired_client option act" where
  "verify_token V token =
     (case token of
        None \<Rightarrow> ret None
      | Some t \<Rightarrow> reads V (\<lambda>sv. verify (e_hash V) (sv_clients sv) t))"

fun kind_debug :: "client_kind \<Rightarrow> string" where
  "kind_debug AgentClient = ''Agent''"
| "kind_debug AppClient = ''App''"

definition pairing_name :: "json \<Rightarrow> string" where
  "pairing_name params = (case opt_param_str params ''name'' of Some n \<Rightarrow> n | None \<Rightarrow> ''unnamed client'')"

definition pairing_kind :: "json \<Rightarrow> client_kind" where
  "pairing_kind params = (if opt_param_str params ''kind'' = Some ''agent'' then AgentClient else AppClient)"

definition pair_summary :: "client_kind \<Rightarrow> string \<Rightarrow> string" where
  "pair_summary kind name = ''Pair new '' @ kind_debug kind @ '' client '' @ in_dquotes name"

definition reattach_summary :: "client_kind \<Rightarrow> string \<Rightarrow> string \<Rightarrow> nat \<Rightarrow> string" where
  "reattach_summary kind name cid n =
     ''Re-attach '' @ kind_debug kind @ '' client '' @ in_dquotes name @ '' ('' @ cid @ '') '' @ utf8_dash
     @ '' the caller will control '' @ nat_dec n @ '' existing account(s)''"

definition count_accounts :: "string \<Rightarrow> wallet_session \<Rightarrow> nat" where
  "count_accounts cid se =
     (case session_registry se of Inl _ \<Rightarrow> 0 | Inr reg \<Rightarrow> length (scoped_for reg (Some cid)))"

definition ask_pairing :: "'pt env \<Rightarrow> string \<Rightarrow> string \<Rightarrow> decision act" where
  "ask_pairing V name summary =
     request_approval V \<lparr>ap_client_label = name, ap_method = ''companion_requestPairing'', ap_summary = summary\<rparr>"

definition refused_pairing :: "string \<Rightarrow> handled" where
  "refused_pairing name = \<lparr>h_result = Err UserRefused, h_decision = ''rejected'', h_client = Some name\<rparr>"

definition handle_pairing :: "'pt env \<Rightarrow> json \<Rightarrow> handled act" where
  "handle_pairing V params =
     (let name = pairing_name params;
          kind = pairing_kind params in
     bnd (if get_bool params ''reattach'' = Some True
          then reads V (\<lambda>sv. map_option (\<lambda>cid. (cid, sv_clients sv)) (find_id name kind (sv_clients sv)))
          else ret None) (\<lambda>existing.
     case existing of
       Some (cid, found) \<Rightarrow>
         bnd (reads V (\<lambda>sv. (count_accounts cid (sv_session sv), sv_session sv))) (\<lambda>(n, se).
         bnd (ask_pairing V name (reattach_summary kind name cid n)) (\<lambda>d.
         if d = Reject then ret (refused_pairing name)
         else
         bnd (at_step (e_draw V 32)) (\<lambda>draw.
         bnd (locked V (\<lambda>sv. let (r, cs) = reattach (e_hash V) draw name kind (sv_clients sv)
                             in ((r, sv_clients sv, cs), sv\<lparr>sv_clients := cs\<rparr>))) (\<lambda>(r, before, after).
         case r of
           None \<Rightarrow> crash ''client existed''
         | Some (cid', token) \<Rightarrow>
             bnd (emit (Reattached found se before after)) (\<lambda>_.
             ret \<lparr>h_result = Ok (JObj [(''client_id'', JStr cid'), (''token'', JStr token), (''reattached'', JBool True)]),
                  h_decision = ''approved'', h_client = Some name\<rparr>)))))
     | None \<Rightarrow>
         bnd (ask_pairing V name (pair_summary kind name)) (\<lambda>d.
         if d = Reject then ret (refused_pairing name)
         else
         bnd (at_step (e_draw V 8)) (\<lambda>id_draw.
         bnd (at_step (e_draw V 32)) (\<lambda>token_draw.
         bnd (locked V (\<lambda>sv. let (r, cs) = pair (e_hash V) id_draw token_draw name kind (sv_clients sv)
                             in ((r, sv_clients sv, cs), sv\<lparr>sv_clients := cs\<rparr>))) (\<lambda>((cid, token), before, after).
         bnd (emit (Paired before after)) (\<lambda>_.
         ret \<lparr>h_result = Ok (JObj [(''client_id'', JStr cid), (''token'', JStr token)]),
              h_decision = ''approved'', h_client = Some name\<rparr>)))))))"

section \<open>Methods\<close>

text \<open>The public methods; \<open>None\<close> for a method that is not public.\<close>

definition grant_json :: "u64 \<Rightarrow> paired_client \<Rightarrow> json" where
  "grant_json now_ms c =
     JObj [(''active'', JBool (grant_active c now_ms)),
           (''expires_at'', (case pc_granted_until c of None \<Rightarrow> JNull | Some t \<Rightarrow> json_u64 t))]"

definition get_status :: "'pt env \<Rightarrow> string option \<Rightarrow> json act" where
  "get_status V token =
     bnd (verify_token V token) (\<lambda>c.
     bnd (case c of
            Some c \<Rightarrow> bnd (now_unix_ms V) (\<lambda>now_ms. ret (grant_json now_ms c))
          | None \<Rightarrow> ret JNull) (\<lambda>g.
     reads V (\<lambda>sv. JObj
       [(''locked'', JBool (is_locked (sv_session sv))),
        (''network'', JStr (chain_name (s_chain (sv_session sv)))),
        (''api_version'', JStr (sv_api_version sv)),
        (''grant'', g)])))"

definition public_methods :: "'pt env \<Rightarrow> string option \<Rightarrow> json \<Rightarrow> (string \<times> handled act) list" where
  "public_methods V token params =
     [(''wallet_supportedWalletApi'', reads V (\<lambda>sv. public_answer (JArr [JStr (sv_api_version sv)]))),
      (''wallet_supportedSpecs'', reads V (\<lambda>sv. public_answer (JArr (map JStr (sv_spec_versions sv))))),
      (''wallet_getPermissions'', bnd (verify_token V token) (\<lambda>c.
         ret (public_answer (if c \<noteq> None then JArr [JStr ''accounts''] else JArr [])))),
      (''companion_getStatus'', bnd (get_status V token) (\<lambda>v. ret (public_answer v))),
      (''companion_requestPairing'', handle_pairing V params)]"

definition request_chain_id :: "'pt env \<Rightarrow> json act" where
  "request_chain_id V = reads V (\<lambda>sv. JStr (felt_hex (chain_as_felt (e_ext V) (s_chain (sv_session sv)))))"

text \<open>The methods of a paired client, in the order of the match.\<close>

definition client_methods :: "'pt env \<Rightarrow> paired_client \<Rightarrow> json \<Rightarrow> (string \<times> json act) list" where
  "client_methods V client params =
     [(''wallet_requestChainId'', request_chain_id V),
      (''wallet_requestAccounts'', handle_accounts V client False),
      (''companion_listAccounts'', handle_accounts V client True),
      (''wallet_deploymentData'', handle_deployment_data V client),
      (''wallet_signTypedData'', handle_sign_typed_data V client params),
      (''wallet_addInvokeTransaction'', handle_add_invoke V client params),
      (''wallet_addDeclareTransaction'', handle_add_declare V client params),
      (''companion_createAgentAccount'', handle_create_agent_account V client params),
      (''wallet_switchStarknetChain'', handle_switch_chain V client params),
      (''wallet_watchAsset'', handle_watch_asset V client params),
      (''companion_fundingSource'', handle_funding_source V),
      (''companion_reportIssue'', handle_report_issue V client params),
      (''companion_typedDataHash'', lift (handle_typed_data_hash V params)),
      (''companion_estimateFee'', handle_estimate_fee V client params),
      (''companion_requestGrant'', handle_request_grant V client params),
      (''companion_requestFunding'', handle_request_funding V client params),
      (''companion_deployAccount'', handle_deploy_account V client params),
      (''companion_prove'', handle_prove V params),
      (''companion_proveStatus'', handle_prove_status V params),
      (''companion_proofActivity'', handle_proof_activity V),
      (''companion_signAndProve'', handle_sign_and_prove V client params),
      (''wallet_strk20Balances'', strk20_balances V (RpcCaller client) params),
      (''wallet_strk20PrepareInvoke'', strk20_prepare_invoke V (RpcCaller client) params),
      (''wallet_strk20InvokeTransaction'', strk20_invoke_transaction V (RpcCaller client) params),
      (''companion_strk20Register'', strk20_register V (RpcCaller client) params)]"

definition approval_methods :: "string list" where
  "approval_methods =
     [''wallet_signTypedData'', ''wallet_addInvokeTransaction'', ''wallet_addDeclareTransaction'',
      ''wallet_switchStarknetChain'', ''wallet_watchAsset'', ''companion_createAgentAccount'',
      ''companion_requestFunding'', ''companion_requestGrant'', ''companion_deployAccount'',
      ''companion_signAndProve'', ''wallet_strk20Balances'', ''wallet_strk20PrepareInvoke'',
      ''wallet_strk20InvokeTransaction'', ''companion_strk20Register'']"

definition run_method :: "'pt env \<Rightarrow> paired_client \<Rightarrow> string \<Rightarrow> json \<Rightarrow> json act" where
  "run_method V client m params =
     (case map_of (client_methods V client params) m of
        Some h \<Rightarrow> h
      | None \<Rightarrow> fail (NotImplemented (''unknown method '' @ in_quotes m)))"

definition handle_client :: "'pt env \<Rightarrow> paired_client \<Rightarrow> string \<Rightarrow> json \<Rightarrow> handled act" where
  "handle_client V client m params =
     (if is_deferred m
      then ret \<lparr>h_result = Err (NotImplemented (m @ '' is planned for a later phase'')), h_decision = ''n/a'',
                h_client = Some (client_label client)\<rparr>
      else
      bnd (caught (run_method V client m params)) (\<lambda>result.
      ret \<lparr>h_result = result,
           h_decision = (if m \<in> set approval_methods then decision_label result else ''n/a''),
           h_client = Some (client_label client)\<rparr>))"

definition unregistered :: handled where
  "unregistered = \<lparr>h_result = Err NotRegistered, h_decision = ''n/a'', h_client = None\<rparr>"

definition handle :: "'pt env \<Rightarrow> string option \<Rightarrow> request \<Rightarrow> handled act" where
  "handle V token req =
     (let params = req_params req;
          m = req_method req in
     case map_of (public_methods V token params) m of
       Some h \<Rightarrow> h
     | None \<Rightarrow>
         bnd (verify_token V token) (\<lambda>c.
         case c of
           None \<Rightarrow> ret unregistered
         | Some client \<Rightarrow> handle_client V client m params))"

section \<open>Dispatch\<close>

definition int_dec :: "int \<Rightarrow> string" where
  "int_dec i = (if i < 0 then CHR ''-'' # nat_dec (nat (- i)) else nat_dec (nat i))"

definition log_row_of :: "'pt env \<Rightarrow> request \<Rightarrow> handled \<Rightarrow> string \<Rightarrow> u64 \<Rightarrow> u64 \<Rightarrow> log_entry" where
  "log_row_of V req h network ts latency =
     \<lparr>le_ts_unix_ms = ts, le_method = req_method req, le_client = h_client h, le_network = Some network,
      le_decision = h_decision h,
      le_outcome = (case h_result h of
          Inr _ \<Rightarrow> ''ok''
        | Inl e \<Rightarrow> ''error '' @ int_dec (error_code e) @ '': '' @ error_message e),
      le_error_code = (case h_result h of Inr _ \<Rightarrow> None | Inl e \<Rightarrow> Some (error_code e)),
      le_latency_ms = latency,
      le_params_json = Some (e_to_string V (req_params req)),
      le_result_json = (case h_result h of Inr v \<Rightarrow> Some (e_to_string V v) | Inl _ \<Rightarrow> None)\<rparr>"

definition respond :: "json \<Rightarrow> wallet_rpc_error + json \<Rightarrow> response" where
  "respond rid result =
     (case result of
        Inr v \<Rightarrow> response_ok rid v
      | Inl e \<Rightarrow> response_err rid (error_object e))"

definition touched :: "'pt env \<Rightarrow> unit act" where
  "touched V = bnd (now_unix_ms V) (\<lambda>now_ms. writes V (touch_activity now_ms))"

definition dispatch :: "'pt env \<Rightarrow> string option \<Rightarrow> request \<Rightarrow> response act" where
  "dispatch V token req =
     bnd (touched V) (\<lambda>_.
     bnd (handle V token req) (\<lambda>h.
     bnd (reads V (\<lambda>sv. chain_name (s_chain (sv_session sv)))) (\<lambda>network.
     bnd (now_unix_ms V) (\<lambda>ts.
     bnd (at_step (e_elapsed V)) (\<lambda>latency.
     bnd (writes V (\<lambda>sv. sv\<lparr>sv_log := log_record (log_row_of V req h network ts latency) (sv_log sv)\<rparr>)) (\<lambda>_.
     ret (respond (req_id req) (h_result h))))))))"

text \<open>The dispatcher behind the HTTP handler: a panic drops the connection.\<close>

definition dispatch_http :: "'pt env \<Rightarrow> sys \<Rightarrow> string option \<Rightarrow> request \<Rightarrow> response option \<times> sys" where
  "dispatch_http V s token req =
     (case dispatch V token req s of
        (Inl _, s') \<Rightarrow> (None, s')
      | (Inr r, s') \<Rightarrow> (Some r, s'))"

definition serve_http ::
  "'pt env \<Rightarrow> (bytes \<Rightarrow> request option) \<Rightarrow> sys \<Rightarrow> headers \<Rightarrow> bytes \<Rightarrow> (nat \<times> response) option \<times> sys" where
  "serve_http V from_slice s hs body = rpc_handler from_slice (dispatch_http V) s hs body"

end
