(* ===== verification/Rpc_Requests.thy ===== *)
theory Rpc_Requests
  imports Rpc_Dispatch
begin

text \<open>
  Facts on a whole request: what \<open>dispatch\<close> does to the trace for a paired caller, for an unknown one
  and for a pairing, what it answers, and what it logs.
\<close>

section \<open>The methods of a paired client\<close>

lemma emits_consented_silent: "silent m \<Longrightarrow> emits m (\<lambda>r. consented V client)"
  by (rule emits_silent) simp_all

lemma silent_chain_id [silent, simp]: "silent (request_chain_id V)"
  by (simp add: request_chain_id_def)

lemmas methods_consented =
  sign_typed_data_consented add_invoke_consented add_declare_consented create_agent_account_consented
  switch_chain_consented watch_asset_consented request_grant_consented request_funding_consented
  deploy_account_consented sign_and_prove_consented balances_consented prepare_invoke_consented
  invoke_transaction_consented register_consented estimate_fee_consented

text \<open>What one method may do: \<open>companion_prove\<close> hands over the caller's own transaction, all others need consent.\<close>

definition method_ok :: "'pt env \<Rightarrow> paired_client \<Rightarrow> string \<Rightarrow> json \<Rightarrow> event list \<Rightarrow> bool" where
  "method_ok V client m params es \<longleftrightarrow>
     (if m = ''companion_prove'' then only_proves params es else consented V client es)"

lemma method_ok_Nil [simp]: "method_ok V client m params []"
  by (simp add: method_ok_def only_proves_def)

lemma client_methods_ok:
  assumes "(m, h) \<in> set (client_methods V client params)"
  shows "emits h (\<lambda>r. method_ok V client m params)"
proof (cases "m = ''companion_prove''")
  case True
  then have "h = handle_prove V params" using assms unfolding client_methods_def by auto
  moreover have "method_ok V client m params = only_proves params" using True by (simp add: method_ok_def fun_eq_iff)
  ultimately show ?thesis using prove_only by simp
next
  case False
  then have "emits h (\<lambda>r. consented V client)"
    using assms unfolding client_methods_def by (auto intro: methods_consented emits_consented_silent)
  moreover have "method_ok V client m params = consented V client" using False by (simp add: method_ok_def fun_eq_iff)
  ultimately show ?thesis by simp
qed

lemma run_method_ok: "emits (run_method V client m params) (\<lambda>r. method_ok V client m params)"
proof (cases "map_of (client_methods V client params) m")
  case (Some h)
  then show ?thesis using client_methods_ok [OF map_of_SomeD [OF Some]] by (simp add: run_method_def)
qed (simp add: run_method_def emits_fail)

lemma emits_caught:
  "emits m (\<lambda>r. S) \<Longrightarrow> emits (caught m) (\<lambda>r. S)"
  unfolding emits_def caught_def by (auto split: prod.splits sum.splits rpc_failure.splits) (metis snd_conv)+

lemma handle_client_ok: "emits (handle_client V client m params) (\<lambda>r. method_ok V client m params)"
  unfolding handle_client_def
  by (intro emits_if emits_ret emits_bnd [OF emits_caught [OF run_method_ok]])
    (auto intro!: emits_ret)

section \<open>Public methods and pairing\<close>

lemma silent_verify_token [silent, simp]: "silent (verify_token V token)"
  by (auto simp: verify_token_def split: option.split)

lemma silent_get_status [silent, simp]: "silent (get_status V token)"
  unfolding get_status_def by (auto intro!: silent split: option.split)

definition pairing_prompt :: "json \<Rightarrow> string \<Rightarrow> decision \<Rightarrow> event" where
  "pairing_prompt params summary d =
     Prompted \<lparr>ap_client_label = pairing_name params, ap_method = ''companion_requestPairing'',
       ap_summary = summary\<rparr> d"

text \<open>
  What a pairing request may do: nothing, one prompt, or an approved prompt naming the client
  followed by the pairing it describes. A new client has the name and the kind of the prompt and no grant, and all others
  stay as they are. Re-attaching replaces the token of one client, the first of the name and the kind of the prompt; the prompt shows the
  one found before it, which is another one only when the clients of that name and kind changed under the prompt.
\<close>

definition adds_client :: "string \<Rightarrow> client_kind \<Rightarrow> client_store \<Rightarrow> client_store \<Rightarrow> bool" where
  "adds_client name kind before after \<longleftrightarrow>
     (\<exists>c. cs_clients after = cs_clients before @ [c] \<and> pc_label c = name \<and> pc_kind c = kind \<and> pc_granted_until c = None)"

definition changes_token :: "string \<Rightarrow> client_store \<Rightarrow> client_store \<Rightarrow> bool" where
  "changes_token cid before after \<longleftrightarrow>
     (\<exists>as c bs h. cs_clients before = as @ c # bs \<and> cs_clients after = as @ c\<lparr>pc_token_hash := h\<rparr> # bs \<and> pc_id c = cid)"

definition pairing_ok :: "json \<Rightarrow> event list \<Rightarrow> bool" where
  "pairing_ok params es \<longleftrightarrow>
     (let name = pairing_name params; kind = pairing_kind params in
      es = []
      \<or> (\<exists>d. es = [pairing_prompt params (pair_summary kind name) d])
      \<or> (\<exists>cid n d. es = [pairing_prompt params (reattach_summary kind name cid n) d])
      \<or> (\<exists>before after. es = [pairing_prompt params (pair_summary kind name) Approve, Paired before after]
           \<and> adds_client name kind before after)
      \<or> (\<exists>cid cid' found se before after. get_bool params ''reattach'' = Some True
           \<and> es = [pairing_prompt params (reattach_summary kind name cid (count_accounts cid se)) Approve,
                   Reattached found se before after]
           \<and> find_id name kind found = Some cid \<and> find_id name kind before = Some cid'
           \<and> changes_token cid' before after))"

lemma pairing_ok_simps [simp]:
  "pairing_ok params []"
  "pairing_ok params [Prompted \<lparr>ap_client_label = pairing_name params, ap_method = ''companion_requestPairing'',
     ap_summary = pair_summary (pairing_kind params) (pairing_name params)\<rparr> d]"
  "pairing_ok params [Prompted \<lparr>ap_client_label = pairing_name params, ap_method = ''companion_requestPairing'',
     ap_summary = reattach_summary (pairing_kind params) (pairing_name params) cid n\<rparr> d]"
  "adds_client (pairing_name params) (pairing_kind params) before after \<Longrightarrow>
   pairing_ok params [Prompted \<lparr>ap_client_label = pairing_name params, ap_method = ''companion_requestPairing'',
     ap_summary = pair_summary (pairing_kind params) (pairing_name params)\<rparr> Approve, Paired before after]"
  unfolding pairing_ok_def pairing_prompt_def Let_def by blast+

lemma pairing_ok_reattach:
  "get_bool params ''reattach'' = Some True \<Longrightarrow> find_id (pairing_name params) (pairing_kind params) found = Some cid \<Longrightarrow>
   find_id (pairing_name params) (pairing_kind params) before = Some cid' \<Longrightarrow> changes_token cid' before after \<Longrightarrow>
   pairing_ok params [Prompted \<lparr>ap_client_label = pairing_name params, ap_method = ''companion_requestPairing'',
     ap_summary = reattach_summary (pairing_kind params) (pairing_name params) cid (count_accounts cid se)\<rparr> Approve,
     Reattached found se before after]"
  unfolding pairing_ok_def pairing_prompt_def Let_def by blast

lemma pair_adds: "adds_client name kind s (snd (pair H d e name kind s))"
  by (simp add: adds_client_def pair_def Let_def)

lemma reattach_changes:
  assumes "reattach H d name kind s = (Some (cid, token), s')"
  shows "find_id name kind s = Some cid" "changes_token cid s s'"
proof -
  let ?p = "\<lambda>c. pc_label c = name \<and> pc_kind c = kind"
  obtain c where c: "List.find ?p (cs_clients s) = Some c" "pc_id c = cid"
    and s': "cs_clients s' = update_first ?p (\<lambda>c. c\<lparr>pc_token_hash := H token\<rparr>) (cs_clients s)"
    using assms by (auto simp: reattach_def Let_def split: option.splits)
  show "find_id name kind s = Some cid" using c by (simp add: find_id_def)
  obtain as bs where "cs_clients s = as @ c # bs" "\<forall>f. update_first ?p f (cs_clients s) = as @ f c # bs"
    using find_split [OF c(1)] by blast
  then have "cs_clients s = as @ c # bs" "cs_clients s' = as @ c\<lparr>pc_token_hash := H token\<rparr> # bs"
    unfolding s' by blast+
  then show "changes_token cid s s'" using c(2) unfolding changes_token_def by blast
qed

lemma emits_crash [emits_rules]: "T (Inl (Crash c)) [] \<Longrightarrow> emits (crash c) T"
  by (simp add: emits_def crash_def)

lemma yields_pairing:
  "yields (locked V (\<lambda>sv. case pair H d e name kind (sv_clients sv) of
      (r, cs) \<Rightarrow> ((r, sv_clients sv, cs), sv\<lparr>sv_clients := cs\<rparr>))) (t, before, after)
     \<Longrightarrow> adds_client name kind before after"
  by (auto dest!: yields_locked simp: case_prod_beta pair_adds)

lemma yields_reattaching:
  "yields (locked V (\<lambda>sv. case reattach H d name kind (sv_clients sv) of
      (r, cs) \<Rightarrow> ((r, sv_clients sv, cs), sv\<lparr>sv_clients := cs\<rparr>))) (Some (cid, token), before, after)
     \<Longrightarrow> find_id name kind before = Some cid \<and> changes_token cid before after"
  by (auto dest!: yields_locked split: prod.splits dest: reattach_changes)

lemma yields_found:
  "yields (reads V (\<lambda>sv. map_option (\<lambda>cid. (cid, sv_clients sv)) (find_id name kind (sv_clients sv)))) (Some (cid, found))
     \<Longrightarrow> find_id name kind found = Some cid"
  by (drule yields_reads) (auto dest: sym)

lemma yields_counted:
  "yields (reads V (\<lambda>sv. (count_accounts cid (sv_session sv), sv_session sv))) (n, se) \<Longrightarrow> n = count_accounts cid se"
  by (auto dest!: yields_reads)

lemma emits_prod [emits_rules]: "(\<And>a b. p = (a, b) \<Longrightarrow> emits (f a b) T) \<Longrightarrow> emits (case p of (a, b) \<Rightarrow> f a b) T"
  by (cases p) simp

lemma emits_case_option [emits_rules]:
  "(y = None \<Longrightarrow> emits m T) \<Longrightarrow> (\<And>x. y = Some x \<Longrightarrow> emits (f x) T) \<Longrightarrow>
     emits (case y of None \<Rightarrow> m | Some x \<Rightarrow> f x) T"
  by (cases y) auto

lemma pairing_emits: "emits (handle_pairing V params) (\<lambda>r. pairing_ok params)"
  unfolding handle_pairing_def ask_pairing_def Let_def
  by (auto intro!: emits_rules silent pairing_ok_reattach pairing_ok_simps(4) simp: not_Reject
      dest!: yields_pairing yields_reattaching yields_found yields_counted)

lemma public_silent:
  "(m, h) \<in> set (public_methods V token params) \<Longrightarrow> m \<noteq> ''companion_requestPairing'' \<Longrightarrow> silent h"
  unfolding public_methods_def by (auto intro!: silent)

lemma public_pairing:
  "map_of (public_methods V token params) ''companion_requestPairing'' = Some (handle_pairing V params)"
  by (simp add: public_methods_def)

definition public_names :: "string list" where
  "public_names = [''wallet_supportedWalletApi'', ''wallet_supportedSpecs'', ''wallet_getPermissions'',
     ''companion_getStatus'', ''companion_requestPairing'']"

lemma public_names: "map fst (public_methods V token params) = public_names"
  by (simp add: public_methods_def public_names_def)

lemma public_None: "map_of (public_methods V token params) m = None \<longleftrightarrow> m \<notin> set public_names"
  unfolding public_names [symmetric, of V token params] by (simp add: map_of_eq_None_iff)

section \<open>A request\<close>

text \<open>The client a request is taken to come from: the one its token resolves to when it arrives.\<close>

definition arrived :: "'pt env \<Rightarrow> sys \<Rightarrow> sys" where
  "arrived V s = snd (touched V s)"

definition request_client :: "'pt env \<Rightarrow> string option \<Rightarrow> sys \<Rightarrow> paired_client option" where
  "request_client V token s =
     (case fst (verify_token V token (arrived V s)) of Inl _ \<Rightarrow> None | Inr c \<Rightarrow> c)"

lemma verify_token_run:
  "\<exists>s'. verify_token V token s = (Inr (case fst (verify_token V token s) of Inl _ \<Rightarrow> None | Inr c \<Rightarrow> c), s')
     \<and> sy_trace s' = sy_trace s"
  by (cases token) (auto simp: verify_token_def act_defs Let_def)

lemma touched_run: "touched V s = (Inr (), arrived V s)" "sy_trace (arrived V s) = sy_trace s"
  by (simp_all add: arrived_def touched_def now_unix_ms_def act_defs Let_def)

definition logged :: "'pt env \<Rightarrow> request \<Rightarrow> handled \<Rightarrow> response act" where
  "logged V req h =
     bnd (reads V (\<lambda>sv. chain_name (s_chain (sv_session sv)))) (\<lambda>network.
     bnd (now_unix_ms V) (\<lambda>ts.
     bnd (at_step (e_elapsed V)) (\<lambda>latency.
     bnd (writes V (\<lambda>sv. sv\<lparr>sv_log := log_record (log_row_of V req h network ts latency) (sv_log sv)\<rparr>)) (\<lambda>_.
     ret (respond (req_id req) (h_result h))))))"

lemma dispatch_run:
  "dispatch V token req s = bnd (handle V token req) (logged V req) (arrived V s)"
  unfolding dispatch_def logged_def by (simp add: bnd_def [of "touched V"] touched_run)

lemma silent_logged [simp]: "silent (logged V req h)"
  unfolding logged_def by (intro silent_bnd) simp_all

lemma logged_run:
  "\<exists>s' network ts latency. logged V req h s = (Inr (respond (req_id req) (h_result h)), s')
     \<and> ((\<forall>n sv. sv_log (e_interfere V n sv) = sv_log sv) \<longrightarrow>
          sv_log (sy_server s') = log_record (log_row_of V req h network ts latency) (sv_log (sy_server s)))"
  unfolding logged_def now_unix_ms_def act_defs by (simp add: Let_def now_server_def) blast

definition request_ok :: "'pt env \<Rightarrow> string option \<Rightarrow> request \<Rightarrow> sys \<Rightarrow> event list \<Rightarrow> bool" where
  "request_ok V token req s es \<longleftrightarrow>
     (if req_method req = ''companion_requestPairing'' then pairing_ok (req_params req) es
      else case request_client V token s of
          None \<Rightarrow> es = []
        | Some client \<Rightarrow> method_ok V client (req_method req) (req_params req) es)"

lemma handle_trace:
  "\<exists>es. sy_trace (snd (handle V token req (arrived V s))) = sy_trace s @ es \<and> request_ok V token req s es"
proof (cases "map_of (public_methods V token (req_params req)) (req_method req)")
  case (Some h)
  then have h: "handle V token req = h" by (simp add: handle_def Let_def)
  show ?thesis
  proof (cases "req_method req = ''companion_requestPairing''")
    case True
    then have "h = handle_pairing V (req_params req)" using Some public_pairing by (metis option.inject)
    then obtain es where "sy_trace (snd (h (arrived V s))) = sy_trace (arrived V s) @ es" "pairing_ok (req_params req) es"
      using pairing_emits unfolding emits_def by blast
    then show ?thesis using True by (auto simp: h touched_run request_ok_def)
  next
    case False
    then have "silent h" using public_silent map_of_SomeD [OF Some] by blast
    then show ?thesis using False by (auto simp: h silent_def touched_run request_ok_def split: option.split)
  qed
next
  case None
  then have m: "req_method req \<noteq> ''companion_requestPairing''"
    by (auto simp: public_pairing)
  obtain s' where v: "verify_token V token (arrived V s) = (Inr (request_client V token s), s')"
    and tr: "sy_trace s' = sy_trace s"
    using verify_token_run [of V token "arrived V s"] by (auto simp: request_client_def touched_run)
  show ?thesis
  proof (cases "request_client V token s")
    case None': None
    then show ?thesis using None m v tr
      by (simp add: handle_def Let_def bnd_def ret_def request_ok_def)
  next
    case (Some client)
    obtain es where "sy_trace (snd (handle_client V client (req_method req) (req_params req) s')) = sy_trace s' @ es"
      "method_ok V client (req_method req) (req_params req) es"
      using handle_client_ok unfolding emits_def by blast
    then show ?thesis using None m v tr Some
      by (auto simp: handle_def Let_def bnd_def request_ok_def)
  qed
qed

lemma bnd_silent_trace: "(\<And>x. silent (f x)) \<Longrightarrow> sy_trace (snd (bnd m f s)) = sy_trace (snd (m s))"
  by (cases "m s"; cases "fst (m s)") (auto simp: bnd_def silent_def)

lemma dispatch_trace:
  "\<exists>es. sy_trace (snd (dispatch V token req s)) = sy_trace s @ es \<and> request_ok V token req s es"
  unfolding dispatch_run using handle_trace by (simp add: bnd_silent_trace)

text \<open>An unknown caller of a method that is not public is told so, and nothing else happens.\<close>

lemma dispatch_unregistered:
  assumes "request_client V token s = None" "req_method req \<notin> set public_names"
  shows "fst (dispatch V token req s) = Inr (response_err (req_id req) (error_object NotRegistered))"
proof -
  obtain s' where "verify_token V token (arrived V s) = (Inr None, s')"
    using verify_token_run [of V token "arrived V s"] assms(1) by (auto simp: request_client_def)
  then have "handle V token req (arrived V s) = (Inr unregistered, s')"
    using assms(2) [folded public_None [of V token "req_params req"]] by (simp add: handle_def Let_def bnd_def ret_def)
  then show ?thesis
    using logged_run [of V req unregistered s']
    by (auto simp: dispatch_run bnd_def respond_def unregistered_def)
qed

section \<open>Whose accounts a request uses\<close>

fun signer :: "event \<Rightarrow> account_ref option" where
  "signer (SignedTypedData a _) = Some a"
| "signer (SignedInvoke a _ _ _) = Some a"
| "signer (SignedDeclare a _ _ _ _) = Some a"
| "signer (SignedDeploy a _ _) = Some a"
| "signer (SignedHash a _) = Some a"
| "signer (NotesRead a) = Some a"
| "signer (BalancesRead a _) = Some a"
| "signer _ = None"

text \<open>The one exception: a single transfer out of a manager account into an account of the caller, after a prompt
  that the user approved and whose text is of this very transfer.\<close>

definition funds_own :: "'pt env \<Rightarrow> paired_client \<Rightarrow> event list \<Rightarrow> event \<Rightarrow> bool" where
  "funds_own V client before e \<longleftrightarrow>
     (\<exists>manager amount index recipient token to se chain ps.
        own_account client recipient \<and> pc_kind client = AgentClient \<and> amount \<noteq> 0
      \<and> manager_account (e_ext V) se index = Ok manager
      \<and> stored_address (e_ext V) recipient = Ok to
      \<and> e = SignedInvoke manager [transfer_call (e_ext V) token to amount] chain ps
      \<and> Prompted \<lparr>ap_client_label = client_label client, ap_method = ''companion_requestFunding'',
            ap_summary = funding_summary V client amount chain index manager recipient\<rparr> Approve \<in> set before)"

lemma covers_signer:
  assumes "covers V client seen e" "signer e = Some a"
  shows "own_account client a \<or> funds_own V client seen e"
  using assms
  by (cases e) (auto simp: covers.simps invoke_covers_def funding_covers_def funds_own_def private_payment_def
      prompted_in_def prompted_def; blast)+

lemma funds_own_cong: "set xs = set ys \<Longrightarrow> funds_own V client xs e = funds_own V client ys e"
  by (simp add: funds_own_def)

lemma consented_after_signer:
  "consented_after V client seen es \<Longrightarrow> es = before @ e # after \<Longrightarrow> signer e = Some a
     \<Longrightarrow> own_account client a \<or> funds_own V client (rev before @ seen) e"
proof (induction before arbitrary: seen es)
  case Nil
  then show ?case using covers_signer by fastforce
next
  case (Cons d before)
  then show ?case using Cons.IH [of "d # seen" "before @ e # after"] by simp
qed

definition own_signers :: "'pt env \<Rightarrow> paired_client option \<Rightarrow> event list \<Rightarrow> bool" where
  "own_signers V client es \<longleftrightarrow>
     (\<forall>before e after a. es = before @ e # after \<and> signer e = Some a \<longrightarrow>
        (\<exists>cl. client = Some cl \<and> (own_account cl a \<or> funds_own V cl before e)))"

lemma own_signersI:
  "(\<And>e. e \<in> set es \<Longrightarrow> signer e = None) \<Longrightarrow> own_signers V client es"
  by (force simp: own_signers_def)

lemma request_ok_signers:
  assumes "request_ok V token req s es"
  shows "own_signers V (request_client V token s) es"
proof (cases "req_method req = ''companion_requestPairing''")
  case True
  then have "pairing_ok (req_params req) es" using assms by (simp add: request_ok_def)
  then show ?thesis by (intro own_signersI) (auto simp: pairing_ok_def pairing_prompt_def Let_def)
next
  case False
  show ?thesis
  proof (cases "request_client V token s")
    case None
    then show ?thesis using assms False by (simp add: request_ok_def own_signers_def)
  next
    case (Some client)
    then have ok: "method_ok V client (req_method req) (req_params req) es" using assms False by (simp add: request_ok_def)
    show ?thesis
    proof (cases "req_method req = ''companion_prove''")
      case True
      then show ?thesis using ok by (intro own_signersI) (auto simp: method_ok_def only_proves_def)
    next
      case False
      then have "consented_after V client [] es" using ok by (simp add: method_ok_def consented_def)
      then have "own_account client a \<or> funds_own V client before e"
        if "es = before @ e # after" "signer e = Some a" for before e after a
        using consented_after_signer [OF _ that] funds_own_cong [of "rev before" before] by fastforce
      then show ?thesis unfolding own_signers_def Some by blast
    qed
  qed
qed

section \<open>Answers and the log\<close>

text \<open>\<open>only_crashes m\<close>: an error of \<open>m\<close> is a panic.\<close>

definition only_crashes :: "'a act \<Rightarrow> bool" where
  "only_crashes m \<longleftrightarrow> (\<forall>s e. fst (m s) \<noteq> Inl (Rpc e))"

lemma only_crashes_basic [simp]:
  "only_crashes (ret x)" "only_crashes (crash c)" "only_crashes (locked V f)" "only_crashes (reads V g)"
  "only_crashes (at_step k)" "only_crashes (emit ev)" "only_crashes (caught m)"
  by (auto simp: only_crashes_def act_defs caught_def Let_def split: prod.splits sum.splits rpc_failure.splits)

lemma only_crashes_bnd: "only_crashes m \<Longrightarrow> (\<And>x. only_crashes (f x)) \<Longrightarrow> only_crashes (bnd m f)"
  unfolding only_crashes_def bnd_def by (auto split: prod.splits sum.splits) (metis fst_conv)

lemma only_crashes_services [simp]: "only_crashes (request_approval V r)" "only_crashes (now_unix_ms V)"
  "only_crashes (verify_token V token)" "only_crashes (ask_pairing V name sm)"
  by (auto simp: request_approval_def now_unix_ms_def verify_token_def ask_pairing_def
      intro!: only_crashes_bnd split: option.split)

lemma only_crashes_get_status [simp]: "only_crashes (get_status V token)"
  unfolding get_status_def by (auto intro!: only_crashes_bnd split: option.split)

lemma only_crashes_pairing: "only_crashes (handle_pairing V params)"
  unfolding handle_pairing_def Let_def by (auto intro!: only_crashes_bnd split: option.split)

lemma public_crashes: "(m, h) \<in> set (public_methods V token params) \<Longrightarrow> only_crashes h"
  unfolding public_methods_def by (auto intro!: only_crashes_bnd only_crashes_pairing)

lemma handle_crashes: "only_crashes (handle V token req)"
proof (cases "map_of (public_methods V token (req_params req)) (req_method req)")
  case (Some h)
  then show ?thesis using public_crashes [OF map_of_SomeD [OF Some]] by (simp add: handle_def Let_def)
next
  case None
  then show ?thesis unfolding handle_def Let_def handle_client_def
    by (auto intro!: only_crashes_bnd split: option.split)
qed

text \<open>The row of a request: its method and payload, and what it was answered.\<close>

definition row_of :: "'pt env \<Rightarrow> request \<Rightarrow> response \<Rightarrow> log_entry \<Rightarrow> bool" where
  "row_of V req resp entry \<longleftrightarrow>
     le_method entry = req_method req
   \<and> le_error_code entry = map_option err_code (resp_error resp)
   \<and> le_params_json entry = Some (e_to_string V (req_params req))
   \<and> le_result_json entry = map_option (e_to_string V) (resp_result resp)"

lemma dispatch_answers:
  "case handle V token req (arrived V s) of
     (Inl failure, s1) \<Rightarrow> dispatch V token req s = (Inl failure, s1) \<and> (\<exists>m. failure = Crash m)
   | (Inr h, s1) \<Rightarrow> \<exists>resp s' entry. dispatch V token req s = (Inr resp, s')
       \<and> resp_id resp = req_id req \<and> (resp_result resp = None \<longleftrightarrow> resp_error resp \<noteq> None) \<and> row_of V req resp entry
       \<and> ((\<forall>n sv. sv_log (e_interfere V n sv) = sv_log sv) \<longrightarrow>
            sv_log (sy_server s') = log_record entry (sv_log (sy_server s1)))"
proof (cases "handle V token req (arrived V s)")
  case (Pair r s1)
  show ?thesis
  proof (cases r)
    case (Inl failure)
    then have "failure \<noteq> Rpc e" for e
      using handle_crashes [of V token req] Pair unfolding only_crashes_def by (metis fst_conv)
    then show ?thesis using Pair Inl by (cases failure) (auto simp: dispatch_run bnd_def)
  next
    case (Inr h)
    obtain s' network ts latency where "logged V req h s1 = (Inr (respond (req_id req) (h_result h)), s')"
      and "(\<forall>n sv. sv_log (e_interfere V n sv) = sv_log sv) \<longrightarrow>
        sv_log (sy_server s') = log_record (log_row_of V req h network ts latency) (sv_log (sy_server s1))"
      using logged_run by blast
    moreover have "row_of V req (respond (req_id req) (h_result h)) (log_row_of V req h network ts latency)"
      by (cases "h_result h")
        (auto simp: row_of_def respond_def response_ok_def response_err_def log_row_of_def error_object_def)
    moreover have "resp_id (respond (req_id req) (h_result h)) = req_id req"
      "resp_result (respond (req_id req) (h_result h)) = None
         \<longleftrightarrow> resp_error (respond (req_id req) (h_result h)) \<noteq> None"
      by (cases "h_result h", auto simp: respond_def response_ok_def response_err_def)+
    ultimately show ?thesis using Pair Inr
      by (auto simp: dispatch_run bnd_def intro!: exI [of _ "log_row_of V req h network ts latency"])
  qed
qed

end
