(* ===== verification/Rpc_Durable.thy ===== *)
theory Rpc_Durable
  imports Rpc_Companion
begin

text \<open>
  The vault file keeps up with the session: \<open>durable\<close> says that what a restart would load unlocks to
  the session of now. Creating an agent account keeps it, whatever fails on the way.
\<close>

definition durable :: "'pt env \<Rightarrow> server \<Rightarrow> bool" where
  "durable V sv \<longleftrightarrow>
     (\<exists>vf u v. sv_vault_store sv = Some vf \<and> s_unlocked (sv_session sv) = Some u
        \<and> vault_load (e_format V) vf = Ok (Some v)
        \<and> unlock (e_ext V) (e_codec V) (lock (sv_session sv)) v (u_vault_passphrase u) = (Ok (), sv_session sv))"

text \<open>The laws of the services the file goes through.\<close>

definition vault_laws :: "'pt env \<Rightarrow> bool" where
  "vault_laws V \<longleftrightarrow> aead_correct (e_ext V) \<and> vault_codec_ok (e_codec V) \<and> vault_format_ok (e_format V)"

lemma vault_save_failed:
  assumes "vault_save F out v vf = (Inl e, vf')"
  shows "vault_load F vf' = vault_load F vf"
  using assms by (auto simp: vault_save_def vault_load_def split: option.splits write_outcome.splits)

lemma vault_load_readable: "vault_load F vf = Ok (Some v) \<Longrightarrow> vf_readable vf"
  by (auto simp: vault_load_def split: option.splits if_splits)

lemma persist_failed:
  assumes "persist_session V salt nonce out se vf = (Inl e, vf')"
  shows "vault_load (e_format V) vf' = vault_load (e_format V) vf"
  using assms vault_save_failed
  by (fastforce simp: persist_session_def Let_def map_err_def split: sum.splits prod.splits)

lemma persist_saved:
  assumes laws: "vault_laws V" and nonce: "\<And>n. nonce = Some n \<Longrightarrow> length n = NONCE_LEN"
    and u: "s_unlocked se = Some u" and ready: "vf_readable vf"
    and step: "persist_session V salt nonce out se vf = (Inr (), vf')"
  obtains v where "vault_load (e_format V) vf' = Ok (Some v)"
    "unlock (e_ext V) (e_codec V) (lock se) v (u_vault_passphrase u) = (Ok (), se)"
proof -
  obtain v where v: "reseal (e_ext V) (e_codec V) salt nonce se = Ok v"
    and saved: "vault_save (e_format V) out v vf = (Ok (), vf')"
    using step by (auto simp: persist_session_def Let_def map_err_def split: sum.splits prod.splits)
  show thesis
  proof
    show "vault_load (e_format V) vf' = Ok (Some v)"
      using laws ready saved by (auto simp: vault_laws_def intro: vault_load_saved)
    show "unlock (e_ext V) (e_codec V) (lock se) v (u_vault_passphrase u) = (Ok (), se)"
      using laws nonce u v by (auto simp: vault_laws_def intro: unlock_reseal)
  qed
qed

text \<open>The address of the next account is not in the registry.\<close>

definition next_address_fresh :: "ext \<Rightarrow> wallet_session \<Rightarrow> domain \<Rightarrow> bool" where
  "next_address_fresh E s d \<longleftrightarrow>
     (\<forall>u addr. s_unlocked s = Some u \<longrightarrow>
        account_address E (u_mnemonic u) d (next_index (u_registry u) d) None (s_chain s) OpenZeppelin = Ok addr \<longrightarrow>
        address_hex addr \<notin> acc_address ` set (u_registry u))"

lemma rollback_fresh:
  assumes step: "create_account E s d label owner = (Ok a, s')" and fresh: "next_address_fresh E s d"
  shows "rollback_account s' (acc_address a) = s"
proof -
  from step have "acc_address a \<notin> acc_address ` set (u_registry u)" if "s_unlocked s = Some u" for u
    using fresh that by (elim create_account_Ok) (simp add: next_address_fresh_def)
  with step show ?thesis by (rule rollback_create)
qed

lemma create_and_persist_durable:
  assumes laws: "vault_laws V" and nonce: "\<And>n. nonce = Some n \<Longrightarrow> length n = NONCE_LEN"
    and fresh: "next_address_fresh (e_ext V) (sv_session sv) Agent"
    and durable: "durable V sv"
    and step: "create_and_persist V salt nonce out cid label sv = (r, sv')"
  shows "durable V sv'" and "\<And>e. r = Inl e \<Longrightarrow> sv_session sv' = sv_session sv"
    and "\<And>a. r = Inr a \<Longrightarrow> \<exists>u. s_unlocked (sv_session sv) = Some u
      \<and> sv_session sv' = (sv_session sv)\<lparr>s_unlocked := Some (u\<lparr>u_registry := u_registry u @ [a]\<rparr>)\<rparr>"
proof -
  let ?se = "sv_session sv"
  obtain vf u v where vf: "sv_vault_store sv = Some vf" and u: "s_unlocked ?se = Some u"
    and load: "vault_load (e_format V) vf = Ok (Some v)"
    and un: "unlock (e_ext V) (e_codec V) (lock ?se) v (u_vault_passphrase u) = (Ok (), ?se)"
    using durable by (auto simp: durable_def)
  obtain res se where made: "create_agent_account (e_ext V) ?se cid label = (res, se)" by fastforce
  have "durable V sv' \<and> (\<forall>e. r = Inl e \<longrightarrow> sv_session sv' = ?se)
     \<and> (\<forall>a. r = Inr a \<longrightarrow> (\<exists>u. s_unlocked ?se = Some u
          \<and> sv_session sv' = ?se\<lparr>s_unlocked := Some (u\<lparr>u_registry := u_registry u @ [a]\<rparr>)\<rparr>))"
  proof (cases res)
    case (Inl e)
    then have "se = ?se" using made create_account_Err by (simp add: create_agent_account_def)
    then show ?thesis using step made Inl durable by (auto simp: create_and_persist_def)
  next
    case (Inr a)
    obtain pr vf' where wrote: "persist_session V salt nonce out se vf = (pr, vf')" by fastforce
    have created: "create_account (e_ext V) ?se Agent label (Some cid) = (Ok a, se)"
      using made Inr by (simp add: create_agent_account_def)
    show ?thesis
    proof (cases pr)
      case (Inl e)
      then have "vault_load (e_format V) vf' = Ok (Some v)" using persist_failed wrote load by metis
      then have "durable V (sv\<lparr>sv_session := ?se, sv_vault_store := Some vf'\<rparr>)"
        using u un by (auto simp: durable_def)
      then show ?thesis using step made Inr wrote Inl vf rollback_fresh [OF created fresh]
        by (auto simp: create_and_persist_def)
    next
      case (Inr _)
      from created obtain u' where u': "s_unlocked ?se = Some u'"
        and se: "se = ?se\<lparr>s_unlocked := Some (u'\<lparr>u_registry := u_registry u' @ [a]\<rparr>)\<rparr>"
        by (elim create_account_Ok) (simp add: registry_add_def)
      have new: "s_unlocked se = Some (u'\<lparr>u_registry := u_registry u' @ [a]\<rparr>)" by (simp add: se)
      have saved: "persist_session V salt nonce out se vf = (Inr (), vf')" using wrote Inr by simp
      obtain w where "vault_load (e_format V) vf' = Ok (Some w)"
        "unlock (e_ext V) (e_codec V) (lock se) w (u_vault_passphrase u') = (Ok (), se)"
        using persist_saved [OF laws nonce new vault_load_readable [OF load] saved] by auto
      then have "durable V (sv\<lparr>sv_session := se, sv_vault_store := Some vf'\<rparr>)"
        by (auto simp: durable_def se)
      then show ?thesis using step made \<open>res = Inr a\<close> wrote Inr vf u' se
        by (auto simp: create_and_persist_def)
    qed
  qed
  then show "durable V sv'" "\<And>e. r = Inl e \<Longrightarrow> sv_session sv' = ?se"
    "\<And>a. r = Inr a \<Longrightarrow> \<exists>u. s_unlocked ?se = Some u
      \<and> sv_session sv' = ?se\<lparr>s_unlocked := Some (u\<lparr>u_registry := u_registry u @ [a]\<rparr>)\<rparr>"
    by blast+
qed

end
