(* ===== verification/Rpc_Invariant.thy ===== *)
theory Rpc_Invariant
  imports Rpc_Requests Rpc_Durable
begin

text \<open>
  Invariants of the shared server under a whole request. The locale \<open>server_invariant\<close> lists the
  writes the handlers make; an invariant that each of them keeps, and that the rest of the process keeps
  between the steps of the request, is kept by \<open>dispatch\<close>. It is interpreted with the well-formedness
  of the account registry, with the client file on disk, and with the configuration.
\<close>

named_theorems keeps_rules \<open>actions that keep an invariant of the server\<close>

definition keeps :: "(server \<Rightarrow> bool) \<Rightarrow> 'a act \<Rightarrow> bool" where
  "keeps I m \<longleftrightarrow> (\<forall>s. I (sy_server s) \<longrightarrow> I (sy_server (snd (m s))))"

lemma keeps_basic [keeps_rules, simp]:
  "keeps I (ret x)" "keeps I (fail e)" "keeps I (crash c)" "keeps I (lift r)" "keeps I (at_step k)"
  "keeps I (emit ev)"
  by (simp_all add: keeps_def act_defs)

lemma keeps_bnd [keeps_rules]: "keeps I m \<Longrightarrow> (\<And>x. keeps I (f x)) \<Longrightarrow> keeps I (bnd m f)"
  unfolding keeps_def bnd_def by (auto split: prod.splits sum.splits)

lemma keeps_case [keeps_rules]:
  "keeps I m \<Longrightarrow> (\<And>x. keeps I (f x)) \<Longrightarrow> keeps I (case y of None \<Rightarrow> m | Some x \<Rightarrow> f x)"
  "keeps I m \<Longrightarrow> keeps I n \<Longrightarrow> keeps I (if c then m else n)"
  "(\<And>a b. keeps I (g a b)) \<Longrightarrow> keeps I (case p of (a, b) \<Rightarrow> g a b)"
  "(\<And>a. keeps I (h a)) \<Longrightarrow> (\<And>b. keeps I (k b)) \<Longrightarrow> keeps I (case r of Inl a \<Rightarrow> h a | Inr b \<Rightarrow> k b)"
  by (auto split: option.split prod.split sum.split)

lemma keeps_wrapped [keeps_rules]:
  "keeps I m \<Longrightarrow> keeps I (caught m)" "keeps I m \<Longrightarrow> keeps I (map_fail g m)"
  "keeps I m \<Longrightarrow> keeps I (unless_rejected d m)"
  unfolding keeps_def caught_def map_fail_def unless_rejected_def
  by (auto simp: fail_def split: prod.splits sum.splits rpc_failure.splits)

lemma keeps_let [keeps_rules]: "keeps I (f x) \<Longrightarrow> keeps I (let y = x in f y)"
  by simp

definition interference_keeps :: "'pt env \<Rightarrow> (server \<Rightarrow> bool) \<Rightarrow> bool" where
  "interference_keeps V I \<longleftrightarrow> (\<forall>n sv. I sv \<longrightarrow> I (e_interfere V n sv))"

lemma keeps_locked:
  "interference_keeps V I \<Longrightarrow> (\<And>sv. I sv \<Longrightarrow> I (snd (f sv))) \<Longrightarrow> keeps I (locked V f)"
  by (auto simp: keeps_def locked_def now_server_def interference_keeps_def split: prod.splits) (metis snd_conv)

lemma keeps_reads [keeps_rules]: "interference_keeps V I \<Longrightarrow> keeps I (reads V f)"
  unfolding reads_def by (rule keeps_locked) simp_all

lemma keeps_writes: "interference_keeps V I \<Longrightarrow> (\<And>sv. I sv \<Longrightarrow> I (f sv)) \<Longrightarrow> keeps I (writes V f)"
  unfolding writes_def by (rule keeps_locked) simp_all

locale handler_invariant =
  fixes V :: "'pt env" and I :: "server \<Rightarrow> bool"
  assumes touch: "I sv \<Longrightarrow> I (touch_activity now_ms sv)"
    and watch: "I sv \<Longrightarrow> I (add_watched_asset a sv)"
    and chain: "I sv \<Longrightarrow> I (sv\<lparr>sv_session := set_chain (sv_session sv) c\<rparr>)"
    and jobs: "I sv \<Longrightarrow> sv_prover sv = Some p \<Longrightarrow> I (sv\<lparr>sv_prover := Some p'\<rparr>)"
    and pair: "I sv \<Longrightarrow> I (sv\<lparr>sv_clients := snd (pair H d e name k (sv_clients sv))\<rparr>)"
    and reattach: "I sv \<Longrightarrow> I (sv\<lparr>sv_clients := snd (reattach H d name k (sv_clients sv))\<rparr>)"
    and grant: "I sv \<Longrightarrow> I (sv\<lparr>sv_clients := snd (grant cid until (sv_clients sv))\<rparr>)"
    and create: "I sv \<Longrightarrow> I (snd (create_and_persist V salt nonce out cid label sv))"
begin

lemma keeps_services [keeps_rules]:
  assumes "interference_keeps V I"
  shows "keeps I (now_unix_ms V)" "keeps I (request_approval V req)" "keeps I (with_session V f)"
    "keeps I (node_or V c)" "keeps I (node_result r)" "keeps I (gated_approval V client m sm)"
    "keeps I (ask_client V client m sm)" "keeps I (ask_pairing V nm sm)" "keeps I (verify_token V token)"
    "keeps I (http_send V hreq)" "keeps I (checked_add a b)" "keeps I (or_crash j)" "keeps I (lift20 q)"
  using assms
  by (auto simp: now_unix_ms_def request_approval_def with_session_def node_or_def node_for_def node_result_def
      gated_approval_def ask_client_def ask_pairing_def verify_token_def http_send_def checked_add_def or_crash_def
      intro!: keeps_rules)
    (simp add: keeps_def lift20_def)

lemma keeps_writers [keeps_rules]:
  assumes i: "interference_keeps V I"
  shows "keeps I (writes V (touch_activity now_ms))" "keeps I (writes V (add_watched_asset asset))"
    "keeps I (writes V (\<lambda>sv. sv\<lparr>sv_session := set_chain (sv_session sv) c\<rparr>))"
    "keeps I (locked V (create_and_persist V salt nonce out cid label))"
    "keeps I (locked V (\<lambda>sv. case grant cid until (sv_clients sv) of (x, cs) \<Rightarrow> (x, sv\<lparr>sv_clients := cs\<rparr>)))"
    "keeps I (locked V (\<lambda>sv. case reattach H d name k (sv_clients sv) of
        (x, cs) \<Rightarrow> ((x, sv_clients sv, cs), sv\<lparr>sv_clients := cs\<rparr>)))"
    "keeps I (locked V (\<lambda>sv. case pair H d e name k (sv_clients sv) of
        (x, cs) \<Rightarrow> ((x, sv_clients sv, cs), sv\<lparr>sv_clients := cs\<rparr>)))"
    "keeps I (on_jobs V f)" "keeps I (enqueue_job V payload lbl network)"
proof -
  have upd: "I (snd (case u of (x, cs) \<Rightarrow> (f x cs, sv\<lparr>sv_clients := cs\<rparr>)))" if "I (sv\<lparr>sv_clients := snd u\<rparr>)"
    for u :: "'c \<times> client_store" and f :: "'c \<Rightarrow> client_store \<Rightarrow> 'd" and sv
    using that by (simp add: case_prod_beta)
  show "keeps I (writes V (touch_activity now_ms))" "keeps I (writes V (add_watched_asset asset))"
    "keeps I (writes V (\<lambda>sv. sv\<lparr>sv_session := set_chain (sv_session sv) c\<rparr>))"
    by (rule keeps_writes [OF i], erule touch watch chain)+
  show "keeps I (locked V (create_and_persist V salt nonce out cid label))"
    by (rule keeps_locked [OF i]) (rule create)
  show "keeps I (locked V (\<lambda>sv. case grant cid until (sv_clients sv) of (x, cs) \<Rightarrow> (x, sv\<lparr>sv_clients := cs\<rparr>)))"
    "keeps I (locked V (\<lambda>sv. case reattach H d name k (sv_clients sv) of
        (x, cs) \<Rightarrow> ((x, sv_clients sv, cs), sv\<lparr>sv_clients := cs\<rparr>)))"
    "keeps I (locked V (\<lambda>sv. case pair H d e name k (sv_clients sv) of
        (x, cs) \<Rightarrow> ((x, sv_clients sv, cs), sv\<lparr>sv_clients := cs\<rparr>)))"
    by (rule keeps_locked [OF i], rule upd, erule grant reattach pair)+
  show "keeps I (on_jobs V f)" "keeps I (enqueue_job V payload lbl network)"
    unfolding on_jobs_def enqueue_job_def now_unix_ms_def
    by (auto intro!: keeps_rules keeps_locked [OF i] intro: jobs simp: Let_def split: option.splits prod.splits)
qed

lemma keeps_resolve [keeps_rules]:
  assumes "interference_keeps V I"
  shows "keeps I (resolve_chain V params)" "keeps I (resolve_nonce V chain addr params)"
    "keeps I (resolve_exec V chain addr encoded params pc)" "keeps I (sign_and_submit V chain acc calls n b sub facts proof)"
    "keeps I (refuse_deployed V chain acc)" "keeps I (require_manager_deployed V chain acc s)" "keeps I (prover_or_err V)"
  using assms
  unfolding resolve_chain_def resolve_nonce_def resolve_exec_def sign_and_submit_def refuse_deployed_def
    require_manager_deployed_def prover_or_err_def Let_def node_for_def
  by (auto intro!: keeps_rules split: option.split json.split)

lemma keeps_signing [keeps_rules]:
  assumes "interference_keeps V I"
  shows "keeps I (handle_sign_typed_data V client params)" "keeps I (handle_add_invoke V client params)"
    "keeps I (handle_add_declare V client params)" "keeps I (handle_deploy_account V client params)"
    "keeps I (handle_request_funding V client params)" "keeps I (handle_sign_and_prove V client params)"
  using assms
  unfolding handle_sign_typed_data_def handle_add_invoke_def handle_add_declare_def handle_deploy_account_def
    handle_request_funding_def handle_sign_and_prove_def Let_def
  by (auto intro!: keeps_rules)

lemma keeps_companion [keeps_rules]:
  assumes "interference_keeps V I"
  shows "keeps I (handle_deployment_data V client)" "keeps I (handle_accounts V client b)"
    "keeps I (handle_funding_source V)" "keeps I (handle_estimate_fee V client params)"
    "keeps I (handle_report_issue V client params)" "keeps I (handle_prove V params)"
    "keeps I (handle_prove_status V params)" "keeps I (handle_proof_activity V)"
    "keeps I (handle_request_grant V client params)" "keeps I (handle_switch_chain V client params)"
    "keeps I (handle_watch_asset V client params)" "keeps I (handle_create_agent_account V client params)"
  using assms
  unfolding handle_deployment_data_def handle_accounts_def handle_funding_source_def handle_estimate_fee_def
    handle_report_issue_def handle_prove_def handle_prove_status_def handle_proof_activity_def
    handle_request_grant_def handle_switch_chain_def handle_watch_asset_def handle_create_agent_account_def
    Let_def [of "_ :: json"] Let_def [of "_ :: string"] Let_def [of "_ :: u64"] Let_def [of "_ :: ext"]
  by (auto intro!: keeps_rules)

lemma keeps_add_entries [keeps_rules]: "keeps I (add_entry token amount m)" "keeps I (add_entries es m)"
proof -
  show "keeps I (add_entry token amount m)" for token amount m
    by (auto simp: add_entry_def checked_add_def intro!: keeps_rules)
  then show "keeps I (add_entries es m)"
    by (induction es m rule: add_entries.induct) (auto intro!: keeps_bnd)
qed

lemma keeps_reads20 [keeps_rules]:
  assumes "interference_keeps V I"
  shows "keeps I (const_felt V s)" "keeps I (block_number node)" "keeps I (pool_for V cfg chain)"
    "keeps I (strk20_context V caller params)" "keeps I (viewing_key V cx)" "keeps I (discover_and_plan V cx it)"
    "keeps I (pool_nonce_at V cx block)" "keeps I (pool_fee V cx)" "keeps I (public_balance V cx token)"
    "keeps I (check_attestation V screening)" "keeps I (caller_approve V caller m summary)"
  using assms
  unfolding const_felt_def block_number_def pool_for_def strk20_context_def viewing_key_def discover_and_plan_def
    pool_nonce_at_def pool_fee_def public_balance_def check_attestation_def caller_approve_def Let_def
  by (auto intro!: keeps_rules split: option.split chain.split caller.split)

lemma keeps_funds [keeps_rules]:
  assumes "interference_keeps V I"
  shows "keeps I (require_funds V cx strk fee es)" "keeps I (check_public_funds V cx deposits)"
proof -
  show "keeps I (require_funds V cx strk fee es)" for strk fee es
    using assms by (induction es) (auto intro!: keeps_rules)
  then show "keeps I (check_public_funds V cx deposits)"
    unfolding check_public_funds_def using assms by (auto intro!: keeps_rules)
qed

lemma keeps_starkscan [keeps_rules]:
  assumes "interference_keeps V I"
  shows "keeps I (starkscan_poll V fuel root api_key job_id)" "keeps I (starkscan_submit V fuel n root api_key k body)"
proof -
  show "keeps I (starkscan_poll V fuel root api_key job_id)" for fuel job_id
    using assms by (induction fuel) (auto simp: Let_def intro!: keeps_rules split: http_reply.split)
  then show "keeps I (starkscan_submit V fuel n root api_key k body)"
    using assms by (induction n) (auto simp: Let_def intro!: keeps_rules split: http_reply.split)
qed

lemma keeps_remote [keeps_rules]:
  assumes "interference_keeps V I"
  shows "keeps I (remote_prove V fuel p chain block tx)" "keeps I (paymaster_quote V pm pool user)"
    "keeps I (paymaster_execute V pm c proof facts)"
  using assms
  unfolding remote_prove_def prove_json_rpc_def prove_starkscan_def paymaster_quote_def paymaster_execute_def
    paymaster_rpc_def Let_def
  by (auto intro!: keeps_rules split: http_reply.split deposit_prover.split)

lemma keeps_prepare [keeps_rules]:
  assumes "interference_keeps V I"
  shows "keeps I (run_prover V cx m proving block user_sk tx)" "keeps I (prove_invocation V cx m proving block user_sk tx)"
    "keeps I (strk20_prepare V caller m cx it proving sub)"
    "keeps I (submit_from_account V cx p deposits)"
  using assms
  unfolding prove_invocation_def run_prover_def prove_locally_def strk20_prepare_def submit_from_account_def Let_def
  by (auto intro!: keeps_rules split: proving.split)

lemma keeps_strk20 [keeps_rules]:
  assumes "interference_keeps V I"
  shows "keeps I (strk20_balances V caller params)" "keeps I (strk20_register V caller params)"
    "keeps I (strk20_prepare_invoke V caller params)" "keeps I (strk20_invoke_transaction V caller params)"
  using assms
  unfolding strk20_balances_def strk20_register_def strk20_prepare_invoke_def strk20_invoke_transaction_def
    invoke_deposit_def invoke_relayed_def Let_def
  by (auto intro!: keeps_rules)

lemma keeps_methods:
  assumes "interference_keeps V I"
  shows "(m, h) \<in> set (client_methods V client params) \<Longrightarrow> keeps I h"
    and "(m, g) \<in> set (public_methods V token params) \<Longrightarrow> keeps I g"
  using assms unfolding client_methods_def public_methods_def request_chain_id_def handle_pairing_def get_status_def Let_def
  by (auto intro!: keeps_rules split: prod.split)

text \<open>A whole request, up to its row in the log.\<close>

lemma handle_keeps:
  assumes "interference_keeps V I"
  shows "keeps I (handle V token req)" "keeps I (touched V)"
proof -
  have "keeps I (run_method V client m params)" for client m params
    unfolding run_method_def using keeps_methods(1) [OF assms]
    by (cases "map_of (client_methods V client params) m") (auto dest: map_of_SomeD)
  moreover have "keeps I g" if "map_of (public_methods V token params) m = Some g" for params m g
    using keeps_methods(2) [OF assms] map_of_SomeD [OF that] by blast
  ultimately show "keeps I (handle V token req)"
    unfolding handle_def handle_client_def Let_def using assms
    by (cases "map_of (public_methods V token (req_params req)) (req_method req)") (auto intro!: keeps_rules)
  show "keeps I (touched V)" unfolding touched_def using assms by (auto intro!: keeps_rules)
qed

end

text \<open>An invariant that the log has no part in is kept by the whole request.\<close>

locale server_invariant = handler_invariant +
  assumes log: "I sv \<Longrightarrow> I (sv\<lparr>sv_log := l\<rparr>)"
begin

lemma dispatch_keeps:
  assumes "interference_keeps V I"
  shows "keeps I (dispatch V token req)"
proof -
  have row: "keeps I (writes V (\<lambda>sv. sv\<lparr>sv_log := g (sv_log sv)\<rparr>))" for g
    by (rule keeps_writes [OF assms]) (rule log)
  have "keeps I (now_unix_ms V)" unfolding now_unix_ms_def by simp
  then show ?thesis unfolding dispatch_def using assms handle_keeps [OF assms] row
    by (auto intro!: keeps_rules)
qed

end

section \<open>The log\<close>

text \<open>No handler touches the log: it changes only by the one row at the end.\<close>

lemma create_and_persist_log: "sv_log (snd (create_and_persist V salt nonce out cid label sv)) = sv_log sv"
  unfolding create_and_persist_def by (simp split: prod.splits sum.splits option.splits)

interpretation log_frame: handler_invariant V "\<lambda>sv. sv_log sv = l" for V :: "'pt env" and l
  by unfold_locales (simp_all add: touch_activity_def add_watched_asset_def create_and_persist_log)

lemma dispatch_logs_one_row:
  assumes quiet: "\<And>n sv. sv_log (e_interfere V n sv) = sv_log sv"
  shows "case dispatch V token req s of
     (Inl failure, s') \<Rightarrow> (\<exists>m. failure = Crash m) \<and> sv_log (sy_server s') = sv_log (sy_server s)
   | (Inr resp, s') \<Rightarrow> resp_id resp = req_id req \<and> (resp_result resp = None \<longleftrightarrow> resp_error resp \<noteq> None)
       \<and> (\<exists>entry. row_of V req resp entry \<and> sv_log (sy_server s') = log_record entry (sv_log (sy_server s)))"
proof -
  have i: "interference_keeps V (\<lambda>sv. sv_log sv = l)" for l by (simp add: interference_keeps_def quiet)
  have "sv_log (sy_server (snd (handle V token req (arrived V s)))) = sv_log (sy_server (arrived V s))"
    using log_frame.handle_keeps(1) [OF i] unfolding keeps_def by blast
  moreover have "sv_log (sy_server (arrived V s)) = sv_log (sy_server s)"
    using log_frame.handle_keeps(2) [OF i] unfolding keeps_def arrived_def by blast
  ultimately show ?thesis using dispatch_answers [of V token req s] quiet
    by (auto split: prod.splits sum.splits)
qed

section \<open>The account registry, the client file, the configuration\<close>

definition accounts_ok :: "server \<Rightarrow> bool" where
  "accounts_ok sv \<longleftrightarrow> session_wf (sv_session sv)"

definition clients_saved :: "server \<Rightarrow> bool" where
  "clients_saved sv \<longleftrightarrow> disk_synced (sv_clients sv)"

text \<open>What the owner sets up: secrets, nodes, prover settings, the issue repository.\<close>

record configuration =
  cf_secrets :: "(string \<times> string) option"
  cf_nodes :: "chain \<Rightarrow> starknet_rpc option"
  cf_prover :: settings
  cf_native :: bool
  cf_repo :: string
  cf_persists :: bool

definition configuration_of :: "server \<Rightarrow> configuration" where
  "configuration_of sv =
     \<lparr>cf_secrets = map_option (\<lambda>u. (u_mnemonic u, u_vault_passphrase u)) (s_unlocked (sv_session sv)),
      cf_nodes = sv_nodes sv, cf_prover = sv_prover_settings sv, cf_native = sv_prover_native sv,
      cf_repo = sv_issue_repo sv, cf_persists = (sv_vault_store sv \<noteq> None)\<rparr>"

lemma create_and_persist_session:
  assumes "create_and_persist V salt nonce out cid label sv = (r, sv')"
  shows "\<exists>se. (sv_session sv' = se \<or> (\<exists>a. sv_session sv' = rollback_account se a))
     \<and> (\<exists>q. create_account (e_ext V) (sv_session sv) Agent label (Some cid) = (q, se))"
  using assms unfolding create_and_persist_def create_agent_account_def
  by (auto split: prod.splits sum.splits option.splits)

lemma session_wf_chain: "session_wf (set_chain s c) = session_wf s"
  by (simp add: session_wf_def set_chain_def)

interpretation accounts: server_invariant V accounts_ok for V :: "'pt env"
proof unfold_locales
  fix sv salt nonce out cid label
  assume ok: "accounts_ok sv"
  obtain r sv' where step: "create_and_persist V salt nonce out cid label sv = (r, sv')" by fastforce
  from create_and_persist_session [OF this] obtain se q where
    "sv_session sv' = se \<or> (\<exists>a. sv_session sv' = rollback_account se a)"
    "create_account (e_ext V) (sv_session sv) Agent label (Some cid) = (q, se)" by blast
  moreover have "session_wf se" using calculation(2) ok create_account_wf by (fastforce simp: accounts_ok_def)
  ultimately show "accounts_ok (snd (create_and_persist V salt nonce out cid label sv))"
    using rollback_account_wf by (auto simp: accounts_ok_def step)
qed (simp_all add: accounts_ok_def touch_activity_def add_watched_asset_def session_wf_chain)

lemma create_and_persist_clients: "sv_clients (snd (create_and_persist V salt nonce out cid label sv)) = sv_clients sv"
  unfolding create_and_persist_def by (simp split: prod.splits sum.splits option.splits)

interpretation client_file: server_invariant V clients_saved for V :: "'pt env"
  by unfold_locales
    (simp_all add: clients_saved_def touch_activity_def add_watched_asset_def disk_synced_ops create_and_persist_clients)

lemma create_account_secrets:
  "create_account E s d label owner = (q, s') \<Longrightarrow>
     map_option (\<lambda>u. (u_mnemonic u, u_vault_passphrase u)) (s_unlocked s')
       = map_option (\<lambda>u. (u_mnemonic u, u_vault_passphrase u)) (s_unlocked s)"
  by (auto simp: create_account_def Let_def split: option.splits sum.splits)

lemma rollback_secrets:
  "map_option (\<lambda>u. (u_mnemonic u, u_vault_passphrase u)) (s_unlocked (rollback_account s a))
     = map_option (\<lambda>u. (u_mnemonic u, u_vault_passphrase u)) (s_unlocked s)"
  by (auto simp: rollback_account_def split: option.splits)

lemma create_and_persist_configuration: "configuration_of (snd (create_and_persist V salt nonce out cid label sv)) = configuration_of sv"
  unfolding create_and_persist_def create_agent_account_def configuration_of_def
  by (auto simp: rollback_secrets dest: create_account_secrets split: prod.splits sum.splits option.splits)

interpretation configured: server_invariant V "\<lambda>sv. configuration_of sv = c" for V :: "'pt env" and c
  by unfold_locales
    (simp_all add: create_and_persist_configuration, simp_all add: configuration_of_def touch_activity_def add_watched_asset_def set_chain_def)

end
