(* ===== verification/Rpc_Scrub.thy ===== *)
theory Rpc_Scrub
  imports Rpc_Requests "HOL-Library.Sublist"
begin

text \<open>
  \<open>scrub\<close> takes the viewing key out of an error before the caller and the log see it: facts on
  \<open>replace_all\<close>, the absence of every spelling of the key in what is left, and the errors of a prover.
\<close>

text \<open>A mark that a pattern cannot overlap: neither end of it occurs in the pattern, nor the pattern in it.\<close>

definition apart :: "string \<Rightarrow> string \<Rightarrow> bool" where
  "apart q r \<longleftrightarrow> q \<noteq> [] \<and> r \<noteq> [] \<and> hd r \<notin> set q \<and> last r \<notin> set q \<and> \<not> sublist q r"

lemma prefix_apart: "apart q r \<Longrightarrow> \<not> prefix q (r @ s)"
  unfolding apart_def by (cases q; cases r) auto

lemma sublist_mark:
  assumes "apart q r" "sublist q (r @ s)" shows "sublist q s"
proof -
  from assms(2) consider "sublist q r" | "sublist q s"
    | xs ys where "q = xs @ ys" "suffix xs r" "prefix ys s"
    by (auto simp: sublist_append)
  then show ?thesis
  proof cases
    case 3
    show ?thesis
    proof (cases "xs = []")
      case True
      then show ?thesis using 3 by (simp add: prefix_imp_sublist)
    next
      case False
      then have "last r = last xs" using 3(2) by (auto simp: suffix_def)
      then show ?thesis using False 3(1) assms(1) by (auto simp: apart_def)
    qed
  qed (use assms(1) in \<open>auto simp: apart_def\<close>)
qed

lemma replace_all_step:
  "p \<noteq> [] \<and> starts_with p (c # cs) \<Longrightarrow>
     replace_all p r (c # cs) = r @ replace_all p r (drop (length p) (c # cs))"
  "\<not> (p \<noteq> [] \<and> starts_with p (c # cs)) \<Longrightarrow> replace_all p r (c # cs) = c # replace_all p r cs"
  by (subst replace_all.simps(2), rule if_P, assumption) (subst replace_all.simps(2), rule if_not_P, assumption)

text \<open>No new occurrence of a pattern starts in the text that replacing leaves.\<close>

lemma prefix_replace_all:
  assumes "prefix q (replace_all p r s)" "r \<noteq> []" "hd r \<notin> set q"
  shows "prefix q s"
  using assms
proof (induction p r s arbitrary: q rule: replace_all.induct)
  case (2 p r c cs)
  show ?case
  proof (cases "p \<noteq> [] \<and> starts_with p (c # cs)")
    case True
    then have "prefix q (r @ replace_all p r (drop (length p) (c # cs)))" using 2(3) by simp
    then have "q = []" using 2(4,5) by (cases q; cases r) auto
    then show ?thesis by simp
  next
    case False
    have "prefix q (c # replace_all p r cs)" using 2(3) unfolding replace_all_step(2) [OF False] .
    then show ?thesis using 2(2) [OF False] 2(4,5) by (cases q) (auto simp del: replace_all.simps)
  qed
qed simp

lemma replace_all_keeps_out:
  assumes "\<not> sublist q s" "apart q r"
  shows "\<not> sublist q (replace_all p r s)"
  using assms
proof (induction p r s rule: replace_all.induct)
  case (2 p r c cs)
  show ?case
  proof (cases "p \<noteq> [] \<and> starts_with p (c # cs)")
    case True
    have "sublist (drop (length p) (c # cs)) (c # cs)" by (rule suffix_imp_sublist) (rule suffix_drop)
    then have "\<not> sublist q (drop (length p) (c # cs))" using 2(3) by (meson sublist_order.order.trans)
    then have "\<not> sublist q (replace_all p r (drop (length p) (c # cs)))" using 2(1) True 2(4) by blast
    then show ?thesis using sublist_mark [OF 2(4)] unfolding replace_all_step(1) [OF True] by blast
  next
    case False
    have "\<not> sublist q cs" "\<not> prefix q (c # cs)" using 2(3) by (auto simp: sublist_Cons_right)
    moreover have "prefix q (c # cs)" if "prefix q (c # replace_all p r cs)"
      using prefix_replace_all [of q p r "c # cs"] that 2(4)
      unfolding replace_all_step(2) [OF False] apart_def by blast
    ultimately show ?thesis using 2(2) [OF False] 2(4)
      unfolding replace_all_step(2) [OF False] sublist_Cons_right by blast
  qed
qed simp

lemma replace_all_removes:
  assumes "apart p r"
  shows "\<not> sublist p (replace_all p r s)"
  using assms
proof (induction p r s rule: replace_all.induct)
  case (1 p r)
  then show ?case by (simp add: apart_def)
next
  case (2 p r c cs)
  show ?case
  proof (cases "p \<noteq> [] \<and> starts_with p (c # cs)")
    case True
    then have "\<not> sublist p (replace_all p r (drop (length p) (c # cs)))" using 2 by blast
    then show ?thesis using sublist_mark [OF 2(3)] unfolding replace_all_step(1) [OF True] by blast
  next
    case False
    have "\<not> prefix p (c # replace_all p r cs)"
      using prefix_replace_all [of p p r "c # cs"] False 2(3)
      unfolding replace_all_step(2) [OF False] apart_def starts_with_iff prefix_def by blast
    then show ?thesis using 2(2) [OF False] 2(3)
      unfolding replace_all_step(2) [OF False] sublist_Cons_right by blast
  qed
qed

section \<open>The spellings of the key\<close>

lemma of_digit_char: "d < 16 \<Longrightarrow> (of_char (digit_char d) :: nat) = (if d < 10 then 48 + d else 87 + d)"
  by (auto simp: digit_char_def)

text \<open>A decimal digit is not in the mark, and a hexadecimal digit is none of its brackets, nor an end of \<open>unknown error: \<close>.\<close>

lemma mark_codes: "list_all (\<lambda>c. (of_char c :: nat) < 48 \<or> 57 < (of_char c :: nat)) viewing_key_mark"
  by (simp add: viewing_key_mark_def)

definition unbracketed :: "char \<Rightarrow> bool" where
  "unbracketed c \<longleftrightarrow> c \<noteq> CHR ''<'' \<and> c \<noteq> CHR ''>'' \<and> c \<noteq> CHR ''u'' \<and> c \<noteq> CHR '' ''"

lemma digit_unmarked: assumes d: "d < 10" shows "digit_char d \<notin> set viewing_key_mark"
proof -
  have "\<not> ((of_char (digit_char d) :: nat) < 48 \<or> 57 < (of_char (digit_char d) :: nat))"
    using d of_digit_char [of d] by simp
  then show ?thesis using mark_codes unfolding list_all_iff by blast
qed

lemma digit_unbracketed: assumes d: "d < 16" shows "unbracketed (digit_char d)"
proof -
  have "(of_char (digit_char d) :: nat) \<notin> {60, 62, 117, 32}"
    using d of_digit_char [OF d] by (simp split: if_splits)
  moreover have "(of_char (CHR ''<'') :: nat) = 60" "(of_char (CHR ''>'') :: nat) = 62"
    "(of_char (CHR ''u'') :: nat) = 117" "(of_char (CHR '' '') :: nat) = 32" by simp_all
  ultimately show ?thesis unfolding unbracketed_def by (metis insertCI)
qed

lemma spelling_chars:
  "list_all unbracketed (nat_dec n)" "list_all unbracketed (felt_0x f)" "list_all unbracketed (felt_0x64 f)"
proof -
  have *: "list_all unbracketed (map digit_char (digits b n))" if "2 \<le> b" "b \<le> 16" for b n
    unfolding list_all_iff
  proof
    fix c assume "c \<in> set (map digit_char (digits b n))"
    then obtain d where "d \<in> set (digits b n)" "c = digit_char d" by auto
    then show "unbracketed c" using digits_less [OF that(1), of d n] that(2) digit_unbracketed [of d] by simp
  qed
  show "list_all unbracketed (nat_dec n)" by (simp add: nat_dec_def *)
  have "list_all unbracketed (felt_lower_hex f)" by (simp add: felt_lower_hex_def nat_hex_def *)
  moreover have "list_all unbracketed (replicate m (CHR ''0''))" "list_all unbracketed ''0x''" for m
    by (induction m) (simp_all add: unbracketed_def)
  ultimately show "list_all unbracketed (felt_0x f)" "list_all unbracketed (felt_0x64 f)"
    unfolding felt_0x_def felt_0x64_def pad_zeros_def list_all_append by blast+
qed

lemma spelling_heads:
  "hd (nat_dec n) \<notin> set viewing_key_mark" "hd (felt_0x f) \<notin> set viewing_key_mark"
  "hd (felt_0x64 f) \<notin> set viewing_key_mark" "nat_dec n \<noteq> []"
proof -
  have "hd (digits 10 n) < 10" using digits_less [of 10 "hd (digits 10 n)" n] by simp
  then show "hd (nat_dec n) \<notin> set viewing_key_mark" using digit_unmarked by (simp add: nat_dec_def hd_map)
  show "nat_dec n \<noteq> []" by (simp add: nat_dec_def)
  have "CHR ''0'' = digit_char 0" by code_simp
  then have "CHR ''0'' \<notin> set viewing_key_mark" using digit_unmarked [of 0] by simp
  then show "hd (felt_0x f) \<notin> set viewing_key_mark" "hd (felt_0x64 f) \<notin> set viewing_key_mark"
    by (simp_all add: felt_0x_def felt_0x64_def)
qed

definition key_spellings :: "felt \<Rightarrow> string list" where
  "key_spellings k = [felt_0x64 k, felt_0x k, nat_dec (nat (felt_val k))]"

lemma spelling_unbracketed:
  "q \<in> set (key_spellings k) \<Longrightarrow> list_all unbracketed q" "q \<in> set (key_spellings k) \<Longrightarrow> q \<noteq> []"
proof -
  show "q \<in> set (key_spellings k) \<Longrightarrow> list_all unbracketed q" using spelling_chars by (auto simp: key_spellings_def)
  show "q \<in> set (key_spellings k) \<Longrightarrow> q \<noteq> []"
    using spelling_heads(4) [of "nat (felt_val k)"] unfolding key_spellings_def felt_0x_def felt_0x64_def by fastforce
qed

lemma spelling_apart:
  assumes q: "q \<in> set (key_spellings k)" shows "apart q viewing_key_mark"
proof -
  note chars = spelling_unbracketed(1) [OF q] and ne = spelling_unbracketed(2) [OF q]
  from q have hd: "hd q \<notin> set viewing_key_mark"
    using spelling_heads(1) [of "nat (felt_val k)"] spelling_heads(2,3) [of k]
    by (auto simp: key_spellings_def)
  have "\<not> sublist q viewing_key_mark" using hd ne by (meson hd_in_set set_mono_sublist subsetD)
  moreover have "hd viewing_key_mark = CHR ''<''" "last viewing_key_mark = CHR ''>''" "viewing_key_mark \<noteq> []"
    by (simp_all add: viewing_key_mark_def)
  moreover have "CHR ''<'' \<notin> set q" "CHR ''>'' \<notin> set q" using chars by (auto simp: list_all_iff unbracketed_def)
  ultimately show ?thesis using ne by (simp add: apart_def)
qed

lemma scrub_removes:
  assumes "q \<in> set (key_spellings k)" shows "\<not> sublist q (scrub txt k)"
proof -
  have a: "apart (felt_0x64 k) viewing_key_mark" "apart (felt_0x k) viewing_key_mark"
    "apart (nat_dec (nat (felt_val k))) viewing_key_mark"
    by (rule spelling_apart [where k = k], simp add: key_spellings_def)+
  from assms consider "q = felt_0x64 k" | "q = felt_0x k" | "q = nat_dec (nat (felt_val k))"
    by (auto simp: key_spellings_def)
  then show ?thesis
    by cases (simp_all only: scrub_def replace_all_keeps_out replace_all_removes a not_False_eq_True)
qed

section \<open>The errors of a prover\<close>

lemma only_crashes_http [simp]: "only_crashes (http_send V req)"
  unfolding http_send_def by (auto intro!: only_crashes_bnd)

lemma only_crashes_poll: "only_crashes (starkscan_poll V fuel root api_key job_id)"
  by (induction V fuel root api_key job_id rule: starkscan_poll.induct)
    (auto simp: Let_def intro!: only_crashes_bnd split: http_reply.split option.split)

lemma only_crashes_submit: "only_crashes (starkscan_submit V fuel n root api_key k body)"
  by (induction V fuel n root api_key k body rule: starkscan_submit.induct)
    (auto simp: Let_def intro!: only_crashes_bnd only_crashes_poll split: http_reply.split option.split)

lemma only_crashes_remote: "only_crashes (remote_prove V fuel p chain block tx)"
  unfolding remote_prove_def prove_json_rpc_def prove_starkscan_def
  by (auto intro!: only_crashes_bnd only_crashes_submit split: deposit_prover.split)

lemma bnd_error:
  assumes "bnd m f s = (Inl (Rpc e), s'')"
  obtains (first) s' where "m s = (Inl (Rpc e), s')" | (second) x s' where "m s = (Inr x, s')" "f x s' = (Inl (Rpc e), s'')"
  using assms by (cases "m s"; cases "fst (m s)") (auto simp: bnd_def)

lemma on_jobs_error: "on_jobs V f s = (Inl (Rpc e), s') \<Longrightarrow> e = NotImplemented no_prover"
  unfolding on_jobs_def
  by (erule bnd_error) (auto simp: act_defs Let_def map_err_def ok_or_def split: option.splits sum.splits prod.splits)

lemma prove_locally_error:
  assumes "prove_locally V payload label network s = (Inl (Rpc e), s')"
  shows "e = NotImplemented no_prover"
  using assms unfolding prove_locally_def
  by (auto elim!: bnd_error dest: on_jobs_error simp: ret_def emit_def at_step_def now_unix_ms_def)

text \<open>What is constant in a message spells no key: a key starts with a digit.\<close>

definition digit_code :: "char \<Rightarrow> bool" where
  "digit_code c \<longleftrightarrow> 48 \<le> (of_char c :: nat) \<and> (of_char c :: nat) \<le> 57"

lemma digit_code_digit: "d < 10 \<Longrightarrow> digit_code (digit_char d)"
  by (simp add: digit_code_def of_digit_char)

lemma spelling_head:
  assumes "q \<in> set (key_spellings k)" shows "digit_code (hd q)"
proof -
  have "digit_code (hd (nat_dec n))" for n
    using digits_less [of 10 "hd (digits 10 n)" n] digit_code_digit by (simp add: nat_dec_def hd_map)
  moreover have "digit_code (CHR ''0'')" by (simp add: digit_code_def)
  ultimately show ?thesis using assms by (auto simp: key_spellings_def felt_0x_def felt_0x64_def)
qed

lemma digitless_spells_none:
  assumes q: "q \<in> set (key_spellings k)" and r: "list_all (\<lambda>c. \<not> digit_code c) r" shows "\<not> sublist q r"
proof
  assume "sublist q r"
  then have "hd q \<in> set r" using spelling_unbracketed(2) [OF q] by (meson hd_in_set set_mono_sublist subsetD)
  then show False using r spelling_head [OF q] by (auto simp: list_all_iff)
qed

text \<open>An error without the key in it: scrubbed, or one of four constant messages.\<close>

definition clean :: "felt \<Rightarrow> wallet_rpc_error \<Rightarrow> bool" where
  "clean k e \<longleftrightarrow> (\<exists>txt. e = Unknown (scrub txt k))
     \<or> e \<in> {NotImplemented no_prover, Precondition (remote_error_string (ScreeningRejected ''address_blocked'')),
             Unknown ''the proof carries no message from the pool''}"

lemma clean_spells_none:
  assumes c: "clean k e" and q: "q \<in> set (key_spellings k)" shows "\<not> sublist q (error_message e)"
proof -
  have msgs: "list_all (\<lambda>c. \<not> digit_code c) (error_message (NotImplemented no_prover))"
    "list_all (\<lambda>c. \<not> digit_code c) (error_message (Precondition (remote_error_string (ScreeningRejected ''address_blocked''))))"
    "list_all (\<lambda>c. \<not> digit_code c) (error_message (Unknown ''the proof carries no message from the pool''))"
    "list_all (\<lambda>c. \<not> digit_code c) ''unknown error: ''"
    by (simp_all add: no_prover_def digit_code_def)
  have "CHR ''u'' \<notin> set q" "CHR '' '' \<notin> set q"
    using spelling_unbracketed(1) [OF q] by (auto simp: list_all_iff unbracketed_def)
  then have "apart q ''unknown error: ''"
    using digitless_spells_none [OF q msgs(4)] spelling_unbracketed(2) [OF q] by (simp add: apart_def)
  then have "\<not> sublist q (error_message (Unknown (scrub t k)))" for t
    using sublist_mark [of q "''unknown error: ''" "scrub t k"] scrub_removes [OF q] by auto
  then show ?thesis using c msgs(1,2,3) digitless_spells_none [OF q] unfolding clean_def by blast
qed

lemma classify_rejected_sym [simp]:
  "ScreeningRejected r = classify_rpc_error print err \<longleftrightarrow> r = ''address_blocked''
     \<and> Option.bind (json_get err ''code'') as_i64 = Some 10000 \<and> get_str err ''data'' = Some ''address_blocked''"
  using classify_rejected by metis

text \<open>The only verdict on a depositor that a prover's answer can be read as.\<close>

definition verdict_fixed :: "(remote_error + json) act \<Rightarrow> bool" where
  "verdict_fixed m \<longleftrightarrow> (\<forall>r. yields m (Inl (ScreeningRejected r)) \<longrightarrow> r = ''address_blocked'')"

lemma starkscan_error_unrejected [simp]:
  "starkscan_http_error V status v \<noteq> ScreeningRejected r" "ScreeningRejected r \<noteq> starkscan_http_error V status v"
  by (simp_all add: starkscan_http_error_def Let_def)

lemma poll_verdict:
  "yields (starkscan_poll V fuel root api_key job_id) (Some (Inl (ScreeningRejected r))) \<Longrightarrow> r = ''address_blocked''"
  by (induction V fuel root api_key job_id rule: starkscan_poll.induct)
    (auto simp: Let_def classify_rejected ok_or_def dest!: yields_bnd
      split: http_reply.splits option.splits if_splits)

lemma submit_verdict: "verdict_fixed (starkscan_submit V fuel n root api_key k body)"
  unfolding verdict_fixed_def
  by (induction V fuel n root api_key k body rule: starkscan_submit.induct)
    (auto simp: Let_def dest!: yields_bnd poll_verdict split: http_reply.splits option.splits if_splits)

lemma remote_verdict: "verdict_fixed (remote_prove V fuel p chain block tx)"
proof (cases p)
  case (JsonRpcProver url label)
  then show ?thesis unfolding verdict_fixed_def remote_prove_def prove_json_rpc_def
    by (auto simp: classify_rejected ok_or_def dest!: yields_bnd split: http_reply.splits option.splits sum.splits if_splits)
next
  case (StarkscanProver api_key)
  then show ?thesis using submit_verdict unfolding verdict_fixed_def remote_prove_def prove_starkscan_def
    by (auto dest!: yields_bnd split: if_splits) blast+
qed

lemma run_prover_clean:
  assumes "run_prover V cx m proving block user_sk tx s = (Inl (Rpc e), s')"
  shows "clean user_sk e"
proof (cases proving)
  case LocalProving
  then show ?thesis using assms unfolding run_prover_def
    by (auto elim!: bnd_error dest: prove_locally_error simp: lift_def map_err_def clean_def split: sum.splits)
next
  case (RemoteProving p)
  have no: "remote_prove V (e_patience V) p (cx_chain cx) block tx s1 \<noteq> (Inl (Rpc e), s2)" for s1 e s2
    using only_crashes_remote unfolding only_crashes_def by (metis fst_conv)
  have verdict: "r = ''address_blocked''"
    if "remote_prove V (e_patience V) p (cx_chain cx) block tx s1 = (Inr (Inl (ScreeningRejected r)), s2)" for s1 s2 r
    using that remote_verdict unfolding verdict_fixed_def yields_def by blast
  show ?thesis using assms RemoteProving no unfolding run_prover_def
    by (auto elim!: bnd_error dest: verdict simp: emit_def lift_def map_err_def remote_failure_def clean_def
        split: sum.splits remote_error.splits)
qed

lemma apply_actions_error:
  "lift20 (apply_actions_call E pool out screening) s = (Inl (Rpc e), s')
     \<Longrightarrow> e = Unknown ''the proof carries no message from the pool''"
  by (auto simp: lift20_def apply_actions_call_def map_err_def Let_def split: list.splits)

lemma prove_invocation_clean:
  assumes "prove_invocation V cx m proving block user_sk tx s = (Inl (Rpc e), s')"
  shows "clean user_sk e"
  using assms unfolding prove_invocation_def
  by (auto elim!: bnd_error dest: run_prover_clean apply_actions_error simp: lift_def map_err_def ret_def clean_def
      split: sum.splits)

end
