(* ===== verification/Rpc_Instances.thy ===== *)
theory Rpc_Instances
  imports Instances Rpc_Requests Rpc_Invariant Rpc_Scrub
begin

text \<open>
  A concrete environment for the dispatcher: the demo cryptography, a vault file that knows two sealed
  vaults (before and after the account \<open>demo_account\<close> is created), a user who approves everything, and
  no interference.
\<close>

definition demo_new_session :: wallet_session where
  "demo_new_session = snd (create_account demo_ext demo_session Agent ''bot'' (Some ''client-1''))"

definition demo_sealed :: "wallet_session \<Rightarrow> encrypted_vault" where
  "demo_sealed s =
     (case reseal demo_ext demo_codec (Some (replicate 16 1)) (Some (replicate 12 2)) s of
        Inr v \<Rightarrow> v
      | Inl _ \<Rightarrow> \<lparr>vault_version = 0, vault_kdf = \<lparr>m_cost = 0, t_cost = 0, p_cost = 0, kdf_salt = []\<rparr>, vault_nonce = [], vault_ciphertext = []\<rparr>)"

definition demo_format :: vault_format where
  "demo_format =
     \<lparr>vault_to_json = (\<lambda>v. if v = demo_sealed demo_session then Some [0]
                           else if v = demo_sealed demo_new_session then Some [1] else None),
      vault_utf8 = (\<lambda>b. Some (if b = [0] then ''0'' else ''1'')),
      vault_from_json = (\<lambda>s. Some (demo_sealed (if s = ''0'' then demo_session else demo_new_session)))\<rparr>"

lemma demo_format_ok: "vault_format_ok demo_format"
  by (simp add: vault_format_ok_def demo_format_def)

definition demo_env :: "felt env" where
  "demo_env =
     \<lparr>e_ext = demo_ext, e_codec = demo_codec, e_format = demo_format, e_hash = (\<lambda>t. t),
      e_poseidon = demo_hash, e_curve = demo_curve, e_to_string = (\<lambda>_. ''json''),
      e_attestation = (\<lambda>_. Inl ''no attestation''), e_strk = (\<lambda>_. ''1.0000''), e_status = (\<lambda>_. ''503''),
      e_clock = (\<lambda>n. of_nat n), e_elapsed = (\<lambda>_. 1), e_decide = (\<lambda>_ _. Approve),
      e_draw = (\<lambda>k n. replicate k (of_nat n)), e_seal_draw = (\<lambda>k _. Some (replicate k 1)),
      e_randomness = (\<lambda>_. demo_rng), e_write = (\<lambda>_. Written), e_prove = (\<lambda>_ _ _. Inl ''no prover''),
      e_patience = 3, e_http = (\<lambda>_ _. NoAnswer (''cannot prove for '' @ felt_0x 6)),
      e_interfere = (\<lambda>_ sv. sv)\<rparr>"

definition demo_file :: vault_file where
  "demo_file = \<lparr>vf_content = Some [0], vf_tmp = None, vf_readable = True\<rparr>"

definition demo_server :: server where
  "demo_server = (with_vault_store demo_file (server_new 0 demo_session))\<lparr>sv_clients := demo_store\<rparr>"

definition demo_sys :: sys where
  "demo_sys = \<lparr>sy_server = demo_server, sy_step = 0, sy_trace = []\<rparr>"

definition demo_request :: "string \<Rightarrow> request" where
  "demo_request m = \<lparr>req_jsonrpc = Some ''2.0'', req_method = m, req_params = JNull, req_id = json_u64 1\<rparr>"

lemma demo_server_simps [simp]:
  "sv_session demo_server = demo_session" "sv_clients demo_server = demo_store"
  "sv_vault_store demo_server = Some demo_file"
  by (simp_all add: demo_server_def with_vault_store_def server_new_def server_with_log_def)

lemma demo_laws: "vault_laws demo_env"
  by (simp add: vault_laws_def demo_env_def demo_aead demo_codec_ok demo_format_ok)

lemma demo_sealed_ok:
  assumes "s_unlocked s \<noteq> None"
  shows "reseal demo_ext demo_codec (Some (replicate 16 1)) (Some (replicate 12 2)) s = Ok (demo_sealed s)"
proof -
  obtain u where u: "s_unlocked s = Some u" using assms by blast
  have "\<exists>v. reseal demo_ext demo_codec (Some (replicate 16 1)) (Some (replicate 12 2)) s = Ok v"
    by (simp add: reseal_def require_unlocked_def u seal_def random_bytes_def derive_key_def demo_ext_def Let_def)
  then show ?thesis by (auto simp: demo_sealed_def)
qed

lemma demo_durable: "durable demo_env demo_server"
proof -
  have u: "s_unlocked demo_session = Some \<lparr>u_mnemonic = ''seed'', u_vault_passphrase = ''pw'', u_registry = []\<rparr>"
    by (simp add: demo_session_def)
  have "unlock demo_ext demo_codec (lock demo_session) (demo_sealed demo_session) ''pw'' = (Ok (), demo_session)"
    using unlock_reseal [OF demo_aead demo_codec_ok _ u demo_sealed_ok] by (simp add: u NONCE_LEN_def)
  then show ?thesis
    by (simp add: durable_def u demo_env_def demo_file_def vault_load_def demo_format_def)
qed

lemma demo_created:
  "create_account demo_ext demo_session Agent ''bot'' (Some ''client-1'') = (Ok demo_account, demo_new_session)"
  using demo_create unfolding demo_new_session_def by auto

lemma demo_persist:
  "\<exists>sv'. create_and_persist demo_env (Some (replicate 16 1)) (Some (replicate 12 2)) Written ''client-1'' ''bot'' demo_server
     = (Ok demo_account, sv')"
proof -
  obtain u where "demo_new_session = demo_session\<lparr>s_unlocked := Some u\<rparr>"
    using demo_created by (elim create_account_Ok) blast
  then have "s_unlocked demo_new_session = s_unlocked (demo_session\<lparr>s_unlocked := Some u\<rparr>)" by (rule arg_cong)
  then have "s_unlocked demo_new_session \<noteq> None" by simp
  then have "persist_session demo_env (Some (replicate 16 1)) (Some (replicate 12 2)) Written demo_new_session demo_file
      = (Ok (), snd (vault_save demo_format Written (demo_sealed demo_new_session) demo_file))"
    by (simp add: persist_session_def demo_env_def demo_sealed_ok vault_save_def demo_format_def map_err_def)
  then show ?thesis
    by (simp add: create_and_persist_def create_agent_account_def demo_created demo_env_def)
qed

lemma demo_fresh: "next_address_fresh demo_ext demo_session Agent"
  by (simp add: next_address_fresh_def demo_session_def)

lemma demo_interference: "interference_keeps demo_env I"
  by (simp add: interference_keeps_def demo_env_def)

text \<open>A node that answers nothing, and the operation of a client on it.\<close>

definition demo_node :: starknet_rpc where
  "demo_node = (let e = Transport ''down'' in
     \<lparr>get_nonce = \<lambda>_. Inl e, estimate_invoke = \<lambda>_ _ _. Inl e, add_invoke = \<lambda>_ _ _ _ _ _ _. Inl e,
      estimate_invoke_with_proof = \<lambda>_ _ _ _ _. Inl e, raw_call = \<lambda>_ _. Inl e, is_deployed = \<lambda>_. Inl e,
      balance_of = \<lambda>_ _. Inl e, estimate_deploy_account = \<lambda>_ _ _ _. Inl e,
      add_deploy_account = \<lambda>_ _ _ _ _. Inl e, estimate_declare = \<lambda>_ _ _ _. Inl e,
      add_declare = \<lambda>_ _ _ _ _ _. Inl e\<rparr>)"

definition demo_cx :: strk20_ctx where
  "demo_cx = \<lparr>cx_account = demo_account, cx_user = 5, cx_chain = Sepolia, cx_pool = 9, cx_node = demo_node,
     cx_cfg = default_strk20_config\<rparr>"

lemma demo_prover_error:
  "\<exists>s'. prove_invocation demo_env demo_cx ''wallet_strk20InvokeTransaction'' (RemoteProving (JsonRpcProver ''https://p'' ''a prover''))
      7 6 JNull demo_sys
    = (Inl (Rpc (Unknown (scrub (remote_error_string (Unavailable (''cannot prove for '' @ felt_0x 6))) 6))), s')"
  by (simp add: prove_invocation_def run_prover_def remote_prove_def prove_json_rpc_def http_send_def act_defs demo_env_def map_err_def
      remote_failure_def)

end
