(* ===== verification/Rpc_Backoff.thy ===== *)
theory Rpc_Backoff
  imports Prelude
begin

text \<open>
  \<open>crates/wallet-rpc/src/backoff.rs\<close>: the escalating delay after wrong passphrases. An \<open>Instant\<close>
  and a \<open>Duration\<close> are numbers of seconds. The specification is \<open>guessing\<close>, the step relation of
  somebody trying wrong passphrases whenever \<open>check\<close> lets them: the lemmas bound from below the
  time that any number of guesses takes.
\<close>

definition FREE_ATTEMPTS :: u32 where "FREE_ATTEMPTS = 3"
definition BASE_DELAY :: nat where "BASE_DELAY = 5"
definition MAX_DELAY :: nat where "MAX_DELAY = 300"

record passphrase_backoff =
  bo_failures :: u32
  bo_until :: "nat option"

definition backoff_default :: passphrase_backoff where
  "backoff_default = \<lparr>bo_failures = 0, bo_until = None\<rparr>"

definition backoff_check :: "passphrase_backoff \<Rightarrow> nat \<Rightarrow> nat + unit" where
  "backoff_check b now =
     (case bo_until b of
        Some t \<Rightarrow> if now < t then Err (t - now) else Ok ()
      | None \<Rightarrow> Ok ())"

definition saturating_add1 :: "u32 \<Rightarrow> u32" where
  "saturating_add1 w = (if w = - 1 then w else w + 1)"

text \<open>\<open>1u32 << doublings\<close> with at most 16 doublings; the product is far from \<open>Duration::MAX\<close>.\<close>

definition record_failure :: "passphrase_backoff \<Rightarrow> nat \<Rightarrow> passphrase_backoff" where
  "record_failure b now =
     (let failures = saturating_add1 (bo_failures b);
          b' = b\<lparr>bo_failures := failures\<rparr>
      in if FREE_ATTEMPTS < failures then
           (let doublings = min (failures - FREE_ATTEMPTS - 1) 16;
                delay = min (BASE_DELAY * unat (push_bit (unat doublings) 1 :: u32)) MAX_DELAY
            in b'\<lparr>bo_until := Some (now + delay)\<rparr>)
         else b')"

definition record_success :: "passphrase_backoff \<Rightarrow> passphrase_backoff" where
  "record_success b = backoff_default"

text \<open>The delay due after the \<open>k\<close>-th miss.\<close>

definition delay_after :: "nat \<Rightarrow> nat" where
  "delay_after k = (if k \<le> 3 then 0 else min (5 * 2 ^ min (k - 4) 16) 300)"

lemma unat_saturating_add1: "unat (saturating_add1 w) = min (unat w + 1) (2 ^ 32 - 1)"
proof (cases "w = - 1")
  case True
  then show ?thesis by (simp add: saturating_add1_def unsigned_minus_1_eq_mask mask_eq_exp_minus_1)
next
  case False
  then have "1 + w \<noteq> 0" by (simp add: add_eq_0_iff)
  then have "unat (w + 1) = unat w + 1" using unatSuc [of w] by (simp add: add.commute)
  moreover have "unat (w + 1) < 2 ^ 32" using unat_less_exp [of "w + 1"] by simp
  ultimately show ?thesis using False by (simp add: saturating_add1_def)
qed

lemma pow2_le_16: "k \<le> 16 \<Longrightarrow> unat (push_bit k 1 :: u32) = 2 ^ k"
proof -
  assume k: "k \<le> 16"
  have "(2 :: nat) ^ k < 2 ^ 32" using k by (intro power_strict_increasing) simp_all
  then have "take_bit 32 (2 ^ k :: nat) = 2 ^ k" by (rule take_bit_nat_eq_self)
  then have "take_bit 32 (push_bit k (1 :: nat)) = 2 ^ k" by (simp only: push_bit_eq_mult mult_1)
  then show ?thesis by (simp only: unsigned_push_bit_eq unsigned_1) simp
qed

lemma unat_min: "unat (min a b :: u32) = min (unat a) (unat b)"
  by (simp add: min_def word_le_nat_alt)

lemma record_failure_until:
  assumes n: "unat (bo_failures b) = n" "n < 2 ^ 32 - 1"
  shows "unat (bo_failures (record_failure b now)) = n + 1"
    "bo_until (record_failure b now) = (if n + 1 \<le> 3 then bo_until b else Some (now + delay_after (n + 1)))"
proof -
  let ?f = "saturating_add1 (bo_failures b)"
  have f: "unat ?f = n + 1" using n by (simp add: unat_saturating_add1)
  show "unat (bo_failures (record_failure b now)) = n + 1" using f by (simp add: record_failure_def Let_def)
  have less: "FREE_ATTEMPTS < ?f \<longleftrightarrow> \<not> n + 1 \<le> 3" using f by (auto simp: FREE_ATTEMPTS_def word_less_nat_alt)
  show "bo_until (record_failure b now) = (if n + 1 \<le> 3 then bo_until b else Some (now + delay_after (n + 1)))"
  proof (cases "n + 1 \<le> 3")
    case True
    then show ?thesis using less by (simp add: record_failure_def Let_def)
  next
    case False
    have 1: "unat (?f - FREE_ATTEMPTS) = n - 2"
      using False f by (subst unat_sub) (simp_all add: FREE_ATTEMPTS_def word_le_nat_alt)
    have 2: "unat (?f - FREE_ATTEMPTS - 1) = n - 3"
      using False 1 by (subst unat_sub) (simp_all add: word_le_nat_alt)
    have "unat (min (?f - FREE_ATTEMPTS - 1) 16) = min (n - 3) 16" using 2 by (simp add: unat_min)
    then have "unat (push_bit (unat (min (?f - FREE_ATTEMPTS - 1) 16)) 1 :: u32) = 2 ^ min (n - 3) 16"
      by (simp only: pow2_le_16 min.cobounded2)
    then have "bo_until (record_failure b now)
        = Some (now + min (BASE_DELAY * 2 ^ min (n - 3) 16) MAX_DELAY)"
      using less False by (simp add: record_failure_def Let_def)
    then show ?thesis using False by (simp add: delay_after_def BASE_DELAY_def MAX_DELAY_def)
  qed
qed

section \<open>How fast passphrases can be tried\<close>

text \<open>
  The guesser acts only when \<open>check\<close> is \<open>Ok\<close> and always misses; \<open>guessing k t b\<close> is the state after \<open>k\<close>
  misses, the last of them at time \<open>t\<close>, from a fresh counter.
\<close>

inductive guessing :: "nat \<Rightarrow> nat \<Rightarrow> passphrase_backoff \<Rightarrow> bool" where
  start: "guessing 0 t backoff_default"
| miss: "guessing k t b \<Longrightarrow> t \<le> now \<Longrightarrow> backoff_check b now = Ok () \<Longrightarrow>
    guessing (Suc k) now (record_failure b now)"

inductive_cases guessing_Suc: "guessing (Suc k) t b"

text \<open>The earliest time of the \<open>k\<close>-th miss: the delays after the misses before it.\<close>

definition earliest :: "nat \<Rightarrow> nat" where
  "earliest k = (\<Sum>j < k. delay_after j)"

lemma guessing_invariant:
  "guessing k t b \<Longrightarrow> k < 2 ^ 32 \<Longrightarrow>
     unat (bo_failures b) = k \<and> earliest k \<le> t
     \<and> bo_until b = (if k \<le> 3 then None else Some (t + delay_after k))"
proof (induction rule: guessing.induct)
  case (start t)
  then show ?case by (simp add: backoff_default_def earliest_def)
next
  case (miss k t b now)
  then have ih: "unat (bo_failures b) = k" "earliest k \<le> t"
    "bo_until b = (if k \<le> 3 then None else Some (t + delay_after k))" and k: "k < 2 ^ 32 - 1"
    by simp_all
  have "t + delay_after k \<le> now"
    using miss.hyps(2,3) ih(3) by (auto simp: backoff_check_def delay_after_def split: if_splits)
  then have "earliest (Suc k) \<le> now" using ih(2) by (simp add: earliest_def)
  then show ?case using record_failure_until [OF ih(1) k, of now] ih(3) by simp
qed

lemma delay_after_cap: "10 \<le> k \<Longrightarrow> delay_after k = 300"
proof -
  assume "10 \<le> k"
  then have "(2 :: nat) ^ 6 \<le> 2 ^ min (k - 4) 16" by (intro power_increasing) simp_all
  then show ?thesis using \<open>10 \<le> k\<close> by (simp add: delay_after_def)
qed

lemma earliest_linear: "earliest (10 + n) = 315 + 300 * n"
proof (induction n)
  case 0
  show ?case by (simp add: earliest_def delay_after_def lessThan_Suc numeral_eq_Suc)
next
  case (Suc n)
  have "earliest (10 + Suc n) = earliest (10 + n) + delay_after (10 + n)"
    by (simp only: earliest_def add_Suc_right sum.lessThan_Suc)
  then show ?case using Suc delay_after_cap [of "10 + n"] by simp
qed

end
