(* ===== verification/Desktop_Settings.thy ===== *)
theory Desktop_Settings
  imports Rpc_State
begin

text \<open>
  \<open>desktop/src-tauri/src/settings.rs\<close>: the settings of the desktop application and their file \<open>config.json\<close>,
  which is the JSON it holds, \<open>None\<close> when it is missing, unreadable or not JSON.
\<close>

section \<open>Settings of the wallet\<close>

record desktop_settings =
  ds_sepolia_rpc :: string
  ds_mainnet_rpc :: string
  ds_auto_lock_minutes :: u64

definition default_auto_lock_minutes :: u64 where "default_auto_lock_minutes = 15"

definition default_settings :: desktop_settings where
  "default_settings = \<lparr>ds_sepolia_rpc = [], ds_mainnet_rpc = [], ds_auto_lock_minutes = default_auto_lock_minutes\<rparr>"

definition rpc_for :: "desktop_settings \<Rightarrow> chain \<Rightarrow> string" where
  "rpc_for st c = (case c of Sepolia \<Rightarrow> ds_sepolia_rpc st | Mainnet \<Rightarrow> ds_mainnet_rpc st)"

text \<open>\<open>transport\<close> is the JSON-RPC exchange with the node at a URL.\<close>

definition settings_node_for :: "ext \<Rightarrow> (string \<Rightarrow> node_call) \<Rightarrow> desktop_settings \<Rightarrow> chain \<Rightarrow> starknet_rpc option" where
  "settings_node_for E transport st c =
     (let url = trim (rpc_for st c) in if url = [] then None else Some (http_rpc E (transport url)))"

definition http_url_or_empty :: "string \<Rightarrow> bool" where
  "http_url_or_empty url \<longleftrightarrow>
     (let u = trim url in u = [] \<or> starts_with ''http://'' u \<or> starts_with ''https://'' u)"

definition settings_validate :: "desktop_settings \<Rightarrow> string + unit" where
  "settings_validate st =
     (if \<not> http_url_or_empty (ds_sepolia_rpc st) then Err (''sepolia_rpc'' @ '' must be an http(s) URL or empty'')
      else if \<not> http_url_or_empty (ds_mainnet_rpc st) then Err (''mainnet_rpc'' @ '' must be an http(s) URL or empty'')
      else Ok ())"

section \<open>The file\<close>

definition settings_from_json :: "json \<Rightarrow> desktop_settings option" where
  "settings_from_json v =
     (case v of
        JObj ms \<Rightarrow>
          Option.bind (field_or [] as_str ''sepolia_rpc'' ms) (\<lambda>a.
          Option.bind (field_or [] as_str ''mainnet_rpc'' ms) (\<lambda>b.
          Option.bind (field_or default_auto_lock_minutes as_u64 ''auto_lock_minutes'' ms) (\<lambda>c.
          Some \<lparr>ds_sepolia_rpc = a, ds_mainnet_rpc = b, ds_auto_lock_minutes = c\<rparr>)))
      | JArr xs \<Rightarrow>
          if 3 < length xs then None
          else
          Option.bind (elem_or [] as_str 0 xs) (\<lambda>a.
          Option.bind (elem_or [] as_str 1 xs) (\<lambda>b.
          Option.bind (elem_or default_auto_lock_minutes as_u64 2 xs) (\<lambda>c.
          Some \<lparr>ds_sepolia_rpc = a, ds_mainnet_rpc = b, ds_auto_lock_minutes = c\<rparr>)))
      | _ \<Rightarrow> None)"

definition settings_to_json :: "desktop_settings \<Rightarrow> json" where
  "settings_to_json st =
     JObj [(''sepolia_rpc'', JStr (ds_sepolia_rpc st)), (''mainnet_rpc'', JStr (ds_mainnet_rpc st)),
           (''auto_lock_minutes'', json_u64 (ds_auto_lock_minutes st))]"

definition settings_load :: "json option \<Rightarrow> desktop_settings" where
  "settings_load f =
     (case Option.bind f settings_from_json of None \<Rightarrow> default_settings | Some st \<Rightarrow> st)"

text \<open>Saving writes the file in place, then restricts its mode. A write that fails may leave anything.\<close>

datatype config_outcome = ConfigWriteFails "json option" string | ConfigModeFails string | ConfigWritten

definition settings_save :: "config_outcome \<Rightarrow> desktop_settings \<Rightarrow> json option \<Rightarrow> (string + unit) \<times> json option" where
  "settings_save out st f =
     (case out of
        ConfigWriteFails left e \<Rightarrow> (Err e, left)
      | ConfigModeFails e \<Rightarrow> (Err e, Some (settings_to_json st))
      | ConfigWritten \<Rightarrow> (Ok (), Some (settings_to_json st)))"

lemma settings_json_roundtrip [simp]: "settings_from_json (settings_to_json st) = Some st"
  by (simp add: settings_from_json_def settings_to_json_def field_or_def members_named_def json_u64_def)

lemma settings_load_saved:
  "settings_save out st f = (Ok (), f') \<Longrightarrow> settings_load f' = st"
  by (auto simp: settings_save_def settings_load_def split: config_outcome.splits)

lemma settings_validate_Ok:
  "settings_validate st = Ok () \<longleftrightarrow> (\<forall>c. http_url_or_empty (rpc_for st c))"
  by (auto simp: settings_validate_def rpc_for_def split: chain.splits)

end
