(* ===== verification/Desktop_State.thy ===== *)
theory Desktop_State
  imports Rpc_Durable Rpc_Dispatch Rpc_Backoff Desktop_Settings
begin

text \<open>
  The state of the desktop application (\<open>DesktopState\<close> of \<open>desktop/src-tauri/src/lib.rs\<close>) around the server
  it shares with the service, and the actions of its IPC commands.

  A command is an action on \<open>dsys\<close>: the system of the server with the desktop's own state. Steps on the
  server are those of \<open>act\<close>, with the interference of the service and of other commands before
  each; steps on the desktop's state are preceded by \<open>de_interfere\<close> in the same way. The error of a
  command is the string shown to the user. The file of the vault store is the one the server has.
\<close>

record desk =
  dk_config :: "json option"                      \<comment> \<open>\<open>config.json\<close>\<close>
  dk_onboarding :: "string option"
  dk_backoff :: passphrase_backoff
  dk_backups :: "string \<Rightarrow> bytes option"           \<comment> \<open>files beside the vault, by name\<close>

record dsys =
  dy_sys :: sys
  dy_desk :: desk

text \<open>\<open>de_chain\<close> and \<open>de_service_url\<close> are the fixed fields of \<open>DesktopState\<close>, \<open>de_dir\<close> the directory of the vault.\<close>

record 'pt desktop_env =
  de_env :: "'pt env"
  de_chain :: chain
  de_service_url :: string
  de_version :: string                             \<comment> \<open>\<open>CARGO_PKG_VERSION\<close>\<close>
  de_dir :: string
  de_interfere :: "nat \<Rightarrow> desk \<Rightarrow> desk"
  de_instant :: "nat \<Rightarrow> nat"                       \<comment> \<open>\<open>Instant::now\<close>, in seconds\<close>
  de_node :: "string \<Rightarrow> node_call"                 \<comment> \<open>the node at a URL\<close>
  de_io_error :: "io_error \<Rightarrow> string"              \<comment> \<open>\<open>Display\<close> of \<open>io::Error\<close>\<close>
  de_config_write :: "nat \<Rightarrow> config_outcome"
  de_rename :: "nat \<Rightarrow> string option"              \<comment> \<open>the error of a rename\<close>
  de_prover_write :: "nat \<Rightarrow> string option"        \<comment> \<open>the error of saving the prover's settings\<close>
  de_bin_exists :: "nat \<Rightarrow> bool"                   \<comment> \<open>the \<open>snip36\<close> binary is there\<close>
  de_settings_held :: "nat \<Rightarrow> bool"               \<comment> \<open>a writer holds the prover's settings\<close>

datatype ui_failure = Ui string | UiCrash string

type_synonym 'a cmd = "dsys \<Rightarrow> (ui_failure + 'a) \<times> dsys"

definition cret :: "'a \<Rightarrow> 'a cmd" where "cret x s = (Ok x, s)"
definition cfail :: "string \<Rightarrow> 'a cmd" where "cfail e s = (Err (Ui e), s)"

definition cbnd :: "'a cmd \<Rightarrow> ('a \<Rightarrow> 'b cmd) \<Rightarrow> 'b cmd" where
  "cbnd m f s = (case m s of (Inl e, s') \<Rightarrow> (Inl e, s') | (Inr x, s') \<Rightarrow> f x s')"

text \<open>An action on the server; \<open>map_err(|e| e.to_string())\<close> on its error.\<close>

fun ui_failure_of :: "rpc_failure \<Rightarrow> ui_failure" where
  "ui_failure_of (Rpc e) = Ui (error_message e)"
| "ui_failure_of (Crash m) = UiCrash m"

definition srv :: "'a act \<Rightarrow> 'a cmd" where
  "srv m s = (case m (dy_sys s) of (r, y) \<Rightarrow> (map_err ui_failure_of r, s\<lparr>dy_sys := y\<rparr>))"

definition clift :: "string + 'a \<Rightarrow> 'a cmd" where
  "clift r s = (map_err Ui r, s)"

definition now_desk :: "'pt desktop_env \<Rightarrow> dsys \<Rightarrow> desk" where
  "now_desk D s = de_interfere D (sy_step (dy_sys s)) (dy_desk s)"

definition on_desk :: "'pt desktop_env \<Rightarrow> (desk \<Rightarrow> 'a \<times> desk) \<Rightarrow> 'a cmd" where
  "on_desk D f s =
     (let (x, d) = f (now_desk D s); y = dy_sys s
      in (Ok x, s\<lparr>dy_desk := d, dy_sys := y\<lparr>sy_step := Suc (sy_step y)\<rparr>\<rparr>))"

text \<open>The passphrase delay, at the instant of the step.\<close>

definition on_backoff :: "'pt desktop_env \<Rightarrow> (nat \<Rightarrow> passphrase_backoff \<Rightarrow> 'a \<times> passphrase_backoff) \<Rightarrow> 'a cmd" where
  "on_backoff D f s =
     on_desk D (\<lambda>d. let (x, b) = f (de_instant D (sy_step (dy_sys s))) (dk_backoff d)
                   in (x, d\<lparr>dk_backoff := b\<rparr>)) s"

lemmas cmd_defs = cret_def cfail_def cbnd_def srv_def clift_def on_desk_def on_backoff_def

lemma cbnd_simps [simp]:
  "cbnd (cret x) f = f x" "cbnd (cfail e) f = cfail e" "cbnd (cbnd m f) g = cbnd m (\<lambda>x. cbnd (f x) g)"
  "cbnd (if c then m else n) f = (if c then cbnd m f else cbnd n f)"
  by (auto simp: cbnd_def cret_def cfail_def fun_eq_iff split: prod.splits sum.splits)

section \<open>The vault file\<close>

text \<open>A desktop's server always has a vault store, which \<open>run\<close> gave it.\<close>

definition store_file :: "server \<Rightarrow> vault_file" where
  "store_file sv =
     (case sv_vault_store sv of
        None \<Rightarrow> \<lparr>vf_content = None, vf_tmp = None, vf_readable = True\<rparr>
      | Some f \<Rightarrow> f)"

definition load_vault :: "'pt desktop_env \<Rightarrow> encrypted_vault option cmd" where
  "load_vault D =
     cbnd (srv (reads (de_env D) (\<lambda>sv. vault_load (e_format (de_env D)) (store_file sv)))) (\<lambda>r.
     clift (map_err (de_io_error D) r))"

definition save_vault :: "'pt desktop_env \<Rightarrow> encrypted_vault \<Rightarrow> unit cmd" where
  "save_vault D vault =
     cbnd (srv (at_step (e_write (de_env D)))) (\<lambda>out.
     cbnd (srv (locked (de_env D) (\<lambda>sv.
        let (r, f) = vault_save (e_format (de_env D)) out vault (store_file sv)
        in (r, sv\<lparr>sv_vault_store := Some f\<rparr>)))) (\<lambda>r.
     clift (map_err (de_io_error D) r)))"

section \<open>The log of user actions\<close>

definition ui_row :: "string \<Rightarrow> string \<Rightarrow> string \<Rightarrow> int option \<Rightarrow> string option \<Rightarrow> u64 \<Rightarrow> log_entry" where
  "ui_row m network outcome code result_json ts =
     \<lparr>le_ts_unix_ms = ts, le_method = m, le_client = Some ''desktop (you)'', le_network = Some network,
      le_decision = ''user'', le_outcome = outcome, le_error_code = code, le_latency_ms = 0,
      le_params_json = None, le_result_json = result_json\<rparr>"

definition log_ui_action ::
  "'pt desktop_env \<Rightarrow> string \<Rightarrow> string \<Rightarrow> string \<Rightarrow> int option \<Rightarrow> string option \<Rightarrow> unit cmd" where
  "log_ui_action D m network outcome code result_json =
     srv (bnd (now_unix_ms (de_env D)) (\<lambda>ts.
       writes (de_env D) (\<lambda>sv. sv\<lparr>sv_log := log_record (ui_row m network outcome code result_json ts) (sv_log sv)\<rparr>)))"

section \<open>Runs without interference\<close>

text \<open>
  Nothing else runs between the steps of a command: the setting in which the exact results of a command
  are stated. \<open>arrive\<close> is the system \<open>k\<close> steps later, with the server and the desktop's state given.
\<close>

definition quiet :: "'pt desktop_env \<Rightarrow> bool" where
  "quiet D \<longleftrightarrow> (\<forall>n sv. e_interfere (de_env D) n sv = sv) \<and> (\<forall>n d. de_interfere D n d = d)"

definition dsv :: "dsys \<Rightarrow> server" where "dsv s = sy_server (dy_sys s)"
definition dstep :: "dsys \<Rightarrow> nat" where "dstep s = sy_step (dy_sys s)"

definition arrive :: "nat \<Rightarrow> server \<Rightarrow> desk \<Rightarrow> dsys \<Rightarrow> dsys" where
  "arrive k sv d s = s\<lparr>dy_sys := (dy_sys s)\<lparr>sy_server := sv, sy_step := dstep s + k\<rparr>, dy_desk := d\<rparr>"

lemma arrive_simps [simp]:
  "dsv (arrive k sv d s) = sv" "dstep (arrive k sv d s) = dstep s + k"
  "dy_desk (arrive k sv d s) = d" "sy_trace (dy_sys (arrive k sv d s)) = sy_trace (dy_sys s)"
  "arrive j sv' d' (arrive k sv d s) = arrive (k + j) sv' d' s"
  by (simp_all add: arrive_def dsv_def dstep_def)

lemma quiet_steps:
  assumes "quiet D"
  shows "srv (reads (de_env D) f) s = (Ok (f (dsv s)), arrive 1 (dsv s) (dy_desk s) s)"
    "srv (writes (de_env D) g) s = (Ok (), arrive 1 (g (dsv s)) (dy_desk s) s)"
    "srv (locked (de_env D) h) s = (Ok (fst (h (dsv s))), arrive 1 (snd (h (dsv s))) (dy_desk s) s)"
    "srv (at_step k) s = (Ok (k (dstep s)), arrive 1 (dsv s) (dy_desk s) s)"
    "on_desk D p s = (Ok (fst (p (dy_desk s))), arrive 1 (dsv s) (snd (p (dy_desk s))) s)"
    "on_backoff D q s = (Ok (fst (q (de_instant D (dstep s)) (dk_backoff (dy_desk s)))),
       arrive 1 (dsv s) (dy_desk s\<lparr>dk_backoff := snd (q (de_instant D (dstep s)) (dk_backoff (dy_desk s)))\<rparr>) s)"
  using assms
  by (simp_all add: quiet_def cmd_defs act_defs now_server_def now_desk_def arrive_def dsv_def dstep_def Let_def
      split: prod.splits)

lemma quiet_log:
  assumes "quiet D"
  shows "log_ui_action D m network outcome code result_json s
    = (Ok (), arrive (Suc 1) (dsv s\<lparr>sv_log := log_record
        (ui_row m network outcome code result_json (e_clock (de_env D) (dstep s))) (sv_log (dsv s))\<rparr>) (dy_desk s) s)"
  using assms
  by (simp add: quiet_def log_ui_action_def now_unix_ms_def cmd_defs act_defs now_server_def arrive_def dsv_def dstep_def Let_def)

text \<open>Running a command step by step.\<close>

lemmas run_simps = Let_def cbnd_def cret_def cfail_def clift_def map_err_def ok_or_def

end
