(* ===== verification/Desktop_Commands.thy ===== *)
theory Desktop_Commands
  imports Desktop_State
begin

text \<open>
  The IPC commands of \<open>desktop/src-tauri/src/lib.rs\<close> that the user interface calls: set-up, locking,
  the network, settings, accounts, private payments, the recovery phrase, paired clients and the prover's
  panel. Each takes the environment and its arguments; a reply that is a JSON value in the code is one here, the others are
  the values they serialise. Answering approval prompts is \<open>Desktop_Approvals\<close>.
\<close>

fun ui_chain_name :: "chain \<Rightarrow> string" where
  "ui_chain_name Mainnet = ''SN_MAIN''"
| "ui_chain_name Sepolia = ''SN_SEPOLIA''"

definition session_chain :: "'pt desktop_env \<Rightarrow> chain cmd" where
  "session_chain D = srv (reads (de_env D) (\<lambda>sv. s_chain (sv_session sv)))"

section \<open>Status and set-up\<close>

definition status :: "'pt desktop_env \<Rightarrow> json cmd" where
  "status D =
     cbnd (srv (reads (de_env D) (\<lambda>sv. vault_load (e_format (de_env D)) (store_file sv)))) (\<lambda>loaded.
     let vault_unsupported = (case loaded of Inr (Some v) \<Rightarrow> \<not> is_supported_version v | _ \<Rightarrow> False) in
     cbnd (srv (reads (de_env D) sv_session)) (\<lambda>se.
     cbnd (srv (reads (de_env D) (\<lambda>sv. vault_exists (store_file sv)))) (\<lambda>exists.
     cbnd (srv (reads (de_env D) (\<lambda>sv. has_node_for sv (s_chain se)))) (\<lambda>node.
     cret (JObj
       [(''locked'', JBool (is_locked se)),
        (''needs_onboarding'', JBool (\<not> exists)),
        (''vault_unsupported'', JBool vault_unsupported),
        (''network'', JStr (ui_chain_name (s_chain se))),
        (''version'', JStr (de_version D)),
        (''service_url'', JStr (de_service_url D)),
        (''accounts'', json_u64 (case session_registry se of Inl _ \<Rightarrow> 0 | Inr reg \<Rightarrow> of_nat (length reg))),
        (''node_configured'', JBool node)])))))"

text \<open>The text of a \<open>CoreError\<close>.\<close>

fun core_error_message :: "core_error \<Rightarrow> string" where
  "core_error_message InvalidMnemonic = ''invalid mnemonic''"
| "core_error_message Derivation = ''key derivation failed''"
| "core_error_message Signing = ''signing failed''"
| "core_error_message Address = ''account address computation failed''"
| "core_error_message CoreLocked = ''vault is locked''"
| "core_error_message BadPassphraseOrCorrupt = ''incorrect passphrase or corrupt vault''"
| "core_error_message Serialization = ''vault serialization error''"
| "core_error_message Kdf = ''key derivation function failure''"
| "core_error_message (UnsupportedVaultVersion v) = ''unsupported vault version: '' @ nat_dec (unat v)"
| "core_error_message Crypto = ''crypto subsystem error''"
| "core_error_message (InvalidContractClass m) = ''invalid contract class: '' @ m"
| "core_error_message (IndexOutOfRange d n) =
     ''account index '' @ u32_dec n @ '' is out of range for the '' @ domain_debug d @ '' branch''"

definition generate :: "'pt desktop_env \<Rightarrow> nat \<Rightarrow> string cmd" where
  "generate D word_count =
     cbnd (clift (map_err core_error_message (generate_mnemonic (e_ext (de_env D)) word_count))) (\<lambda>m.
     cbnd (on_desk D (\<lambda>d. ((), d\<lparr>dk_onboarding := Some m\<rparr>))) (\<lambda>_.
     cret m))"

definition import_phrase :: "'pt desktop_env \<Rightarrow> string \<Rightarrow> unit cmd" where
  "import_phrase D phrase =
     cbnd (clift (map_err (\<lambda>_. ''invalid mnemonic'') (validate_mnemonic (e_ext (de_env D)) phrase))) (\<lambda>_.
     on_desk D (\<lambda>d. ((), d\<lparr>dk_onboarding := Some phrase\<rparr>)))"

definition finalize_setup :: "'pt desktop_env \<Rightarrow> string \<Rightarrow> unit cmd" where
  "finalize_setup D passphrase =
     cbnd (on_desk D (\<lambda>d. (dk_onboarding d, d\<lparr>dk_onboarding := None\<rparr>))) (\<lambda>staged.
     cbnd (clift (ok_or ''no mnemonic staged; generate or import first'' staged)) (\<lambda>mnemonic.
     let session = new_unlocked (de_chain D) mnemonic passphrase [] in
     cbnd (srv (at_step (e_seal_draw (de_env D) SALT_LEN))) (\<lambda>salt.
     cbnd (srv (at_step (e_seal_draw (de_env D) NONCE_LEN))) (\<lambda>nonce.
     cbnd (clift (map_err error_message
            (reseal (e_ext (de_env D)) (e_codec (de_env D)) salt nonce session))) (\<lambda>vault.
     cbnd (save_vault D vault) (\<lambda>_.
     srv (writes (de_env D) (\<lambda>sv. sv\<lparr>sv_session := session\<rparr>))))))))"

section \<open>Unlocking\<close>

definition blocked_message :: "nat \<Rightarrow> string" where
  "blocked_message wait =
     ''too many wrong passphrases '' @ utf8_dash @ '' try again in '' @ nat_dec (max wait 1) @ ''s''"

definition check_backoff :: "'pt desktop_env \<Rightarrow> (nat + unit) cmd" where
  "check_backoff D = on_backoff D (\<lambda>now b. (backoff_check b now, b))"

definition note_failure :: "'pt desktop_env \<Rightarrow> unit cmd" where
  "note_failure D = on_backoff D (\<lambda>now b. ((), record_failure b now))"

definition note_success :: "'pt desktop_env \<Rightarrow> unit cmd" where
  "note_success D = on_backoff D (\<lambda>now b. ((), record_success b))"

definition note_attempt :: "'pt desktop_env \<Rightarrow> core_error + unit \<Rightarrow> unit cmd" where
  "note_attempt D opened =
     (case opened of
        Inr _ \<Rightarrow> note_success D
      | Inl (UnsupportedVaultVersion _) \<Rightarrow> cret ()
      | Inl _ \<Rightarrow> note_failure D)"

fun unlock_message :: "core_error \<Rightarrow> string" where
  "unlock_message (UnsupportedVaultVersion found) =
     ''this vault is version '' @ nat_dec (unat found) @ ''; this build of strkd uses version ''
     @ nat_dec (unat VAULT_VERSION) @ ''. ''
     @ ''Your vault is not damaged and your passphrase is not wrong '' @ utf8_dash @ '' this version changed how ''
     @ ''accounts are derived, so old vaults are deliberately not opened. Start over from your ''
     @ ''recovery phrase; the old vault file is kept as a backup.''"
| "unlock_message _ = ''incorrect passphrase''"

definition ui_unlock :: "'pt desktop_env \<Rightarrow> string \<Rightarrow> unit cmd" where
  "ui_unlock D passphrase =
     cbnd (check_backoff D) (\<lambda>blocked.
     case blocked of
       Inl wait \<Rightarrow> cfail (blocked_message wait)
     | Inr _ \<Rightarrow>
         cbnd (load_vault D) (\<lambda>loaded.
         cbnd (clift (ok_or ''no vault file'' loaded)) (\<lambda>vault.
         cbnd (srv (locked (de_env D) (\<lambda>sv.
            let (r, se) = unlock (e_ext (de_env D)) (e_codec (de_env D)) (sv_session sv) vault passphrase
            in (r, sv\<lparr>sv_session := se\<rparr>)))) (\<lambda>opened.
         cbnd (note_attempt D opened) (\<lambda>_.
         cbnd (clift (map_err unlock_message opened)) (\<lambda>_.
         srv (touched (de_env D))))))))"

definition ui_lock :: "'pt desktop_env \<Rightarrow> unit cmd" where
  "ui_lock D = srv (writes (de_env D) (\<lambda>sv. sv\<lparr>sv_session := lock (sv_session sv)\<rparr>))"

section \<open>A vault this build cannot open\<close>

definition backup_name :: "u8 \<Rightarrow> u64 \<Rightarrow> string" where
  "backup_name version stamp = ''vault.bin'' @ ''.v'' @ nat_dec (unat version) @ ''.'' @ nat_dec (unat stamp) @ ''.bak''"

text \<open>The rename of the vault file over \<open>name\<close> in its directory.\<close>

definition rename_vault :: "'pt desktop_env \<Rightarrow> string \<Rightarrow> (string + unit) cmd" where
  "rename_vault D name s =
     (let sv = now_server (de_env D) (dy_sys s);
          d = now_desk D s;
          f = store_file sv;
          y = dy_sys s;
          s' = s\<lparr>dy_sys := y\<lparr>sy_server := sv, sy_step := Suc (sy_step y)\<rparr>, dy_desk := d\<rparr>
      in case (de_rename D (sy_step y), vf_content f) of
           (None, Some bytes) \<Rightarrow>
             (Ok (Ok ()),
              s'\<lparr>dy_sys := (dy_sys s')\<lparr>sy_server := sv\<lparr>sv_vault_store := Some (f\<lparr>vf_content := None\<rparr>)\<rparr>\<rparr>,
                 dy_desk := d\<lparr>dk_backups := (dk_backups d)(name \<mapsto> bytes)\<rparr>\<rparr>)
         | (None, None) \<Rightarrow> (Ok (Err (de_io_error D IoFailed)), s')
         | (Some e, _) \<Rightarrow> (Ok (Err e), s'))"

definition archive_unsupported_vault :: "'pt desktop_env \<Rightarrow> string cmd" where
  "archive_unsupported_vault D =
     cbnd (load_vault D) (\<lambda>loaded.
     cbnd (clift (ok_or ''no vault file to archive'' loaded)) (\<lambda>vault.
     if is_supported_version vault
     then cfail ''this vault is readable by this build; refusing to move it aside''
     else
     cbnd (srv (now_unix_ms (de_env D))) (\<lambda>stamp.
     let name = backup_name (vault_version vault) stamp in
     cbnd (rename_vault D name) (\<lambda>r.
     cbnd (clift (map_err (\<lambda>e. ''could not move the vault aside: '' @ e) r)) (\<lambda>_.
     let dest = de_dir D @ ''/'' @ name in
     cbnd (log_ui_action D ''ui_archiveVault'' (ui_chain_name (de_chain D)) ''ok'' None
            (Some (''{'' @ in_dquotes ''backup'' @ '':'' @ in_dquotes dest @ ''}''))) (\<lambda>_.
     cret dest))))))"

section \<open>Network and settings\<close>

definition network_named :: "string \<Rightarrow> chain option" where
  "network_named network =
     (let n = to_lowercase network
      in if n = ''mainnet'' \<or> n = ''sn_main'' then Some Mainnet
         else if n = ''testnet'' \<or> n = ''sepolia'' \<or> n = ''sn_sepolia'' then Some Sepolia
         else None)"

definition set_network :: "'pt desktop_env \<Rightarrow> string \<Rightarrow> unit cmd" where
  "set_network D network =
     cbnd (clift (ok_or (''unknown network '' @ in_quotes (to_lowercase network)) (network_named network))) (\<lambda>c.
     cbnd (srv (writes (de_env D) (\<lambda>sv. sv\<lparr>sv_session := set_chain (sv_session sv) c\<rparr>))) (\<lambda>_.
     srv (emit (ChainSwitched c))))"

definition get_settings :: "'pt desktop_env \<Rightarrow> desktop_settings cmd" where
  "get_settings D = on_desk D (\<lambda>d. (settings_load (dk_config d), d))"

text \<open>The wallet's URLs in the prover's settings.\<close>

definition with_wallet_urls :: "desktop_settings \<Rightarrow> settings \<Rightarrow> settings" where
  "with_wallet_urls wallet ps =
     ps\<lparr>se_testnet := (se_testnet ps)\<lparr>nc_rpc_url := ds_sepolia_rpc wallet\<rparr>,
        se_mainnet := (se_mainnet ps)\<lparr>nc_rpc_url := ds_mainnet_rpc wallet\<rparr>\<rparr>"

text \<open>\<open>SettingsStore::update\<close>: the settings in memory change even when the file cannot be written.\<close>

definition update_prover_settings :: "'pt desktop_env \<Rightarrow> settings \<Rightarrow> unit cmd" where
  "update_prover_settings D ps =
     cbnd (srv (writes (de_env D) (\<lambda>sv. sv\<lparr>sv_prover_settings := ps\<rparr>))) (\<lambda>_.
     cbnd (srv (at_step (de_prover_write D))) (\<lambda>e.
     clift (case e of None \<Rightarrow> Ok () | Some m \<Rightarrow> Err m)))"

text \<open>\<open>let _ =\<close> on the result of a command: a panic still goes through.\<close>

definition ignored :: "'a cmd \<Rightarrow> unit cmd" where
  "ignored m s =
     (case m s of (Inl (UiCrash c), s') \<Rightarrow> (Err (UiCrash c), s') | (_, s') \<Rightarrow> (Ok (), s'))"

definition sync_prover_rpc :: "'pt desktop_env \<Rightarrow> desktop_settings \<Rightarrow> unit cmd" where
  "sync_prover_rpc D wallet =
     cbnd (srv (reads (de_env D) sv_prover_settings)) (\<lambda>ps.
     ignored (update_prover_settings D (with_wallet_urls wallet ps)))"

definition set_settings :: "'pt desktop_env \<Rightarrow> desktop_settings \<Rightarrow> unit cmd" where
  "set_settings D st =
     cbnd (clift (settings_validate st)) (\<lambda>_.
     cbnd (srv (at_step (de_config_write D))) (\<lambda>out.
     cbnd (on_desk D (\<lambda>d. let (r, f) = settings_save out st (dk_config d) in (r, d\<lparr>dk_config := f\<rparr>))) (\<lambda>r.
     cbnd (clift r) (\<lambda>_.
     let node = settings_node_for (e_ext (de_env D)) (de_node D) st in
     cbnd (srv (writes (de_env D) (set_node Sepolia (node Sepolia)))) (\<lambda>_.
     cbnd (srv (writes (de_env D) (set_node Mainnet (node Mainnet)))) (\<lambda>_.
     sync_prover_rpc D st))))))"

section \<open>Private payments\<close>

definition ui_error :: "wallet_rpc_error \<Rightarrow> string" where
  "ui_error e = error_message e @ '' ('' @ int_dec (error_code e) @ '')''"

definition strk20_run :: "'pt desktop_env \<Rightarrow> string \<Rightarrow> wallet_rpc_error + json \<Rightarrow> json cmd" where
  "strk20_run D ui_method result =
     cbnd (session_chain D) (\<lambda>c.
     case result of
       Inr v \<Rightarrow>
         cbnd (log_ui_action D ui_method (ui_chain_name c) ''ok'' None
                (map_option (e_to_string (de_env D)) (json_get v ''transaction_hash''))) (\<lambda>_.
         cret v)
     | Inl e \<Rightarrow>
         cbnd (log_ui_action D ui_method (ui_chain_name c) (''error '' @ int_dec (error_code e)) (Some (error_code e)) None) (\<lambda>_.
         cfail (ui_error e)))"

definition ui_strk20_balances :: "'pt desktop_env \<Rightarrow> string \<Rightarrow> string list \<Rightarrow> json cmd" where
  "ui_strk20_balances D address tokens =
     (let params = JObj [(''account_address'', JStr address), (''tokens'', JArr (map JStr tokens))] in
     cbnd (srv (caught (strk20_balances (de_env D) Desktop params))) (\<lambda>r.
     clift (map_err ui_error r)))"

definition ui_strk20_register :: "'pt desktop_env \<Rightarrow> string \<Rightarrow> json cmd" where
  "ui_strk20_register D address =
     (let params = JObj [(''account_address'', JStr address)] in
     cbnd (srv (caught (strk20_register (de_env D) Desktop params))) (\<lambda>r.
     strk20_run D ''ui_strk20Register'' r))"

definition ui_strk20_invoke :: "'pt desktop_env \<Rightarrow> string \<Rightarrow> json \<Rightarrow> json cmd" where
  "ui_strk20_invoke D address actions =
     (let params = JObj [(''account_address'', JStr address), (''actions'', actions)] in
     cbnd (srv (caught (strk20_invoke_transaction (de_env D) Desktop params))) (\<lambda>r.
     strk20_run D ''ui_strk20Invoke'' r))"

definition ui_strk20_prepare :: "'pt desktop_env \<Rightarrow> string \<Rightarrow> json \<Rightarrow> json cmd" where
  "ui_strk20_prepare D address actions =
     (let params = JObj [(''account_address'', JStr address), (''actions'', actions)] in
     cbnd (srv (caught (strk20_prepare_invoke (de_env D) Desktop params))) (\<lambda>r.
     strk20_run D ''ui_strk20Prepare'' r))"

section \<open>Accounts\<close>

definition list_accounts :: "'pt desktop_env \<Rightarrow> account_ref list cmd" where
  "list_accounts D =
     srv (reads (de_env D) (\<lambda>sv. case session_registry (sv_session sv) of Inl _ \<Rightarrow> [] | Inr reg \<Rightarrow> reg))"

definition parse_address :: "'pt desktop_env \<Rightarrow> string \<Rightarrow> felt cmd" where
  "parse_address D address = clift (ok_or ''bad address'' (felt_from_hex (e_ext (de_env D)) address))"

definition node_reply :: "node_error + 'a \<Rightarrow> 'a cmd" where
  "node_reply r = clift (map_err node_error_string r)"

definition balance :: "'pt desktop_env \<Rightarrow> string \<Rightarrow> string option cmd" where
  "balance D address =
     cbnd (session_chain D) (\<lambda>c.
     cbnd (srv (node_for (de_env D) c)) (\<lambda>node.
     case node of
       None \<Rightarrow> cret None
     | Some n \<Rightarrow>
         cbnd (clift (ok_or ''bad STRK token address'' (felt_from_hex (e_ext (de_env D)) STRK_TOKEN_ADDRESS))) (\<lambda>token.
         cbnd (parse_address D address) (\<lambda>holder.
         cbnd (node_reply (balance_of n token holder)) (\<lambda>v.
         cret (Some (dec v)))))))"

definition deploy_status :: "'pt desktop_env \<Rightarrow> string \<Rightarrow> bool option cmd" where
  "deploy_status D address =
     cbnd (session_chain D) (\<lambda>c.
     cbnd (srv (node_for (de_env D) c)) (\<lambda>node.
     case node of
       None \<Rightarrow> cret None
     | Some n \<Rightarrow>
         cbnd (parse_address D address) (\<lambda>felt.
         cbnd (node_reply (is_deployed n felt)) (\<lambda>b.
         cret (Some b)))))"

text \<open>Under one session lock: create, seal, write, and undo the creation when the write fails.\<close>

definition create_user_and_persist ::
  "'pt desktop_env \<Rightarrow> bytes option \<Rightarrow> bytes option \<Rightarrow> write_outcome \<Rightarrow> string \<Rightarrow> server
     \<Rightarrow> (string + account_ref) \<times> server" where
  "create_user_and_persist D salt nonce out label sv =
     (let V = de_env D in
      case create_user_account (e_ext V) (sv_session sv) label of
        (Inl e, se) \<Rightarrow> (Err (error_message e), sv\<lparr>sv_session := se\<rparr>)
      | (Inr account, se) \<Rightarrow>
          (case reseal (e_ext V) (e_codec V) salt nonce se of
             Inl e \<Rightarrow> (Err (error_message e), sv\<lparr>sv_session := rollback_account se (acc_address account)\<rparr>)
           | Inr vault \<Rightarrow>
               (case vault_save (e_format V) out vault (store_file sv) of
                  (Inl e, f) \<Rightarrow>
                    (Err (de_io_error D e),
                     sv\<lparr>sv_session := rollback_account se (acc_address account), sv_vault_store := Some f\<rparr>)
                | (Inr _, f) \<Rightarrow> (Ok account, sv\<lparr>sv_session := se, sv_vault_store := Some f\<rparr>))))"

definition account_row_json :: "account_ref \<Rightarrow> string" where
  "account_row_json a =
     ''{'' @ in_dquotes ''address'' @ '':'' @ in_dquotes (acc_address a) @ '',''
     @ in_dquotes ''label'' @ '':'' @ in_dquotes (acc_label a) @ ''}''"

definition add_user_account :: "'pt desktop_env \<Rightarrow> string \<Rightarrow> account_ref cmd" where
  "add_user_account D label =
     (let V = de_env D in
     cbnd (srv (at_step (e_seal_draw V SALT_LEN))) (\<lambda>salt.
     cbnd (srv (at_step (e_seal_draw V NONCE_LEN))) (\<lambda>nonce.
     cbnd (srv (at_step (e_write V))) (\<lambda>out.
     cbnd (srv (locked V (\<lambda>sv. let (r, sv') = create_user_and_persist D salt nonce out label sv
                              in ((s_chain (sv_session sv), r), sv')))) (\<lambda>(c, r).
     case r of
       Inl msg \<Rightarrow>
         cbnd (log_ui_action D ''ui_addUserAccount'' (ui_chain_name c) (''error: '' @ msg) (Some 163) None) (\<lambda>_.
         cfail msg)
     | Inr account \<Rightarrow>
         cbnd (srv (emit (AccountCreated account))) (\<lambda>_.
         cbnd (log_ui_action D ''ui_addUserAccount'' (ui_chain_name c) ''ok'' None (Some (account_row_json account))) (\<lambda>_.
         cret account)))))))"

text \<open>The session is locked for the whole of a deployment: it is read once. \<open>deploy_fail\<close> is the macro \<open>fail!\<close>.\<close>

definition deploy_fail :: "'pt desktop_env \<Rightarrow> string \<Rightarrow> int \<Rightarrow> string \<Rightarrow> 'a cmd" where
  "deploy_fail D network code msg =
     cbnd (log_ui_action D ''ui_deployAccount'' network (''error: '' @ msg) (Some code) None) (\<lambda>_. cfail msg)"

definition or_deploy_fail :: "'pt desktop_env \<Rightarrow> string \<Rightarrow> node_error + 'a \<Rightarrow> 'a cmd" where
  "or_deploy_fail D network r =
     (case r of Inr x \<Rightarrow> cret x | Inl e \<Rightarrow> deploy_fail D network (-32004) (node_error_string e))"

definition deploy_account :: "'pt desktop_env \<Rightarrow> string \<Rightarrow> json cmd" where
  "deploy_account D address =
     (let V = de_env D; E = e_ext V in
     cbnd (parse_address D address) (\<lambda>f.
     let want = felt_0x64 f in
     cbnd (srv (reads V sv_session)) (\<lambda>se.
     let c = s_chain se; network = ui_chain_name c in
     cbnd (srv (node_for V c)) (\<lambda>n.
     cbnd (clift (ok_or ''set a Starknet RPC URL in Settings to deploy'' n)) (\<lambda>node.
     cbnd (clift (map_err error_message (session_registry se))) (\<lambda>reg.
     cbnd (clift (ok_or ''unknown account'' (List.find (\<lambda>a. acc_address a = want) reg))) (\<lambda>account.
     cbnd (parse_address D (acc_address account)) (\<lambda>addr_felt.
     cbnd (case is_deployed node addr_felt of
             Inr True \<Rightarrow> deploy_fail D network (-32006)
               (''account '' @ acc_address account @ '' is already deployed on '' @ network)
           | Inr False \<Rightarrow> cret ()
           | Inl e \<Rightarrow> deploy_fail D network (-32004) (node_error_string e)) (\<lambda>_.
     cbnd (clift (map_err error_message (deployment_data_for E se account))) (\<lambda>d.
     cbnd (or_deploy_fail D network (estimate_deploy_account node (dd_address d) (dd_class_hash d)
             (dd_constructor_calldata d) (dd_salt d))) (\<lambda>bounds.
     let params = fee_params 0 bounds [] in
     cbnd (clift (map_err error_message (sign_deploy_account_for E se account c params))) (\<lambda>signed.
     cbnd (srv (emit (SignedDeploy account c params))) (\<lambda>_.
     cbnd (srv (emit (SentDeploy c (sd_class_hash signed) (sd_constructor_calldata signed) (sd_salt signed)
             (sd_signature signed) bounds))) (\<lambda>_.
     cbnd (or_deploy_fail D network (add_deploy_account node (sd_class_hash signed) (sd_constructor_calldata signed)
             (sd_salt signed) (sd_signature signed) bounds)) (\<lambda>hash.
     let tx = felt_hex hash in
     cbnd (log_ui_action D ''ui_deployAccount'' network ''ok'' None
            (Some (''{'' @ in_dquotes ''transaction_hash'' @ '':'' @ in_dquotes tx @ '',''
               @ in_dquotes ''address'' @ '':'' @ in_dquotes (acc_address account) @ ''}''))) (\<lambda>_.
     cret (JObj [(''transaction_hash'', JStr tx)])))))))))))))))))"

section \<open>The recovery phrase\<close>

definition reveal_fail :: "'pt desktop_env \<Rightarrow> string \<Rightarrow> int \<Rightarrow> string \<Rightarrow> 'a cmd" where
  "reveal_fail D network code msg =
     cbnd (log_ui_action D ''ui_revealSeed'' network (''error: '' @ msg) (Some code) None) (\<lambda>_. cfail msg)"

definition reveal_seed :: "'pt desktop_env \<Rightarrow> string \<Rightarrow> string cmd" where
  "reveal_seed D passphrase =
     (let V = de_env D in
     cbnd (session_chain D) (\<lambda>c.
     let network = ui_chain_name c in
     cbnd (check_backoff D) (\<lambda>blocked.
     case blocked of
       Inl wait \<Rightarrow> reveal_fail D network 114 (blocked_message wait)
     | Inr _ \<Rightarrow>
         cbnd (srv (reads V (\<lambda>sv. vault_load (e_format V) (store_file sv)))) (\<lambda>loaded.
         case loaded of
           Inl e \<Rightarrow> reveal_fail D network 163 (de_io_error D e)
         | Inr None \<Rightarrow> reveal_fail D network 163 ''no vault on disk''
         | Inr (Some vault) \<Rightarrow>
             cbnd (srv (reads V (\<lambda>sv. reveal_for_session (e_ext V) (e_codec V) (sv_session sv) vault passphrase))) (\<lambda>revealed.
             case revealed of
               Inr phrase \<Rightarrow>
                 cbnd (note_success D) (\<lambda>_.
                 cbnd (log_ui_action D ''ui_revealSeed'' network ''ok'' None None) (\<lambda>_.
                 cret phrase))
             | Inl e \<Rightarrow>
                 let code = (if e = Locked then -32001 else 114);
                     msg = (if e = Locked then ''unlock the wallet first'' else error_message e) in
                 cbnd (if code = 114 then note_failure D else cret ()) (\<lambda>_.
                 reveal_fail D network code msg))))))"

section \<open>Paired clients and the log\<close>

definition ui_list_clients :: "'pt desktop_env \<Rightarrow> client_info list cmd" where
  "ui_list_clients D = srv (reads (de_env D) (\<lambda>sv. list_clients (sv_clients sv)))"

definition clamp_days :: "u64 \<Rightarrow> u64" where
  "clamp_days days = min (max days 1) 90"

definition grant_permission :: "'pt desktop_env \<Rightarrow> string \<Rightarrow> u64 \<Rightarrow> unit cmd" where
  "grant_permission D client_id days =
     cbnd (srv (now_unix_ms (de_env D))) (\<lambda>now.
     cbnd (srv (checked_add now (clamp_days days * 24 * 60 * 60 * 1000))) (\<lambda>until.
     cbnd (srv (locked (de_env D) (\<lambda>sv.
        let (ok, cs) = grant client_id until (sv_clients sv) in (ok, sv\<lparr>sv_clients := cs\<rparr>)))) (\<lambda>ok.
     if ok then srv (emit (GrantGiven client_id until)) else cfail ''unknown client'')))"

definition revoke_permission :: "'pt desktop_env \<Rightarrow> string \<Rightarrow> unit cmd" where
  "revoke_permission D client_id =
     cbnd (srv (locked (de_env D) (\<lambda>sv.
        let (ok, cs) = revoke_grant client_id (sv_clients sv) in (ok, sv\<lparr>sv_clients := cs\<rparr>)))) (\<lambda>ok.
     if ok then cret () else cfail ''unknown client'')"

definition recent_log :: "'pt desktop_env \<Rightarrow> nat \<Rightarrow> log_entry list cmd" where
  "recent_log D limit = srv (reads (de_env D) (\<lambda>sv. log_recent limit (sv_log sv)))"

section \<open>The prover's panel\<close>

definition desktop_prover :: "server \<Rightarrow> prover_state" where
  "desktop_prover sv = (case sv_prover sv of None \<Rightarrow> build_prover_state [] | Some p \<Rightarrow> p)"

text \<open>\<open>RemoteProver::ready\<close> on the snapshot of the settings (none while they are being written), and \<open>NativeProver::ready\<close>.\<close>

definition remote_ready :: "settings option \<Rightarrow> bool" where
  "remote_ready snapshot =
     (case snapshot of
        None \<Rightarrow> False
      | Some s \<Rightarrow> nc_prover_url (se_mainnet s) \<noteq> [] \<or> nc_prover_url (se_testnet s) \<noteq> [])"

definition prover_status :: "'pt desktop_env \<Rightarrow> json cmd" where
  "prover_status D =
     cbnd (srv (at_step (\<lambda>n. (de_bin_exists D n, de_settings_held D n)))) (\<lambda>(bin, held).
     cbnd (srv (reads (de_env D) (\<lambda>sv. (sv_prover_native sv, sv_prover_settings sv)))) (\<lambda>(native, settings).
     cret (JObj
       [(''prover'', JStr (if native then ''native'' else ''remote'')),
        (''ready'', JBool (if native then bin else remote_ready (if held then None else Some settings))),
        (''version'', JStr (de_version D)),
        (''service_url'', JStr (de_service_url D))])))"

definition proof_activity :: "'pt desktop_env \<Rightarrow> activity list cmd" where
  "proof_activity D = srv (reads (de_env D) (\<lambda>sv. recent_activity (pv_jobs (desktop_prover sv))))"

definition get_prover_settings :: "'pt desktop_env \<Rightarrow> settings cmd" where
  "get_prover_settings D = srv (reads (de_env D) sv_prover_settings)"

definition set_prover_settings :: "'pt desktop_env \<Rightarrow> settings \<Rightarrow> unit cmd" where
  "set_prover_settings D ps =
     cbnd (on_desk D (\<lambda>d. (settings_load (dk_config d), d))) (\<lambda>wallet.
     update_prover_settings D (with_wallet_urls wallet ps))"

definition ui_storage_stats :: "'pt desktop_env \<Rightarrow> (nat \<times> nat) cmd" where
  "ui_storage_stats D = srv (reads (de_env D) (\<lambda>sv. storage_stats (pv_storage (desktop_prover sv))))"

definition list_proofs :: "'pt desktop_env \<Rightarrow> proof_summary list cmd" where
  "list_proofs D = srv (reads (de_env D) (\<lambda>sv. storage_list (pv_storage (desktop_prover sv))))"

definition proof_detail :: "'pt desktop_env \<Rightarrow> string \<Rightarrow> proof_record option cmd" where
  "proof_detail D job_id = srv (reads (de_env D) (\<lambda>sv. get_record (pv_storage (desktop_prover sv)) job_id))"

definition clear_storage :: "'pt desktop_env \<Rightarrow> nat cmd" where
  "clear_storage D =
     srv (locked (de_env D) (\<lambda>sv.
       let p = desktop_prover sv; (n, st) = storage_clear (pv_storage p)
       in (n, sv\<lparr>sv_prover := Some (p\<lparr>pv_storage := st\<rparr>)\<rparr>)))"

end
