(* ===== verification/Desktop_Run.thy ===== *)
theory Desktop_Run
  imports Desktop_Commands
begin

text \<open>
  The set-up of \<open>run\<close> in \<open>desktop/src-tauri/src/lib.rs\<close> and its auto-lock task: the server the process starts
  with, from what is on disk, and the turn the task takes every 30 seconds.
\<close>

section \<open>Starting\<close>

text \<open>The backend that is wired: the stored choice, else the one of the environment.\<close>

definition wired_native :: "string \<Rightarrow> string \<Rightarrow> bool" where
  "wired_native stored env_choice =
     (let backend = (if stored = [] then env_choice else stored)
      in \<not> (backend = ''remote'' \<or> backend = ''companion''))"

record disk =
  di_vault :: vault_file
  di_clients :: "paired_client list option"
  di_clients_writable :: bool
  di_log :: "log_row list"
  di_config :: "json option"
  di_prover_settings :: "settings_file option"
  di_proofs :: storage
  di_backups :: "string \<Rightarrow> bytes option"

definition desktop_server :: "'pt desktop_env \<Rightarrow> u64 \<Rightarrow> string \<Rightarrow> disk \<Rightarrow> server" where
  "desktop_server D now_ms env_choice di =
     (let saved = settings_load (di_config di);
          ps = ss_inner (settings_store_load (di_prover_settings di));
          node = settings_node_for (e_ext (de_env D)) (de_node D) saved;
          sv = server_with_log now_ms (new_locked Sepolia) ((log_init True True)\<lparr>log_rows := di_log di\<rparr>);
          sv = with_clients_path ''clients.json'' (di_clients di) (di_clients_writable di) (with_vault_store (di_vault di) sv);
          sv = (case node Sepolia of None \<Rightarrow> sv | Some n \<Rightarrow> with_node Sepolia n sv);
          sv = (case node Mainnet of None \<Rightarrow> sv | Some n \<Rightarrow> with_node Mainnet n sv)
      in with_prover (build_prover_state (di_proofs di)) (with_wallet_urls saved ps)
           (wired_native (se_prover_backend ps) env_choice) sv)"

definition desktop_desk :: "disk \<Rightarrow> desk" where
  "desktop_desk di =
     \<lparr>dk_config = di_config di, dk_onboarding = None, dk_backoff = backoff_default, dk_backups = di_backups di\<rparr>"

section \<open>Auto-lock\<close>

definition AUTO_LOCK_PERIOD :: nat where "AUTO_LOCK_PERIOD = 30"

definition checked_mul :: "'n::len word \<Rightarrow> 'n word \<Rightarrow> 'n word act" where
  "checked_mul a b =
     (if unat a * unat b < 2 ^ LENGTH('n) then ret (a * b) else crash ''attempt to multiply with overflow'')"

definition saturating_sub :: "'n::len word \<Rightarrow> 'n word \<Rightarrow> 'n word" where
  "saturating_sub a b = (if a < b then 0 else a - b)"

text \<open>One turn of the loop, after its sleep.\<close>

definition auto_lock_turn :: "'pt desktop_env \<Rightarrow> unit cmd" where
  "auto_lock_turn D =
     (let V = de_env D in
     cbnd (on_desk D (\<lambda>d. (ds_auto_lock_minutes (settings_load (dk_config d)), d))) (\<lambda>mins.
     if mins = 0 then cret ()
     else
     cbnd (srv (now_unix_ms V)) (\<lambda>now.
     cbnd (srv (reads V sv_last_activity_ms)) (\<lambda>last.
     cbnd (srv (bnd (checked_mul mins 60) (\<lambda>secs. checked_mul secs 1000))) (\<lambda>limit.
     if limit \<le> saturating_sub now last
     then srv (writes V (\<lambda>sv. if is_locked (sv_session sv) then sv else sv\<lparr>sv_session := lock (sv_session sv)\<rparr>))
     else cret ())))))"

text \<open>The turn on the server alone, when nothing else runs and the timeout is below 2^64 milliseconds.\<close>

definition idle_too_long :: "u64 \<Rightarrow> u64 \<Rightarrow> server \<Rightarrow> bool" where
  "idle_too_long mins now sv \<longleftrightarrow>
     mins \<noteq> 0 \<and> unat (sv_last_activity_ms sv) + unat mins * 60000 \<le> unat now"

definition lock_if_idle :: "u64 \<Rightarrow> u64 \<Rightarrow> server \<Rightarrow> server" where
  "lock_if_idle mins now sv = (if idle_too_long mins now sv then sv\<lparr>sv_session := lock (sv_session sv)\<rparr> else sv)"

lemma lock_locked: "is_locked s \<Longrightarrow> lock s = s"
  by (cases s) (simp add: is_locked_def lock_def)

lemma limit_iff:
  assumes "unat mins * 60000 < 2 ^ 64" "mins \<noteq> 0"
  shows "mins * 60 * 1000 \<le> saturating_sub now (sv_last_activity_ms sv) \<longleftrightarrow> idle_too_long mins now sv"
proof -
  have eq: "unat (mins * 60 * 1000) = unat mins * 60000"
    using assms(1) by (simp add: unat_word_ariths mult.assoc flip: take_bit_eq_mod)
  have pos: "0 < unat mins" using assms(2) by (simp add: unat_gt_0)
  show ?thesis
  proof (cases "now < sv_last_activity_ms sv")
    case True
    then have "unat now < unat (sv_last_activity_ms sv)" by (simp add: word_less_nat_alt)
    then show ?thesis using eq pos assms(2) True
      by (simp add: saturating_sub_def idle_too_long_def word_le_nat_alt)
  next
    case False
    then have "unat (sv_last_activity_ms sv) \<le> unat now" by (simp add: word_less_nat_alt)
    then show ?thesis using eq assms(2) False
      by (auto simp: saturating_sub_def idle_too_long_def word_le_nat_alt unat_sub)
  qed
qed

lemma auto_lock_turn_quiet:
  assumes q: "quiet D" and mins: "mins = ds_auto_lock_minutes (settings_load (dk_config (dy_desk s)))"
    and small: "unat mins * 60000 < 2 ^ 64"
  shows "\<exists>k. auto_lock_turn D s
    = (Ok (), arrive k (lock_if_idle mins (e_clock (de_env D) (Suc (dstep s))) (dsv s)) (dy_desk s) s)"
proof (cases "mins = 0")
  case True
  then show ?thesis
    by (simp add: auto_lock_turn_def run_simps quiet_steps [OF q] lock_if_idle_def idle_too_long_def mins [symmetric]) blast
next
  case False
  have 1: "unat mins * 60 < 2 ^ 64" using small by simp
  then have "unat (mins * 60) = unat mins * 60"
    by (simp add: unat_word_ariths flip: take_bit_eq_mod)
  then have mul: "srv (bnd (checked_mul mins 60) (\<lambda>secs. checked_mul secs 1000)) x = (Ok (60000 * mins), x)" for x
    using 1 small by (simp add: checked_mul_def srv_def ret_def map_err_def)
  have idle: "60000 * mins \<le> saturating_sub now (sv_last_activity_ms sv) \<longleftrightarrow> idle_too_long mins now sv" for now sv
    using limit_iff [OF small False] by simp
  show ?thesis using False
    by (auto simp: auto_lock_turn_def Let_def cbnd_def cret_def now_unix_ms_def quiet_steps [OF q] mul idle lock_if_idle_def
        lock_locked mins [symmetric])
qed

section \<open>How long an unattended wallet stays open\<close>

text \<open>
  The life of the system between turns of the task, with the timeout set to \<open>mins\<close>: a turn at most \<open>period\<close> milliseconds after the
  one before; activity, which may do anything and sets the time of the last activity; and everything else, which leaves that
  time alone and does not open a locked wallet. The arguments are the time, the time of the last turn, and the system.
\<close>

definition timeout_is :: "u64 \<Rightarrow> dsys \<Rightarrow> bool" where
  "timeout_is mins s \<longleftrightarrow> ds_auto_lock_minutes (settings_load (dk_config (dy_desk s))) = mins"

inductive watched :: "'pt desktop_env \<Rightarrow> u64 \<Rightarrow> nat \<Rightarrow> nat \<Rightarrow> nat \<Rightarrow> dsys \<Rightarrow> bool" for D mins period where
  start: "sv_last_activity_ms (dsv s) = of_nat t \<Longrightarrow> timeout_is mins s \<Longrightarrow> watched D mins period t t s"
| turn: "watched D mins period t l s \<Longrightarrow> t \<le> t' \<Longrightarrow> t' \<le> l + period \<Longrightarrow>
    e_clock (de_env D) (Suc (dstep s)) = of_nat t' \<Longrightarrow> auto_lock_turn D s = (r, s') \<Longrightarrow> watched D mins period t' t' s'"
| active: "watched D mins period t l s \<Longrightarrow> t \<le> t' \<Longrightarrow> t' \<le> l + period \<Longrightarrow>
    sv_last_activity_ms (dsv s') = of_nat t' \<Longrightarrow> timeout_is mins s' \<Longrightarrow> watched D mins period t' l s'"
| otherwise: "watched D mins period t l s \<Longrightarrow> t \<le> t' \<Longrightarrow> t' \<le> l + period \<Longrightarrow>
    sv_last_activity_ms (dsv s') = sv_last_activity_ms (dsv s) \<Longrightarrow> timeout_is mins s' \<Longrightarrow>
    (is_locked (sv_session (dsv s)) \<longrightarrow> is_locked (sv_session (dsv s'))) \<Longrightarrow> watched D mins period t' l s'"

lemma lock_if_idle_simps [simp]:
  "sv_last_activity_ms (lock_if_idle mins now sv) = sv_last_activity_ms sv"
  "idle_too_long mins now sv \<Longrightarrow> is_locked (sv_session (lock_if_idle mins now sv))"
  "is_locked (sv_session sv) \<Longrightarrow> is_locked (sv_session (lock_if_idle mins now sv))"
  by (simp_all add: lock_if_idle_def lock_locked)

lemma unat_u64_of_nat: "n < 2 ^ 64 \<Longrightarrow> unat (of_nat n :: u64) = n"
  by (simp add: unsigned_of_nat take_bit_nat_eq_self)

lemma watched_invariant:
  assumes "watched D mins period t l s" "quiet D" "unat mins * 60000 < 2 ^ 64" "t < 2 ^ 64" "mins \<noteq> 0"
  shows "l \<le> t \<and> t \<le> l + period \<and> unat (sv_last_activity_ms (dsv s)) \<le> t \<and> timeout_is mins s
    \<and> (unat (sv_last_activity_ms (dsv s)) + unat mins * 60000 \<le> l \<longrightarrow> is_locked (sv_session (dsv s)))"
proof -
  have pos: "0 < unat mins" using assms(5) by (simp add: unat_gt_0)
  show ?thesis
    using assms(1,4)
  proof (induction rule: watched.induct)
    case (start s t)
    then show ?case using pos by (simp add: unat_u64_of_nat)
  next
    case (turn t l s t' r s')
    then have now: "unat (of_nat t' :: u64) = t'" by (simp add: unat_u64_of_nat)
    have "mins = ds_auto_lock_minutes (settings_load (dk_config (dy_desk s)))" using turn by (simp add: timeout_is_def)
    from auto_lock_turn_quiet [OF assms(2) this assms(3)] turn.hyps(4,5)
    obtain k where s': "s' = arrive k (lock_if_idle mins (of_nat t') (dsv s)) (dy_desk s) s" by auto
    have "is_locked (sv_session (lock_if_idle mins (of_nat t') (dsv s)))"
      if "unat (sv_last_activity_ms (dsv s)) + unat mins * 60000 \<le> t'"
      using that assms(5) now by (simp add: idle_too_long_def)
    then show ?case using turn s' by (auto simp: timeout_is_def)
  next
    case (active t l s t' s')
    then show ?case using pos by (simp add: unat_u64_of_nat)
  next
    case (otherwise t l s t' s')
    then show ?case by auto
  qed
qed

lemma locked_when_idle:
  assumes "watched D mins period t l s" "quiet D" "unat mins * 60000 < 2 ^ 64" "t < 2 ^ 64" "mins \<noteq> 0"
    and "unat (sv_last_activity_ms (dsv s)) + unat mins * 60000 + period \<le> t"
  shows "is_locked (sv_session (dsv s))"
  using watched_invariant [OF assms(1-5)] assms(6) by linarith

end
