(* ===== verification/Desktop_Facts.thy ===== *)
theory Desktop_Facts
  imports Desktop_Run
begin

text \<open>
  What the commands do: exact results when nothing else runs, the delay after wrong passphrases over a whole series of
  attempts, set-up followed by unlocking, accounts and their vault file, the archived vault, and the URLs that the
  wallet and the prover share.
\<close>

section \<open>Unlocking\<close>

definition vault_at :: "'pt desktop_env \<Rightarrow> server \<Rightarrow> io_error + encrypted_vault option" where
  "vault_at D sv = vault_load (e_format (de_env D)) (store_file sv)"

definition opens :: "'pt desktop_env \<Rightarrow> server \<Rightarrow> encrypted_vault \<Rightarrow> string \<Rightarrow> (core_error + unit) \<times> wallet_session" where
  "opens D sv v p = unlock (e_ext (de_env D)) (e_codec (de_env D)) (sv_session sv) v p"

definition allowed :: "'pt desktop_env \<Rightarrow> dsys \<Rightarrow> nat + unit" where
  "allowed D s = backoff_check (dk_backoff (dy_desk s)) (de_instant D (dstep s))"

lemma load_vault_quiet:
  assumes "quiet D"
  shows "load_vault D s = (map_err (\<lambda>e. Ui (de_io_error D e)) (vault_at D (dsv s)), arrive 1 (dsv s) (dy_desk s) s)"
  by (cases "vault_at D (dsv s)")
    (simp_all add: load_vault_def run_simps quiet_steps [OF assms] vault_at_def)

lemma backoff_quiet:
  assumes "quiet D"
  shows "check_backoff D s = (Ok (allowed D s), arrive 1 (dsv s) (dy_desk s) s)"
    "note_failure D s = (Ok (), arrive 1 (dsv s)
       (dy_desk s\<lparr>dk_backoff := record_failure (dk_backoff (dy_desk s)) (de_instant D (dstep s))\<rparr>) s)"
    "note_success D s = (Ok (), arrive 1 (dsv s) (dy_desk s\<lparr>dk_backoff := backoff_default\<rparr>) s)"
  by (simp_all add: check_backoff_def note_failure_def note_success_def quiet_steps [OF assms] record_success_def allowed_def)

text \<open>An attempt that is refused, cannot load the vault, fails, and succeeds.\<close>

lemma unlock_blocked:
  assumes "quiet D" "allowed D s = Err w"
  shows "ui_unlock D p s = (Err (Ui (blocked_message w)), arrive 1 (dsv s) (dy_desk s) s)"
  using assms(2) by (simp add: ui_unlock_def run_simps backoff_quiet [OF assms(1)])

lemma unlock_no_vault:
  assumes "quiet D" "allowed D s = Ok ()" "vault_at D (dsv s) = Err e \<or> vault_at D (dsv s) = Ok None"
  shows "\<exists>m. ui_unlock D p s = (Err (Ui m), arrive (Suc 1) (dsv s) (dy_desk s) s)"
  using assms(2,3)
  by (auto simp: ui_unlock_def run_simps backoff_quiet [OF assms(1)] load_vault_quiet [OF assms(1)])

lemma unlock_refused:
  assumes "quiet D" "allowed D s = Ok ()" "vault_at D (dsv s) = Ok (Some v)" "opens D (dsv s) v p = (Err e, se)"
  shows "ui_unlock D p s = (Err (Ui (unlock_message e)),
     (case e of UnsupportedVaultVersion _ \<Rightarrow> arrive (Suc (Suc 1)) (dsv s) (dy_desk s) s
      | _ \<Rightarrow> arrive (Suc (Suc (Suc 1))) (dsv s)
          (dy_desk s\<lparr>dk_backoff := record_failure (dk_backoff (dy_desk s)) (de_instant D (Suc (Suc (Suc (dstep s)))))\<rparr>) s))"
proof -
  have same: "unlock (e_ext (de_env D)) (e_codec (de_env D)) (sv_session (dsv s)) v p = (Err e, sv_session (dsv s))"
    using assms(4) unlock_fails by (fastforce simp: opens_def)
  show ?thesis
    using assms(2,3)
    by (cases e)
      (simp_all add: ui_unlock_def run_simps backoff_quiet [OF assms(1)] load_vault_quiet [OF assms(1)] quiet_steps [OF assms(1)]
        note_attempt_def same)
qed

lemma unlock_opened:
  assumes "quiet D" "allowed D s = Ok ()" "vault_at D (dsv s) = Ok (Some v)" "opens D (dsv s) v p = (Ok (), se)"
  shows "\<exists>k now. ui_unlock D p s = (Ok (), arrive k (touch_activity now (dsv s\<lparr>sv_session := se\<rparr>))
     (dy_desk s\<lparr>dk_backoff := backoff_default\<rparr>) s)"
proof -
  have touched: "srv (touched (de_env D)) x = (Ok (), arrive (Suc 1) (touch_activity (e_clock (de_env D) (dstep x)) (dsv x)) (dy_desk x) x)" for x
    using assms(1)
    by (simp add: touched_def now_unix_ms_def srv_def act_defs quiet_def now_server_def arrive_def dsv_def dstep_def map_err_def)
  show ?thesis
    using assms(2-4)
    by (auto simp: ui_unlock_def run_simps backoff_quiet [OF assms(1)] load_vault_quiet [OF assms(1)] quiet_steps [OF assms(1)]
        note_attempt_def opens_def touched)
qed

section \<open>Revealing the phrase\<close>

definition reveals :: "'pt desktop_env \<Rightarrow> server \<Rightarrow> encrypted_vault \<Rightarrow> string \<Rightarrow> wallet_rpc_error + string" where
  "reveals D sv v p = reveal_for_session (e_ext (de_env D)) (e_codec (de_env D)) (sv_session sv) v p"

definition reveal_logged :: "string \<Rightarrow> int option \<Rightarrow> u64 \<Rightarrow> server \<Rightarrow> server" where
  "reveal_logged outcome code ts sv =
     sv\<lparr>sv_log := log_record (ui_row ''ui_revealSeed'' (ui_chain_name (s_chain (sv_session sv))) outcome code None ts) (sv_log sv)\<rparr>"

lemma reveal_fail_quiet:
  assumes "quiet D" "network = ui_chain_name (s_chain (sv_session (dsv s)))"
  shows "reveal_fail D network code m s
    = (Err (Ui m), arrive (Suc 1)
        (reveal_logged (''error: '' @ m) (Some code) (e_clock (de_env D) (dstep s)) (dsv s)) (dy_desk s) s)"
  using assms(2) by (simp add: reveal_fail_def run_simps quiet_log [OF assms(1)] reveal_logged_def)

text \<open>Every answer leaves one row, whose text does not depend on the phrase.\<close>

lemma reveal_cases:
  assumes q: "quiet D" and run: "reveal_seed D p s = (r, s')"
  obtains (refused) m code ts where "r = Err (Ui m)" "dsv s' = reveal_logged (''error: '' @ m) (Some code) ts (dsv s)"
      "dk_backoff (dy_desk s') = dk_backoff (dy_desk s)" "dstep s \<le> dstep s'"
      "allowed D (arrive 1 (dsv s) (dy_desk s) s) \<noteq> Ok () \<or> (\<forall>v. vault_at D (dsv s) \<noteq> Ok (Some v)) \<or> is_locked (sv_session (dsv s))"
  | (wrong) m code ts n v where "r = Err (Ui m)" "dsv s' = reveal_logged (''error: '' @ m) (Some code) ts (dsv s)"
      "allowed D (arrive 1 (dsv s) (dy_desk s) s) = Ok ()" "vault_at D (dsv s) = Ok (Some v)"
      "\<not> is_locked (sv_session (dsv s))" "\<exists>e. reveals D (dsv s) v p = Err e" "Suc (dstep s) \<le> n" "n \<le> dstep s'"
      "dk_backoff (dy_desk s') = record_failure (dk_backoff (dy_desk s)) (de_instant D n)"
  | (revealed) phrase v ts where "r = Ok phrase" "dsv s' = reveal_logged ''ok'' None ts (dsv s)"
      "allowed D (arrive 1 (dsv s) (dy_desk s) s) = Ok ()" "vault_at D (dsv s) = Ok (Some v)"
      "reveals D (dsv s) v p = Ok phrase" "dk_backoff (dy_desk s') = backoff_default"
proof -
  let ?s = "arrive 1 (dsv s) (dy_desk s) s"
  have chain: "session_chain D x = (Ok (s_chain (sv_session (dsv x))), arrive 1 (dsv x) (dy_desk x) x)" for x
    by (simp add: session_chain_def quiet_steps [OF q])
  note step = reveal_seed_def run_simps chain backoff_quiet [OF q] quiet_steps [OF q] vault_at_def [symmetric]
    reveals_def [symmetric]
  consider (blocked) w where "allowed D ?s = Err w"
    | (unreadable) "allowed D ?s = Ok ()" "\<forall>v. vault_at D (dsv s) \<noteq> Ok (Some v)"
    | (read) v where "allowed D ?s = Ok ()" "vault_at D (dsv s) = Ok (Some v)"
    by (cases "allowed D ?s") auto
  then show thesis
  proof cases
    case blocked
    obtain ts where "reveal_seed D p s = (Err (Ui (blocked_message w)), arrive (Suc (Suc (Suc 1)))
        (reveal_logged (''error: '' @ blocked_message w) (Some 114) ts (dsv s)) (dy_desk s) s)"
      using blocked by (auto simp: step reveal_fail_quiet [OF q])
    then show thesis using run blocked by (intro refused) auto
  next
    case unreadable
    have "\<exists>k m ts. reveal_seed D p s = (Err (Ui m), arrive k
        (reveal_logged (''error: '' @ m) (Some 163) ts (dsv s)) (dy_desk s) s)"
      using unreadable
      by (cases "vault_at D (dsv s)") (auto simp: step reveal_fail_quiet [OF q] split: option.split)
    then obtain k m ts where "reveal_seed D p s = (Err (Ui m), arrive k
        (reveal_logged (''error: '' @ m) (Some 163) ts (dsv s)) (dy_desk s) s)" by blast
    then show thesis using run unreadable by (intro refused) auto
  next
    case (read v)
    show thesis
    proof (cases "reveals D (dsv s) v p")
      case (Inr phrase)
      obtain k ts where "reveal_seed D p s = (Ok phrase, arrive k (reveal_logged ''ok'' None ts (dsv s))
          (dy_desk s\<lparr>dk_backoff := backoff_default\<rparr>) s)"
        using read Inr by (auto simp: step quiet_log [OF q] reveal_logged_def)
      then show thesis using run read Inr by (intro revealed) auto
    next
      case (Inl e)
      show thesis
      proof (cases "e = Locked")
        case True
        then have "is_locked (sv_session (dsv s))"
          using Inl by (auto simp: reveals_def reveal_for_session_def reveal_mnemonic_def result_simps map_err_def
            split: if_splits sum.splits)
        moreover obtain k m ts where "reveal_seed D p s = (Err (Ui m), arrive k
            (reveal_logged (''error: '' @ m) (Some (-32001)) ts (dsv s)) (dy_desk s) s)"
          using read Inl True by (auto simp: step reveal_fail_quiet [OF q])
        ultimately show thesis using run by (intro refused) auto
      next
        case False
        let ?d = "dy_desk s\<lparr>dk_backoff := record_failure (dk_backoff (dy_desk s)) (de_instant D (Suc (Suc (Suc (Suc (dstep s))))))\<rparr>"
        obtain k m ts where "reveal_seed D p s = (Err (Ui m), arrive (Suc (Suc (Suc (Suc k))))
            (reveal_logged (''error: '' @ m) (Some 114) ts (dsv s)) ?d s)"
          using read Inl False by (auto simp: step reveal_fail_quiet [OF q])
        moreover have "\<not> is_locked (sv_session (dsv s))"
          using Inl False by (auto simp: reveals_def reveal_for_session_def)
        moreover have "\<exists>e. reveals D (dsv s) v p = Err e" using Inl by blast
        ultimately show thesis using run read by (intro wrong [of m]) auto
      qed
    qed
  qed
qed

section \<open>A series of attempts\<close>

datatype attempt = TryUnlock string | TryReveal string

definition run_attempt :: "'pt desktop_env \<Rightarrow> attempt \<Rightarrow> unit cmd" where
  "run_attempt D a =
     (case a of
        TryUnlock p \<Rightarrow> ui_unlock D p
      | TryReveal p \<Rightarrow> cbnd (reveal_seed D p) (\<lambda>_. cret ()))"

text \<open>
  The attempt reaches the vault: it is not refused, and there is a vault to try the passphrase on; for unlocking, one of this version.
\<close>

definition reaches_vault :: "'pt desktop_env \<Rightarrow> attempt \<Rightarrow> dsys \<Rightarrow> bool" where
  "reaches_vault D a s \<longleftrightarrow>
     (case a of
        TryUnlock _ \<Rightarrow> allowed D s = Ok () \<and> (\<exists>v. vault_at D (dsv s) = Ok (Some v) \<and> is_supported_version v)
      | TryReveal _ \<Rightarrow> allowed D (arrive 1 (dsv s) (dy_desk s) s) = Ok () \<and> (\<exists>v. vault_at D (dsv s) = Ok (Some v))
          \<and> \<not> is_locked (sv_session (dsv s)))"

text \<open>A failed attempt is counted if it reached the vault, and otherwise leaves the delay alone.\<close>

definition counted :: "'pt desktop_env \<Rightarrow> bool \<Rightarrow> dsys \<Rightarrow> dsys \<Rightarrow> bool" where
  "counted D reached s s' \<longleftrightarrow> dstep s \<le> dstep s' \<and>
     (if reached
      then \<exists>j n. allowed D (arrive j (dsv s) (dy_desk s) s) = Ok () \<and> dstep s + j \<le> n \<and> n \<le> dstep s'
        \<and> dk_backoff (dy_desk s') = record_failure (dk_backoff (dy_desk s)) (de_instant D n)
      else dk_backoff (dy_desk s') = dk_backoff (dy_desk s))"

lemma arrive_0: "arrive 0 (dsv s) (dy_desk s) s = s"
  by (simp add: arrive_def dsv_def dstep_def)

lemma countedI:
  assumes "allowed D (arrive j (dsv s) (dy_desk s) s) = Ok ()" "dstep s + j \<le> n" "n \<le> dstep s'"
    and "dk_backoff (dy_desk s') = record_failure (dk_backoff (dy_desk s)) (de_instant D n)"
  shows "counted D True s s'"
  using assms unfolding counted_def by auto

lemma unlock_attempt:
  assumes q: "quiet D" and run: "ui_unlock D p s = (Err e, s')"
  shows "counted D (reaches_vault D (TryUnlock p) s) s s'"
proof (cases "allowed D s")
  case (Inl w)
  then show ?thesis using run unlock_blocked [OF q] by (auto simp: reaches_vault_def counted_def)
next
  case (Inr u)
  then have ok: "allowed D s = Ok ()" by simp
  consider "\<forall>v. vault_at D (dsv s) \<noteq> Ok (Some v)" | v where "vault_at D (dsv s) = Ok (Some v)" by blast
  then show ?thesis
  proof cases
    case 1
    then have "vault_at D (dsv s) = Ok None \<or> (\<exists>x. vault_at D (dsv s) = Err x)"
      by (metis old.sum.exhaust option.exhaust)
    then obtain m where "ui_unlock D p s = (Err (Ui m), arrive (Suc 1) (dsv s) (dy_desk s) s)"
      using unlock_no_vault [OF q ok] by blast
    then show ?thesis using run 1 by (auto simp: reaches_vault_def counted_def)
  next
    case (2 v)
    obtain res se where op: "opens D (dsv s) v p = (res, se)" by fastforce
    have version: "(\<exists>w. res = Err (UnsupportedVaultVersion w)) \<longleftrightarrow> \<not> is_supported_version v"
      using op by (auto simp: opens_def unlock_def open_vault_def is_supported_version_def derive_key_def result_simps
          bindE_def ok_or_def split: sum.splits if_splits option.splits)
    show ?thesis
    proof (cases res)
      case (Inr y)
      then show ?thesis using unlock_opened [OF q ok 2, of p se] op run by auto
    next
      case (Inl x)
      show ?thesis
      proof (cases "\<exists>w. x = UnsupportedVaultVersion w")
        case True
        then show ?thesis using unlock_refused [OF q ok 2, of p x se] op Inl run 2 version
          by (auto simp: reaches_vault_def counted_def)
      next
        case False
        then have "s' = arrive (Suc (Suc (Suc 1))) (dsv s) (dy_desk s\<lparr>dk_backoff :=
            record_failure (dk_backoff (dy_desk s)) (de_instant D (Suc (Suc (Suc (dstep s)))))\<rparr>) s"
          using unlock_refused [OF q ok 2, of p x se] op Inl run by (cases x) auto
        moreover have "reaches_vault D (TryUnlock p) s" using ok 2 False Inl version by (auto simp: reaches_vault_def)
        ultimately show ?thesis using ok countedI [of D 0 s "Suc (Suc (Suc (dstep s)))" s'] by (simp add: arrive_0)
      qed
    qed
  qed
qed

lemma reveal_attempt:
  assumes q: "quiet D" and run: "reveal_seed D p s = (Err e, s')"
  shows "counted D (reaches_vault D (TryReveal p) s) s s'"
  using q run
proof (cases rule: reveal_cases)
  case (refused m code ts)
  then show ?thesis by (auto simp: reaches_vault_def counted_def)
next
  case (wrong m code ts n v)
  then show ?thesis using countedI [of D 1 s n s'] by (simp add: reaches_vault_def)
qed simp

text \<open>Attempts that all fail, with anything in between that leaves the delay alone; the number counts those that reached the vault.\<close>

inductive failed_attempts :: "'pt desktop_env \<Rightarrow> dsys \<Rightarrow> nat \<Rightarrow> dsys \<Rightarrow> bool" for D s where
  none: "failed_attempts D s 0 s"
| wait: "failed_attempts D s n s' \<Longrightarrow> dk_backoff (dy_desk s'') = dk_backoff (dy_desk s') \<Longrightarrow> dstep s' \<le> dstep s'' \<Longrightarrow>
    failed_attempts D s n s''"
| attempt: "failed_attempts D s n s' \<Longrightarrow> run_attempt D a s' = (Err e, s'') \<Longrightarrow>
    failed_attempts D s (if reaches_vault D a s' then Suc n else n) s''"

definition clock_runs :: "'pt desktop_env \<Rightarrow> bool" where
  "clock_runs D \<longleftrightarrow> mono (de_instant D)"

text \<open>The state of the delay after \<open>k\<close> failures, the latest at \<open>late\<close>, the first not before \<open>since\<close>.\<close>

definition delayed :: "nat \<Rightarrow> nat \<Rightarrow> nat \<Rightarrow> passphrase_backoff \<Rightarrow> bool" where
  "delayed since k late b \<longleftrightarrow> unat (bo_failures b) = k \<and> since + earliest k \<le> late
     \<and> bo_until b = (if k \<le> 3 then None else Some (late + delay_after k))"

lemma delayed_start: "delayed since 0 since backoff_default"
  by (simp add: delayed_def backoff_default_def earliest_def)

lemma delayed_failure:
  assumes b: "delayed since k late b" and k: "k < 2 ^ 32 - 1"
    and now: "late \<le> t" "backoff_check b t = Ok ()" "t \<le> now"
  shows "delayed since (Suc k) now (record_failure b now)"
proof -
  have f: "unat (bo_failures b) = k" and e: "since + earliest k \<le> late"
    and u: "bo_until b = (if k \<le> 3 then None else Some (late + delay_after k))"
    using b by (simp_all add: delayed_def)
  have "late + delay_after k \<le> t"
    using now(1,2) u by (auto simp: backoff_check_def delay_after_def split: if_splits)
  then have "since + earliest (Suc k) \<le> now" using e now(3) by (simp add: earliest_def)
  then show ?thesis using record_failure_until [OF f k, of now] u by (simp add: delayed_def)
qed

lemma counted_delayed:
  assumes "clock_runs D" "counted D reached s s'" "delayed since k late (dk_backoff (dy_desk s))"
    and "late \<le> de_instant D (dstep s)" "k < 2 ^ 32 - 1"
  shows "\<exists>late'. delayed since (if reached then Suc k else k) late' (dk_backoff (dy_desk s')) \<and> late' \<le> de_instant D (dstep s')"
proof -
  have mono: "i \<le> j \<Longrightarrow> de_instant D i \<le> de_instant D j" for i j
    using assms(1) by (simp add: clock_runs_def monoD)
  show ?thesis
  proof (cases reached)
    case True
    then obtain j n where *: "backoff_check (dk_backoff (dy_desk s)) (de_instant D (dstep s + j)) = Ok ()"
      "dstep s + j \<le> n" "n \<le> dstep s'" "dk_backoff (dy_desk s') = record_failure (dk_backoff (dy_desk s)) (de_instant D n)"
      using assms(2) by (auto simp: counted_def allowed_def)
    have "late \<le> de_instant D (dstep s + j)" using assms(4) mono [of "dstep s" "dstep s + j"] by simp
    then show ?thesis
      using delayed_failure [OF assms(3,5) _ *(1) mono [OF *(2)]] *(3,4) True mono by auto
  next
    case False
    then show ?thesis using assms(2-4) mono [of "dstep s" "dstep s'"]
      by (intro exI [of _ late]) (simp add: counted_def)
  qed
qed

lemma attempt_counted:
  assumes "quiet D" "run_attempt D a s = (Err e, s')"
  shows "counted D (reaches_vault D a s) s s'"
proof (cases a)
  case (TryUnlock p)
  then show ?thesis using unlock_attempt [OF assms(1), of p s e s'] assms(2) by (simp add: run_attempt_def)
next
  case (TryReveal p)
  then obtain e' where "reveal_seed D p s = (Err e', s')"
    using assms(2) by (auto simp: run_attempt_def cbnd_def cret_def split: prod.splits sum.splits)
  then show ?thesis using reveal_attempt [OF assms(1)] TryReveal by simp
qed

lemma failed_attempts_delayed:
  assumes "quiet D" "clock_runs D" "dk_backoff (dy_desk s) = backoff_default" "failed_attempts D s n s'" "n < 2 ^ 32"
  shows "\<exists>late. delayed (de_instant D (dstep s)) n late (dk_backoff (dy_desk s')) \<and> late \<le> de_instant D (dstep s')"
  using assms(4,5)
proof (induction rule: failed_attempts.induct)
  case none
  then show ?case using delayed_start assms(3) by auto
next
  case (wait n s' s'')
  moreover have "de_instant D (dstep s') \<le> de_instant D (dstep s'')"
    using wait.hyps(3) assms(2) by (simp add: clock_runs_def monoD)
  ultimately show ?case using order_trans by auto
next
  case (attempt n s' a e s'')
  have n: "n < 2 ^ 32" using attempt.prems by (simp split: if_splits)
  then obtain late where late: "delayed (de_instant D (dstep s)) n late (dk_backoff (dy_desk s'))"
    "late \<le> de_instant D (dstep s')" using attempt.IH by blast
  show ?case
  proof (cases "reaches_vault D a s'")
    case True
    then have "n < 2 ^ 32 - 1" using attempt.prems by simp
    then show ?thesis using counted_delayed [OF assms(2) attempt_counted [OF assms(1) attempt.hyps(2)] late] by blast
  next
    case False
    have "dk_backoff (dy_desk s'') = dk_backoff (dy_desk s')" "dstep s' \<le> dstep s''"
      using attempt_counted [OF assms(1) attempt.hyps(2)] False by (simp_all add: counted_def)
    moreover from this(2) have "de_instant D (dstep s') \<le> de_instant D (dstep s'')"
      using assms(2) by (simp add: clock_runs_def monoD)
    ultimately show ?thesis using late False order_trans by auto
  qed
qed

end
