(* ===== verification/Desktop_Vault.thy ===== *)
theory Desktop_Vault
  imports Desktop_Facts
begin

text \<open>
  The vault file under the commands of the desktop: set-up writes what unlocking reads back, a new account is in the
  file or nowhere, and the auto-lock task can undo an unlock that is under way.
\<close>

section \<open>Set-up, then unlocking\<close>

lemma save_vault_quiet:
  assumes "quiet D"
  shows "save_vault D v s =
    (let (r, f) = vault_save (e_format (de_env D)) (e_write (de_env D) (dstep s)) v (store_file (dsv s))
     in (map_err (\<lambda>e. Ui (de_io_error D e)) r, arrive (Suc 1) (dsv s\<lparr>sv_vault_store := Some f\<rparr>) (dy_desk s) s))"
  by (auto simp: save_vault_def run_simps quiet_steps [OF assms] case_prod_beta split: sum.split)

lemma setup_run:
  assumes q: "quiet D" and run: "finalize_setup D p s = (r, s')"
  obtains (unstaged) m where "r = Err (Ui m)" "dk_onboarding (dy_desk s) = None" "dsv s' = dsv s"
  | (failed) m f' where "r = Err (Ui m)" "sv_session (dsv s') = sv_session (dsv s)"
      "vf_content (store_file (dsv s')) = vf_content (store_file (dsv s))"
  | (finished) mnemonic salt nonce v f' k where "r = Ok ()" "dk_onboarding (dy_desk s) = Some mnemonic"
      "reseal (e_ext (de_env D)) (e_codec (de_env D)) salt (e_seal_draw (de_env D) NONCE_LEN k)
         (new_unlocked (de_chain D) mnemonic p []) = Ok v"
      "vault_save (e_format (de_env D)) nonce v (store_file (dsv s)) = (Ok (), f')"
      "dsv s' = dsv s\<lparr>sv_vault_store := Some f', sv_session := new_unlocked (de_chain D) mnemonic p []\<rparr>"
      "dy_desk s' = dy_desk s\<lparr>dk_onboarding := None\<rparr>"
proof (cases "dk_onboarding (dy_desk s)")
  case None
  then show thesis using run
    by (intro unstaged) (auto simp: finalize_setup_def run_simps quiet_steps [OF q])
next
  case (Some mnemonic)
  let ?V = "de_env D"
  let ?se = "new_unlocked (de_chain D) mnemonic p []"
  let ?seal = "reseal (e_ext ?V) (e_codec ?V) (e_seal_draw ?V SALT_LEN (Suc (dstep s)))
    (e_seal_draw ?V NONCE_LEN (Suc (Suc (dstep s)))) ?se"
  note step = finalize_setup_def run_simps quiet_steps [OF q] save_vault_quiet [OF q] Some
  show thesis
  proof (cases ?seal)
    case (Inl e)
    then show thesis using run by (intro failed) (auto simp: step)
  next
    case (Inr v)
    obtain w f where save: "vault_save (e_format ?V) (e_write ?V (Suc (Suc (Suc (dstep s))))) v (store_file (dsv s)) = (w, f)"
      by fastforce
    show thesis
    proof (cases w)
      case (Inl e)
      then have "vf_content f = vf_content (store_file (dsv s))" using vault_save_cases(1) [OF save] by simp
      then show thesis using run Inl Inr save by (intro failed) (auto simp: step store_file_def)
    next
      case (Inr u)
      then show thesis using run \<open>?seal = Inr v\<close> save Some by (intro finished) (auto simp: step)
    qed
  qed
qed

text \<open>The generator returns as many bytes as asked.\<close>

definition nonces_fit :: "'pt env \<Rightarrow> bool" where
  "nonces_fit V \<longleftrightarrow> (\<forall>k n. e_seal_draw V NONCE_LEN k = Some n \<longrightarrow> length n = NONCE_LEN)"

lemma setup_durable:
  assumes q: "quiet D" and laws: "vault_laws (de_env D)"
    and nonces: "nonces_fit (de_env D)"
    and ready: "vf_readable (store_file (dsv s))" and run: "finalize_setup D p s = (Ok (), s')"
  shows "durable (de_env D) (dsv s')" and "dk_backoff (dy_desk s') = dk_backoff (dy_desk s)"
    and "sv_last_activity_ms (dsv s') = sv_last_activity_ms (dsv s)"
    and "\<exists>mnemonic. dk_onboarding (dy_desk s) = Some mnemonic
       \<and> sv_session (dsv s') = new_unlocked (de_chain D) mnemonic p []"
proof -
  obtain mnemonic salt out v f' k where written: "dk_onboarding (dy_desk s) = Some mnemonic"
    "reseal (e_ext (de_env D)) (e_codec (de_env D)) salt (e_seal_draw (de_env D) NONCE_LEN k)
       (new_unlocked (de_chain D) mnemonic p []) = Ok v"
    "vault_save (e_format (de_env D)) out v (store_file (dsv s)) = (Ok (), f')"
    "dsv s' = dsv s\<lparr>sv_vault_store := Some f', sv_session := new_unlocked (de_chain D) mnemonic p []\<rparr>"
    "dy_desk s' = dy_desk s\<lparr>dk_onboarding := None\<rparr>"
    using q run by (cases rule: setup_run) auto
  let ?se = "new_unlocked (de_chain D) mnemonic p []"
  have "vault_load (e_format (de_env D)) f' = Ok (Some v)"
    using laws ready written(3) by (auto simp: vault_laws_def intro: vault_load_saved)
  moreover have "unlock (e_ext (de_env D)) (e_codec (de_env D)) (lock ?se) v p = (Ok (), ?se)"
    using unlock_reseal [of "e_ext (de_env D)" "e_codec (de_env D)" "e_seal_draw (de_env D) NONCE_LEN k" ?se _ salt v]
      laws nonces written(2)
    by (simp add: vault_laws_def nonces_fit_def new_unlocked_def)
  ultimately show "durable (de_env D) (dsv s')"
    using written(4) by (auto simp: durable_def new_unlocked_def)
  show "dk_backoff (dy_desk s') = dk_backoff (dy_desk s)" "sv_last_activity_ms (dsv s') = sv_last_activity_ms (dsv s)"
    "\<exists>mnemonic. dk_onboarding (dy_desk s) = Some mnemonic \<and> sv_session (dsv s') = new_unlocked (de_chain D) mnemonic p []"
    using written by simp_all
qed

lemma lock_quiet:
  assumes "quiet D"
  shows "ui_lock D s = (Ok (), arrive 1 (dsv s\<lparr>sv_session := lock (sv_session (dsv s))\<rparr>) (dy_desk s) s)"
  by (simp add: ui_lock_def quiet_steps [OF assms])

lemma unlock_durable:
  assumes q: "quiet D" and dur: "durable (de_env D) sv" and u: "s_unlocked (sv_session sv) = Some u"
    and locked: "sv_session (dsv s) = lock (sv_session sv)" "sv_vault_store (dsv s) = sv_vault_store sv"
    and ok: "allowed D s = Ok ()"
  shows "\<exists>s'. ui_unlock D (u_vault_passphrase u) s = (Ok (), s') \<and> sv_session (dsv s') = sv_session sv
     \<and> dk_backoff (dy_desk s') = backoff_default"
proof -
  obtain vf v where v: "sv_vault_store sv = Some vf" "vault_load (e_format (de_env D)) vf = Ok (Some v)"
    "unlock (e_ext (de_env D)) (e_codec (de_env D)) (lock (sv_session sv)) v (u_vault_passphrase u) = (Ok (), sv_session sv)"
    using dur u by (auto simp: durable_def)
  then have "vault_at D (dsv s) = Ok (Some v)" "opens D (dsv s) v (u_vault_passphrase u) = (Ok (), sv_session sv)"
    using locked by (simp_all add: vault_at_def store_file_def opens_def)
  from unlock_opened [OF q ok this] show ?thesis by (auto simp: touch_activity_def)
qed

section \<open>New accounts\<close>

lemma create_user_and_persist_durable:
  assumes laws: "vault_laws (de_env D)" and nonce: "\<And>n. nonce = Some n \<Longrightarrow> length n = NONCE_LEN"
    and fresh: "next_address_fresh (e_ext (de_env D)) (sv_session sv) User" and dur: "durable (de_env D) sv"
    and step: "create_user_and_persist D salt nonce out label sv = (r, sv')"
  shows "durable (de_env D) sv' \<and> (case r of
      Inl _ \<Rightarrow> sv_session sv' = sv_session sv
    | Inr a \<Rightarrow> \<exists>u. s_unlocked (sv_session sv) = Some u \<and> acc_domain a = User
        \<and> sv_session sv' = (sv_session sv)\<lparr>s_unlocked := Some (u\<lparr>u_registry := u_registry u @ [a]\<rparr>)\<rparr>)"
proof -
  let ?V = "de_env D"
  let ?se = "sv_session sv"
  obtain vf u v where vf: "sv_vault_store sv = Some vf" and u: "s_unlocked ?se = Some u"
    and load: "vault_load (e_format ?V) vf = Ok (Some v)"
    and un: "unlock (e_ext ?V) (e_codec ?V) (lock ?se) v (u_vault_passphrase u) = (Ok (), ?se)"
    using dur by (auto simp: durable_def)
  have store: "store_file sv = vf" by (simp add: store_file_def vf)
  have kept: "durable ?V (sv\<lparr>sv_session := ?se, sv_vault_store := Some f\<rparr>)"
    if "vault_load (e_format ?V) f = vault_load (e_format ?V) vf" for f
    using that load u un by (auto simp: durable_def)
  obtain res se where made: "create_user_account (e_ext ?V) ?se label = (res, se)" by fastforce
  show ?thesis
  proof (cases res)
    case (Inl e)
    then have "se = ?se" using made create_account_Err by (simp add: create_user_account_def)
    then show ?thesis using step made Inl dur by (auto simp: create_user_and_persist_def Let_def)
  next
    case (Inr a)
    then have created: "create_account (e_ext ?V) ?se User label None = (Ok a, se)"
      using made by (simp add: create_user_account_def)
    then have undone: "rollback_account se (acc_address a) = ?se" using fresh by (rule rollback_fresh)
    from created obtain u' where u': "s_unlocked ?se = Some u'" and user: "acc_domain a = User"
      and se: "se = ?se\<lparr>s_unlocked := Some (u'\<lparr>u_registry := u_registry u' @ [a]\<rparr>)\<rparr>"
      by (elim create_account_Ok) (simp add: registry_add_def)
    show ?thesis
    proof (cases "reseal (e_ext ?V) (e_codec ?V) salt nonce se")
      case (Inl e)
      have "sv\<lparr>sv_session := ?se\<rparr> = sv" by simp
      then show ?thesis using step made Inr Inl undone dur by (auto simp: create_user_and_persist_def Let_def)
    next
      case sealed: (Inr w)
      obtain x f where saved: "vault_save (e_format ?V) out w vf = (x, f)" by fastforce
      show ?thesis
      proof (cases x)
        case (Inl e)
        then have "durable ?V (sv\<lparr>sv_session := ?se, sv_vault_store := Some f\<rparr>)"
          using kept vault_save_failed saved by blast
        then show ?thesis using step made Inr sealed saved Inl undone store
          by (auto simp: create_user_and_persist_def Let_def)
      next
        case ok: (Inr y)
        have wrote: "persist_session ?V salt nonce out se vf = (Inr (), f)"
          using sealed saved ok by (simp add: persist_session_def map_err_def)
        have new: "s_unlocked se = Some (u'\<lparr>u_registry := u_registry u' @ [a]\<rparr>)" by (simp add: se)
        obtain w' where w': "vault_load (e_format ?V) f = Ok (Some w')"
          "unlock (e_ext ?V) (e_codec ?V) (lock se) w' (u_vault_passphrase u') = (Ok (), se)"
          using persist_saved [OF laws nonce new vault_load_readable [OF load] wrote] by auto
        have "durable ?V (sv\<lparr>sv_session := se, sv_vault_store := Some f\<rparr>)"
          unfolding durable_def
          by (intro exI [of _ f] exI [of _ "u'\<lparr>u_registry := u_registry u' @ [a]\<rparr>"] exI [of _ w'] conjI)
            (use w' new in simp_all)
        moreover have "r = Ok a" "sv' = sv\<lparr>sv_session := se, sv_vault_store := Some f\<rparr>"
          using step made Inr sealed saved ok store by (simp_all add: create_user_and_persist_def Let_def)
        ultimately show ?thesis using u' user se by simp
      qed
    qed
  qed
qed

lemma durable_log: "durable V (sv\<lparr>sv_log := l\<rparr>) = durable V sv"
  by (simp add: durable_def)

lemma dsv_emit: "srv (emit ev) s = (Ok (), s\<lparr>dy_sys := (dy_sys s)\<lparr>sy_trace := sy_trace (dy_sys s) @ [ev]\<rparr>\<rparr>)"
  by (simp add: srv_def emit_def map_err_def)

lemma traced_simps [simp]:
  "dsv (s\<lparr>dy_sys := (dy_sys s)\<lparr>sy_trace := t\<rparr>\<rparr>) = dsv s" "dstep (s\<lparr>dy_sys := (dy_sys s)\<lparr>sy_trace := t\<rparr>\<rparr>) = dstep s"
  by (simp_all add: dsv_def dstep_def)

lemma add_user_account_run:
  assumes q: "quiet D" and run: "add_user_account D label s = (r, s')"
  obtains res sv' outcome code result ts salt out k where
    "create_user_and_persist D salt (e_seal_draw (de_env D) NONCE_LEN k) out label (dsv s) = (res, sv')"
    "r = map_err Ui res"
    "dsv s' = sv'\<lparr>sv_log := log_record (ui_row ''ui_addUserAccount''
        (ui_chain_name (s_chain (sv_session (dsv s)))) outcome code result ts) (sv_log sv')\<rparr>"
    "outcome = ''ok'' \<longleftrightarrow> (\<exists>a. res = Ok a)"
proof -
  let ?V = "de_env D"
  let ?make = "create_user_and_persist D (e_seal_draw ?V SALT_LEN (dstep s)) (e_seal_draw ?V NONCE_LEN (Suc (dstep s)))
    (e_write ?V (Suc (Suc (dstep s)))) label"
  obtain res sv' where made: "?make (dsv s) = (res, sv')" by fastforce
  have logged: "log_ui_action D m n oc c j x = (Ok (), arrive (Suc 1) (dsv x\<lparr>sv_log := log_record
      (ui_row m n oc c j (e_clock ?V (dstep x))) (sv_log (dsv x))\<rparr>) (dy_desk x) x)" for m n oc c j x
    by (rule quiet_log [OF q])
  note step = add_user_account_def run_simps quiet_steps [OF q] logged made dsv_emit
  show thesis
  proof (cases res)
    case (Inl e)
    then show thesis using run made by (intro that [OF made, where outcome = "''error: '' @ e"]) (auto simp: step)
  next
    case (Inr a)
    then show thesis using run made
      by (intro that [OF made, where outcome = "''ok''"]) (auto simp: step)
  qed
qed

text \<open>A user account is in the vault file with the phrase, or it was not created.\<close>

lemma user_account_durable:
  assumes "quiet D" "vault_laws (de_env D)" "nonces_fit (de_env D)"
    and "next_address_fresh (e_ext (de_env D)) (sv_session (dsv s)) User" "durable (de_env D) (dsv s)"
    and "add_user_account D label s = (r, s')"
  shows "durable (de_env D) (dsv s') \<and> (case r of
      Inl _ \<Rightarrow> sv_session (dsv s') = sv_session (dsv s)
    | Inr a \<Rightarrow> \<exists>u. s_unlocked (sv_session (dsv s)) = Some u \<and> acc_domain a = User
        \<and> sv_session (dsv s') = (sv_session (dsv s))\<lparr>s_unlocked := Some (u\<lparr>u_registry := u_registry u @ [a]\<rparr>)\<rparr>)"
proof -
  obtain res sv' salt out k where made:
    "create_user_and_persist D salt (e_seal_draw (de_env D) NONCE_LEN k) out label (dsv s) = (res, sv')"
    and "r = map_err Ui res" "\<exists>l. dsv s' = sv'\<lparr>sv_log := l\<rparr>"
    using assms(1,6) by (rule add_user_account_run) blast
  then show ?thesis
    using create_user_and_persist_durable [OF assms(2) _ assms(4,5) made] assms(3)
    by (auto simp: nonces_fit_def durable_log map_err_def split: sum.splits)
qed

section \<open>Unlocking against the auto-lock task\<close>

text \<open>
  The task's turn read the clock and the last activity before the user unlocked, and waited for the session; it locks
  what was just unlocked, before the activity is noted. The command still reports success.
\<close>

definition relocking :: "nat \<Rightarrow> u64 \<Rightarrow> u64 \<Rightarrow> 'pt desktop_env \<Rightarrow> 'pt desktop_env" where
  "relocking n mins now D =
     D\<lparr>de_env := (de_env D)\<lparr>e_interfere := (\<lambda>k sv. if k = n then lock_if_idle mins now sv else sv)\<rparr>\<rparr>"

lemma unlock_relocked:
  assumes q: "quiet D" and ok: "allowed D s = Ok ()" and v: "vault_at D (dsv s) = Ok (Some v)"
    and op: "opens D (dsv s) v p = (Ok (), se)" and idle: "idle_too_long mins now (dsv s)"
  shows "\<exists>s'. ui_unlock (relocking (dstep s + 5) mins now D) p s = (Ok (), s') \<and> is_locked (sv_session (dsv s'))"
proof -
  have i: "de_interfere D n d = d" for n d using q by (simp add: quiet_def)
  have "is_locked (sv_session (lock_if_idle mins now (dsv s\<lparr>sv_session := se\<rparr>)))"
    using idle by (intro lock_if_idle_simps) (simp add: idle_too_long_def)
  then show ?thesis
    using ok v op
    by (simp add: ui_unlock_def relocking_def check_backoff_def load_vault_def note_attempt_def note_success_def touched_def
        now_unix_ms_def run_simps cmd_defs act_defs now_server_def now_desk_def i allowed_def vault_at_def opens_def
        dsv_def dstep_def record_success_def touch_activity_def)
qed

end
