(* ===== verification/Desktop_Nodes.thy ===== *)
theory Desktop_Nodes
  imports Desktop_Facts
begin

text \<open>
  The node URLs that the wallet and the prover share, through the set-up of \<open>run\<close> and the commands that write
  settings; and an unsupported vault, which is moved and never lost.
\<close>

section \<open>Shared nodes\<close>

text \<open>
  The server's nodes are those of \<open>config.json\<close>, and the prover's settings have its URLs.
\<close>

definition nodes_shared :: "'pt desktop_env \<Rightarrow> server \<Rightarrow> desk \<Rightarrow> bool" where
  "nodes_shared D sv d \<longleftrightarrow>
     (let wallet = settings_load (dk_config d); ps = sv_prover_settings sv
      in sv_nodes sv = settings_node_for (e_ext (de_env D)) (de_node D) wallet
       \<and> nc_rpc_url (se_testnet ps) = rpc_for wallet Sepolia \<and> nc_rpc_url (se_mainnet ps) = rpc_for wallet Mainnet)"

lemma with_wallet_urls_rpc [simp]:
  "nc_rpc_url (se_testnet (with_wallet_urls wallet ps)) = rpc_for wallet Sepolia"
  "nc_rpc_url (se_mainnet (with_wallet_urls wallet ps)) = rpc_for wallet Mainnet"
  by (simp_all add: with_wallet_urls_def rpc_for_def)

lemma chain_fun_eq: "f = g \<longleftrightarrow> f Sepolia = g Sepolia \<and> f Mainnet = g Mainnet" for f g :: "chain \<Rightarrow> 'a"
  by (metis chain.exhaust ext)

lemma nodes_shared_start: "nodes_shared D (desktop_server D now env di) (desktop_desk di)"
  by (auto simp: nodes_shared_def desktop_server_def desktop_desk_def Let_def with_prover_def with_node_def set_node_def
      with_clients_path_def with_vault_store_def server_with_log_def chain_fun_eq split: option.splits)

lemma update_prover_settings_quiet:
  assumes "quiet D"
  shows "update_prover_settings D ps s =
    ((case de_prover_write D (Suc (dstep s)) of None \<Rightarrow> Ok () | Some m \<Rightarrow> Err (Ui m)),
     arrive (Suc 1) (dsv s\<lparr>sv_prover_settings := ps\<rparr>) (dy_desk s) s)"
  by (simp add: update_prover_settings_def run_simps quiet_steps [OF assms] split: option.splits)

lemma set_settings_Ok:
  assumes q: "quiet D" and run: "set_settings D st s = (Ok (), s')"
  shows "settings_validate st = Ok ()" "settings_load (dk_config (dy_desk s')) = st"
    "nodes_shared D (dsv s') (dy_desk s')" "sv_session (dsv s') = sv_session (dsv s)"
proof -
  obtain f where valid: "settings_validate st = Ok ()"
    and saved: "settings_save (de_config_write D (dstep s)) st (dk_config (dy_desk s)) = (Ok (), f)"
    using run by (cases "settings_validate st"; cases "settings_save (de_config_write D (dstep s)) st (dk_config (dy_desk s))")
      (auto simp: set_settings_def run_simps quiet_steps [OF q] split: sum.splits prod.splits)
  obtain k ps where s': "s' = arrive k ((set_node Mainnet (settings_node_for (e_ext (de_env D)) (de_node D) st Mainnet)
      (set_node Sepolia (settings_node_for (e_ext (de_env D)) (de_node D) st Sepolia) (dsv s)))
      \<lparr>sv_prover_settings := with_wallet_urls st ps\<rparr>) (dy_desk s\<lparr>dk_config := f\<rparr>) s"
    using run valid saved
    by (auto simp: set_settings_def run_simps quiet_steps [OF q] sync_prover_rpc_def ignored_def
        update_prover_settings_quiet [OF q] split: option.splits)
  have load: "settings_load f = st" using settings_load_saved [OF saved] .
  show "settings_validate st = Ok ()" by (rule valid)
  show "settings_load (dk_config (dy_desk s')) = st" using load s' by simp
  show "nodes_shared D (dsv s') (dy_desk s')" using load s'
    by (simp add: nodes_shared_def set_node_def chain_fun_eq)
  show "sv_session (dsv s') = sv_session (dsv s)" using s' by (simp add: set_node_def)
qed

lemma set_settings_invalid:
  assumes "settings_validate st = Err e"
  shows "set_settings D st s = (Err (Ui e), s)"
  using assms by (simp add: set_settings_def run_simps)

lemma set_prover_settings_shared:
  assumes q: "quiet D" and run: "set_prover_settings D ps s = (r, s')" and inv: "nodes_shared D (dsv s) (dy_desk s)"
  shows "nodes_shared D (dsv s') (dy_desk s')" "se_prover_backend (sv_prover_settings (dsv s')) = se_prover_backend ps"
    "nc_prover_url (se_testnet (sv_prover_settings (dsv s'))) = nc_prover_url (se_testnet ps)"
proof -
  have "s' = arrive (Suc (Suc 1)) (dsv s\<lparr>sv_prover_settings := with_wallet_urls (settings_load (dk_config (dy_desk s))) ps\<rparr>) (dy_desk s) s"
    using run by (simp add: set_prover_settings_def run_simps quiet_steps [OF q] update_prover_settings_quiet [OF q])
  then show "nodes_shared D (dsv s') (dy_desk s')" "se_prover_backend (sv_prover_settings (dsv s')) = se_prover_backend ps"
    "nc_prover_url (se_testnet (sv_prover_settings (dsv s'))) = nc_prover_url (se_testnet ps)"
    using inv by (simp_all add: nodes_shared_def Let_def) (simp_all add: with_wallet_urls_def)
qed

section \<open>A vault of another version\<close>

lemma rename_quiet:
  assumes q: "quiet D" and there: "vf_content (store_file (dsv s)) = Some bytes"
  shows "rename_vault D name s = (case de_rename D (dstep s) of
      Some e \<Rightarrow> (Ok (Err e), arrive 1 (dsv s) (dy_desk s) s)
    | None \<Rightarrow> (Ok (Ok ()), arrive 1 (dsv s\<lparr>sv_vault_store := Some (store_file (dsv s)\<lparr>vf_content := None\<rparr>)\<rparr>)
        (dy_desk s\<lparr>dk_backups := (dk_backups (dy_desk s))(name \<mapsto> bytes)\<rparr>) s))"
  using q there
  by (simp add: rename_vault_def quiet_def now_server_def now_desk_def arrive_def dsv_def dstep_def Let_def split: option.splits)

lemma archive_cases:
  assumes q: "quiet D" and run: "archive_unsupported_vault D s = (r, s')"
  obtains (kept) m where "r = Err (Ui m)" "store_file (dsv s') = store_file (dsv s)"
      "dk_backups (dy_desk s') = dk_backups (dy_desk s)"
  | (moved) v bytes stamp where "r = Ok (de_dir D @ ''/'' @ backup_name (vault_version v) stamp)"
      "vf_content (store_file (dsv s)) = Some bytes" "vault_at D (dsv s) = Ok (Some v)" "\<not> is_supported_version v"
      "vf_content (store_file (dsv s')) = None"
      "dk_backups (dy_desk s') = (dk_backups (dy_desk s))(backup_name (vault_version v) stamp \<mapsto> bytes)"
      "sv_session (dsv s') = sv_session (dsv s)"
proof -
  let ?stamp = "e_clock (de_env D) (Suc (dstep s))"
  have clock: "srv (now_unix_ms (de_env D)) x = (Ok (e_clock (de_env D) (dstep x)), arrive 1 (dsv x) (dy_desk x) x)" for x
    using quiet_steps(4) [OF q, of "e_clock (de_env D)" x] by (simp add: now_unix_ms_def)
  note step = archive_unsupported_vault_def run_simps load_vault_quiet [OF q] clock quiet_log [OF q]
  consider (none) e where "vault_at D (dsv s) = Err e \<or> vault_at D (dsv s) = Ok None"
    | (fine) v where "vault_at D (dsv s) = Ok (Some v)" "is_supported_version v"
    | (other) v where "vault_at D (dsv s) = Ok (Some v)" "\<not> is_supported_version v"
    by (metis old.sum.exhaust option.exhaust)
  then show thesis
  proof cases
    case none
    then obtain m where "r = Err (Ui m)" "s' = arrive 1 (dsv s) (dy_desk s) s" using run by (auto simp: step)
    then show thesis by (intro kept) simp_all
  next
    case fine
    then show thesis using run by (intro kept) (auto simp: step cfail_def)
  next
    case (other v)
    let ?f = "store_file (dsv s)"
    obtain bytes where there: "vf_content ?f = Some bytes"
      using other(1) by (auto simp: vault_at_def vault_load_def split: option.splits if_splits)
    show thesis
    proof (cases "de_rename D (Suc (Suc (dstep s)))")
      case (Some e)
      then show thesis using run other there
        by (intro kept) (auto simp: step rename_quiet [OF q, of _ bytes])
    next
      case None
      then show thesis using run other there
        by (intro moved [of v ?stamp bytes]) (auto simp: step rename_quiet [OF q, of _ bytes] store_file_def)
    qed
  qed
qed

end
