(* ===== verification/Desktop_Approvals.thy ===== *)
theory Desktop_Approvals
  imports Rpc_State "HOL-Library.AList"
begin

text \<open>
  The approval bridge of \<open>desktop/src-tauri/src/lib.rs\<close>: \<open>spawn_approval_bridge\<close>, \<open>respond_approval\<close> and the
  counts of \<open>refresh_tray\<close>, with the channel of \<open>ChannelApprover\<close>. A prompt is named by a tag, the identity of the one-shot
  channel its requester waits on. The bridge task, the command of the user interface, the 60-second tasks and the main
  thread interleave freely: \<open>bstep\<close> is one step of one of them, with an event for what happened.
  \<open>br_asked\<close>, \<open>br_shown\<close> and \<open>br_answers\<close> are the history of prompts sent, shown and answered. Time is in seconds.
\<close>

section \<open>The bridge\<close>

definition APPROVAL_CAPACITY :: nat where "APPROVAL_CAPACITY = 32"
definition APPROVAL_SECONDS :: nat where "APPROVAL_SECONDS = 60"

record shown =
  sh_id :: u64
  sh_tag :: nat
  sh_request :: approval_request
  sh_title :: string
  sh_at :: nat

record bridge =
  br_queue :: "(nat \<times> approval_request) list"
  br_pending :: "(u64 \<times> nat) list"
  br_next :: u64
  br_timers :: "(u64 \<times> nat) list"
  br_now :: nat
  br_asked :: "(nat \<times> nat \<times> approval_request) list"
  br_shown :: "shown list"
  br_answers :: "(nat \<times> decision) list"
  br_posts :: "nat list"                           \<comment> \<open>refreshes handed to the main thread\<close>
  br_tray :: nat                                   \<comment> \<open>the count on the dot and the badge\<close>

definition bridge_start :: bridge where
  "bridge_start =
     \<lparr>br_queue = [], br_pending = [], br_next = 1, br_timers = [], br_now = 0, br_asked = [], br_shown = [],
      br_answers = [], br_posts = [], br_tray = 0\<rparr>"

definition notif_title :: "string \<Rightarrow> string" where
  "notif_title m =
     (if m = ''companion_requestPairing'' then ''strkd '' @ utf8_dash @ '' pairing request''
      else if m = ''companion_requestFunding'' then ''strkd '' @ utf8_dash @ '' funding (top-up) request''
      else ''strkd '' @ utf8_dash @ '' approval needed'')"

text \<open>A prompt sent by the approver, which waits while the channel is full.\<close>

definition ask :: "nat \<Rightarrow> approval_request \<Rightarrow> bridge \<Rightarrow> bridge" where
  "ask tag req b =
     b\<lparr>br_queue := br_queue b @ [(tag, req)], br_asked := br_asked b @ [(tag, br_now b, req)]\<rparr>"

text \<open>One turn of the bridge's loop. \<open>HashMap::insert\<close> drops what the map had at the id.\<close>

definition bridge_receive :: "bridge \<Rightarrow> bridge option" where
  "bridge_receive b =
     (case br_queue b of
        [] \<Rightarrow> None
      | (tag, req) # q \<Rightarrow>
          (let rid = br_next b;
               pending = AList.update rid tag (br_pending b)
           in Some (b\<lparr>br_queue := q, br_next := rid + 1, br_pending := pending,
                br_timers := br_timers b @ [(rid, br_now b + APPROVAL_SECONDS)],
                br_shown := br_shown b @ [\<lparr>sh_id = rid, sh_tag = tag, sh_request = req,
                  sh_title = notif_title (ap_method req), sh_at = br_now b\<rparr>],
                br_posts := br_posts b @ [length pending]\<rparr>)))"

definition answer :: "u64 \<Rightarrow> nat \<Rightarrow> decision \<Rightarrow> bridge \<Rightarrow> bridge" where
  "answer rid tag d b =
     (let pending = AList.delete rid (br_pending b)
      in b\<lparr>br_pending := pending, br_answers := br_answers b @ [(tag, d)],
           br_posts := br_posts b @ [length pending]\<rparr>)"

definition respond_approval :: "u64 \<Rightarrow> bool \<Rightarrow> bridge \<Rightarrow> (string + unit) \<times> bridge" where
  "respond_approval rid approved b =
     (case map_of (br_pending b) rid of
        Some tag \<Rightarrow> (Ok (), answer rid tag (if approved then Approve else Reject) b)
      | None \<Rightarrow> (Err ''no pending approval with that id (it may have timed out)'', b))"

text \<open>The task that slept for a prompt, once it wakes up.\<close>

definition auto_reject :: "u64 \<Rightarrow> bridge \<Rightarrow> bridge" where
  "auto_reject rid b =
     (case map_of (br_pending b) rid of Some tag \<Rightarrow> answer rid tag Reject b | None \<Rightarrow> b)"

datatype bridge_event =
    Asked nat approval_request
  | Shown
  | Clicked u64 bool
  | Expired u64
  | Painted nat
  | Ticked

inductive bstep :: "bridge \<Rightarrow> bridge_event \<Rightarrow> bridge \<Rightarrow> bool" where
  asked: "length (br_queue b) < APPROVAL_CAPACITY \<Longrightarrow> tag \<notin> fst ` set (br_asked b) \<Longrightarrow>
    bstep b (Asked tag req) (ask tag req b)"
| shown: "bridge_receive b = Some b' \<Longrightarrow> bstep b Shown b'"
| clicked: "respond_approval rid approved b = (r, b') \<Longrightarrow> bstep b (Clicked rid approved) b'"
| expired: "(rid, t) \<in> set (br_timers b) \<Longrightarrow> t \<le> br_now b \<Longrightarrow>
    bstep b (Expired rid) (auto_reject rid (b\<lparr>br_timers := remove1 (rid, t) (br_timers b)\<rparr>))"
| painted: "i < length (br_posts b) \<Longrightarrow>
    bstep b (Painted i) (b\<lparr>br_tray := br_posts b ! i, br_posts := take i (br_posts b) @ drop (Suc i) (br_posts b)\<rparr>)"
| ticked: "bstep b Ticked (b\<lparr>br_now := br_now b + 1\<rparr>)"

inductive_cases bstep_cases:
  "bstep b (Asked tag req) b'" "bstep b Shown b'" "bstep b (Clicked rid approved) b'"
  "bstep b (Expired rid) b'" "bstep b (Painted i) b'" "bstep b Ticked b'"

text \<open>
  A task that can run: the bridge with a prompt in its channel, a sleeper whose time has come. In a punctual run no second passes while one can.
\<close>

definition task_ready :: "bridge \<Rightarrow> bool" where
  "task_ready b \<longleftrightarrow> br_queue b \<noteq> [] \<or> (\<exists>(rid, t) \<in> set (br_timers b). t \<le> br_now b)"

inductive bridge_run :: "bool \<Rightarrow> bridge \<Rightarrow> bridge_event list \<Rightarrow> bridge \<Rightarrow> bool" for punctual where
  nothing: "bridge_run punctual b [] b"
| more: "bridge_run punctual b es b' \<Longrightarrow> bstep b' e b'' \<Longrightarrow> (punctual \<Longrightarrow> e = Ticked \<Longrightarrow> \<not> task_ready b') \<Longrightarrow>
    bridge_run punctual b (es @ [e]) b''"

section \<open>Every prompt is pending or answered\<close>

definition ids_ok :: "bridge \<Rightarrow> bool" where
  "ids_ok b \<longleftrightarrow> br_next b = of_nat (Suc (length (br_shown b)))
     \<and> (\<forall>i < length (br_shown b). sh_id (br_shown b ! i) = of_nat (Suc i))"

definition tags_ok :: "bridge \<Rightarrow> bool" where
  "tags_ok b \<longleftrightarrow> map (\<lambda>(t, _, r). (t, r)) (br_asked b)
       = map (\<lambda>s. (sh_tag s, sh_request s)) (br_shown b) @ br_queue b
     \<and> distinct (map fst (br_asked b))"

definition open_prompt :: "bridge \<Rightarrow> shown \<Rightarrow> bool" where
  "open_prompt b s \<longleftrightarrow> map_of (br_pending b) (sh_id s) = Some (sh_tag s) \<and> sh_tag s \<notin> fst ` set (br_answers b)
     \<and> (sh_id s, sh_at s + APPROVAL_SECONDS) \<in> set (br_timers b)"

definition closed_prompt :: "bridge \<Rightarrow> shown \<Rightarrow> bool" where
  "closed_prompt b s \<longleftrightarrow> map_of (br_pending b) (sh_id s) = None \<and> sh_tag s \<in> fst ` set (br_answers b)"

definition prompts_ok :: "bridge \<Rightarrow> bool" where
  "prompts_ok b \<longleftrightarrow> (\<forall>s \<in> set (br_shown b). open_prompt b s \<or> closed_prompt b s)
     \<and> fst ` set (br_answers b) \<subseteq> sh_tag ` set (br_shown b) \<and> distinct (map fst (br_answers b))
     \<and> fst ` set (br_pending b) \<subseteq> sh_id ` set (br_shown b)
     \<and> distinct (map fst (br_pending b))
     \<and> (\<forall>(rid, t) \<in> set (br_timers b). \<exists>s \<in> set (br_shown b). sh_id s = rid \<and> t = sh_at s + APPROVAL_SECONDS)"

definition bridge_inv :: "bridge \<Rightarrow> bool" where
  "bridge_inv b \<longleftrightarrow> ids_ok b \<and> tags_ok b \<and> prompts_ok b"

definition few_prompts :: "bridge \<Rightarrow> bool" where
  "few_prompts b \<longleftrightarrow> length (br_shown b) < 2 ^ 64 - 1"

lemma bridge_inv_start: "bridge_inv bridge_start"
  by (simp add: bridge_inv_def bridge_start_def ids_ok_def tags_ok_def prompts_ok_def)

lemma u64_of_nat_eq: "m < 2 ^ 64 \<Longrightarrow> n < 2 ^ 64 \<Longrightarrow> (of_nat m :: u64) = of_nat n \<longleftrightarrow> m = n"
  by (auto simp: word_of_nat_eq_iff take_bit_nat_eq_self)

lemma ids_distinct:
  assumes "ids_ok b" "few_prompts b" "s \<in> set (br_shown b)" "s' \<in> set (br_shown b)"
  shows "sh_id s = sh_id s' \<longleftrightarrow> s = s'" "sh_id s \<noteq> br_next b"
proof -
  obtain i j where i: "i < length (br_shown b)" "s = br_shown b ! i" and j: "j < length (br_shown b)" "s' = br_shown b ! j"
    using assms(3,4) by (auto simp: in_set_conv_nth)
  then have "sh_id s = sh_id s' \<longleftrightarrow> i = j"
    using assms(1,2) u64_of_nat_eq [of "Suc i" "Suc j"] by (simp add: ids_ok_def few_prompts_def)
  then show "sh_id s = sh_id s' \<longleftrightarrow> s = s'" using i j by auto
  show "sh_id s \<noteq> br_next b"
    using assms(1,2) i u64_of_nat_eq [of "Suc i" "Suc (length (br_shown b))"] by (simp add: ids_ok_def few_prompts_def)
qed

lemma tags_distinct:
  assumes "tags_ok b"
  shows "distinct (map sh_tag (br_shown b) @ map fst (br_queue b))"
    "map fst (br_asked b) = map sh_tag (br_shown b) @ map fst (br_queue b)"
proof -
  have "map fst (map (\<lambda>(t, _, r). (t, r)) (br_asked b)) = map fst (map (\<lambda>s. (sh_tag s, sh_request s)) (br_shown b) @ br_queue b)"
    using assms by (simp only: tags_ok_def)
  moreover have "map fst (map (\<lambda>(t, _, r). (t, r)) (br_asked b)) = map fst (br_asked b)" by (simp add: case_prod_beta)
  ultimately show "map fst (br_asked b) = map sh_tag (br_shown b) @ map fst (br_queue b)" by (simp add: comp_def)
  then show "distinct (map sh_tag (br_shown b) @ map fst (br_queue b))" using assms by (simp add: tags_ok_def)
qed

lemma same_tag:
  assumes "tags_ok b" "s \<in> set (br_shown b)" "s' \<in> set (br_shown b)" "sh_tag s = sh_tag s'"
  shows "s = s'"
  using tags_distinct(1) [OF assms(1)] assms(2-4) by (auto simp: distinct_map dest: inj_onD)

section \<open>Preservation\<close>

lemma pending_shown:
  assumes "bridge_inv b" "few_prompts b" "map_of (br_pending b) rid = Some tag"
  obtains s where "s \<in> set (br_shown b)" "sh_id s = rid" "sh_tag s = tag" "open_prompt b s"
proof -
  have "rid \<in> fst ` set (br_pending b)" using map_of_SomeD [OF assms(3)] by force
  then obtain s where s: "s \<in> set (br_shown b)" "sh_id s = rid"
    using assms(1) by (auto simp: bridge_inv_def prompts_ok_def)
  then have "open_prompt b s \<or> closed_prompt b s" using assms(1) by (simp add: bridge_inv_def prompts_ok_def)
  then have "open_prompt b s" using assms(3) s by (simp add: closed_prompt_def)
  then show thesis using that s assms(3) by (auto simp: open_prompt_def)
qed

lemma answer_inv:
  assumes inv: "bridge_inv b" and few: "few_prompts b" and p: "map_of (br_pending b) rid = Some tag"
    and ts: "set ts \<subseteq> set (br_timers b)" "\<And>x. x \<in> set (br_timers b) \<Longrightarrow> fst x \<noteq> rid \<Longrightarrow> x \<in> set ts"
  shows "bridge_inv (answer rid tag d (b\<lparr>br_timers := ts\<rparr>))"
proof -
  let ?b = "answer rid tag d (b\<lparr>br_timers := ts\<rparr>)"
  have ids: "ids_ok b" and tags: "tags_ok b" and ok: "prompts_ok b" using inv by (simp_all add: bridge_inv_def)
  obtain s where s: "s \<in> set (br_shown b)" "sh_id s = rid" "sh_tag s = tag" "open_prompt b s"
    using pending_shown [OF inv few p] by blast
  have "open_prompt ?b s' \<or> closed_prompt ?b s'" if s': "s' \<in> set (br_shown b)" for s'
  proof (cases "s' = s")
    case True
    then show ?thesis using s by (simp add: closed_prompt_def answer_def Let_def AList.delete_conv')
  next
    case False
    then have id: "sh_id s' \<noteq> rid" and tag: "sh_tag s' \<noteq> tag"
      using ids_distinct(1) [OF ids few s' s(1)] same_tag [OF tags s' s(1)] s by auto
    have "open_prompt b s' \<or> closed_prompt b s'" using ok s' by (simp add: prompts_ok_def)
    then show ?thesis
      using id tag ts(2) [of "(sh_id s', sh_at s' + APPROVAL_SECONDS)"]
      by (auto simp: open_prompt_def closed_prompt_def answer_def Let_def AList.delete_conv')
  qed
  moreover have "tag \<notin> fst ` set (br_answers b)" using s by (simp add: open_prompt_def)
  moreover have "distinct (map fst (AList.delete rid (br_pending b)))"
    using ok by (simp add: prompts_ok_def AList.distinct_delete)
  moreover have "fst ` set (AList.delete rid (br_pending b)) \<subseteq> sh_id ` set (br_shown b)"
    using ok subset_trans [OF AList.dom_delete_subset [of rid "br_pending b"]] by (simp add: prompts_ok_def)
  moreover have "\<forall>(rid, t) \<in> set ts. \<exists>s \<in> set (br_shown b). sh_id s = rid \<and> t = sh_at s + APPROVAL_SECONDS"
    using ok ts(1) by (auto simp: prompts_ok_def)
  moreover have "distinct (map fst (br_answers b))" "fst ` set (br_answers b) \<subseteq> sh_tag ` set (br_shown b)"
    using ok by (simp_all add: prompts_ok_def)
  moreover have "tag \<in> sh_tag ` set (br_shown b)" using s by blast
  ultimately have "prompts_ok ?b" by (simp add: prompts_ok_def answer_def Let_def)
  then show ?thesis using ids tags by (simp add: bridge_inv_def ids_ok_def tags_ok_def answer_def Let_def)
qed

lemma forget_timer_inv:
  assumes inv: "bridge_inv b" and p: "map_of (br_pending b) rid = None"
    and ts: "set ts \<subseteq> set (br_timers b)" "\<And>x. x \<in> set (br_timers b) \<Longrightarrow> fst x \<noteq> rid \<Longrightarrow> x \<in> set ts"
  shows "bridge_inv (b\<lparr>br_timers := ts\<rparr>)"
proof -
  have "open_prompt (b\<lparr>br_timers := ts\<rparr>) s \<or> closed_prompt (b\<lparr>br_timers := ts\<rparr>) s" if "s \<in> set (br_shown b)" for s
    using inv that p ts(2) [of "(sh_id s, sh_at s + APPROVAL_SECONDS)"]
    by (cases "sh_id s = rid") (auto simp: bridge_inv_def prompts_ok_def open_prompt_def closed_prompt_def)
  then show ?thesis using inv ts(1) by (auto simp: bridge_inv_def prompts_ok_def ids_ok_def tags_ok_def)
qed

lemma receive_inv:
  assumes inv: "bridge_inv b" and few: "few_prompts b" and step: "bridge_receive b = Some b'"
  shows "bridge_inv b'"
proof -
  have ids: "ids_ok b" and tags: "tags_ok b" and ok: "prompts_ok b" using inv by (simp_all add: bridge_inv_def)
  obtain tag req q where q: "br_queue b = (tag, req) # q"
    and b': "b' = b\<lparr>br_queue := q, br_next := br_next b + 1, br_pending := AList.update (br_next b) tag (br_pending b),
        br_timers := br_timers b @ [(br_next b, br_now b + APPROVAL_SECONDS)],
        br_shown := br_shown b @ [\<lparr>sh_id = br_next b, sh_tag = tag, sh_request = req,
          sh_title = notif_title (ap_method req), sh_at = br_now b\<rparr>],
        br_posts := br_posts b @ [length (AList.update (br_next b) tag (br_pending b))]\<rparr>"
    using step by (auto simp: bridge_receive_def Let_def split: list.splits prod.splits)
  have fresh: "sh_id s \<noteq> br_next b" "sh_tag s \<noteq> tag" if "s \<in> set (br_shown b)" for s
    using ids_distinct(2) [OF ids few that that] tags_distinct(1) [OF tags] that q by auto
  have "tag \<notin> sh_tag ` set (br_shown b)" using fresh(2) by blast
  then have new: "tag \<notin> fst ` set (br_answers b)" using ok unfolding prompts_ok_def by blast
  then have new': "(tag, d) \<notin> set (br_answers b)" for d by force
  have "ids_ok b'" using ids by (auto simp: ids_ok_def b' nth_append less_Suc_eq)
  moreover have "tags_ok b'" using tags q by (simp add: tags_ok_def b')
  moreover have "open_prompt b' s \<or> closed_prompt b' s" if "s \<in> set (br_shown b')" for s
    using ok fresh new new' that
    by (auto simp: prompts_ok_def b' open_prompt_def closed_prompt_def AList.update_conv')
  then have "prompts_ok b'"
    using ok by (auto simp: prompts_ok_def b' AList.dom_update intro: AList.distinct_update)
  ultimately show ?thesis by (simp add: bridge_inv_def)
qed

lemma bstep_few: "bstep b e b' \<Longrightarrow> few_prompts b' \<Longrightarrow> few_prompts b"
  by (erule bstep.cases)
    (auto simp: few_prompts_def ask_def bridge_receive_def respond_approval_def auto_reject_def answer_def Let_def
      split: list.splits option.splits)

lemma bstep_inv:
  assumes "bstep b e b'" "bridge_inv b" "few_prompts b"
  shows "bridge_inv b'"
  using assms(1)
proof cases
  case (asked tag req)
  then show ?thesis using assms(2)
    by (auto simp: bridge_inv_def ids_ok_def tags_ok_def prompts_ok_def open_prompt_def closed_prompt_def ask_def)
next
  case shown
  then show ?thesis using assms(2,3) receive_inv by blast
next
  case (clicked rid approved r)
  then show ?thesis
    using assms(2) answer_inv [OF assms(2,3), of rid _ "br_timers b"]
    by (auto simp: respond_approval_def split: option.splits)
next
  case (expired rid t)
  have ts: "set (remove1 (rid, t) (br_timers b)) \<subseteq> set (br_timers b)"
    "\<And>x. x \<in> set (br_timers b) \<Longrightarrow> fst x \<noteq> rid \<Longrightarrow> x \<in> set (remove1 (rid, t) (br_timers b))"
    by (auto simp: set_remove1_subset in_set_remove1)
  show ?thesis
    using expired(2) answer_inv [OF assms(2,3) _ ts] forget_timer_inv [OF assms(2) _ ts]
    by (auto simp: auto_reject_def split: option.splits)
next
  case (painted i)
  then show ?thesis using assms(2)
    by (auto simp: bridge_inv_def ids_ok_def tags_ok_def prompts_ok_def open_prompt_def closed_prompt_def)
next
  case ticked
  then show ?thesis using assms(2)
    by (auto simp: bridge_inv_def ids_ok_def tags_ok_def prompts_ok_def open_prompt_def closed_prompt_def)
qed

lemma run_inv: "bridge_run p bridge_start es b \<Longrightarrow> few_prompts b \<Longrightarrow> bridge_inv b"
proof (induction bridge_start es b rule: bridge_run.induct)
  case nothing
  show ?case by (rule bridge_inv_start)
next
  case (more es b' e b'')
  then show ?case using bstep_few bstep_inv by blast
qed

section \<open>Who answers, and when\<close>

lemma bstep_history:
  assumes "bstep b e b'"
  shows "set (br_shown b) \<subseteq> set (br_shown b')"
    and "br_answers b' = br_answers b \<or> (\<exists>rid tag d. br_answers b' = br_answers b @ [(tag, d)]
       \<and> map_of (br_pending b) rid = Some tag \<and> (d = Approve \<longrightarrow> e = Clicked rid True))"
  using assms
  by (cases; auto simp: ask_def bridge_receive_def respond_approval_def auto_reject_def answer_def Let_def
      split: list.splits option.splits if_splits)+

text \<open>The user answered the dialog of the prompt \<open>s\<close> with Approve, while it was pending.\<close>

definition approved_in :: "bool \<Rightarrow> bridge_event list \<Rightarrow> shown \<Rightarrow> bool" where
  "approved_in p es s \<longleftrightarrow> (\<exists>before after b. es = before @ [Clicked (sh_id s) True] @ after
     \<and> bridge_run p bridge_start before b \<and> s \<in> set (br_shown b) \<and> map_of (br_pending b) (sh_id s) = Some (sh_tag s))"

lemma approved_in_more: "approved_in p es s \<Longrightarrow> approved_in p (es @ [e]) s"
  unfolding approved_in_def by (metis append_assoc)

lemma approved_by_click:
  assumes "bridge_run p bridge_start es b" "few_prompts b" "(tag, Approve) \<in> set (br_answers b)"
  shows "\<exists>s \<in> set (br_shown b). sh_tag s = tag \<and> approved_in p es s"
  using assms
proof (induction bridge_start es b rule: bridge_run.induct)
  case nothing
  then show ?case by (simp add: bridge_start_def)
next
  case (more es b' e b'')
  have few: "few_prompts b'" using bstep_few [OF more.hyps(3) more.prems(1)] .
  show ?case
  proof (cases "(tag, Approve) \<in> set (br_answers b')")
    case True
    then show ?thesis using more.hyps(2) [OF few] bstep_history(1) [OF more.hyps(3)] approved_in_more by (meson subsetD)
  next
    case False
    then obtain rid where rid: "map_of (br_pending b') rid = Some tag" "e = Clicked rid True"
      using bstep_history(2) [OF more.hyps(3)] more.prems(2) by auto
    from this(1) obtain s where s: "s \<in> set (br_shown b')" "sh_id s = rid" "sh_tag s = tag"
      using pending_shown [OF run_inv [OF more.hyps(1) few] few] by blast
    have "approved_in p (es @ [e]) s"
      unfolding approved_in_def
      by (intro exI [of _ es] exI [of _ "[]"] exI [of _ b']) (use more.hyps(1) s rid in simp)
    then show ?thesis using s bstep_history(1) [OF more.hyps(3)] by blast
  qed
qed

lemma shown_asked:
  assumes "tags_ok b" "s \<in> set (br_shown b)"
  shows "\<exists>t. (sh_tag s, t, sh_request s) \<in> set (br_asked b)"
proof -
  have "(sh_tag s, sh_request s) \<in> set (map (\<lambda>(t, _, r). (t, r)) (br_asked b))"
    using assms by (simp add: tags_ok_def)
  then show ?thesis by auto
qed

text \<open>In a punctual run a prompt is shown in the second in which it was sent, and no sleeper is late.\<close>

definition times_ok :: "bridge \<Rightarrow> bool" where
  "times_ok b \<longleftrightarrow> (\<forall>tag t req. (tag, t, req) \<in> set (br_asked b) \<longrightarrow> tag \<in> fst ` set (br_queue b) \<longrightarrow> t = br_now b)
     \<and> (\<forall>s \<in> set (br_shown b). (sh_tag s, sh_at s, sh_request s) \<in> set (br_asked b))
     \<and> (\<forall>rid t. (rid, t) \<in> set (br_timers b) \<longrightarrow> br_now b \<le> t)"

lemma receive_times:
  assumes tags: "tags_ok b" and ok: "times_ok b" and step: "bridge_receive b = Some b'"
  shows "times_ok b'"
proof -
  obtain tag req q where q: "br_queue b = (tag, req) # q"
    using step by (auto simp: bridge_receive_def split: list.splits)
  have "(tag, req) \<in> set (map (\<lambda>(t, _, r). (t, r)) (br_asked b))"
    using tags q by (simp add: tags_ok_def)
  then obtain t where t: "(tag, t, req) \<in> set (br_asked b)" by auto
  moreover have "tag \<in> fst ` set (br_queue b)" using q by simp
  ultimately have now: "t = br_now b" using ok unfolding times_ok_def by blast
  have b': "br_asked b' = br_asked b" "br_queue b' = q" "br_now b' = br_now b"
    "br_timers b' = br_timers b @ [(br_next b, br_now b + APPROVAL_SECONDS)]"
    "\<And>s. s \<in> set (br_shown b') \<Longrightarrow> s \<in> set (br_shown b) \<or> (sh_tag s, sh_at s, sh_request s) = (tag, br_now b, req)"
    using step q by (auto simp: bridge_receive_def Let_def)
  have "(sh_tag s, sh_at s, sh_request s) \<in> set (br_asked b)" if "s \<in> set (br_shown b')" for s
    using b'(5) [OF that] t now ok by (auto simp: times_ok_def)
  moreover have "t = br_now b" if "(tag', t, r) \<in> set (br_asked b)" "tag' \<in> fst ` set q" for tag' t r
  proof -
    have "tag' \<in> fst ` set (br_queue b)" using q that(2) by auto
    then show ?thesis using ok that(1) unfolding times_ok_def by blast
  qed
  ultimately show ?thesis using ok by (simp add: times_ok_def b'(1-4))
qed

lemma answer_times: "times_ok (answer rid tag d b) = times_ok b"
  by (simp add: times_ok_def answer_def Let_def)

lemma ask_times:
  assumes new: "tag \<notin> fst ` set (br_asked b)" and ok: "times_ok b"
  shows "times_ok (ask tag req b)"
proof -
  have "t = br_now b"
    if "(tag', t, r) \<in> set (br_asked b)" "tag' \<in> fst ` set (br_queue b @ [(tag, req)])" for tag' t r
  proof -
    have "tag' \<noteq> tag" using new that(1) by force
    then have "tag' \<in> fst ` set (br_queue b)" using that(2) by auto
    then show ?thesis using ok that(1) unfolding times_ok_def by blast
  qed
  then show ?thesis using ok by (auto simp: times_ok_def ask_def)
qed

lemma bstep_times:
  assumes "bstep b e b'" "tags_ok b" "times_ok b" "e = Ticked \<Longrightarrow> \<not> task_ready b"
  shows "times_ok b'"
  using assms(1)
proof cases
  case (asked tag req)
  then show ?thesis using assms(3) ask_times by blast
next
  case shown
  then show ?thesis using assms receive_times by blast
next
  case (clicked rid approved r)
  then show ?thesis using assms(3) by (auto simp: respond_approval_def answer_times split: option.splits)
next
  case (expired rid t)
  have "times_ok (b\<lparr>br_timers := remove1 (rid, t) (br_timers b)\<rparr>)"
    using assms(3) set_remove1_subset [of "(rid, t)" "br_timers b"] by (auto simp: times_ok_def)
  then show ?thesis using expired(2) by (auto simp: auto_reject_def answer_times split: option.splits)
next
  case (painted i)
  then show ?thesis using assms(3) by (simp add: times_ok_def)
next
  case ticked
  then show ?thesis using assms(3,4) by (fastforce simp: times_ok_def task_ready_def)
qed

lemma run_times:
  assumes "bridge_run True bridge_start es b" "few_prompts b"
  shows "times_ok b"
  using assms
proof (induction bridge_start es b rule: bridge_run.induct)
  case nothing
  show ?case by (simp add: times_ok_def bridge_start_def)
next
  case (more es b' e b'')
  have few: "few_prompts b'" using bstep_few [OF more.hyps(3) more.prems] .
  then have "tags_ok b'" using run_inv [OF more.hyps(1)] by (simp add: bridge_inv_def)
  then show ?case using bstep_times [OF more.hyps(3)] more.hyps(2,4) few by blast
qed

lemma answered_in_time:
  assumes run: "bridge_run True bridge_start es b" "few_prompts b"
    and asked: "(tag, t, req) \<in> set (br_asked b)" and late: "t + APPROVAL_SECONDS < br_now b"
  shows "tag \<in> fst ` set (br_answers b)"
proof -
  have inv: "bridge_inv b" and times: "times_ok b" using run_inv run_times run by blast+
  then have tags: "tags_ok b" and ok: "prompts_ok b" by (simp_all add: bridge_inv_def)
  have "tag \<notin> fst ` set (br_queue b)" using times asked late by (force simp: times_ok_def)
  moreover have "tag \<in> set (map fst (br_asked b))" using asked by force
  ultimately obtain s where s: "s \<in> set (br_shown b)" "sh_tag s = tag"
    using tags_distinct(2) [OF tags] by auto
  then have "(tag, sh_at s, sh_request s) \<in> set (br_asked b)" using times by (auto simp: times_ok_def)
  then have "sh_at s = t" using asked tags by (force simp: tags_ok_def dest: eq_key_imp_eq_value)
  then have "\<not> open_prompt b s" using times late by (force simp: times_ok_def open_prompt_def)
  then have "closed_prompt b s" using ok s by (auto simp: prompts_ok_def)
  then show ?thesis using s by (simp add: closed_prompt_def)
qed

section \<open>Time goes on\<close>

lemma bridge_run_append:
  "bridge_run p b fs c \<Longrightarrow> bridge_run p a es b \<Longrightarrow> bridge_run p a (es @ fs) c"
  by (induction b fs c rule: bridge_run.induct) (auto simp flip: append_assoc intro: bridge_run.more)

text \<open>Without the user and without new prompts: the bridge and the sleepers, then the clock.\<close>

definition unattended :: "bridge_event list \<Rightarrow> bool" where
  "unattended es \<longleftrightarrow> (\<forall>e \<in> set es. case e of Shown \<Rightarrow> True | Expired _ \<Rightarrow> True | Ticked \<Rightarrow> True | _ \<Rightarrow> False)"

lemma step_towards_idle:
  assumes "task_ready b"
  obtains e b' where "bstep b e b'" "unattended [e]" "e \<noteq> Ticked" "br_now b' = br_now b"
    "2 * length (br_queue b') + length (br_timers b') < 2 * length (br_queue b) + length (br_timers b)"
proof (cases "br_queue b")
  case (Cons x q)
  then obtain tag req where "br_queue b = (tag, req) # q" by (cases x) auto
  then show thesis
    by (intro that [of Shown "the (bridge_receive b)"] bstep.shown)
      (simp_all add: bridge_receive_def Let_def unattended_def)
next
  case Nil
  then obtain rid t where t: "(rid, t) \<in> set (br_timers b)" "t \<le> br_now b"
    using assms by (auto simp: task_ready_def)
  then have "length (remove1 (rid, t) (br_timers b)) < length (br_timers b)"
    using length_pos_if_in_set [OF t(1)] by (simp add: length_remove1)
  then show thesis
    by (intro that [OF bstep.expired [OF t]])
      (simp_all add: unattended_def auto_reject_def answer_def Let_def Nil split: option.split)
qed

lemma runs_to_idle: "\<exists>es b'. bridge_run True b es b' \<and> unattended es \<and> \<not> task_ready b' \<and> br_now b' = br_now b"
proof (induction "2 * length (br_queue b) + length (br_timers b)" arbitrary: b rule: less_induct)
  case less
  show ?case
  proof (cases "task_ready b")
    case False
    then show ?thesis using bridge_run.nothing [of True b] by (force simp: unattended_def)
  next
    case True
    then obtain e c where step: "bstep b e c" "unattended [e]" "e \<noteq> Ticked" "br_now c = br_now b"
      "2 * length (br_queue c) + length (br_timers c) < 2 * length (br_queue b) + length (br_timers b)"
      by (rule step_towards_idle)
    from less [OF step(5)] obtain es b' where
      es: "bridge_run True c es b'" "unattended es" "\<not> task_ready b'" "br_now b' = br_now c" by blast
    have "bridge_run True b ([] @ [e]) c"
      by (rule bridge_run.more [OF bridge_run.nothing step(1)]) (simp add: step(3))
    then have "bridge_run True b ([e] @ es) b'" using bridge_run_append [OF es(1), of b "[e]"] by simp
    then show ?thesis using es step by (force simp: unattended_def)
  qed
qed

lemma time_goes_on: "\<exists>es b'. bridge_run True b es b' \<and> unattended es \<and> br_now b' = br_now b + n"
proof (induction n)
  case 0
  then show ?case using bridge_run.nothing [of True b] by (force simp: unattended_def)
next
  case (Suc n)
  then obtain es c where es: "bridge_run True b es c" "unattended es" "br_now c = br_now b + n" by blast
  obtain fs d where fs: "bridge_run True c fs d" "unattended fs" "\<not> task_ready d" "br_now d = br_now c"
    using runs_to_idle by blast
  have "bridge_run True c (fs @ [Ticked]) (d\<lparr>br_now := br_now d + 1\<rparr>)"
    using bridge_run.more [OF fs(1) bstep.ticked] fs(3) by blast
  then have "bridge_run True b (es @ fs @ [Ticked]) (d\<lparr>br_now := br_now d + 1\<rparr>)"
    using bridge_run_append es(1) by blast
  moreover have "unattended (es @ fs @ [Ticked])" using es(2) fs(2) by (auto simp: unattended_def)
  moreover have "br_now (d\<lparr>br_now := br_now d + 1\<rparr>) = br_now b + Suc n" using es(3) fs(4) by simp
  ultimately show ?case by blast
qed

text \<open>The dot can stay lit with nothing pending: the main thread may paint an older count last.\<close>

lemma tray_can_stay_lit:
  "\<exists>es b. bridge_run True bridge_start es b \<and> br_pending b = [] \<and> br_queue b = [] \<and> br_posts b = [] \<and> br_tray b = 1"
proof -
  let ?req = "\<lparr>ap_client_label = [], ap_method = [], ap_summary = []\<rparr>"
  let ?b1 = "ask 0 ?req bridge_start"
  let ?b2 = "the (bridge_receive ?b1)"
  let ?b3 = "snd (respond_approval 1 True ?b2)"
  let ?b4 = "?b3\<lparr>br_tray := br_posts ?b3 ! 1, br_posts := take 1 (br_posts ?b3) @ drop 2 (br_posts ?b3)\<rparr>"
  let ?b5 = "?b4\<lparr>br_tray := br_posts ?b4 ! 0, br_posts := take 0 (br_posts ?b4) @ drop 1 (br_posts ?b4)\<rparr>"
  note defs = ask_def bridge_receive_def respond_approval_def answer_def bridge_start_def Let_def
  have "bstep bridge_start (Asked 0 ?req) ?b1"
    by (rule bstep.asked) (simp_all add: bridge_start_def APPROVAL_CAPACITY_def)
  moreover have "bstep ?b1 Shown ?b2" by (rule bstep.shown) (simp add: defs)
  moreover have "bstep ?b2 (Clicked 1 True) ?b3" by (rule bstep.clicked, rule surjective_pairing)
  moreover have "bstep ?b3 (Painted 1) ?b4"
    using bstep.painted [of 1 ?b3] by (simp add: defs numeral_2_eq_2)
  moreover have "bstep ?b4 (Painted 0) ?b5"
    using bstep.painted [of 0 ?b4] by (simp add: defs)
  ultimately have "bridge_run True bridge_start (((([] @ [Asked 0 ?req]) @ [Shown]) @ [Clicked 1 True]) @ [Painted 1] @ [Painted 0]) ?b5"
    by (simp only: append_assoc [symmetric]) (blast intro: bridge_run.intros)
  moreover have "br_pending ?b5 = []" "br_queue ?b5 = []" "br_posts ?b5 = []" "br_tray ?b5 = 1"
    by (simp_all add: defs)
  ultimately show ?thesis by blast
qed

end
