(* ===== verification/Desktop_Instances.thy ===== *)
theory Desktop_Instances
  imports Rpc_Instances Desktop_Vault Desktop_Nodes Desktop_Approvals
begin

text \<open>
  A concrete desktop: the demo environment with a one-vault file, nothing else running, every write succeeding; and short runs
  of the auto-lock task and the approval bridge.
\<close>

definition demo_denv :: "felt env" where
  "demo_denv = demo_env\<lparr>e_seal_draw := (\<lambda>k _. Some (replicate k (if k = NONCE_LEN then 2 else 1)))\<rparr>"

definition demo_desktop :: "felt desktop_env" where
  "demo_desktop =
     \<lparr>de_env = demo_denv, de_chain = Sepolia, de_service_url = ''http://127.0.0.1:1'', de_version = ''0.1.0'',
      de_dir = ''data'', de_interfere = (\<lambda>_ d. d), de_instant = (\<lambda>n. n),
      de_node = (\<lambda>_ _ _. Inl (Transport ''down'')), de_io_error = (\<lambda>_. ''io''), de_config_write = (\<lambda>_. ConfigWritten),
      de_rename = (\<lambda>_. None), de_prover_write = (\<lambda>_. None), de_bin_exists = (\<lambda>_. True),
      de_settings_held = (\<lambda>_. False)\<rparr>"

definition demo_disk :: disk where
  "demo_disk = \<lparr>di_vault = demo_file, di_clients = None, di_clients_writable = True, di_log = [], di_config = None,
     di_prover_settings = None, di_proofs = [], di_backups = (\<lambda>_. None)\<rparr>"

definition demo_desk :: desk where
  "demo_desk = \<lparr>dk_config = None, dk_onboarding = Some ''seed'', dk_backoff = backoff_default, dk_backups = (\<lambda>_. None)\<rparr>"

definition demo_dsys :: dsys where
  "demo_dsys = \<lparr>dy_sys = demo_sys, dy_desk = demo_desk\<rparr>"

lemma demo_denv_simps [simp]:
  "e_ext demo_denv = demo_ext" "e_codec demo_denv = demo_codec" "e_format demo_denv = demo_format"
  "e_write demo_denv n = Written" "e_seal_draw demo_denv k n = Some (replicate k (if k = NONCE_LEN then 2 else 1))"
  "e_clock demo_denv n = of_nat n"
  by (simp_all add: demo_denv_def demo_env_def)

lemma demo_quiet: "quiet demo_desktop"
  by (simp add: quiet_def demo_desktop_def demo_denv_def demo_env_def)

lemma demo_clock: "clock_runs demo_desktop"
  by (simp add: clock_runs_def demo_desktop_def mono_def)

lemma demo_desktop_simps [simp]:
  "de_env demo_desktop = demo_denv" "de_chain demo_desktop = Sepolia" "de_instant demo_desktop n = n"
  "dsv demo_dsys = demo_server" "dstep demo_dsys = 0" "dy_desk demo_dsys = demo_desk"
  "dk_onboarding demo_desk = Some ''seed''" "dk_backoff demo_desk = backoff_default" "dk_config demo_desk = None"
  by (simp_all add: demo_desktop_def demo_dsys_def demo_desk_def dsv_def dstep_def demo_sys_def)

lemma demo_dlaws: "vault_laws demo_denv"
  using demo_laws by (simp add: vault_laws_def demo_denv_def)

lemma demo_ddurable: "durable demo_denv demo_server"
  using demo_durable by (simp add: durable_def demo_denv_def)

lemma demo_nonces: "nonces_fit demo_denv"
  by (auto simp: nonces_fit_def)

section \<open>Setting up and unlocking\<close>

text \<open>The session of the demo is what set-up with its phrase and passphrase gives.\<close>

lemma demo_store [simp]: "store_file demo_server = demo_file"
  by (simp add: store_file_def)

lemma demo_ready: "vf_readable demo_file"
  by (simp add: demo_file_def)

lemmas demo_steps = quiet_steps [OF demo_quiet, unfolded demo_desktop_simps(1)]

lemma demo_setup: "\<exists>s'. finalize_setup demo_desktop ''pw'' demo_dsys = (Ok (), s')"
proof -
  have se: "new_unlocked Sepolia ''seed'' ''pw'' [] = demo_session"
    by (simp add: new_unlocked_def demo_session_def)
  have sealed: "reseal demo_ext demo_codec (Some (replicate SALT_LEN 1)) (Some (replicate NONCE_LEN 2)) demo_session = Ok (demo_sealed demo_session)"
    using demo_sealed_ok [of demo_session] by (simp add: demo_session_def SALT_LEN_def NONCE_LEN_def)
  obtain f where save: "vault_save demo_format Written (demo_sealed demo_session) demo_file = (Ok (), f)"
    by (simp add: vault_save_def demo_format_def)
  have "SALT_LEN \<noteq> NONCE_LEN" by (simp add: SALT_LEN_def NONCE_LEN_def)
  then show ?thesis
    by (simp add: finalize_setup_def run_simps quiet_steps [OF demo_quiet] demo_steps save_vault_quiet [OF demo_quiet] se sealed save)
qed

lemma demo_vault_at: "vault_at demo_desktop demo_server = Ok (Some (demo_sealed demo_session))"
  by (simp add: vault_at_def vault_load_def demo_file_def demo_format_def)

text \<open>A wrong passphrase.\<close>

lemma demo_refuses: "open_vault demo_ext (demo_sealed demo_session) ''wrong'' = Err BadPassphraseOrCorrupt"
proof -
  have "be_val (be_bytes KEY_LEN 528) \<noteq> be_val (be_bytes KEY_LEN 1296)"
    unfolding be_val_be_bytes by (simp add: KEY_LEN_def)
  then have "be_bytes KEY_LEN 528 \<noteq> be_bytes KEY_LEN 1296" by metis
  then show ?thesis
    by (simp add: demo_sealed_def reseal_def require_unlocked_def demo_session_def seal_def random_bytes_def derive_key_def demo_ext_def
    open_vault_def Let_def SALT_LEN_def NONCE_LEN_def)
qed

lemma demo_opens: "opens demo_desktop demo_server (demo_sealed demo_session) ''wrong'' = (Err BadPassphraseOrCorrupt, demo_session)"
  by (simp add: opens_def unlock_def demo_refuses)

lemma demo_allowed: "allowed demo_desktop demo_dsys = Ok ()"
  by (simp add: allowed_def backoff_check_def backoff_default_def)

lemma demo_attempt:
  obtains e s' where "run_attempt demo_desktop (TryUnlock ''wrong'') demo_dsys = (Err e, s')"
    "reaches_vault demo_desktop (TryUnlock ''wrong'') demo_dsys" "dstep s' = 4"
proof -
  have "is_supported_version (demo_sealed demo_session)"
    using demo_refuses by (auto simp: open_vault_def is_supported_version_def split: if_splits)
  then have "reaches_vault demo_desktop (TryUnlock ''wrong'') demo_dsys"
    by (simp add: reaches_vault_def demo_allowed demo_vault_at)
  moreover obtain s' where "run_attempt demo_desktop (TryUnlock ''wrong'') demo_dsys = (Err (Ui ''incorrect passphrase''), s')"
    "dstep s' = 4"
    using unlock_refused [OF demo_quiet demo_allowed, of "demo_sealed demo_session" "''wrong''" BadPassphraseOrCorrupt demo_session]
    by (simp add: run_attempt_def demo_vault_at demo_opens)
  ultimately show thesis using that by blast
qed

text \<open>The right one.\<close>

lemma demo_reveals: "reveals demo_desktop demo_server (demo_sealed demo_session) ''pw'' = Ok ''seed''"
  using demo_durable unlock_reveals [of demo_ext demo_codec "lock demo_session" "demo_sealed demo_session" "''pw''" demo_session]
  by (auto simp: durable_def demo_env_def demo_file_def vault_load_def demo_format_def demo_session_def reveals_def
    reveal_for_session_def is_locked_def)

lemma demo_revealed: "\<exists>s'. reveal_seed demo_desktop ''pw'' demo_dsys = (Ok ''seed'', s')"
proof -
  have "allowed demo_desktop (arrive 1 demo_server demo_desk demo_dsys) = Ok ()"
    by (simp add: allowed_def backoff_check_def backoff_default_def)
  moreover have "\<not> is_locked demo_session" by (simp add: is_locked_def demo_session_def)
  ultimately show ?thesis
    by (cases "reveal_seed demo_desktop ''pw'' demo_dsys", cases rule: reveal_cases [OF demo_quiet])
      (auto simp: demo_vault_at demo_reveals)
qed

section \<open>Settings and the vault of another version\<close>

definition demo_wallet_settings :: desktop_settings where
  "demo_wallet_settings = \<lparr>ds_sepolia_rpc = ''https://node'', ds_mainnet_rpc = [], ds_auto_lock_minutes = 1\<rparr>"

lemma demo_set_settings: "\<exists>s'. set_settings demo_desktop demo_wallet_settings demo_dsys = (Ok (), s')"
proof -
  have valid: "settings_validate demo_wallet_settings = Ok ()"
    by code_simp
  have "de_config_write demo_desktop n = ConfigWritten" "de_prover_write demo_desktop n = None" for n
    by (simp_all add: demo_desktop_def)
  then show ?thesis
    by (simp add: set_settings_def run_simps valid settings_save_def quiet_steps [OF demo_quiet] demo_steps sync_prover_rpc_def
      ignored_def update_prover_settings_quiet [OF demo_quiet])
qed

text \<open>A desktop whose vault is of version 255.\<close>

definition old_vault :: encrypted_vault where
  "old_vault = (demo_sealed demo_session)\<lparr>vault_version := 255\<rparr>"

definition old_desktop :: "felt desktop_env" where
  "old_desktop = demo_desktop\<lparr>de_env := demo_denv\<lparr>e_format := demo_format\<lparr>vault_from_json := (\<lambda>_. Some old_vault)\<rparr>\<rparr>\<rparr>"

lemma old_quiet: "quiet old_desktop"
  using demo_quiet by (simp add: quiet_def old_desktop_def)

lemma old_archived: "\<exists>dest s'. archive_unsupported_vault old_desktop demo_dsys = (Ok dest, s')"
proof -
  have at: "vault_at old_desktop demo_server = Ok (Some old_vault)"
    by (simp add: vault_at_def old_desktop_def vault_load_def demo_file_def demo_format_def)
  have old: "\<not> is_supported_version old_vault" by (simp add: is_supported_version_def old_vault_def VAULT_VERSION_def)
  have clock: "srv (now_unix_ms (de_env old_desktop)) x = (Ok (e_clock (de_env old_desktop) (dstep x)), arrive 1 (dsv x) (dy_desk x) x)" for x
    using quiet_steps(4) [OF old_quiet, of "e_clock (de_env old_desktop)" x] by (simp add: now_unix_ms_def)
  have "vf_content (store_file demo_server) = Some [0]" "de_rename old_desktop n = None" for n
    by (simp_all add: demo_file_def old_desktop_def demo_desktop_def)
  then show ?thesis
    by (simp add: archive_unsupported_vault_def run_simps load_vault_quiet [OF old_quiet] at old clock quiet_log [OF old_quiet]
      rename_quiet [OF old_quiet, of _ "[0]"])
qed

section \<open>The auto-lock task and the bridge\<close>

definition locking_desktop :: "felt desktop_env" where
  "locking_desktop = demo_desktop\<lparr>de_env := demo_denv\<lparr>e_clock := (\<lambda>_. 900000)\<rparr>\<rparr>"

lemma locking_quiet: "quiet locking_desktop"
  using demo_quiet by (simp add: quiet_def locking_desktop_def)

text \<open>The timeout of the default settings is 15 minutes; one turn after 15 minutes, and 15 more.\<close>

lemma demo_watched: "\<exists>s. watched locking_desktop 15 900000 1800000 900000 s \<and> sv_last_activity_ms (dsv s) = 0"
proof -
  have t: "timeout_is 15 demo_dsys"
    by (simp add: timeout_is_def settings_load_def default_settings_def default_auto_lock_minutes_def)
  have last: "sv_last_activity_ms demo_server = 0"
    by (simp add: demo_server_def with_vault_store_def server_new_def server_with_log_def)
  have w: "watched locking_desktop 15 900000 0 0 demo_dsys"
    by (rule watched.start) (simp_all add: last t)
  obtain r s where turn: "auto_lock_turn locking_desktop demo_dsys = (r, s)" by fastforce
  have w: "watched locking_desktop 15 900000 900000 900000 s"
    by (rule watched.turn [OF w _ _ _ turn]) (simp_all add: locking_desktop_def)
  have "sv_last_activity_ms (dsv s) = 0" "timeout_is 15 s"
    using auto_lock_turn_quiet [OF locking_quiet, of 15 demo_dsys] t turn last by (auto simp: timeout_is_def)
  moreover from this have "watched locking_desktop 15 900000 1800000 900000 s"
    by (intro watched.otherwise [OF w]) simp_all
  ultimately show ?thesis by blast
qed

definition demo_prompt :: approval_request where
  "demo_prompt = \<lparr>ap_client_label = ''bot'', ap_method = ''wallet_signTypedData'', ap_summary = ''sign''\<rparr>"

lemma demo_asked: "bridge_run True bridge_start [Asked 7 demo_prompt] (ask 7 demo_prompt bridge_start)"
proof -
  have "bstep bridge_start (Asked 7 demo_prompt) (ask 7 demo_prompt bridge_start)"
    by (rule bstep.asked) (simp_all add: bridge_start_def APPROVAL_CAPACITY_def)
  then have "bridge_run True bridge_start ([] @ [Asked 7 demo_prompt]) (ask 7 demo_prompt bridge_start)"
    by (rule bridge_run.more [OF bridge_run.nothing]) simp
  then show ?thesis by simp
qed

lemma demo_clicked:
  "\<exists>b. bridge_run True bridge_start [Asked 7 demo_prompt, Shown, Clicked 1 True] b \<and> few_prompts b \<and> br_answers b = [(7, Approve)]"
proof -
  let ?b1 = "ask 7 demo_prompt bridge_start"
  let ?b2 = "the (bridge_receive ?b1)"
  let ?b3 = "snd (respond_approval 1 True ?b2)"
  note defs = ask_def bridge_receive_def respond_approval_def answer_def bridge_start_def Let_def
  have "bstep ?b1 Shown ?b2" by (rule bstep.shown) (simp add: defs)
  moreover have "bstep ?b2 (Clicked 1 True) ?b3" by (rule bstep.clicked, rule surjective_pairing)
  ultimately have "bridge_run True bridge_start (([Asked 7 demo_prompt] @ [Shown]) @ [Clicked 1 True]) ?b3"
    by (blast intro: bridge_run.more demo_asked)
  moreover have "few_prompts ?b3" "br_answers ?b3 = [(7, Approve)]" by (simp_all add: defs few_prompts_def)
  ultimately show ?thesis by auto
qed

end
