(* ===== verification/Rpc_Wire.thy ===== *)
theory Rpc_Wire
  imports Rpc_Requests
begin

text \<open>
  The JSON of \<open>crates/wallet-rpc/src/jsonrpc.rs\<close>: how serde reads a request and writes a response; and the
  service as a client of the loopback socket sees it, a function from headers and a JSON body to a JSON answer.
\<close>

section \<open>Requests and responses as JSON\<close>

fun as_opt_str :: "json \<Rightarrow> string option option" where
  "as_opt_str JNull = Some None"
| "as_opt_str v = map_option Some (as_str v)"

definition required :: "(json \<Rightarrow> 'a option) \<Rightarrow> string \<Rightarrow> (string \<times> json) list \<Rightarrow> 'a option" where
  "required rd k ms = (case members_named k ms of [v] \<Rightarrow> rd v | _ \<Rightarrow> None)"

definition request_from_json :: "json \<Rightarrow> request option" where
  "request_from_json v =
     (case v of
        JObj ms \<Rightarrow>
          Option.bind (field_or None as_opt_str ''jsonrpc'' ms) (\<lambda>a.
          Option.bind (required as_str ''method'' ms) (\<lambda>b.
          Option.bind (field_or JNull Some ''params'' ms) (\<lambda>c.
          Option.bind (field_or JNull Some ''id'' ms) (\<lambda>d.
          Some \<lparr>req_jsonrpc = a, req_method = b, req_params = c, req_id = d\<rparr>))))
      | JArr xs \<Rightarrow>
          if length xs < 2 \<or> 4 < length xs then None
          else
          Option.bind (elem_or None as_opt_str 0 xs) (\<lambda>a.
          Option.bind (as_str (xs ! 1)) (\<lambda>b.
          Option.bind (elem_or JNull Some 2 xs) (\<lambda>c.
          Option.bind (elem_or JNull Some 3 xs) (\<lambda>d.
          Some \<lparr>req_jsonrpc = a, req_method = b, req_params = c, req_id = d\<rparr>))))
      | _ \<Rightarrow> None)"

definition json_int :: "int \<Rightarrow> json" where
  "json_int i = JNum (if 0 \<le> i then PosInt (word_of_int i) else NegInt i)"

definition error_object_to_json :: "rpc_error_object \<Rightarrow> json" where
  "error_object_to_json e = JObj [(''code'', json_int (err_code e)), (''message'', JStr (err_message e))]"

definition response_to_json :: "response \<Rightarrow> json" where
  "response_to_json r =
     JObj ([(''jsonrpc'', JStr (resp_jsonrpc r))]
       @ (case resp_result r of None \<Rightarrow> [] | Some v \<Rightarrow> [(''result'', v)])
       @ (case resp_error r of None \<Rightarrow> [] | Some e \<Rightarrow> [(''error'', error_object_to_json e)])
       @ [(''id'', resp_id r)])"

text \<open>The request a client of JSON-RPC 2.0 writes is read back, whatever the order of its members.\<close>

lemma request_read:
  "request_from_json (JObj [(''jsonrpc'', JStr v), (''id'', i), (''method'', JStr m), (''params'', p)])
     = Some \<lparr>req_jsonrpc = Some v, req_method = m, req_params = p, req_id = i\<rparr>"
  by (simp add: request_from_json_def field_or_def required_def members_named_def)

lemma response_members:
  "json_get (response_to_json (response_ok rid v)) ''error'' = None"
  "json_get (response_to_json (response_ok rid v)) ''result'' = Some v"
  "json_get (response_to_json (response_err rid e)) ''error'' = Some (error_object_to_json e)"
  "json_get (response_to_json (response_err rid e)) ''result'' = None"
  "json_get (response_to_json (response_ok rid v)) ''id'' = Some rid"
  "json_get (response_to_json (response_err rid e)) ''id'' = Some rid"
  by (simp_all add: response_to_json_def response_ok_def response_err_def)

lemma error_object_read:
  "json_get (error_object_to_json (error_object e)) ''message'' = Some (JStr (error_message e))"
  "json_get (error_object_to_json (error_object e)) ''code'' = Some (json_int (error_code e))"
  by (simp_all add: error_object_to_json_def error_object_def)

lemma error_code_read: "as_i64 (json_int (error_code e)) = Some (error_code e)"
  by (cases e) (simp_all add: json_int_def)

section \<open>The service behind its socket\<close>

text \<open>
  What reaches a client: the status and the JSON of the answer, or nothing when the connection is dropped. \<open>print\<close> and
  \<open>parse\<close> are serde_json on the bytes of the body.
\<close>

definition served ::
  "'pt env \<Rightarrow> (bytes \<Rightarrow> json option) \<Rightarrow> headers \<Rightarrow> bytes \<Rightarrow> sys \<Rightarrow> (nat \<times> json) option \<times> sys" where
  "served V parse hs body s =
     (let (r, s') = serve_http V (\<lambda>b. Option.bind (parse b) request_from_json) s hs body
      in (map_option (\<lambda>(status, resp). (status, response_to_json resp)) r, s'))"

lemma served_dispatch:
  assumes "transport_guard hs = Ok ()" "Option.bind (parse body) request_from_json = Some req"
  shows "served V parse hs body s = (case dispatch V (bearer hs) req s of
      (Inl _, s') \<Rightarrow> (None, s')
    | (Inr r, s') \<Rightarrow> (Some (200, response_to_json r), s'))"
  using assms by (auto simp: served_def serve_http_def rpc_handler_def dispatch_http_def split: prod.split sum.split)

text \<open>An answer of the dispatcher is a result or the object of an error, for the id of the request.\<close>

lemma dispatch_respond:
  assumes "dispatch V token req s = (Inr r, s')"
  shows "\<exists>result. r = respond (req_id req) result"
  using assms unfolding dispatch_def by (auto simp: act_defs split: prod.splits sum.splits)

end
