(* ===== verification/Cli_Client.thy ===== *)
theory Cli_Client
  imports Rpc_Wire
begin

text \<open>
  \<open>discovery.rs\<close>, \<open>token.rs\<close> and \<open>client.rs\<close> of \<open>crates/wallet-cli\<close>: finding the service, the saved pairing, and
  one JSON-RPC call. The HTTP client is an argument: from a URL, headers and a body to the text of a failure, or to the decoded answer
  (\<open>Inl\<close> when its body is not JSON); it acts on the state \<open>'s\<close> of what it talks to.
\<close>

section \<open>discovery.rs\<close>

definition APP_IDENTIFIER :: string where "APP_IDENTIFIER = ''org.starknet.strkd''"

definition data_dir :: "string option \<Rightarrow> string + string" where
  "data_dir platform_dir =
     ok_or ''could not locate this OS's data directory'' (map_option (\<lambda>d. d @ ''/'' @ APP_IDENTIFIER) platform_dir)"

text \<open>The lock: \<open>None\<close> when it cannot be read, \<open>Inl\<close> the parser's message when it is not JSON.\<close>

definition service_url :: "string option \<Rightarrow> (string + json) option \<Rightarrow> string + string" where
  "service_url platform_dir lock_file =
     bindE (data_dir platform_dir) (\<lambda>dir.
     bindE (ok_or (''strkd doesn't look like it's running '' @ utf8_dash @ '' no port.lock at '' @ dir @ ''/port.lock.'' @ [CHR 0x0A]
              @ ''Start the menu-bar app, then try again.'') lock_file) (\<lambda>parsed.
     bindE (map_err (\<lambda>e. ''port.lock is malformed: '' @ e) parsed) (\<lambda>doc.
     bindE (ok_or (''port.lock has no valid '' @ in_dquotes ''port'' @ '' field'')
              (case get_u64 doc ''port'' of
                 None \<Rightarrow> None
               | Some p \<Rightarrow> if p \<noteq> 0 \<and> unat p \<le> 2 ^ 16 - 1 then Some p else None)) (\<lambda>port.
     Ok (''http://127.0.0.1:'' @ nat_dec (unat port))))))"

section \<open>token.rs\<close>

record pairing =
  pa_client_id :: string
  pa_token :: string

definition pairing_from_json :: "json \<Rightarrow> pairing option" where
  "pairing_from_json v =
     (case v of
        JObj ms \<Rightarrow>
          Option.bind (required as_str ''client_id'' ms) (\<lambda>a.
          Option.bind (required as_str ''token'' ms) (\<lambda>b.
          Some \<lparr>pa_client_id = a, pa_token = b\<rparr>))
      | JArr [x, y] \<Rightarrow>
          Option.bind (as_str x) (\<lambda>a. Option.bind (as_str y) (\<lambda>b. Some \<lparr>pa_client_id = a, pa_token = b\<rparr>))
      | _ \<Rightarrow> None)"

definition pairing_to_json :: "pairing \<Rightarrow> json" where
  "pairing_to_json p = JObj [(''client_id'', JStr (pa_client_id p)), (''token'', JStr (pa_token p))]"

text \<open>The file of the token is the JSON it holds, \<open>None\<close> when it is missing, unreadable or not JSON.\<close>

definition token_load :: "string option \<Rightarrow> json option \<Rightarrow> pairing option" where
  "token_load platform_dir token_file =
     (case data_dir platform_dir of Inl _ \<Rightarrow> None | Inr _ \<Rightarrow> Option.bind token_file pairing_from_json)"

datatype token_outcome = TokenWriteFails "json option" string | TokenModeFails string | TokenWritten

definition token_save :: "string option \<Rightarrow> token_outcome \<Rightarrow> pairing \<Rightarrow> json option \<Rightarrow> (string + unit) \<times> json option" where
  "token_save platform_dir out p f =
     (case data_dir platform_dir of
        Inl e \<Rightarrow> (Err e, f)
      | Inr dir \<Rightarrow>
          (let path = dir @ ''/cli-token.json'' in
           case out of
             TokenWriteFails left e \<Rightarrow> (Err (''could not write '' @ path @ '': '' @ e), left)
           | TokenModeFails e \<Rightarrow> (Err (''could not set perms on '' @ path @ '': '' @ e), Some (pairing_to_json p))
           | TokenWritten \<Rightarrow> (Ok (), Some (pairing_to_json p))))"

lemma pairing_roundtrip [simp]: "pairing_from_json (pairing_to_json p) = Some p"
  by (simp add: pairing_from_json_def pairing_to_json_def required_def members_named_def)

lemma token_saved: "token_save d out p f = (Ok (), f') \<Longrightarrow> token_load d f' = Some p"
  by (auto simp: token_save_def token_load_def Let_def split: sum.splits token_outcome.splits)

section \<open>client.rs\<close>

type_synonym 's http_post = "string \<Rightarrow> headers \<Rightarrow> json \<Rightarrow> 's \<Rightarrow> (string + (string + json)) \<times> 's"
type_synonym 's http_get = "string \<Rightarrow> 's \<Rightarrow> (string + (string + json)) \<times> 's"

definition CLIENT_HEADER :: string where "CLIENT_HEADER = ''strkd-cli''"

definition unreachable_err :: "string \<Rightarrow> string" where
  "unreachable_err e = ''could not reach the wallet service ('' @ e @ ''). Is the strkd app still running?''"

definition client_usage :: "'s http_get \<Rightarrow> string \<Rightarrow> 's \<Rightarrow> (string + json) \<times> 's" where
  "client_usage get base_url s =
     (let (r, s') = get base_url s
      in (bindE (map_err unreachable_err r) (map_err (\<lambda>e. ''could not decode usage doc: '' @ e)), s'))"

definition rpc_body_of :: "string \<Rightarrow> json \<Rightarrow> json" where
  "rpc_body_of m params =
     JObj [(''jsonrpc'', JStr ''2.0''), (''id'', json_u64 1), (''method'', JStr m), (''params'', params)]"

definition call_headers :: "string option \<Rightarrow> headers" where
  "call_headers token =
     [(''x-companion-client'', CLIENT_HEADER), (''content-type'', ''application/json'')]
     @ (case token of None \<Rightarrow> [] | Some t \<Rightarrow> [(''authorization'', ''Bearer '' @ t)])"

definition read_answer :: "json \<Rightarrow> string + json" where
  "read_answer resp =
     (case json_get resp ''error'' of
        Some err \<Rightarrow>
          (let code = (case Option.bind (json_get err ''code'') as_i64 of None \<Rightarrow> 0 | Some c \<Rightarrow> c);
               msg = (case get_str err ''message'' of None \<Rightarrow> ''unknown error'' | Some m \<Rightarrow> m)
           in Err (''wallet returned error '' @ int_dec code @ '': '' @ msg))
      | None \<Rightarrow> ok_or ''response had neither result nor error'' (json_get resp ''result''))"

definition client_call ::
  "'s http_post \<Rightarrow> string \<Rightarrow> string \<Rightarrow> json \<Rightarrow> string option \<Rightarrow> 's \<Rightarrow> (string + json) \<times> 's" where
  "client_call post base_url m params token s =
     (let (r, s') = post base_url (call_headers token) (rpc_body_of m params) s
      in (bindE (map_err unreachable_err r) (\<lambda>body.
          bindE (map_err (\<lambda>e. ''could not decode response: '' @ e) body) read_answer), s'))"

section \<open>Calling the wallet\<close>

text \<open>
  The HTTP client (reqwest) connected to the service: it adds \<open>Host\<close> from the URL, refuses a header value that
  is not one, and sends no \<open>Origin\<close> or \<open>Referer\<close>. \<open>print\<close> writes the body.
\<close>

definition header_value_ok :: "string \<Rightarrow> bool" where
  "header_value_ok v \<longleftrightarrow> (\<forall>c \<in> set v. let n = of_char c :: nat in (32 \<le> n \<and> n \<noteq> 127) \<or> n = 9)"

definition authority :: "string \<Rightarrow> string" where
  "authority url = (case strip_prefix ''http://'' url of None \<Rightarrow> url | Some rest \<Rightarrow> takeWhile (\<lambda>c. c \<noteq> CHR ''/'') rest)"

definition wallet_post :: "'pt env \<Rightarrow> (json \<Rightarrow> bytes) \<Rightarrow> (bytes \<Rightarrow> json option) \<Rightarrow> sys http_post" where
  "wallet_post V print parse url hs body s =
     (if \<not> (\<forall>h \<in> set hs. header_value_ok (snd h)) then (Err ''builder error'', s)
      else case served V parse ((''host'', authority url) # hs) (print body) s of
             (None, s') \<Rightarrow> (Err ''connection closed before message completed'', s')
           | (Some (status, v), s') \<Rightarrow> (Ok (Ok v), s'))"

text \<open>The request that the dispatcher gets, and what a call makes of its answer.\<close>

definition call_request :: "string \<Rightarrow> json \<Rightarrow> request" where
  "call_request m params = \<lparr>req_jsonrpc = Some ''2.0'', req_method = m, req_params = params, req_id = json_u64 1\<rparr>"

definition answered :: "rpc_failure + response \<Rightarrow> string + json" where
  "answered r =
     (case r of
        Inl _ \<Rightarrow> Err (unreachable_err ''connection closed before message completed'')
      | Inr resp \<Rightarrow> read_answer (response_to_json resp))"

lemma nat_dec_digits: "c \<in> set (nat_dec n) \<Longrightarrow> 48 \<le> (of_char c :: nat) \<and> (of_char c :: nat) \<le> 57"
  by (auto simp: nat_dec_def digit_char_def dest: digits_less [rotated])

lemma url_authority:
  assumes "service_url d l = Ok url"
  shows "\<exists>n. authority url = ''127.0.0.1:'' @ nat_dec n"
proof -
  obtain n where url: "url = ''http://127.0.0.1:'' @ nat_dec n"
    using assms by (auto simp: service_url_def result_simps split: option.splits if_splits)
  have "takeWhile (\<lambda>c. c \<noteq> CHR ''/'') (nat_dec n) = nat_dec n"
    unfolding takeWhile_eq_all_conv using nat_dec_digits by fastforce
  then have "authority url = ''127.0.0.1:'' @ nat_dec n" by (simp add: url authority_def)
  then show ?thesis ..
qed

lemma guard_passed:
  assumes "service_url d l = Ok url"
  shows "transport_guard ((''host'', authority url) # call_headers token) = Ok ()"
proof -
  obtain n where host: "authority url = ''127.0.0.1:'' @ nat_dec n" using url_authority [OF assms] by blast
  have "header_to_str (''127.0.0.1:'' @ nat_dec n) = Some (''127.0.0.1:'' @ nat_dec n)"
    using nat_dec_digits by (fastforce simp: header_to_str_def)
  moreover have "loopback_spec (''127.0.0.1:'' @ nat_dec n)"
  proof -
    have "''127.0.0.1'' \<in> loopback_v4" by (simp add: loopback_v4_def)
    moreover have "CHR '':'' \<notin> set (nat_dec n)" using nat_dec_digits by fastforce
    ultimately show ?thesis unfolding loopback_spec_def by (metis append_Cons append_Nil append_assoc)
  qed
  moreover have "header_to_str CLIENT_HEADER = Some CLIENT_HEADER" "CLIENT_HEADER \<noteq> []"
    by (simp_all add: header_to_str_def CLIENT_HEADER_def)
  ultimately show ?thesis
    unfolding transport_guard_Ok by (auto simp: host header_get_def call_headers_def split: option.split)
qed

text \<open>A token that the server can read from a header: visible ASCII.\<close>

definition readable :: "string option \<Rightarrow> bool" where
  "readable token \<longleftrightarrow> (case token of None \<Rightarrow> True | Some t \<Rightarrow> header_to_str t = Some t)"

lemma bearer_sent:
  assumes "readable token"
  shows "bearer ((''host'', h) # call_headers token) = token"
    "\<forall>x \<in> set (call_headers token). header_value_ok (snd x)"
proof -
  have seen: "header_to_str (''Bearer '' @ t) = Some (''Bearer '' @ t)" "header_value_ok (''Bearer '' @ t)" if "token = Some t" for t
    using assms that by (auto simp: readable_def header_to_str_def header_value_ok_def Let_def split: if_splits)
  show "bearer ((''host'', h) # call_headers token) = token"
    using seen by (cases token) (auto simp: bearer_def header_get_def call_headers_def strip_prefix_append)
  have "header_value_ok CLIENT_HEADER" "header_value_ok ''application/json''"
    by (simp_all add: header_value_ok_def CLIENT_HEADER_def)
  then show "\<forall>x \<in> set (call_headers token). header_value_ok (snd x)"
    using seen(2) by (cases token) (auto simp: call_headers_def)
qed

text \<open>A call of the command line is one request to the dispatcher, and its outcome is what the dispatcher answered.\<close>

lemma call_dispatched:
  assumes url: "service_url d l = Ok url" and token: "readable token"
    and body: "parse (print (rpc_body_of m params)) = Some (rpc_body_of m params)"
  shows "client_call (wallet_post V print parse) url m params token s
    = (let (r, s') = dispatch V token (call_request m params) s in (answered r, s'))"
proof -
  have req: "Option.bind (parse (print (rpc_body_of m params))) request_from_json = Some (call_request m params)"
    unfolding body by (simp add: rpc_body_of_def request_read call_request_def)
  have host: "header_value_ok (authority url)"
    using url_authority [OF url] nat_dec_digits by (fastforce simp: header_value_ok_def)
  obtain r s' where d: "dispatch V token (call_request m params) s = (r, s')" by fastforce
  have "served V parse ((''host'', authority url) # call_headers token) (print (rpc_body_of m params)) s
      = (case r of Inl _ \<Rightarrow> None | Inr resp \<Rightarrow> Some (200, response_to_json resp), s')"
    by (simp add: served_dispatch [OF guard_passed [OF url], where parse = parse and body = "print (rpc_body_of m params)", OF req]
        bearer_sent(1) [OF token] d split: sum.split)
  then have "wallet_post V print parse url (call_headers token) (rpc_body_of m params) s
      = (case r of Inl _ \<Rightarrow> Err ''connection closed before message completed'' | Inr resp \<Rightarrow> Ok (Ok (response_to_json resp)), s')"
    using bearer_sent(2) [OF token] by (simp add: wallet_post_def split: sum.split)
  then show ?thesis by (simp add: client_call_def d answered_def map_err_def split: sum.split)
qed

lemma answered_response:
  "answered (Ok (response_ok rid v)) = Ok v"
  "answered (Ok (response_err rid (error_object e))) = Err (''wallet returned error '' @ int_dec (error_code e) @ '': '' @ error_message e)"
  by (simp_all add: answered_def read_answer_def response_members get_str_def error_object_read error_code_read)

end
