(* ===== verification/Cli.thy ===== *)
theory Cli
  imports Cli_Client
begin

text \<open>
  \<open>crates/wallet-cli/src/main.rs\<close>: the commands of \<open>strkd\<close>. A command acts on the token file, what was printed and the
  state \<open>'s\<close> of what the HTTP client talks to; the environment has the files it reads and the outcome of its write.
  The arguments are as clap accepts them (\<open>clap_accepts\<close>).
\<close>

section \<open>Commands and output\<close>

datatype cli_command =
    CliPair string string                           \<comment> \<open>name, kind\<close>
  | CliStatus
  | CliUsage
  | CliAccounts
  | CliSign string string                           \<comment> \<open>account, data\<close>
  | CliSend string "string option" "string option" "string option" "string option" bool "string option"
      \<comment> \<open>account, to, function, calldata, calls, submit, network\<close>

fun clap_accepts :: "cli_command \<Rightarrow> bool" where
  "clap_accepts (CliPair _ kind) \<longleftrightarrow> kind = ''app'' \<or> kind = ''agent''"
| "clap_accepts (CliSend _ to function calldata calls _ _) \<longleftrightarrow>
     (calls = None \<longrightarrow> to \<noteq> None \<and> function \<noteq> None) \<and> (calldata \<noteq> None \<longrightarrow> to \<noteq> None)
     \<and> (calls \<noteq> None \<longrightarrow> to = None \<and> function = None \<and> calldata = None)"
| "clap_accepts _ \<longleftrightarrow> True"

record cli_output =
  co_json :: bool
  co_quiet :: bool

datatype out_line = Stdout string | StdoutJson json | Stderr string | StderrJson json

record 's cli =
  cl_world :: 's
  cl_token :: "json option"                         \<comment> \<open>\<open>cli-token.json\<close>\<close>
  cl_out :: "out_line list"

record 's cli_env =
  ce_dir :: "string option"                         \<comment> \<open>the platform's data directory\<close>
  ce_lock :: "(string + json) option"               \<comment> \<open>\<open>port.lock\<close>\<close>
  ce_post :: "'s http_post"
  ce_get :: "'s http_get"
  ce_save :: token_outcome
  ce_read :: "string \<Rightarrow> string + string"
  ce_parse :: "string \<Rightarrow> string + json"
  ce_not_pairing :: "json \<Rightarrow> string"               \<comment> \<open>serde's message\<close>

datatype cli_failure = CliError string | CliPanic string

type_synonym ('s, 'a) clim = "'s cli \<Rightarrow> (cli_failure + 'a) \<times> 's cli"

definition cli_ret :: "'a \<Rightarrow> ('s, 'a) clim" where "cli_ret x s = (Ok x, s)"

definition cli_bnd :: "('s, 'a) clim \<Rightarrow> ('a \<Rightarrow> ('s, 'b) clim) \<Rightarrow> ('s, 'b) clim" where
  "cli_bnd m f s = (case m s of (Inl e, s') \<Rightarrow> (Inl e, s') | (Inr x, s') \<Rightarrow> f x s')"

definition cli_lift :: "string + 'a \<Rightarrow> ('s, 'a) clim" where
  "cli_lift r s = (map_err CliError r, s)"

definition cli_expect :: "string \<Rightarrow> 'a option \<Rightarrow> ('s, 'a) clim" where
  "cli_expect msg x s = (ok_or (CliPanic msg) x, s)"

definition say :: "out_line \<Rightarrow> ('s, unit) clim" where
  "say l s = (Ok (), s\<lparr>cl_out := cl_out s @ [l]\<rparr>)"

definition note_line :: "cli_output \<Rightarrow> string \<Rightarrow> ('s, unit) clim" where
  "note_line out msg = (if \<not> co_json out \<and> \<not> co_quiet out then say (Stderr msg) else cli_ret ())"

definition emit_value :: "json \<Rightarrow> ('s, unit) clim" where
  "emit_value v = say (StdoutJson v)"

definition fail_line :: "cli_output \<Rightarrow> string \<Rightarrow> out_line" where
  "fail_line out msg = (if co_json out then StderrJson (JObj [(''error'', JStr msg)]) else Stderr (''error: '' @ msg))"

definition on_world :: "('s \<Rightarrow> (string + 'a) \<times> 's) \<Rightarrow> ('s, 'a) clim" where
  "on_world f s = (let (r, w) = f (cl_world s) in (map_err CliError r, s\<lparr>cl_world := w\<rparr>))"

lemmas clim_defs = cli_ret_def cli_bnd_def cli_lift_def cli_expect_def say_def note_line_def emit_value_def on_world_def

section \<open>Arguments\<close>

definition load_pairing :: "'s cli_env \<Rightarrow> ('s, pairing option) clim" where
  "load_pairing C s = (Ok (token_load (ce_dir C) (cl_token s)), s)"

definition require_token :: "'s cli_env \<Rightarrow> ('s, string) clim" where
  "require_token C =
     cli_bnd (load_pairing C) (\<lambda>p.
     cli_lift (ok_or (''not paired yet '' @ utf8_dash @ '' run `strkd pair` first'') (map_option pa_token p)))"

definition read_json_arg :: "'s cli_env \<Rightarrow> string \<Rightarrow> string + json" where
  "read_json_arg C s =
     bindE (case strip_prefix ''@'' s of
              Some f \<Rightarrow> map_err (\<lambda>e. ''could not read '' @ f @ '': '' @ e) (ce_read C f)
            | None \<Rightarrow> Ok s) (\<lambda>raw.
     map_err (\<lambda>e. ''invalid JSON: '' @ e) (ce_parse C raw))"

definition parse_calldata :: "string \<Rightarrow> json list" where
  "parse_calldata s = map JStr (filter (\<lambda>x. x \<noteq> []) (map trim (split_on (CHR '','') s)))"

definition chain_id_felt :: "string \<Rightarrow> string + string" where
  "chain_id_felt network =
     (let n = to_lowercase network
      in if n = ''sepolia'' \<or> n = ''sn_sepolia'' then Ok ''0x534e5f5345504f4c4941''
         else if n = ''mainnet'' \<or> n = ''main'' \<or> n = ''sn_main'' then Ok ''0x534e5f4d41494e''
         else Err (''unknown network '' @ in_quotes n @ '' (use sepolia or mainnet)''))"

definition single_call :: "string \<Rightarrow> string \<Rightarrow> string option \<Rightarrow> json" where
  "single_call to function calldata =
     (let call = [(''contract_address'', JStr to), (''entry_point_selector'', JStr function)]
      in JArr [JObj (case calldata of None \<Rightarrow> call | Some cd \<Rightarrow> obj_insert ''calldata'' (JArr (parse_calldata cd)) call)])"

section \<open>Running a command\<close>

definition approve_note :: "string \<Rightarrow> string" where
  "approve_note what = what @ '' '' @ utf8_dash @ '' approve the prompt in the strkd menu bar'' @ utf8_ellipsis"

definition cli_pair :: "'s cli_env \<Rightarrow> cli_output \<Rightarrow> string \<Rightarrow> string \<Rightarrow> string \<Rightarrow> ('s, unit) clim" where
  "cli_pair C out url name kind =
     cli_bnd (note_line out (approve_note ''Requesting pairing'')) (\<lambda>_.
     cli_bnd (on_world (client_call (ce_post C) url ''companion_requestPairing''
        (JObj [(''name'', JStr name), (''kind'', JStr kind)]) None)) (\<lambda>result.
     cli_bnd (cli_lift (ok_or (''unexpected pairing response: '' @ ce_not_pairing C result) (pairing_from_json result))) (\<lambda>p.
     cli_bnd (\<lambda>s. let (r, f) = token_save (ce_dir C) (ce_save C) p (cl_token s)
                  in (map_err CliError r, s\<lparr>cl_token := f\<rparr>)) (\<lambda>_.
     if co_json out then emit_value (JObj [(''client_id'', JStr (pa_client_id p)), (''paired'', JBool True)])
     else if \<not> co_quiet out then say (Stdout (''Paired. client_id = '' @ pa_client_id p))
     else cli_ret ()))))"

definition cli_send ::
  "'s cli_env \<Rightarrow> cli_output \<Rightarrow> string \<Rightarrow> string \<Rightarrow> string option \<Rightarrow> string option \<Rightarrow> string option \<Rightarrow> string option \<Rightarrow> bool
     \<Rightarrow> string option \<Rightarrow> ('s, unit) clim" where
  "cli_send C out url account to function calldata calls submit network =
     cli_bnd (require_token C) (\<lambda>token.
     cli_bnd (case calls of
                Some raw \<Rightarrow> cli_lift (read_json_arg C raw)
              | None \<Rightarrow>
                  cli_bnd (cli_expect ''clap enforces --to'' to) (\<lambda>t.
                  cli_bnd (cli_expect ''clap enforces --function'' function) (\<lambda>f.
                  cli_ret (single_call t f calldata)))) (\<lambda>calls_val.
     cli_bnd (case network of
                None \<Rightarrow> cli_ret []
              | Some net \<Rightarrow> cli_bnd (cli_lift (chain_id_felt net)) (\<lambda>c. cli_ret [(''chainId'', JStr c)])) (\<lambda>chain.
     cli_bnd (note_line out (approve_note ((if submit then ''Submitting'' else ''Signing'') @ '' transaction''))) (\<lambda>_.
     cli_bnd (on_world (client_call (ce_post C) url ''wallet_addInvokeTransaction''
        (JObj ([(''account_address'', JStr account), (''calls'', calls_val), (''submit'', JBool submit)] @ chain)) (Some token))) (\<lambda>result.
     emit_value result)))))"

definition cli_run :: "'s cli_env \<Rightarrow> cli_output \<Rightarrow> cli_command \<Rightarrow> ('s, unit) clim" where
  "cli_run C out command =
     cli_bnd (cli_lift (service_url (ce_dir C) (ce_lock C))) (\<lambda>url.
     case command of
       CliPair name kind \<Rightarrow> cli_pair C out url name kind
     | CliStatus \<Rightarrow>
         cli_bnd (load_pairing C) (\<lambda>saved.
         cli_bnd (on_world (client_call (ce_post C) url ''companion_getStatus'' (JObj []) (map_option pa_token saved))) emit_value)
     | CliUsage \<Rightarrow> cli_bnd (on_world (client_usage (ce_get C) url)) emit_value
     | CliAccounts \<Rightarrow>
         cli_bnd (require_token C) (\<lambda>token.
         cli_bnd (on_world (client_call (ce_post C) url ''companion_listAccounts'' (JObj []) (Some token))) emit_value)
     | CliSign account data \<Rightarrow>
         cli_bnd (require_token C) (\<lambda>token.
         cli_bnd (cli_lift (read_json_arg C data)) (\<lambda>typed_data.
         cli_bnd (note_line out (approve_note ''Signing typed data'')) (\<lambda>_.
         cli_bnd (on_world (client_call (ce_post C) url ''wallet_signTypedData''
            (JObj [(''account_address'', JStr account), (''typed_data'', typed_data)]) (Some token))) emit_value)))
     | CliSend account to function calldata calls submit network \<Rightarrow>
         cli_send C out url account to function calldata calls submit network)"

text \<open>The exit code, with the error line printed; a panic exits with 101.\<close>

definition cli_main :: "'s cli_env \<Rightarrow> cli_output \<Rightarrow> cli_command \<Rightarrow> 's cli \<Rightarrow> nat \<times> 's cli" where
  "cli_main C out command s =
     (case cli_run C out command s of
        (Inr _, s') \<Rightarrow> (0, s')
      | (Inl (CliError e), s') \<Rightarrow> (1, s'\<lparr>cl_out := cl_out s' @ [fail_line out e]\<rparr>)
      | (Inl (CliPanic _), s') \<Rightarrow> (101, s'))"

end
