(* ===== verification/Cli_Facts.thy ===== *)
theory Cli_Facts
  imports Cli "HOL-Library.Sublist"
begin

text \<open>
  What the commands of the CLI do against the service: a command is one request, its output the dispatcher's answer; a
  pairing that succeeds leaves a token the server knows; and nothing clap accepts makes the program panic.
\<close>

section \<open>One request per command\<close>

text \<open>The method and parameters of the commands that call the wallet with the saved token.\<close>

fun command_call :: "'s cli_env \<Rightarrow> cli_command \<Rightarrow> string + string \<times> json" where
  "command_call C CliStatus = Ok (''companion_getStatus'', JObj [])"
| "command_call C CliAccounts = Ok (''companion_listAccounts'', JObj [])"
| "command_call C (CliSign account data) =
     bindE (read_json_arg C data) (\<lambda>v.
     Ok (''wallet_signTypedData'', JObj [(''account_address'', JStr account), (''typed_data'', v)]))"
| "command_call C (CliSend account to function calldata calls submit network) =
     bindE (case calls of Some raw \<Rightarrow> read_json_arg C raw | None \<Rightarrow> Ok (single_call (the to) (the function) calldata)) (\<lambda>v.
     bindE (case network of None \<Rightarrow> Ok [] | Some net \<Rightarrow> bindE (chain_id_felt net) (\<lambda>c. Ok [(''chainId'', JStr c)])) (\<lambda>chain.
     Ok (''wallet_addInvokeTransaction'',
         JObj ([(''account_address'', JStr account), (''calls'', v), (''submit'', JBool submit)] @ chain))))"
| "command_call C _ = Err ''not a plain call''"

fun command_notes :: "cli_output \<Rightarrow> cli_command \<Rightarrow> out_line list" where
  "command_notes out (CliSign _ _) =
     (if co_json out \<or> co_quiet out then [] else [Stderr (approve_note ''Signing typed data'')])"
| "command_notes out (CliSend _ _ _ _ _ submit _) =
     (if co_json out \<or> co_quiet out then []
      else [Stderr (approve_note ((if submit then ''Submitting'' else ''Signing'') @ '' transaction''))])"
| "command_notes out _ = []"

text \<open>What the program prints for an answer, and its exit code.\<close>

definition finish :: "cli_output \<Rightarrow> string + json \<Rightarrow> 's \<Rightarrow> out_line list \<Rightarrow> 's cli \<Rightarrow> nat \<times> 's cli" where
  "finish out r w notes s =
     (case r of
        Inr v \<Rightarrow> (0, s\<lparr>cl_world := w, cl_out := cl_out s @ notes @ [StdoutJson v]\<rparr>)
      | Inl e \<Rightarrow> (1, s\<lparr>cl_world := w, cl_out := cl_out s @ notes @ [fail_line out e]\<rparr>))"

lemma clim_steps:
  "cli_bnd (cli_ret x) f = f x" "cli_bnd (cli_lift (Ok x)) f = f x" "cli_bnd (cli_expect msg (Some y)) e = e y"
  "cli_bnd (cli_bnd m f') g' = cli_bnd m (\<lambda>x. cli_bnd (f' x) g')"
  "cli_bnd (note_line out msg) g s = g () (s\<lparr>cl_out := cl_out s @ (if co_json out \<or> co_quiet out then [] else [Stderr msg])\<rparr>)"
  "token_load (ce_dir C) (cl_token s) = Some p \<Longrightarrow> cli_bnd (require_token C) h s = h (pa_token p) s"
  "cli_bnd (load_pairing C) k s = k (token_load (ce_dir C) (cl_token s)) s"
  by (auto simp: clim_defs require_token_def load_pairing_def map_err_def fun_eq_iff split: prod.splits sum.splits)

lemma main_emit:
  assumes "cli_run C out command s = cli_bnd (on_world g) emit_value (s\<lparr>cl_out := cl_out s @ notes\<rparr>)"
  shows "cli_main C out command s = (let (r, w) = g (cl_world s) in finish out r w notes s)"
  using assms by (auto simp: cli_main_def clim_defs map_err_def finish_def split: prod.split sum.split)

lemma main_call:
  assumes url: "service_url (ce_dir C) (ce_lock C) = Ok url" and clap: "clap_accepts command"
    and call: "command_call C command = Ok (m, params)"
    and token: "command = CliStatus \<or> token_load (ce_dir C) (cl_token s) \<noteq> None"
  shows "cli_main C out command s =
    (let (r, w) = client_call (ce_post C) url m params (map_option pa_token (token_load (ce_dir C) (cl_token s))) (cl_world s)
     in finish out r w (command_notes out command) s)"
proof (rule main_emit)
  have no_notes: "s\<lparr>cl_out := cl_out s @ []\<rparr> = s" by simp
  let ?run = "cli_bnd (on_world (client_call (ce_post C) url m params (map_option pa_token (token_load (ce_dir C) (cl_token s)))))
    emit_value (s\<lparr>cl_out := cl_out s @ command_notes out command\<rparr>)"
  show "cli_run C out command s = ?run"
  proof (cases command)
    case CliStatus
    then show ?thesis using call url by (simp add: cli_run_def clim_steps)
  next
    case CliAccounts
    then obtain p where "token_load (ce_dir C) (cl_token s) = Some p" using token by auto
    then show ?thesis using call url CliAccounts by (simp add: cli_run_def clim_steps)
  next
    case (CliSign account data)
    then obtain p where "token_load (ce_dir C) (cl_token s) = Some p" using token by auto
    moreover obtain v where "read_json_arg C data = Ok v" using call CliSign by (auto simp: result_simps)
    ultimately show ?thesis using call url CliSign by (simp add: cli_run_def clim_steps result_simps)
  next
    case (CliSend account target fn cd cs submit network)
    then obtain p where p: "token_load (ce_dir C) (cl_token s) = Some p" using token by auto
    obtain v where v: "(case cs of Some raw \<Rightarrow> read_json_arg C raw | None \<Rightarrow> Ok (single_call (the target) (the fn) cd)) = Ok v"
      using call CliSend by (auto simp: result_simps)
    obtain chain where chain: "(case network of None \<Rightarrow> Ok [] | Some net \<Rightarrow> bindE (chain_id_felt net) (\<lambda>c. Ok [(''chainId'', JStr c)])) = Ok chain"
      using call CliSend by (auto simp: result_simps)
    have m: "m = ''wallet_addInvokeTransaction''"
      "params = JObj ([(''account_address'', JStr account), (''calls'', v), (''submit'', JBool submit)] @ chain)"
      using call CliSend v chain by (simp_all add: result_simps)
    have 1: "cli_bnd (case cs of Some raw \<Rightarrow> cli_lift (read_json_arg C raw)
        | None \<Rightarrow> cli_bnd (cli_expect ''clap enforces --to'' target) (\<lambda>t.
            cli_bnd (cli_expect ''clap enforces --function'' fn) (\<lambda>f. cli_ret (single_call t f cd)))) g = g v" for g
      using v clap CliSend by (cases cs) (auto simp: clim_steps)
    have 2: "cli_bnd (case network of None \<Rightarrow> cli_ret []
        | Some net \<Rightarrow> cli_bnd (cli_lift (chain_id_felt net)) (\<lambda>c. cli_ret [(''chainId'', JStr c)])) g = g chain" for g
      using chain by (cases network) (auto simp: clim_steps result_simps)
    show ?thesis unfolding CliSend cli_run_def cli_send_def m using url p by (simp add: clim_steps 1 2 m)
  qed (use call in \<open>simp_all\<close>)
qed

section \<open>No panic\<close>

definition calm :: "('s, 'a) clim \<Rightarrow> bool" where
  "calm m \<longleftrightarrow> (\<forall>s e s'. m s = (Inl (CliPanic e), s') \<longrightarrow> False)"

lemma calm_basic [simp]:
  "calm (cli_ret x)" "calm (cli_lift r)" "calm (say l)" "calm (note_line out msg)" "calm (emit_value v)" "calm (on_world f)"
  "calm (load_pairing C)" "calm (cli_expect msg (Some x))"
  by (auto simp: calm_def clim_defs load_pairing_def map_err_def Let_def split: prod.splits sum.splits)

lemma calm_bnd: "calm m \<Longrightarrow> (\<And>x. calm (f x)) \<Longrightarrow> calm (cli_bnd m f)"
  unfolding calm_def cli_bnd_def by (fastforce split: prod.splits sum.splits)

lemma calm_save: "calm (\<lambda>s. let (r, f) = token_save d out p (cl_token s) in (map_err CliError r, s\<lparr>cl_token := f\<rparr>))"
  by (auto simp: calm_def map_err_def Let_def split: prod.splits sum.splits)

lemma main_calm:
  assumes "clap_accepts command"
  shows "fst (cli_main C out command s) \<in> {0, 1}"
proof -
  have "calm (cli_run C out command)"
  proof (cases command)
    case (CliSend account target fn cd cs submit network)
    then have "cs = None \<Longrightarrow> \<exists>t f. target = Some t \<and> fn = Some f" using assms by auto
    then show ?thesis unfolding CliSend
      by (auto simp: cli_run_def cli_send_def require_token_def intro!: calm_bnd split: option.split)
  qed (auto simp: cli_run_def cli_pair_def require_token_def intro!: calm_bnd calm_save [unfolded Let_def])
  then show ?thesis
    by (auto simp: calm_def cli_main_def split: prod.split sum.split cli_failure.split)
qed

section \<open>Pairing\<close>

text \<open>Nothing else changes the server during the request, and new tokens are not those of other clients.\<close>

definition alone :: "'pt env \<Rightarrow> bool" where
  "alone V \<longleftrightarrow> (\<forall>n sv. e_interfere V n sv = sv)"

definition fresh_tokens :: "'pt env \<Rightarrow> server \<Rightarrow> bool" where
  "fresh_tokens V sv \<longleftrightarrow>
     (\<forall>n. e_hash V (hex_encode (e_draw V 32 n)) \<notin> pc_token_hash ` set (cs_clients (sv_clients sv)))"

definition pairing_params :: "string \<Rightarrow> string \<Rightarrow> json" where
  "pairing_params name kind = JObj [(''name'', JStr name), (''kind'', JStr kind)]"

lemma handle_pairing_alone:
  assumes alone: "alone V" and fresh: "fresh_tokens V (sy_server s)" and wf: "store_wf (sv_clients (sy_server s))"
    and run: "handle_pairing V (pairing_params name kind) s = (Inr h, s')" and ok: "h_result h = Ok v"
  obtains cid token c where "v = JObj [(''client_id'', JStr cid), (''token'', JStr token)]"
    "verify (e_hash V) (sv_clients (sy_server s')) token = Some c" "pc_id c = cid" "pc_label c = name"
    "pc_kind c = (if kind = ''agent'' then AgentClient else AppClient)" "token = hex_encode (e_draw V 32 (Suc (Suc (sy_step s))))"
    "cid = ''client-'' @ hex_encode (e_draw V 8 (Suc (sy_step s)))"
proof -
  let ?n = "sy_step s"
  obtain cid token cs where made: "pair (e_hash V) (e_draw V 8 (Suc ?n)) (e_draw V 32 (Suc (Suc ?n))) name
      (if kind = ''agent'' then AgentClient else AppClient) (sv_clients (sy_server s)) = ((cid, token), cs)"
    by (metis surj_pair)
  have token: "token = hex_encode (e_draw V 32 (Suc (Suc ?n)))" "cid = ''client-'' @ hex_encode (e_draw V 8 (Suc ?n))"
    using made by (simp_all add: pair_def Let_def)
  have "v = JObj [(''client_id'', JStr cid), (''token'', JStr token)]" "sv_clients (sy_server s') = cs"
    using run ok alone made
    by (auto simp: handle_pairing_def pairing_params_def pairing_name_def pairing_kind_def opt_param_str_def get_str_def get_bool_def
        ask_pairing_def request_approval_def act_defs now_server_def alone_def refused_pairing_def Let_def split: if_splits decision.splits prod.splits)
  moreover obtain c where "verify (e_hash V) cs token = Some c" "pc_id c = cid" "pc_label c = name"
    "pc_kind c = (if kind = ''agent'' then AgentClient else AppClient)"
    using verify_pair(1) [OF wf made] fresh token by (auto simp: fresh_tokens_def)
  ultimately show thesis using that token by auto
qed


lemma dispatch_pairing_alone:
  assumes alone: "alone V" and fresh: "fresh_tokens V (sy_server s)" and wf: "store_wf (sv_clients (sy_server s))"
    and run: "dispatch V None (call_request ''companion_requestPairing'' (pairing_params name kind)) s = (Inr resp, s')"
    and ok: "read_answer (response_to_json resp) = Ok v"
  obtains cid token c where "v = JObj [(''client_id'', JStr cid), (''token'', JStr token)]"
    "verify (e_hash V) (sv_clients (sy_server s')) token = Some c" "pc_id c = cid" "pc_label c = name"
    "pc_kind c = (if kind = ''agent'' then AgentClient else AppClient)" "\<exists>n. token = hex_encode (e_draw V 32 n)"
    "\<exists>n. cid = ''client-'' @ hex_encode (e_draw V 8 n)"
proof -
  let ?req = "call_request ''companion_requestPairing'' (pairing_params name kind)"
  have same: "sv_clients (sy_server (arrived V s)) = sv_clients (sy_server s)"
    using alone by (simp add: arrived_def touched_def now_unix_ms_def act_defs now_server_def alone_def touch_activity_def)
  then have fresh': "fresh_tokens V (sy_server (arrived V s))" and wf': "store_wf (sv_clients (sy_server (arrived V s)))"
    using fresh wf by (simp_all add: fresh_tokens_def)
  have handle: "handle V None ?req = handle_pairing V (pairing_params name kind)"
    by (simp add: handle_def call_request_def public_methods_def)
  obtain h s1 where h: "handle_pairing V (pairing_params name kind) (arrived V s) = (Inr h, s1)"
    and rest: "logged V ?req h s1 = (Inr resp, s')"
    using run unfolding dispatch_run handle by (auto simp: bnd_def split: prod.splits sum.splits)
  obtain "resp = respond (req_id ?req) (h_result h)" "sv_clients (sy_server s') = sv_clients (sy_server s1)"
    using rest alone unfolding logged_def now_unix_ms_def act_defs by (auto simp: Let_def now_server_def alone_def)
  moreover from this(1) have "h_result h = Ok v"
    using ok by (cases "h_result h")
      (auto simp: respond_def read_answer_def response_members Let_def)
  ultimately show thesis
    using handle_pairing_alone [OF alone fresh' wf' h] that by metis
qed

lemma readable_hex: "header_to_str (hex_encode bs) = Some (hex_encode bs)"
proof -
  have "32 \<le> (of_char c :: nat) \<and> (of_char c :: nat) < 127" if c: "c \<in> set (hex_encode bs)" for c
  proof -
    obtain b :: u8 where b: "c = digit_char (unat b div 16) \<or> c = digit_char (unat b mod 16)"
      using c by (auto simp: hex_encode_def)
    have "unat b < 256" using unat_less_exp [of b] by simp
    then have "unat b div 16 < 16" "unat b mod 16 < 16" by simp_all
    then obtain d where "d < 16" "c = digit_char d" using b by blast
    then show ?thesis by (auto simp: digit_char_def)
  qed
  then show ?thesis by (auto simp: header_to_str_def Let_def)
qed

text \<open>What a line of the output shows: the text itself, or the keys and the strings of the JSON.\<close>

fun json_strings :: "json \<Rightarrow> string list" where
  "json_strings (JStr t) = [t]"
| "json_strings (JNum (Float t)) = [t]"
| "json_strings (JArr vs) = concat (map json_strings vs)"
| "json_strings (JObj ms) = concat (map (\<lambda>(k, v). k # json_strings v) ms)"
| "json_strings _ = []"

fun line_texts :: "out_line \<Rightarrow> string list" where
  "line_texts (Stdout t) = [t]"
| "line_texts (StdoutJson v) = json_strings v"
| "line_texts (Stderr t) = [t]"
| "line_texts (StderrJson v) = json_strings v"

definition shows_text :: "string \<Rightarrow> out_line \<Rightarrow> bool" where
  "shows_text t l \<longleftrightarrow> list_ex (sublist t) (line_texts l)"

text \<open>A token is 64 hexadecimal digits; a text with fewer of them does not have it in it.\<close>

definition hex_digit :: "char \<Rightarrow> bool" where
  "hex_digit c \<longleftrightarrow> (let n = of_char c :: nat in 48 \<le> n \<and> n \<le> 57 \<or> 97 \<le> n \<and> n \<le> 102)"

lemma hex_encode_digits: "length (hex_encode bs) = 2 * length bs" "list_all hex_digit (hex_encode bs)"
proof -
  have d: "hex_digit (digit_char d)" if "d < 16" for d
    using that by (auto simp: hex_digit_def digit_char_def Let_def)
  show "length (hex_encode bs) = 2 * length bs" by (induction bs) (simp_all add: hex_encode_def)
  have "unat b div 16 < 16" for b :: u8 using unat_less_exp [of b] by simp
  then show "list_all hex_digit (hex_encode bs)" by (induction bs) (simp_all add: hex_encode_def d)
qed

lemma sublist_digits: "sublist t u \<Longrightarrow> length (filter hex_digit t) \<le> length (filter hex_digit u)"
  by (auto simp: sublist_def)

lemma few_digits_hide:
  assumes "length bs = 32" "list_all (\<lambda>u. length (filter hex_digit u) < 64) (line_texts l)"
  shows "\<not> shows_text (hex_encode bs) l"
proof -
  have "filter hex_digit (hex_encode bs) = hex_encode bs"
    using hex_encode_digits(2) [of bs] by (simp add: filter_id_conv list_all_iff)
  then have "length (filter hex_digit (hex_encode bs)) = 64" using hex_encode_digits(1) assms(1) by simp
  then show ?thesis using assms(2) sublist_digits by (fastforce simp: shows_text_def list_ex_iff list_all_iff)
qed

text \<open>What a pairing prints: never the token.\<close>

definition pair_lines :: "cli_output \<Rightarrow> string \<Rightarrow> out_line list" where
  "pair_lines out cid =
     (if co_json out then [StdoutJson (JObj [(''client_id'', JStr cid), (''paired'', JBool True)])]
      else if co_quiet out then []
      else [Stderr (approve_note ''Requesting pairing''), Stdout (''Paired. client_id = '' @ cid)])"

lemma pair_lines_hide:
  assumes "length bs = 32" "length id_draw = 8" "l \<in> set (pair_lines out (''client-'' @ hex_encode id_draw))"
  shows "\<not> shows_text (hex_encode bs) l"
proof (rule few_digits_hide [OF assms(1)])
  have "length (filter hex_digit (hex_encode id_draw)) \<le> 16"
    using length_filter_le [of hex_digit "hex_encode id_draw"] hex_encode_digits(1) assms(2) by simp
  then have cid: "length (filter hex_digit (pre @ ''client-'' @ hex_encode id_draw)) \<le> length (filter hex_digit pre) + 18" for pre
    by (simp add: hex_digit_def)
  have note_text: "length (filter hex_digit (approve_note ''Requesting pairing'')) < 64"
    by (simp add: approve_note_def hex_digit_def utf8_dash_def utf8_ellipsis_def)
  show "list_all (\<lambda>u. length (filter hex_digit u) < 64) (line_texts l)"
    using assms(3) note_text cid [of "[]"] cid [of "''Paired. client_id = ''"]
    by (auto simp: pair_lines_def hex_digit_def split: if_splits)
qed

lemma pair_registers:
  assumes alone: "alone V" and fresh: "fresh_tokens V (sy_server (cl_world s))" and wf: "store_wf (sv_clients (sy_server (cl_world s)))"
    and url: "service_url (ce_dir C) (ce_lock C) = Ok url" and post: "ce_post C = wallet_post V print parse"
    and body: "parse (print (rpc_body_of ''companion_requestPairing'' (pairing_params name kind)))
      = Some (rpc_body_of ''companion_requestPairing'' (pairing_params name kind))"
    and run: "cli_main C out (CliPair name kind) s = (0, s')" and draws: "\<And>k n. length (e_draw V k n) = k"
  shows "\<exists>p c. token_load (ce_dir C) (cl_token s') = Some p \<and> readable (Some (pa_token p))
    \<and> verify (e_hash V) (sv_clients (sy_server (cl_world s'))) (pa_token p) = Some c
    \<and> pc_id c = pa_client_id p \<and> pc_label c = name \<and> pc_kind c = (if kind = ''agent'' then AgentClient else AppClient)
    \<and> cl_out s' = cl_out s @ pair_lines out (pa_client_id p)
    \<and> (\<forall>l \<in> set (pair_lines out (pa_client_id p)). \<not> shows_text (pa_token p) l)"
proof -
  let ?m = "''companion_requestPairing''"
  obtain r w where d: "dispatch V None (call_request ?m (pairing_params name kind)) (cl_world s) = (r, w)" by fastforce
  have call: "client_call (wallet_post V print parse) url ?m (pairing_params name kind) None (cl_world s) = (answered r, w)"
    using call_dispatched [where parse = parse and print = print, OF url _ body, of None V "cl_world s"] d
    by (simp add: readable_def)
  note step = cli_main_def cli_run_def cli_pair_def clim_defs url post pairing_params_def [symmetric] call
  obtain v where v: "answered r = Ok v"
    using run by (cases "answered r") (auto simp: step map_err_def split: if_splits)
  obtain resp where resp: "r = Inr resp" "read_answer (response_to_json resp) = Ok v"
    using v by (cases r) (auto simp: answered_def)
  obtain cid token c where made: "v = JObj [(''client_id'', JStr cid), (''token'', JStr token)]"
    "verify (e_hash V) (sv_clients (sy_server w)) token = Some c" "pc_id c = cid" "pc_label c = name"
    "pc_kind c = (if kind = ''agent'' then AgentClient else AppClient)" "\<exists>n. token = hex_encode (e_draw V 32 n)"
    "\<exists>n. cid = ''client-'' @ hex_encode (e_draw V 8 n)"
    using dispatch_pairing_alone [OF alone fresh wf] d resp by metis
  let ?p = "\<lparr>pa_client_id = cid, pa_token = token\<rparr>"
  have p: "pairing_from_json v = Some ?p" using made(1) pairing_roundtrip [of ?p] by (simp add: pairing_to_json_def)
  obtain sr f where save: "token_save (ce_dir C) (ce_save C) ?p (cl_token s) = (sr, f)" by fastforce
  have ok: "sr = Ok ()" and f: "cl_token s' = f" "cl_world s' = w" "cl_out s' = cl_out s @ pair_lines out cid"
    using run v p save by (cases sr; auto simp: step map_err_def pair_lines_def split: if_splits)+
  have "token_load (ce_dir C) (cl_token s') = Some ?p" using token_saved save ok f(1) by blast
  moreover have "\<forall>l \<in> set (pair_lines out cid). \<not> shows_text token l"
    using made(6,7) pair_lines_hide draws by blast
  ultimately show ?thesis using made f(2,3) readable_hex by (intro exI [of _ ?p] exI [of _ c]) (auto simp: readable_def)
qed

lemma registered_client:
  assumes "alone V" "verify (e_hash V) (sv_clients (sy_server s)) token = Some c"
  shows "request_client V (Some token) s = Some c"
  using assms
  by (simp add: request_client_def verify_token_def arrived_def touched_def now_unix_ms_def act_defs now_server_def alone_def
      touch_activity_def)

end
