(* ===== verification/Cli_Instances.thy ===== *)
theory Cli_Instances
  imports Cli_Facts Rpc_Instances
begin

text \<open>A command line connected to the demo wallet, whose JSON codec knows the one body that is sent.\<close>

definition demo_cli_env :: "json \<Rightarrow> sys cli_env" where
  "demo_cli_env body =
     \<lparr>ce_dir = Some ''data'', ce_lock = Some (Ok (JObj [(''port'', json_u64 4242)])),
      ce_post = wallet_post demo_env (\<lambda>_. []) (\<lambda>_. Some body), ce_get = (\<lambda>_ w. (Err ''no page'', w)),
      ce_save = TokenWritten, ce_read = (\<lambda>_. Err ''no file''), ce_parse = (\<lambda>_. Err ''no JSON''), ce_not_pairing = (\<lambda>_. '''')\<rparr>"

definition demo_pairing :: pairing where
  "demo_pairing = \<lparr>pa_client_id = ''client-1'', pa_token = ''old''\<rparr>"

definition demo_cli :: "sys cli" where
  "demo_cli = \<lparr>cl_world = demo_sys, cl_token = Some (pairing_to_json demo_pairing), cl_out = []\<rparr>"

definition demo_out :: cli_output where "demo_out = \<lparr>co_json = False, co_quiet = False\<rparr>"

lemma demo_url: "service_url (ce_dir (demo_cli_env body)) (ce_lock (demo_cli_env body)) = Ok (''http://127.0.0.1:'' @ nat_dec 4242)"
  by (simp add: demo_cli_env_def service_url_def data_dir_def get_u64_def json_u64_def)

lemma demo_alone: "alone demo_env"
  by (simp add: alone_def demo_env_def)

lemma demo_fresh_tokens: "fresh_tokens demo_env demo_server"
proof -
  have len: "length (hex_encode bs) = 2 * length bs" for bs by (induction bs) (simp_all add: hex_encode_def)
  have "hex_encode (replicate 32 x) \<noteq> ''old''" for x
  proof
    assume "hex_encode (replicate 32 x) = ''old''"
    then have "length (hex_encode (replicate 32 x)) = length ''old''" by (rule arg_cong)
    then show False by (simp add: len)
  qed
  then show ?thesis by (auto simp: fresh_tokens_def demo_env_def demo_store_def demo_client_def)
qed

lemma demo_pairs:
  "\<exists>s'. cli_main (demo_cli_env (rpc_body_of ''companion_requestPairing'' (pairing_params ''cli'' ''app''))) demo_out
     (CliPair ''cli'' ''app'') demo_cli = (0, s')"
proof -
  let ?m = "''companion_requestPairing''" and ?p = "pairing_params ''cli'' ''app''"
  let ?C = "demo_cli_env (rpc_body_of ?m ?p)"
  obtain url where url: "service_url (ce_dir ?C) (ce_lock ?C) = Ok url" using demo_url by blast
  obtain cid token s' where d: "dispatch demo_env None (call_request ?m ?p) demo_sys
      = (Inr (response_ok (json_u64 1) (JObj [(''client_id'', JStr cid), (''token'', JStr token)])), s')"
    by (simp add: dispatch_def handle_def call_request_def public_methods_def handle_pairing_def pairing_params_def pairing_name_def
        pairing_kind_def opt_param_str_def get_str_def get_bool_def ask_pairing_def request_approval_def act_defs touched_def now_unix_ms_def
        now_server_def demo_env_def respond_def pair_def Let_def)
  have "client_call (wallet_post demo_env (\<lambda>_. []) (\<lambda>_. Some (rpc_body_of ?m ?p))) url ?m ?p None demo_sys
      = (Ok (JObj [(''client_id'', JStr cid), (''token'', JStr token)]), s')"
    using call_dispatched [where V = demo_env and parse = "\<lambda>_. Some (rpc_body_of ?m ?p)" and print = "\<lambda>_. []", OF url, of None]
    by (simp add: readable_def d answered_response)
  moreover have "pairing_from_json (JObj [(''client_id'', JStr cid), (''token'', JStr token)]) = Some \<lparr>pa_client_id = cid, pa_token = token\<rparr>"
    using pairing_roundtrip [of "\<lparr>pa_client_id = cid, pa_token = token\<rparr>"] by (simp add: pairing_to_json_def)
  ultimately show ?thesis using url
    by (simp add: cli_main_def cli_run_def cli_pair_def clim_defs demo_cli_env_def demo_cli_def demo_out_def pairing_params_def map_err_def
        token_save_def data_dir_def)
qed

text \<open>The demo wallet has no accounts yet.\<close>

lemma demo_cli_accounts:
  "\<exists>w. dispatch demo_env (Some ''old'') (call_request ''companion_listAccounts'' (JObj [])) demo_sys
     = (Inr (response_ok (json_u64 1) (JArr [])), w)"
proof -
  have no_public: "map_of (public_methods demo_env token params) ''companion_listAccounts'' = None" for token params
    by (simp add: public_None public_names_def)
  have run: "run_method demo_env demo_client ''companion_listAccounts'' params = handle_accounts demo_env demo_client True" for params
    by (simp add: run_method_def client_methods_def)
  have env: "e_hash demo_env = (\<lambda>t. t)" "e_interfere demo_env = (\<lambda>_ sv. sv)" by (simp_all add: demo_env_def)
  have scope: "scope_for demo_client = Some ''client-1''" by (simp add: scope_for_def demo_client_def)
  show ?thesis
    by (simp add: env dispatch_def handle_def call_request_def no_public handle_client_def is_deferred_def run handle_accounts_def
        act_defs touched_def now_unix_ms_def now_server_def touch_activity_def verify_token_def demo_verify respond_def demo_sys_def
        caught_def with_session_def scope scoped_for_def session_registry_def demo_session_def require_unlocked_def Let_def)
qed

end
