(* ===== verification/Prover_Backends.thy ===== *)
theory Prover_Backends
  imports Rpc_Strk20_Remote
begin

text \<open>
  The two backends of \<open>crates/prover\<close>: \<open>RemoteProver\<close> (\<open>prover.rs\<close>), one HTTP exchange, and
  \<open>NativeProver\<close> (\<open>native_prover.rs\<close>) with \<open>run_and_parse\<close> and \<open>rpc_call\<close> of \<open>snip36.rs\<close>, a run of the
  \<open>snip36\<close> program in a directory of its own. The file system is a map from paths to texts; what the program writes and how
  it ends is a function of how it was called. Both fulfil the contract \<open>prover_backend\<close>: without a configuration there is no proof.
\<close>

section \<open>Configuration\<close>

text \<open>A variable of the environment, if it is set and not empty.\<close>

definition env_or :: "string option \<Rightarrow> string \<Rightarrow> string" where
  "env_or v d = (case v of None \<Rightarrow> d | Some s \<Rightarrow> if s = [] then d else s)"

definition prover_config_from_env :: "string option \<Rightarrow> string" where
  "prover_config_from_env v = env_or v ''native''"

section \<open>JSON-RPC to the node\<close>

record http_answer =
  ha_status :: nat
  ha_location :: "string option"
  ha_text :: "string + string"                      \<comment> \<open>the body, or why it could not be read\<close>

definition is_redirection :: "nat \<Rightarrow> bool" where
  "is_redirection status \<longleftrightarrow> 300 \<le> status \<and> status < 400"

definition rpc_call ::
  "(nat \<Rightarrow> string) \<Rightarrow> (string \<Rightarrow> string + json) \<Rightarrow> (string \<Rightarrow> json \<Rightarrow> string + http_answer) \<Rightarrow> prover_rpc" where
  "rpc_call status_text parse http rpc m params =
     bindE (map_err (\<lambda>e. ''rpc '' @ m @ '': request failed ('' @ e @ '')'')
       (http rpc (JObj [(''jsonrpc'', JStr ''2.0''), (''id'', json_u64 1), (''method'', JStr m), (''params'', params)]))) (\<lambda>resp.
     let status = status_text (ha_status resp) in
     if is_redirection (ha_status resp)
     then Err (''rpc '' @ m @ '': rpc_url returned '' @ status @ '' '' @ utf8_arrow @ '' ''
            @ (case ha_location resp of None \<Rightarrow> ''?'' | Some l \<Rightarrow> l) @ ''. JSON-RPC needs the final URL '' @ utf8_dash @ '' ''
            @ ''set the https URL directly in Settings (a 301 silently turns the POST into a GET).'')
     else
       bindE (map_err (\<lambda>e. ''rpc '' @ m @ '': reading body failed ('' @ e @ '')'') (ha_text resp)) (\<lambda>text.
       if \<not> is_success (ha_status resp) then Err (''rpc '' @ m @ '': HTTP '' @ status @ '': '' @ snippet text)
       else map_err (\<lambda>e. ''rpc '' @ m @ '': non-JSON response ('' @ e @ ''); body: '' @ snippet text) (parse text)))"

section \<open>The remote backend\<close>

definition remote_request :: "network_config \<Rightarrow> json \<Rightarrow> http_request" where
  "remote_request net payload =
     \<lparr>hr_url = trim_end_slash (nc_prover_url net) @ ''/v1/prove'',
      hr_headers = [(''x-api-key'', nc_prover_api_key net)], hr_body = Some (JObj [(''payload'', payload)])\<rparr>"

definition remote_prover_prove ::
  "(nat \<Rightarrow> string) \<Rightarrow> (json \<Rightarrow> string) \<Rightarrow> (http_request \<Rightarrow> http_reply) \<Rightarrow> settings \<Rightarrow> json \<Rightarrow> string \<Rightarrow> string + json" where
  "remote_prover_prove status_text sj http settings payload network =
     (let net = for_network settings network in
      if nc_prover_url net = []
      then Err (''no remote prover configured for '' @ network @ '' '' @ utf8_dash
             @ '' set a prover URL in Settings, or switch '' @ ''the prover backend to `native` to prove on-device'')
      else case http (remote_request net payload) of
        NoAnswer e \<Rightarrow> Err (''remote prover request failed: '' @ e)
      | Answer status (Inl e) \<Rightarrow> Err (''remote prover bad response: '' @ e)
      | Answer status (Inr body) \<Rightarrow>
          if \<not> is_success status then Err (''remote prover '' @ status_text status @ '': '' @ sj body)
          else Ok body)"

section \<open>The native backend\<close>

type_synonym text_files = "string \<Rightarrow> string option"

record prover_command =
  pc_bin :: string
  pc_work_dir :: string
  pc_env :: "(string \<times> string) list"
  pc_args :: "string list"

text \<open>How the program ended, and the files as it left them.\<close>

datatype run_end = LaunchFails string | WaitFails string | TimesOut | Exits bool string

record native_host =
  nh_home :: string
  nh_bin_var :: "string option"
  nh_work_dir_var :: "string option"
  nh_timeout_var :: "string option"
  nh_bin_exists :: "string \<Rightarrow> bool"
  nh_temp_dir :: string
  nh_pid :: nat
  nh_make_dir :: "string option"                    \<comment> \<open>the error of \<open>create_dir_all\<close>\<close>
  nh_write_tx :: "(string \<times> string option) option"  \<comment> \<open>the error of the write, and what it left\<close>
  nh_port :: "nat option"
  nh_remove_fails :: bool
  nh_run :: "prover_command \<Rightarrow> nat \<Rightarrow> text_files \<Rightarrow> run_end \<times> text_files"
  nh_no_file :: "string \<Rightarrow> string"                  \<comment> \<open>the error of reading a missing file\<close>
  nh_parse :: "string \<Rightarrow> json option"

definition snip36_repo :: "native_host \<Rightarrow> string" where
  "snip36_repo H = nh_home H @ ''/Workshop/snip-36-prover-backend''"

definition snip36_bin :: "native_host \<Rightarrow> string" where
  "snip36_bin H = env_or (nh_bin_var H) (snip36_repo H @ ''/target/release/snip36'')"

definition snip36_work_dir :: "native_host \<Rightarrow> string" where
  "snip36_work_dir H = env_or (nh_work_dir_var H) (snip36_repo H)"

definition prove_timeout_secs :: "native_host \<Rightarrow> nat" where
  "prove_timeout_secs H =
     (case Option.bind (nh_timeout_var H) (parse_radix 10 (2 ^ 64)) of None \<Rightarrow> 900 | Some n \<Rightarrow> n)"

text \<open>
  \<open>run_and_parse\<close>: the result, whether the process group was killed, and the files. \<open>sj\<close> prints a JSON value.
\<close>

definition read_outputs :: "native_host \<Rightarrow> string \<Rightarrow> text_files \<Rightarrow> string + json" where
  "read_outputs H dir fs =
     (let json_file = (\<lambda>name. Option.bind (fs (dir @ ''/'' @ name)) (nh_parse H))
      in parse_outputs (ok_or (nh_no_file H (dir @ ''/out.proof'')) (fs (dir @ ''/out.proof'')))
           (json_file ''out.proof_facts'') (json_file ''out.raw_messages.json''))"

definition run_and_parse ::
  "native_host \<Rightarrow> prover_command \<Rightarrow> string \<Rightarrow> string \<Rightarrow> text_files \<Rightarrow> (string + json) \<times> bool \<times> text_files" where
  "run_and_parse H cmd dir launch_hint fs =
     (let secs = prove_timeout_secs H; (outcome, fs') = nh_run H cmd secs fs
      in case outcome of
           LaunchFails e \<Rightarrow> (Err (''failed to launch prover ('' @ launch_hint @ ''): '' @ e), False, fs')
         | WaitFails e \<Rightarrow> (Err (''prover wait failed: '' @ e), False, fs')
         | TimesOut \<Rightarrow> (Err (''prover timed out after '' @ nat_dec secs @ ''s (killed)''), True, fs')
         | Exits False stderr \<Rightarrow> (Err (classify_prover_error stderr), True, fs')
         | Exits True _ \<Rightarrow> (read_outputs H dir fs', False, fs'))"

definition in_dir :: "string \<Rightarrow> string \<Rightarrow> bool" where
  "in_dir dir p \<longleftrightarrow> starts_with (dir @ ''/'') p"

definition remove_dir :: "native_host \<Rightarrow> string \<Rightarrow> text_files \<Rightarrow> text_files" where
  "remove_dir H dir fs = (if nh_remove_fails H then fs else (\<lambda>p. if in_dir dir p then None else fs p))"

definition prove_dir :: "native_host \<Rightarrow> nat \<Rightarrow> string" where
  "prove_dir H n = nh_temp_dir H @ ''/strkd-prove-'' @ nat_dec (nh_pid H) @ ''-'' @ nat_dec n"

definition prove_command :: "native_host \<Rightarrow> prove_inputs \<Rightarrow> string \<Rightarrow> prover_command" where
  "prove_command H inp dir =
     \<lparr>pc_bin = snip36_bin H, pc_work_dir = snip36_work_dir H, pc_env = prove_env inp,
      pc_args = [''prove'', ''virtual-os'', ''--block-number'', nat_dec (unat (pi_block_number inp)),
          ''--tx-json'', dir @ ''/tx_a.json'', ''--rpc-url'', pi_rpc_url inp, ''--output'', dir @ ''/out.proof'',
          ''--strk-fee-token'', pi_strk inp]
        @ (case nh_port H of None \<Rightarrow> [] | Some p \<Rightarrow> [''--port'', nat_dec p])\<rparr>"

text \<open>\<open>prove\<close>, with the counter of runs and the files. A failed write of the transaction leaves what it wrote.\<close>

definition native_prove ::
  "(json \<Rightarrow> string) \<Rightarrow> prover_rpc \<Rightarrow> native_host \<Rightarrow> settings \<Rightarrow> json \<Rightarrow> string \<Rightarrow> nat \<times> text_files
     \<Rightarrow> (string + json) \<times> nat \<times> text_files" where
  "native_prove sj rpc H settings payload network s =
     (let (n, fs) = s in
      if \<not> nh_bin_exists H (snip36_bin H)
      then (Err (''snip36 binary not found at '' @ snip36_bin H @ '' (set STRKD_SNIP36_BIN)''), s)
      else case preflight sj rpc settings payload network of
        Inl e \<Rightarrow> (Err e, s)
      | Inr inp \<Rightarrow>
          (let dir = prove_dir H n in
           case nh_make_dir H of
             Some e \<Rightarrow> (Err (''workdir: '' @ e), Suc n, fs)
           | None \<Rightarrow>
               (case nh_write_tx H of
                  Some (e, left) \<Rightarrow> (Err (''write tx: '' @ e), Suc n, fs(dir @ ''/tx_a.json'' := left))
                | None \<Rightarrow>
                    (let (r, _, fs') = run_and_parse H (prove_command H inp dir) dir ''is STRKD_SNIP36_BIN correct?''
                                         (fs(dir @ ''/tx_a.json'' \<mapsto> sj (pi_tx inp)))
                     in (r, Suc n, remove_dir H dir fs')))))"

section \<open>The contract of a backend\<close>

text \<open>Without a configuration for the network there is no proof: there is no mock.\<close>

locale prover_backend =
  fixes prove :: "settings \<Rightarrow> json \<Rightarrow> string \<Rightarrow> string + json"
    and configured :: "settings \<Rightarrow> string \<Rightarrow> bool"
  assumes unconfigured: "\<not> configured s network \<Longrightarrow> \<exists>e. prove s payload network = Err e"
begin

lemma proof_needs_configuration: "prove s payload network = Ok p \<Longrightarrow> configured s network"
  using unconfigured [of s network payload] by auto

text \<open>A job whose backend is not configured ends as failed, with the reason, and its record has no proof.\<close>

lemma unconfigured_job_fails:
  assumes "\<not> configured s network"
  shows "\<exists>e. prove_task sz ok now ms jid payload label network (prove s payload network) st
    = prove_task sz ok now ms jid payload label network (Err e) st"
  using unconfigured [OF assms, of payload] by auto

lemma unconfigured_unrecorded:
  assumes "\<not> configured s network"
  shows "\<exists>e. fst (prove_unrecorded now label (prove s payload network) st) = Err e"
  using unconfigured [OF assms, of payload] by (auto simp: prove_unrecorded_def Let_def case_prod_beta)

end

interpretation remote: prover_backend "remote_prover_prove status_text sj http"
  "\<lambda>s network. nc_prover_url (for_network s network) \<noteq> []" for status_text sj http
  by unfold_locales (simp add: remote_prover_prove_def)

interpretation native: prover_backend "\<lambda>s payload network. fst (native_prove sj rpc H s payload network st)"
  "\<lambda>s network. nh_bin_exists H (snip36_bin H) \<and> nc_rpc_url (for_network s network) \<noteq> []" for sj rpc H st
  by unfold_locales (auto simp: native_prove_def preflight_def Let_def split: prod.split)

section \<open>What a native proof leaves and tells\<close>

text \<open>The program writes only in the directory of its run.\<close>

definition stays_inside :: "native_host \<Rightarrow> bool" where
  "stays_inside H \<longleftrightarrow> (\<forall>inp n fs p. \<not> in_dir (prove_dir H n) p \<longrightarrow>
     snd (nh_run H (prove_command H inp (prove_dir H n)) (prove_timeout_secs H) fs) p = fs p)"

lemma in_dir_file: "in_dir dir (dir @ CHR ''/'' # name)"
  by (simp add: in_dir_def starts_with_def) (metis append_Cons append_Nil append_assoc strip_prefix_append option.distinct(1))

lemma run_and_parse_files: "snd (snd (run_and_parse H cmd dir hint fs)) = snd (nh_run H cmd (prove_timeout_secs H) fs)"
  by (auto simp: run_and_parse_def Let_def split: prod.split run_end.split bool.split)

text \<open>Whatever the outcome, the files are as before, unless the write of the transaction or the removal fails.\<close>

lemma native_prove_clean:
  assumes stays: "stays_inside H" and removes: "\<not> nh_remove_fails H" and writes: "nh_write_tx H = None"
    and empty: "\<And>p. in_dir (prove_dir H n) p \<Longrightarrow> fs p = None"
    and run: "native_prove sj rpc H settings payload network (n, fs) = (r, n', fs')"
  shows "fs' = fs"
proof
  fix p
  let ?dir = "prove_dir H n"
  consider "fs' = fs" | inp where "fs' = remove_dir H ?dir (snd (nh_run H (prove_command H inp ?dir) (prove_timeout_secs H)
      (fs(?dir @ ''/tx_a.json'' \<mapsto> sj (pi_tx inp)))))"
    using run writes run_and_parse_files
    by (fastforce simp: native_prove_def Let_def case_prod_beta split: if_splits sum.splits option.splits)
  then show "fs' p = fs p"
  proof cases
    case 2
    show ?thesis
    proof (cases "in_dir ?dir p")
      case True
      then show ?thesis using 2 empty removes by (simp add: remove_dir_def)
    next
      case False
      then have "p \<noteq> ?dir @ CHR ''/'' # ''tx_a.json''" using in_dir_file by metis
      then show ?thesis using 2 False stays removes by (simp add: remove_dir_def stays_inside_def)
    qed
  qed simp
qed

text \<open>A write that fails half-way leaves the transaction, with the viewing key in its calldata, in the temporary directory.\<close>

lemma failed_write_leaves_tx:
  assumes "nh_bin_exists H (snip36_bin H)" "preflight sj rpc settings payload network = Ok inp" "nh_make_dir H = None"
    and "nh_write_tx H = Some (e, Some part)"
  shows "snd (snd (native_prove sj rpc H settings payload network (n, fs))) (prove_dir H n @ ''/tx_a.json'') = Some part"
  using assms by (simp add: native_prove_def Let_def)

lemma native_prove_Ok:
  assumes "native_prove sj rpc H settings payload network (n, fs) = (Ok v, n', fs')"
  obtains inp fs1 stderr where "preflight sj rpc settings payload network = Ok inp"
    "nh_run H (prove_command H inp (prove_dir H n)) (prove_timeout_secs H) (fs(prove_dir H n @ ''/tx_a.json'' \<mapsto> sj (pi_tx inp)))
       = (Exits True stderr, fs1)"
    "read_outputs H (prove_dir H n) fs1 = Ok v"
proof -
  obtain inp where inp: "preflight sj rpc settings payload network = Ok inp"
    using assms by (auto simp: native_prove_def split: if_splits sum.splits)
  obtain out fs1 where out: "nh_run H (prove_command H inp (prove_dir H n)) (prove_timeout_secs H)
      (fs(prove_dir H n @ ''/tx_a.json'' \<mapsto> sj (pi_tx inp))) = (out, fs1)"
    by fastforce
  have "fst (run_and_parse H (prove_command H inp (prove_dir H n)) (prove_dir H n) ''is STRKD_SNIP36_BIN correct?''
      (fs(prove_dir H n @ ''/tx_a.json'' \<mapsto> sj (pi_tx inp)))) = Ok v"
    using assms inp by (auto simp: native_prove_def Let_def case_prod_beta split: if_splits option.splits)
  then obtain stderr where "out = Exits True stderr" "read_outputs H (prove_dir H n) fs1 = Ok v"
    using out by (auto simp: run_and_parse_def Let_def split: run_end.splits bool.splits)
  then show thesis using that inp out by blast
qed

end
