(* ===== verification/Prover_Instances.thy ===== *)
theory Prover_Instances
  imports Prover_Backends Instances
begin

text \<open>A host with a prover that writes one proof file, and a run on it.\<close>

definition demo_host :: native_host where
  "demo_host =
     \<lparr>nh_home = ''/home'', nh_bin_var = None, nh_work_dir_var = None, nh_timeout_var = None, nh_bin_exists = (\<lambda>_. True),
      nh_temp_dir = ''/tmp'', nh_pid = 7, nh_make_dir = None, nh_write_tx = None, nh_port = Some 4000, nh_remove_fails = False,
      nh_run = (\<lambda>cmd _ fs. (Exits True [], fs(pc_args cmd ! 9 \<mapsto> '' 0xaa ''))), nh_no_file = (\<lambda>_. ''no file''),
      nh_parse = (\<lambda>_. None)\<rparr>"

definition demo_payload :: json where
  "demo_payload = JObj [(''transaction'', JObj [(''signature'', JArr [JStr ''0x1''])]), (''block_number'', json_u64 7)]"

lemma demo_stays_inside: "stays_inside demo_host"
  using in_dir_file by (auto simp: stays_inside_def demo_host_def prove_command_def)

lemma demo_native_proof:
  "\<exists>fs'. native_prove (\<lambda>_. ''tx'') (\<lambda>_ _ _. Err []) demo_host demo_settings demo_payload ''mainnet'' (0, \<lambda>_. None)
     = (Ok (JObj [(''proof'', JStr ''0xaa''), (''proof_facts'', JNull), (''l2_to_l1_messages'', JArr [])]), 1, fs')"
proof -
  obtain inp where "preflight (\<lambda>_. ''tx'') (\<lambda>_ _ _. Err []) demo_settings demo_payload ''mainnet'' = Ok inp"
    by (simp add: preflight_def for_network_def demo_settings_def demo_payload_def is_signed_tx_def get_array_def get_u64_def
      check_nonce_def get_str_def net_params_def Let_def)
  then show ?thesis
    by (simp add: native_prove_def run_and_parse_def read_outputs_def demo_host_def prove_command_def parse_outputs_def
        trim_def is_space_def Let_def)
qed

end
