(* ===== verification/Rpc_Polling.thy ===== *)
theory Rpc_Polling
  imports Rpc_Strk20_Remote Rpc_Instances
begin

text \<open>
  When a proof by Starkscan's relay (\<open>prove_starkscan\<close> in \<open>strk20/remote.rs\<close>) ends: the polling has no bound of its own, it ends
  with the first answer that settles the job; the submissions are at most five.
\<close>

definition poll_request :: "string \<Rightarrow> string \<Rightarrow> string \<Rightarrow> http_request" where
  "poll_request root api_key job_id =
     \<lparr>hr_url = root @ ''/'' @ job_id, hr_headers = [(''X-Starkscan-Api-Key'', api_key)], hr_body = None\<rparr>"

text \<open>The answers after which the loop is left.\<close>

definition settled :: "http_reply \<Rightarrow> bool" where
  "settled reply =
     (case reply of
        NoAnswer _ \<Rightarrow> True
      | Answer status body \<Rightarrow> \<not> is_success status
          \<or> get_str (body_or_null body) ''status'' \<in> Some ` {''succeeded'', ''failed'', ''unavailable'', ''unknown_delivery''})"

definition polled :: "http_request \<Rightarrow> nat \<Rightarrow> sys \<Rightarrow> sys" where
  "polled req k s = s\<lparr>sy_trace := sy_trace s @ replicate k (HttpSent req), sy_step := sy_step s + k\<rparr>"

lemma polled_basic [simp]: "polled req 0 s = s" "sy_step (polled req k s) = sy_step s + k"
  "sy_trace (polled req k s) = sy_trace s @ replicate k (HttpSent req)"
  "polled req k (polled req j s) = polled req (j + k) s"
  by (simp_all add: polled_def replicate_add add.assoc)

lemma http_send_run:
  "http_send V req s = (Ok (e_http V (sy_step s) req), polled req 1 s)"
  by (simp add: http_send_def bnd_def emit_def at_step_def polled_def)

section \<open>One job\<close>

lemmas poll_step = starkscan_poll.simps(2) [folded poll_request_def]
lemmas submit_step = starkscan_submit.simps(2)

declare starkscan_poll.simps [simp del] starkscan_submit.simps [simp del]

lemma poll_waiting:
  assumes waiting: "\<not> settled (e_http V (sy_step s) (poll_request root api_key job_id))"
  shows "starkscan_poll V (Suc fuel) root api_key job_id s
    = starkscan_poll V fuel root api_key job_id (polled (poll_request root api_key job_id) 1 s)"
proof (cases "e_http V (sy_step s) (poll_request root api_key job_id)")
  case (NoAnswer e)
  then show ?thesis using waiting by (simp add: settled_def)
next
  case (Answer status body)
  then have "is_success status"
    "get_str (body_or_null body) ''status'' \<notin> Some ` {''succeeded'', ''failed'', ''unavailable'', ''unknown_delivery''}"
    using waiting by (simp_all add: settled_def)
  then show ?thesis using Answer unfolding poll_step
    by (cases "get_str (body_or_null body) ''status''") (simp_all add: http_send_run bnd_def Let_def)
qed

lemma poll_settled:
  assumes settled: "settled (e_http V (sy_step s) (poll_request root api_key job_id))"
  shows "\<exists>r. \<forall>fuel. starkscan_poll V (Suc fuel) root api_key job_id s
    = (Ok r, polled (poll_request root api_key job_id) 1 s)"
proof (cases "e_http V (sy_step s) (poll_request root api_key job_id)")
  case (NoAnswer e)
  then show ?thesis by (simp add: poll_step http_send_run bnd_def ret_def)
next
  case (Answer status body)
  consider "\<not> is_success status"
    | st where "is_success status" "get_str (body_or_null body) ''status'' = Some st"
        "st \<in> {''succeeded'', ''failed'', ''unavailable'', ''unknown_delivery''}"
    using settled Answer by (auto simp: settled_def)
  then show ?thesis
  proof cases
    case 1
    then show ?thesis using Answer by (simp add: poll_step http_send_run bnd_def ret_def Let_def)
  next
    case 2
    then show ?thesis using Answer by (elim insertE) (simp_all add: poll_step http_send_run bnd_def ret_def Let_def)
  qed
qed

lemma poll_skips:
  assumes "\<forall>i < k. \<not> settled (e_http V (sy_step s + i) (poll_request root api_key job_id))"
  shows "starkscan_poll V (k + fuel) root api_key job_id s
    = starkscan_poll V fuel root api_key job_id (polled (poll_request root api_key job_id) k s)"
  using assms
proof (induction k arbitrary: s)
  case (Suc k)
  have "\<not> settled (e_http V (sy_step s) (poll_request root api_key job_id))" using Suc.prems by force
  moreover have "\<forall>i < k. \<not> settled (e_http V (Suc (sy_step s) + i) (poll_request root api_key job_id))"
    using Suc.prems by fastforce
  ultimately show ?case using Suc.IH [of "polled (poll_request root api_key job_id) 1 s"]
    by (simp add: poll_waiting)
qed simp

text \<open>An answer that settles the job within \<open>fuel\<close> polls ends the loop, and more patience changes nothing.\<close>

lemma poll_ends:
  assumes "\<exists>k < fuel. settled (e_http V (sy_step s + k) (poll_request root api_key job_id))"
  obtains k r where "k < fuel"
    "\<forall>more. starkscan_poll V (fuel + more) root api_key job_id s = (Ok r, polled (poll_request root api_key job_id) (Suc k) s)"
proof -
  let ?req = "poll_request root api_key job_id"
  let ?P = "\<lambda>k. settled (e_http V (sy_step s + k) ?req)"
  obtain k' where k': "k' < fuel" "?P k'" using assms by blast
  obtain k where k: "?P k" "k \<le> k'" "\<forall>i < k. \<not> ?P i"
    using LeastI [of ?P, OF k'(2)] Least_le [of ?P, OF k'(2)] not_less_Least [of _ ?P] by blast
  then have less: "k < fuel" using k'(1) by simp
  have "settled (e_http V (sy_step (polled ?req k s)) ?req)" using k(1) by simp
  then obtain r where r: "\<forall>m. starkscan_poll V (Suc m) root api_key job_id (polled ?req k s) = (Ok r, polled ?req 1 (polled ?req k s))"
    using poll_settled by blast
  have "starkscan_poll V (fuel + more) root api_key job_id s = (Ok r, polled ?req (Suc k) s)" for more
  proof -
    have eq: "fuel + more = k + Suc (fuel - Suc k + more)" using less by simp
    show ?thesis by (subst eq, subst poll_skips [OF k(3)]) (simp add: r)
  qed
  then show thesis using that less by blast
qed

text \<open>A job that is never settled is polled until the caller gives up, whatever its patience.\<close>

lemma pending_job_polled_forever:
  assumes "\<forall>n. \<not> settled (e_http V n (poll_request root api_key job_id))"
  shows "starkscan_poll V fuel root api_key job_id s
    = (Err (Crash ''the prover never answered''), polled (poll_request root api_key job_id) fuel s)"
  using poll_skips [of fuel V s root api_key job_id 0] assms by (simp add: starkscan_poll.simps(1) crash_def)

section \<open>The submissions\<close>

definition submissions :: "event list \<Rightarrow> nat" where
  "submissions es = length (filter (\<lambda>ev. case ev of HttpSent req \<Rightarrow> hr_body req \<noteq> None | _ \<Rightarrow> False) es)"

lemma submissions_polls [simp]:
  "submissions (replicate k (HttpSent (poll_request root api_key job_id))) = 0" "submissions [] = 0"
  "submissions (es @ fs) = submissions es + submissions fs"
  by (simp_all add: submissions_def poll_request_def)

text \<open>Every job of this run is settled within \<open>fuel\<close> polls.\<close>

definition jobs_settle :: "'pt env \<Rightarrow> nat \<Rightarrow> string \<Rightarrow> string \<Rightarrow> bool" where
  "jobs_settle V fuel root api_key \<longleftrightarrow>
     (\<forall>job_id n. \<exists>k < fuel. settled (e_http V (n + k) (poll_request root api_key job_id)))"

text \<open>One turn of the submission loop: an answer, or a job that asks to be submitted again.\<close>

lemma submit_turn:
  assumes settle: "jobs_settle V fuel root api_key"
  obtains (answered) r s' es where
      "\<forall>more. starkscan_submit V (fuel + more) (Suc n) root api_key idem body s = (Ok r, s')"
      "sy_trace s' = sy_trace s @ es" "submissions es = 1"
    | (again) s' es where
      "\<forall>more. starkscan_submit V (fuel + more) (Suc n) root api_key idem body s
         = starkscan_submit V (fuel + more) n root api_key idem body s'"
      "sy_trace s' = sy_trace s @ es" "submissions es = 1"
proof -
  let ?post = "post_json root [(''X-Starkscan-Api-Key'', api_key), (''Idempotency-Key'', idem)] body"
  let ?s1 = "polled ?post 1 s"
  have sub: "submissions [HttpSent ?post] = 1" by (simp add: submissions_def post_json_def)
  have here: thesis if "\<forall>more. starkscan_submit V (fuel + more) (Suc n) root api_key idem body s = (Ok r, ?s1)" for r
    using that sub by (intro answered [of r ?s1 "[HttpSent ?post]"]) simp_all
  note step = submit_step http_send_run bnd_def ret_def Let_def
  consider e where "e_http V (sy_step s) ?post = NoAnswer e"
    | status b where "e_http V (sy_step s) ?post = Answer status b" "\<not> is_success status"
    | status b where "e_http V (sy_step s) ?post = Answer status b" "is_success status" "get_str (body_or_null b) ''jobId'' = None"
    | status b job where "e_http V (sy_step s) ?post = Answer status b" "is_success status" "get_str (body_or_null b) ''jobId'' = Some job"
    by (metis http_reply.exhaust not_None_eq)
  then show thesis
  proof cases
    case (1 e)
    then show thesis by (intro here [of "Err (Unavailable e)"]) (simp add: step)
  next
    case (2 status b)
    then show thesis by (intro here [of "Err (starkscan_http_error V status (body_or_null b))"]) (simp add: step)
  next
    case (3 status b)
    then show thesis by (intro here [of "Err (RemoteOther (''no jobId in '' @ e_to_string V (body_or_null b)))"]) (simp add: step)
  next
    case (4 status b job)
    have "\<exists>k < fuel. settled (e_http V (sy_step ?s1 + k) (poll_request root api_key job))"
      using settle unfolding jobs_settle_def by blast
    then obtain k r where k: "\<forall>more. starkscan_poll V (fuel + more) root api_key job ?s1
        = (Ok r, polled (poll_request root api_key job) (Suc k) ?s1)"
      by (rule poll_ends)
    let ?s2 = "polled (poll_request root api_key job) (Suc k) ?s1"
    let ?es = "[HttpSent ?post] @ replicate (Suc k) (HttpSent (poll_request root api_key job))"
    have es: "sy_trace ?s2 = sy_trace s @ ?es" "submissions ?es = 1"
      by (simp, simp only: submissions_polls sub)
    show thesis
    proof (cases r)
      case (Some answer)
      then show thesis using 4 k by (intro answered [OF _ es, of answer]) (simp add: step)
    next
      case None
      then show thesis using 4 k by (intro again [OF _ es]) (simp add: step)
    qed
  qed
qed

lemma submit_ends:
  assumes settle: "jobs_settle V fuel root api_key"
  shows "\<exists>r s' es. (\<forall>more. starkscan_submit V (fuel + more) n root api_key idem body s = (Ok r, s'))
    \<and> sy_trace s' = sy_trace s @ es \<and> submissions es \<le> n"
proof (induction n arbitrary: s)
  case 0
  show ?case by (auto simp: starkscan_submit.simps ret_def submissions_def)
next
  case (Suc n)
  show ?case
  using settle
  proof (cases rule: submit_turn [where n = n and idem = idem and body = body and s = s])
    case (answered r s' es)
    then show ?thesis by (intro exI [of _ r] exI [of _ s'] exI [of _ es]) simp
  next
    case (again s1 es)
    obtain r s' es' where "\<forall>more. starkscan_submit V (fuel + more) n root api_key idem body s1 = (Ok r, s')"
      "sy_trace s' = sy_trace s1 @ es'" "submissions es' \<le> n"
      using Suc.IH by blast
    then show ?thesis using again by (intro exI [of _ r] exI [of _ s'] exI [of _ "es @ es'"]) simp
  qed
qed

lemma starkscan_ends:
  assumes "jobs_settle V fuel (trim_end_slash base @ ''/v1/SN_MAIN/prove'') api_key"
  shows "\<exists>r s' es. (\<forall>more. prove_starkscan V (fuel + more) base api_key chain bn tx s = (Ok r, s'))
    \<and> sy_trace s' = sy_trace s @ es \<and> submissions es \<le> 5"
proof (cases chain)
  case Mainnet
  let ?s1 = "s\<lparr>sy_step := Suc (sy_step s)\<rparr>"
  show ?thesis
    using submit_ends [OF assms, of 5 "hex_encode (e_draw V 16 (sy_step s))"
        "JObj [(''block_id'', block_json bn), (''transaction'', tx)]" ?s1] Mainnet
    by (simp add: prove_starkscan_def at_step_def bnd_def)
next
  case Sepolia
  then show ?thesis by (auto simp: prove_starkscan_def ret_def submissions_def)
qed

section \<open>A relay that answers after some polls\<close>

definition demo_relay :: "felt env" where
  "demo_relay = demo_env\<lparr>e_http := (\<lambda>n req.
     if hr_body req \<noteq> None then Answer 200 (Ok (JObj [(''jobId'', JStr ''j'')]))
     else if odd n then Answer 200 (Ok (JObj [(''status'', JStr ''queued'')]))
     else Answer 200 (Ok (JObj [(''status'', JStr ''succeeded''), (''result'', JBool True)])))\<rparr>"

lemma demo_relay_settles: "jobs_settle demo_relay 2 root api_key"
proof -
  have "\<exists>k < 2. even (n + k)" for n :: nat by (cases "even n") (auto intro: exI [of _ 0] exI [of _ 1])
  moreover have "settled (e_http demo_relay n (poll_request root api_key job_id))" if "even n" for n job_id
    using that by (simp add: demo_relay_def settled_def poll_request_def is_success_def body_or_null_def get_str_def)
  ultimately show ?thesis unfolding jobs_settle_def by blast
qed

end
