(* ===== verification/Rpc_Usage.thy ===== *)
theory Rpc_Usage
  imports Rpc_Requests
begin

text \<open>
  \<open>crates/wallet-rpc/src/usage.rs\<close>: the document that \<open>GET /\<close> serves, section by section, and its agreement with the
  dispatcher. A line of the catalogue is \<open>method_doc\<close> with the name, what it says of the token and the prompt, and the
  rest of its members. \<open>version\<close> is \<open>CARGO_PKG_VERSION\<close>.
\<close>

section \<open>The document\<close>

definition method_doc :: "string \<Rightarrow> json \<Rightarrow> json \<Rightarrow> (string \<times> json) list \<Rightarrow> json" where
  "method_doc m auth prompts rest =
     JObj ([(''method'', JStr m), (''auth'', auth), (''prompts'', prompts)] @ rest)"

definition usage_alpha_notice :: json where
  "usage_alpha_notice =
     JObj
        [(''status'', JStr (''strkd is ALPHA software under active development. Expect missing methods, rough edges, partial''
                 @ '' features, and capabilities that simply do not exist yet.'')),
         (''do_not_work_around'', JStr (''If you hit a limitation '' @ utf8_dash
                 @ '' a missing method, a confusing or unexpected error, a parameter that isn'' @ [CHR 0x27]
                 @ ''t accepted, or behaviour that blocks your task '' @ utf8_dash
                 @ '' DO NOT invent a workaround, fake or guess a result, fall back to handling keys/seeds/signing''
                 @ '' yourself, or silently abandon the step. A workaround hides the gap and makes it permanent. STOP''
                 @ '' and report it instead. The maintainer reads these reports and fixes strkd, so a clear report is''
                 @ '' the FASTEST path to the capability you want.'')),
         (''call_to_action'', JStr (''Tell your operator (the human running strkd) exactly what you need, using the report format below.''
                 @ '' Emit the filled-in block VERBATIM in your reply to them '' @ utf8_dash @ '' don'' @ [CHR 0x27]
                 @ ''t just mention it in passing. They relay it to the strkd maintainer.'')),
         (''github_shortcut'', JStr (''Faster path when your operator can reach the repo: call companion_reportIssue with these same''
                 @ '' fields and you get back a PREFILLED GitHub new-issue `url`. Hand them the url '' @ utf8_dash
                 @ '' they open it, review/edit, and submit in their own browser. strkd files nothing itself and holds''
                 @ '' no GitHub token. The STRKD-FEEDBACK block below is the universal fallback when they can'' @ [CHR 0x27]
                 @ ''t (or don'' @ [CHR 0x27] @ ''t want to) use GitHub.'')),
         (''report_format'', JStr (''Copy this block, fill every field, and hand it to your operator verbatim:'' @ [CHR 0x0A] @ [CHR 0x0A]
                 @ ''=== STRKD-FEEDBACK ==='' @ [CHR 0x0A] @ ''goal:        <the task you were trying to accomplish, one line>''
                 @ [CHR 0x0A] @ ''attempted:   <method(s) + params you called '' @ utf8_dash @ '' or '' @ [CHR 0x22]
                 @ ''no method exists for this'' @ [CHR 0x22] @ ''>'' @ [CHR 0x0A]
                 @ ''observed:    <the exact JSON-RPC error code + message, or '' @ [CHR 0x22] @ ''capability missing'' @ [CHR 0x22]
                 @ ''>'' @ [CHR 0x0A] @ ''limitation:  <what strkd could not do, stated plainly>'' @ [CHR 0x0A]
                 @ ''needed:      <the specific method / param / behaviour that would unblock you>'' @ [CHR 0x0A]
                 @ ''impact:      <blocked | degraded | cosmetic> '' @ utf8_dash @ '' <what you could NOT do as a result>''
                 @ [CHR 0x0A] @ ''workaround_avoided: <what you were tempted to do instead, so we can design it away; ''
                 @ [CHR 0x22] @ ''none'' @ [CHR 0x22] @ '' if N/A>'' @ [CHR 0x0A] @ ''context:     strkd v<version> ''
                 @ [CHR 0xC2, CHR 0xB7] @ '' network <from companion_getStatus> '' @ [CHR 0xC2, CHR 0xB7] @ '' <UTC timestamp>''
                 @ [CHR 0x0A] @ ''=== END ==='')),
         (''guidance'', JArr
           [JStr (''One report per distinct limitation '' @ utf8_dash @ '' don'' @ [CHR 0x27]
                  @ ''t batch unrelated gaps into one block.''),
            JStr (''Be concrete in `needed`: '' @ [CHR 0x27] @ ''a companion_getBalance {address} method'' @ [CHR 0x27] @ '' beats ''
                  @ [CHR 0x27] @ ''better balance support'' @ [CHR 0x27] @ ''.''),
            JStr ''Fill `context` from companion_getStatus (version + network) so the maintainer can reproduce.'',
            JStr (''If a call errored, paste the literal JSON-RPC error object into `observed` '' @ utf8_dash @ '' don'' @ [CHR 0x27]
                  @ ''t paraphrase it.''),
            JStr (''After emitting the report, do the safe thing: stop, or ask the operator how to proceed. Never''
                  @ '' continue by mishandling keys, seeds, or the user'' @ [CHR 0x27] @ ''s funds.'')])]"

definition usage_transport :: json where
  "usage_transport =
     JObj
        [(''protocol'', JStr ''JSON-RPC 2.0 over HTTP POST to / (this base URL). GET / returns this doc.''),
         (''headers'', JObj
           [(''X-Companion-Client'', JStr (''required on every POST '' @ utf8_dash @ '' any stable identifier for your client'')),
            (''Authorization'', JStr (''Bearer <token> '' @ utf8_dash @ '' required after pairing (see quickstart)'')),
            (''Content-Type'', JStr ''application/json'')]),
         (''rejected'', JStr (''Requests carrying an Origin/Referer header, or a non-loopback Host, or no X-Companion-Client are''
                 @ '' rejected with HTTP 403 / error -32003 (CSRF & DNS-rebinding guard). Callers are expected to be''
                 @ '' local native processes.''))]"

definition usage_concepts :: json where
  "usage_concepts =
     JObj
        [(''accounts'', JStr (''All accounts derive from one seed. As an agent you can only see and use accounts YOU created''
                 @ '' (companion_createAgentAccount); requestAccounts/listAccounts are scoped to them. A new account is''
                 @ '' counterfactual (off-chain) until you deploy it (companion_deployAccount). An account'' @ [CHR 0x27]
                 @ ''s address is identical on Mainnet and Sepolia.'')),
         (''networks'', JStr (''Pick the network PER REQUEST: pass an optional chainId (felt-encoded, e.g. SN_SEPOLIA / SN_MAIN) to''
                 @ '' the operational methods (wallet_addInvokeTransaction, wallet_addDeclareTransaction,''
                 @ '' companion_deployAccount, companion_estimateFee, companion_requestFunding). Omit it to use the'' @ '' wallet''
                 @ [CHR 0x27]
                 @ ''s default network. This is the recommended, race-free way to choose a chain. wallet_requestChainId''
                 @ '' reports the current default. wallet_switchStarknetChain is DEPRECATED for agents '' @ utf8_dash
                 @ '' it mutates a single shared default for ALL clients (one agent can switch it out from under''
                 @ '' another); the human sets the default in the app'' @ [CHR 0x27]
                 @ ''s Settings. Broadcasting/fee-estimation need an RPC node configured for the chosen network (in the app''
                 @ [CHR 0x27] @ ''s Settings); without one the wallet is sign-only on that network.'')),
         (''funding'', JStr (''Accounts pay their own fees. Get STRK with companion_requestFunding: it transfers from the USER'' @ [CHR 0x27]
                 @ ''s manager account into one of YOUR accounts. This ALWAYS needs the user'' @ [CHR 0x27]
                 @ ''s approval (it spends their funds) '' @ utf8_dash @ '' see permissions.'')),
         (''permissions'', JStr (''By default every prompts:true call waits for the user. The user MAY grant your client a''
                 @ '' time-bounded auto-approval window (up to 3 months, revocable) '' @ utf8_dash
                 @ '' then your own-account operations (sign/invoke/declare/deploy/create) run WITHOUT a prompt.''
                 @ '' companion_requestFunding ALWAYS prompts, grant or not. Check companion_getStatus.grant to see if a''
                 @ '' grant is active; request one yourself with companion_requestGrant (always prompts).'')),
         (''proving'', JStr (''strkd bundles an ON-DEVICE prover for SNIP-36 (prove a private Starknet computation off-chain,''
                 @ '' verify only the result on-chain). The prover holds NO keys '' @ utf8_dash
                 @ '' it proves an ALREADY-SIGNED transaction. SNIP-36 is TWO transactions: (Tx A) a PRIVATE virtual''
                 @ '' invoke (e.g. your contract'' @ [CHR 0x27]
                 @ ''s create_proof(public, private)) that is signed + proven off-chain and NEVER broadcast; (Tx B) a''
                 @ '' verifier invoke (e.g. verify_result(public_message)) broadcast on-chain carrying proof_facts +''
                 @ '' proof. Fastest path: companion_signAndProve signs Tx A and proves it in one call (your private''
                 @ '' inputs never leave this machine), then you broadcast Tx B yourself with''
                 @ '' wallet_addInvokeTransaction {proof_facts, proof, submit:true}. See the snip36_proving flow below.''
                 @ '' CRITICAL: a virtual tx carries PRIVATE calldata, so you MUST pass explicit resource_bounds '' @ utf8_dash
                 @ '' strkd refuses to fee-estimate it (estimating online would send your private inputs to the RPC''
                 @ '' node). Tx A is NOT proof-carrying (proof_facts are an OUTPUT of proving, not in Tx A'' @ [CHR 0x27]
                 @ ''s hash). Proving needs the native prover (bundled on-device) or a configured remote prover, plus a''
                 @ '' per-network RPC, set in the app'' @ [CHR 0x27]
                 @ ''s Settings. There is NO mock/fake proof: an unconfigured backend FAILS the prove with a clear error''
                 @ '' rather than returning a fake.''))]"

definition usage_quickstart :: json where
  "usage_quickstart =
     JArr
        [JStr (''1. Pair once: POST {'' @ [CHR 0x22] @ ''jsonrpc'' @ [CHR 0x22] @ '':'' @ [CHR 0x22] @ ''2.0'' @ [CHR 0x22]
               @ '','' @ [CHR 0x22] @ ''id'' @ [CHR 0x22] @ '':1,'' @ [CHR 0x22] @ ''method'' @ [CHR 0x22] @ '':'' @ [CHR 0x22]
               @ ''companion_requestPairing'' @ [CHR 0x22] @ '','' @ [CHR 0x22] @ ''params'' @ [CHR 0x22] @ '':{'' @ [CHR 0x22]
               @ ''name'' @ [CHR 0x22] @ '':'' @ [CHR 0x22] @ ''my-agent'' @ [CHR 0x22] @ '','' @ [CHR 0x22] @ ''kind''
               @ [CHR 0x22] @ '':'' @ [CHR 0x22] @ ''agent'' @ [CHR 0x22]
               @ ''}} with header X-Companion-Client. The user approves; you receive {client_id, token}. (Pairing +''
               @ '' grants persist across restarts.)''),
         JStr ''2. On every later call send Authorization: Bearer <token> and X-Companion-Client.'',
         JStr (''3. Create an account: companion_createAgentAccount {label?} '' @ utf8_arrow
               @ '' {address, index} (counterfactual).''),
         JStr (''4. Fund it: companion_requestFunding {amount} (amount in fri; +submit:true to broadcast). The user''
               @ '' approves; the manager account pays. Fund before deploying.''),
         JStr (''5. Deploy it: companion_deployAccount {} (+submit:true), or broadcast the returned signed''
               @ '' DEPLOY_ACCOUNT yourself.''),
         JStr (''6. Transact: wallet_addInvokeTransaction {account_address, calls} (+submit:true). Each call =''
               @ '' {contract_address, entry_point_selector (name or 0x), calldata}.''),
         JStr ''Check state anytime with companion_getStatus (locked? which network?).'']"

definition usage_snip36_proving :: json where
  "usage_snip36_proving =
     JObj
        [(''what'', JStr (''Prove a PRIVATE Starknet computation off-chain (SNIP-36) and verify only the result on-chain '' @ utf8_dash
                 @ '' your private inputs never leave this machine. It is a TWO-transaction flow; strkd automates the''
                 @ '' key-holding half (sign + prove), you broadcast the verifier tx. See concepts.proving.'')),
         (''steps'', JArr
           [JStr (''1. Build the VIRTUAL call (Tx A) '' @ utf8_dash @ '' your contract'' @ [CHR 0x27]
                  @ ''s virtual function, e.g. create_proof(public_input, private_input). Choose resource_bounds MANUALLY (~2''
                  @ utf8_times @ '' current gas prices); do NOT estimate (that would leak your private calldata to the RPC node).''),
            JStr (''2. Sign + prove in one step: companion_signAndProve {account_address, calls, resource_bounds,''
                  @ '' nonce, block_number?, chainId?} '' @ utf8_arrow
                  @ '' {job_id}. strkd signs Tx A and proves it on-device; the signed tx is never broadcast. (nonce must''
                  @ '' equal the account nonce at the reference block.)''),
            JStr (''3. Poll companion_proveStatus {job_id} until status is '' @ [CHR 0x22] @ ''succeeded'' @ [CHR 0x22] @ '' ''
                  @ utf8_arrow @ '' result = {proof, proof_facts, l2_to_l1_messages} (or '' @ [CHR 0x22] @ ''failed'' @ [CHR 0x22]
                  @ '' with an error).''),
            JStr (''4. Decode l2_to_l1_messages[0].payload into your verifier'' @ [CHR 0x27] @ ''s public_message and build Tx B ''
                  @ utf8_dash @ '' the ON-CHAIN verifier call, e.g. verify_result(public_message).''),
            JStr (''5. Broadcast Tx B: wallet_addInvokeTransaction {account_address, calls:[<verifier call>],''
                  @ '' proof_facts, proof, resource_bounds, submit:true}. proof_facts extend the signed hash; proof rides''
                  @ '' along on broadcast (both required on submit). strkd cannot build Tx B for you '' @ utf8_dash
                  @ '' its calldata is app-specific.''),
            JStr (''Already hold a signed virtual tx (signed elsewhere)? Skip step 2 and call companion_prove''
                  @ '' {payload:{transaction:<signed invoke-v3>, block_number?}, network?} instead '' @ utf8_dash
                  @ '' same proof result.'')])]"

definition usage_strk20_privacy :: json where
  "usage_strk20_privacy =
     JObj
        [(''what'', JStr (''Private balances in the Starknet privacy pool (STRK20, wallet-API 0.10.4). Funds in the pool are''
                 @ '' notes only your account'' @ [CHR 0x27]
                 @ ''s viewing key can read or spend; strkd derives that key per call (same derivation as bramble, so''
                 @ '' the same seed sees the same notes) and never returns it.'')),
         (''how_it_runs'', JStr (''register, transfer and withdraw are PROVED ON THIS MACHINE (~20-70 s). A deposit must be screened,''
                 @ '' so it is proved by a remote screening prover (the user'' @ [CHR 0x27]
                 @ ''s own, else Starkscan with the user'' @ [CHR 0x27]
                 @ ''s key, else the bramble gateway; mainnet only for the latter two) '' @ utf8_dash
                 @ '' that prover sees the transaction, viewing key included. Register and deposits are public and''
                 @ '' submitted from your account. Transfers and withdrawals are relayed privately by the AVNU paymaster''
                 @ '' if the user set an AVNU key; otherwise use wallet_strk20PrepareInvoke and submit the result from''
                 @ '' ANY other account. Each call is approval-gated and synchronous (expect up to ~1-2 min).'')),
         (''steps'', JArr
           [JStr (''1. Register once: companion_strk20Register {account_address?} '' @ utf8_arrow
                  @ '' {transaction_hash}. Opens your channel to yourself too.''),
            JStr (''2. Shield: wallet_strk20InvokeTransaction {actions:[{type:'' @ [CHR 0x22] @ ''deposit'' @ [CHR 0x22]
                  @ '', token, amount}]} '' @ utf8_arrow @ '' {transaction_hash}. Deposits can'' @ [CHR 0x27]
                  @ ''t share a batch with private actions.''),
            JStr (''3. Read: wallet_strk20Balances {tokens:['' @ utf8_ellipsis @ '']} '' @ utf8_arrow
                  @ '' [{token, balance}] (hex, base units). Notes become spendable ~12 blocks after they land.''),
            JStr (''4. Send privately / unshield: wallet_strk20InvokeTransaction {actions:[{type:'' @ [CHR 0x22] @ ''transfer''
                  @ [CHR 0x22] @ '', token, amount, recipient}, {type:'' @ [CHR 0x22] @ ''withdraw'' @ [CHR 0x22]
                  @ '', token, amount, recipient}]} (needs the AVNU key) '' @ utf8_dash
                  @ '' or wallet_strk20PrepareInvoke with the same actions '' @ utf8_arrow
                  @ '' {call, proof}, then submit from another account: wallet_addInvokeTransaction''
                  @ '' {account_address:<other>, calls:[call], proof_facts:proof.proof_facts, proof:proof.data,''
                  @ '' submit:true}.''),
            JStr (''Amounts are felts in base units (0x'' @ utf8_ellipsis
                  @ ''). The recipient of a transfer must be registered (else 118). Not supported yet: transfer amount ''
                  @ [CHR 0x22] @ ''OPEN'' @ [CHR 0x22] @ '', invoke and shadow_account_invoke actions (-32601).'')])]"

definition usage_methods_1 :: "json list" where
  "usage_methods_1 =
     [method_doc ''companion_getStatus'' (JBool False) (JBool False)
        [(''params'', JStr ''{}''),
         (''returns'', JStr ''{ locked, network, api_version, grant }''),
         (''note'', JStr (''No auth. Detects lock state / active network. If you present your Bearer token, `grant` = { active,''
                  @ '' expires_at } for your client (null otherwise) '' @ utf8_dash
                  @ '' use it to know whether your calls will prompt or auto-approve.''))],
      method_doc ''wallet_supportedWalletApi'' (JBool False) (JBool False)
        [(''params'', JStr ''{}''),
         (''returns'', JStr ''SEMVER[]'')],
      method_doc ''wallet_supportedSpecs'' (JBool False) (JBool False)
        [(''params'', JStr ''{}''),
         (''returns'', JStr ''Starknet JSON-RPC spec version[]'')],
      method_doc ''wallet_getPermissions'' (JBool False) (JBool False)
        [(''params'', JStr ''{}''),
         (''returns'', JStr (''['' @ [CHR 0x22] @ ''accounts'' @ [CHR 0x22] @ ''] if paired, else []''))],
      method_doc ''companion_requestPairing'' (JBool False) (JBool True)
        [(''params'', JStr (''{ name, kind: '' @ [CHR 0x22] @ ''agent'' @ [CHR 0x22] @ ''|'' @ [CHR 0x22] @ ''app'' @ [CHR 0x22]
                  @ '', reattach? }'')),
         (''returns'', JStr ''{ client_id, token } (+ reattached:true on re-attach)''),
         (''note'', JStr (''Call once; persist the token (it survives restarts). If you lose it, re-pair with the SAME name +''
                  @ '' reattach:true to recover your existing client_id and its accounts (user-approved) instead of''
                  @ '' starting fresh. Always prompts.''))],
      method_doc ''companion_createAgentAccount'' (JStr ''agent'') (JBool True)
        [(''params'', JStr ''{ label? }''),
         (''returns'', JStr ''{ address, index, label }''),
         (''note'', JStr ''Derives the next account in your (agent) branch.'')]]"

definition usage_methods_2 :: "json list" where
  "usage_methods_2 =
     [method_doc ''companion_listAccounts'' (JBool True) (JBool False)
        [(''params'', JStr ''{}''),
         (''returns'', JStr (''Account[] '' @ utf8_dash @ '' { domain, index, address, label } (yours only)''))],
      method_doc ''wallet_requestAccounts'' (JBool True) (JBool False)
        [(''params'', JStr ''{}''),
         (''returns'', JStr ''address[] (yours only)'')],
      method_doc ''wallet_requestChainId'' (JBool True) (JBool False)
        [(''params'', JStr ''{}''),
         (''returns'', JStr ''chain id felt (SN_SEPOLIA / SN_MAIN encoded)'')],
      method_doc ''wallet_deploymentData'' (JBool True) (JBool False)
        [(''params'', JStr ''{}''),
         (''returns'', JStr ''{ address, class_hash, salt, constructor_calldata }''),
         (''note'', JStr ''Counterfactual deployment data for your first in-scope account.'')],
      method_doc ''companion_fundingSource'' (JBool True) (JBool False)
        [(''params'', JStr ''{}''),
         (''returns'', JStr ''{ address, index }''),
         (''note'', JStr (''The manager account that funds agents '' @ utf8_dash
                  @ '' look up its nonce before requestFunding if no node is configured.''))],
      method_doc ''companion_reportIssue'' (JBool True) (JBool False)
        [(''params'', JStr ''{ goal, needed, attempted?, observed?, limitation?, impact?, workaround_avoided?, title? }''),
         (''returns'', JStr ''{ url, title, body, repo, filed:false, instructions }''),
         (''note'', JStr (''strkd is alpha '' @ utf8_dash
                  @ '' when you hit a limitation, call this to turn your STRKD-FEEDBACK fields into a PREFILLED GitHub''
                  @ '' new-issue link. goal + needed are required; the rest mirror the report template. It files NOTHING''
                  @ '' and stores no credential '' @ utf8_dash
                  @ '' your operator opens the returned `url`, reviews/edits it, and submits it in their own browser (so''
                  @ '' repo access + human review are the gate). Works whether the wallet is locked or not. See''
                  @ '' alpha_notice.''))]]"

definition usage_methods_3 :: "json list" where
  "usage_methods_3 =
     [method_doc ''companion_requestGrant'' (JBool True) (JBool True)
        [(''params'', JStr ''{ days? }''),
         (''returns'', JStr ''{ granted, expires_at, days }''),
         (''note'', JStr (''Ask the user for an auto-approval window (1'' @ [CHR 0xE2, CHR 0x80, CHR 0x93]
                  @ ''90 days, default 30). Always prompts '' @ utf8_dash
                  @ '' a permission escalation is never auto-approved. While granted, your own-account ops skip prompts''
                  @ '' (funding still prompts). The user can also grant/revoke from the desktop Agents panel.''))],
      method_doc ''companion_estimateFee'' (JBool True) (JBool False)
        [(''params'', JStr ''{ account_address, calls, nonce?, chainId? }''),
         (''returns'', JStr ''{ nonce, resource_bounds (canonical hex) }''),
         (''note'', JStr (''Opt-in fee help for sign-only callers: suggested bounds + nonce from the node, even if you'' @ [CHR 0x27]
                  @ ''ll sign-only and broadcast elsewhere. Paste resource_bounds straight into addInvokeTransaction.''
                  @ '' Needs a node. Do NOT use for SNIP-36 virtual txs with private calldata (it simulates the calls''
                  @ '' online).''))],
      method_doc ''companion_requestFunding'' (JStr ''agent'') (JStr ''always'')
        [(''params'', JStr (''{ amount (fri), recipient?, token?, funding_source_index?, submit?, nonce?, resource_bounds?, chainId? }'')),
         (''returns'', JStr (''{ transaction_hash, recipient, amount, submitted } (+ signature/signed_transaction when not submitted)'')),
         (''note'', JStr (''Funds one of YOUR accounts with STRK from the user'' @ [CHR 0x27]
                  @ ''s manager account. recipient defaults to your first account; you can only fund accounts you own.''
                  @ '' ALWAYS requires the user'' @ [CHR 0x27] @ ''s approval (even under a grant) '' @ utf8_dash
                  @ '' it spends the user'' @ [CHR 0x27] @ ''s funds. If the manager isn'' @ [CHR 0x27]
                  @ ''t deployed on the active network, returns -32006 naming the manager + the fix (not an opaque node error).''))],
      method_doc ''companion_deployAccount'' (JBool True) (JBool True)
        [(''params'', JStr ''{ account?, submit?, resource_bounds?, chainId? }''),
         (''returns'', JStr (''{ transaction_hash, contract_address, submitted } (+ signature/signed_transaction when not submitted)'')),
         (''note'', JStr (''Deploy one of YOUR accounts (DEPLOY_ACCOUNT v3). account defaults to your first. Must already hold''
                  @ '' funds for its deploy fee '' @ utf8_dash
                  @ '' fund it first. submit:true broadcasts; else broadcast the returned signed tx. Nonce is 0; fee''
                  @ '' auto-estimated with a node, else pass resource_bounds.''))],
      method_doc ''companion_prove'' (JBool True) (JBool False)
        [(''params'', JStr (''{ payload, network?: '' @ [CHR 0x22] @ ''mainnet'' @ [CHR 0x22] @ ''|'' @ [CHR 0x22] @ ''testnet'' @ [CHR 0x22]
                  @ '', label? }'')),
         (''returns'', JStr (''{ job_id, status: '' @ [CHR 0x22] @ ''queued'' @ [CHR 0x22] @ '', next }'')),
         (''note'', JStr (''On-device proving companion. Hand it an opaque, ALREADY-SIGNED payload; it proves locally and''
                  @ '' returns the proof '' @ utf8_dash
                  @ '' it never signs and holds no key material. For SNIP-36 the payload is { transaction: <signed''
                  @ '' invoke-v3>, block_number? }; the proof comes back as { proof (base64 STWO), proof_facts,''
                  @ '' l2_to_l1_messages }, which you feed into wallet_addInvokeTransaction (proof_facts at sign time,''
                  @ '' proof on submit). Returns a job id immediately '' @ utf8_dash
                  @ '' poll companion_proveStatus. Needs the native prover (bundled) or a configured remote prover + a''
                  @ '' per-network RPC, set in the desktop Settings; an unconfigured backend fails with a clear error (no''
                  @ '' mock/fake proof). Proving is local-only: no separate open port, and settings/keys are never''
                  @ '' exposed here. SIZE LIMIT: one tx'' @ [CHR 0x27] @ ''s trace may use at most 2^20 rows in any AIR component (''
                  @ utf8_approx
                  @ ''1M Cairo steps; ECDSA/keccak-heavy code hits it much sooner since ec_op/keccak are emulated in Cairo) ''
                  @ utf8_dash
                  @ '' a protocol constant of the PROOF1 verifier the network accepts, not a machine limit. Over it, the''
                  @ '' job fails with '' @ [CHR 0x27] @ ''transaction too large to prove'' @ [CHR 0x27]
                  @ ''; split the work across separate txs (calls inside one tx share one trace).''))],
      method_doc ''companion_proveStatus'' (JBool True) (JBool False)
        [(''params'', JStr ''{ job_id }''),
         (''returns'', JStr ''{ job_id, status: queued|proving|succeeded|failed, started_at_ms, label?, result?, error? }''),
         (''note'', JStr (''Poll a proving job until status is succeeded (result holds the proof) or failed (error explains''
                  @ '' why). Unknown job_id '' @ utf8_arrow @ '' error 114.''))]]"

definition usage_methods_4 :: "json list" where
  "usage_methods_4 =
     [method_doc ''companion_proofActivity'' (JBool True) (JBool False)
        [(''params'', JStr ''{}''),
         (''returns'', JStr ''{ activity: Activity[] }''),
         (''note'', JStr (''Recent proving activity (most-recent first) '' @ utf8_dash @ '' the same feed the desktop Proving tab shows.''))],
      method_doc ''companion_signAndProve'' (JBool True) (JBool True)
        [(''params'', JStr ''{ account_address, calls, resource_bounds, nonce?, block_number?, chainId?, label? }''),
         (''returns'', JStr (''{ job_id, status: '' @ [CHR 0x22] @ ''queued'' @ [CHR 0x22] @ '', transaction_hash, next }'')),
         (''note'', JStr (''ONE-STEP sign + on-device prove for SNIP-36: signs the VIRTUAL tx ('' @ [CHR 0x22] @ ''Tx A'' @ [CHR 0x22]
                  @ '' '' @ utf8_dash @ '' a normal v3 invoke calling your contract'' @ [CHR 0x27]
                  @ ''s virtual function, e.g. create_proof(public, private)) and hands the signed tx straight to the''
                  @ '' local prover, so the secret never leaves the machine and you skip the manual addInvoke(sign-only)''
                  @ utf8_arrow @ ''companion_prove round-trip. Tx A is NOT proof-carrying (proof_facts are an OUTPUT of proving).''
                  @ '' resource_bounds is REQUIRED '' @ utf8_dash
                  @ '' the virtual tx holds private calldata, so strkd refuses to fee-estimate it online (that would leak''
                  @ '' the inputs to the RPC); set bounds manually (~2'' @ utf8_times
                  @ '' gas). nonce must equal the account nonce at the reference block. Returns a job id '' @ utf8_dash
                  @ '' poll companion_proveStatus; on success take result.proof / proof_facts / l2_to_l1_messages, decode''
                  @ '' the message into the verifier call, and BROADCAST the verifier invoke ('' @ [CHR 0x22] @ ''Tx B'' @ [CHR 0x22]
                  @ '', e.g. verify_result(public_message)) via wallet_addInvokeTransaction { proof_facts, proof,''
                  @ '' submit:true }. strkd does not build Tx B '' @ utf8_dash
                  @ '' its calldata is app-specific. Approval-gated (signs a real tx, though it'' @ [CHR 0x27]
                  @ ''s proven locally and never broadcast).''))],
      method_doc ''wallet_signTypedData'' (JBool True) (JBool True)
        [(''params'', JStr ''{ account_address, typed_data (SNIP-12 doc) }''),
         (''returns'', JStr (''signature felts, encoded for the account'' @ [CHR 0x27]
                  @ ''s contract ([r, s] for OpenZeppelin, the only class strkd deploys today)'')),
         (''note'', JStr (''account_address must be one of yours. SNIP-12 REVISION 1 (Poseidon; StarkNet-Message prefix =''
                  @ '' short-string '' @ [CHR 0x27] @ ''StarkNet Message'' @ [CHR 0x27]
                  @ ''). The digest signed is exactly starknet.js typedData.getMessageHash(typed_data, account_address),''
                  @ '' so the account'' @ [CHR 0x27] @ ''s on-chain is_valid_signature accepts the returned signature '' @ utf8_dash
                  @ '' that'' @ [CHR 0x27]
                  @ ''s the standard SNIP-12 committee/multisig approval pattern. To confirm the hash before/after''
                  @ '' signing, call companion_typedDataHash (no signing, no prompt).''))],
      method_doc ''companion_typedDataHash'' (JBool True) (JBool False)
        [(''params'', JStr ''{ account_address, typed_data (SNIP-12 doc) }''),
         (''returns'', JStr (''{ hash, revision: '' @ [CHR 0x22] @ ''1'' @ [CHR 0x22] @ '' }'')),
         (''note'', JStr (''Pure, key-free: returns the SNIP-12 rev-1 message hash wallet_signTypedData would sign (==''
                  @ '' starknet.js typedData.getMessageHash). Use it to verify strkd'' @ [CHR 0x27]
                  @ ''s hashing matches yours and to know exactly which felt a returned signature covers for''
                  @ '' is_valid_signature. Works while locked; no approval.''))],
      method_doc ''wallet_addInvokeTransaction'' (JBool True) (JBool True)
        [(''params'', JStr ''{ account_address, calls, submit?, nonce?, resource_bounds?, proof_facts?, proof?, chainId? }''),
         (''call_shape'', JStr (''calls = [{ contract_address, entry_point_selector, calldata: [felt'' @ utf8_ellipsis
                  @ ''] }]. entry_point_selector may be a FUNCTION NAME (e.g. '' @ [CHR 0x22] @ ''transfer'' @ [CHR 0x22]
                  @ '') or a 0x selector. Aliases accepted: contractAddress/to for the address;''
                  @ '' entrypoint/entry_point/selector for the selector.'')),
         (''returns'', JStr (''{ transaction_hash, submitted }. When sign-only: also `signature` and `signed_transaction` '' @ utf8_dash
                  @ '' a COMPLETE, canonical-hex INVOKE_TXN_V3 (all fields incl. signature, tip, paymaster_data,''
                  @ '' account_deployment_data, both DA modes, and proof/proof_facts when proof-carrying) that you can''
                  @ '' submit to starknet_addInvokeTransaction as-is.'')),
         (''note'', JStr (''See submit_model for sign-only vs broadcast and nonce/fee rules. No need to hand-assemble the tx '' @ utf8_dash
                  @ '' signed_transaction is broadcast-ready. Sign-only forces you to supply resource_bounds unless you''
                  @ '' call companion_estimateFee first.'')),
         (''snip36'', JStr (''Proof-carrying invoke: pass proof_facts (felt[]) and the signed V3 hash is extended with''
                  @ '' Poseidon(proof_facts) so the signature covers them (required at sign time). On submit:true also''
                  @ '' pass proof (standard-base64 STWO string; surrounding whitespace is stripped and url-safe '' @ [CHR 0x27]
                  @ ''-'' @ [CHR 0x27] @ ''/'' @ [CHR 0x27] @ ''_'' @ [CHR 0x27] @ '' is rejected) '' @ utf8_dash
                  @ '' required to broadcast. With submit:true and the proof, strkd estimates the fee WITH the proof''
                  @ '' attached (its on-chain verification dominates the fee), so resource_bounds may be omitted.''
                  @ '' Sign-only without the proof needs explicit resource_bounds (~2'' @ utf8_times
                  @ '' current gas prices); companion_estimateFee does not include the proof and undercharges. Sign-only''
                  @ '' echoes proof_facts/proof so you can assemble the broadcast yourself. Omit both for a normal invoke.''))],
      method_doc ''wallet_addDeclareTransaction'' (JBool True) (JBool True)
        [(''params'', JStr (''{ account_address, compiled_class_hash, contract_class?, class_hash?, submit?, nonce?,''
                  @ '' resource_bounds?, chainId? }'')),
         (''returns'', JStr ''{ transaction_hash, class_hash, submitted } (+ signature/signed_transaction when not submitted)''),
         (''note'', JStr (''PASS contract_class '' @ utf8_dash @ '' the whole compiled Sierra class (scarb'' @ [CHR 0x27]
                  @ ''s *.contract_class.json works as-is, ABI array and debug info included; so does the RPC''
                  @ '' CONTRACT_CLASS object). class_hash is then DERIVED from it and you can omit it. That matters: the''
                  @ '' node re-derives the class hash from the class you broadcast and the account validates the''
                  @ '' signature against the tx hash built from THAT value, so a class_hash that disagrees with the class''
                  @ '' produces '' @ [CHR 0x27] @ ''Account: invalid signature'' @ [CHR 0x27]
                  @ '' on-chain. Pass both and the wallet cross-checks them and refuses (114, naming both hashes) instead''
                  @ '' of signing a doomed declare. class_hash alone (no class) still signs, on trust, for offline flows.''
                  @ '' Estimation and submit:true need contract_class. Sign-only returns a COMPLETE''
                  @ '' BROADCASTED_DECLARE_TXN_V3 in signed_transaction, class included '' @ utf8_dash
                  @ '' POST it as declare_transaction unchanged.''))]]"

definition usage_methods_5 :: "json list" where
  "usage_methods_5 =
     [method_doc ''companion_strk20Register'' (JBool True) (JBool True)
        [(''params'', JStr ''{ account_address?, chainId? }''),
         (''returns'', JStr ''{ transaction_hash }''),
         (''note'', JStr (''Registers the account'' @ [CHR 0x27]
                  @ ''s STRK20 viewing key with the pool and opens its channel to itself, proved on this machine and''
                  @ '' submitted from the account (registration is public: it links the address to the pool). Once per''
                  @ '' account and pool; -32006 if already registered.''))],
      method_doc ''wallet_strk20Balances'' (JBool True) (JBool True)
        [(''params'', JStr (''{ tokens: [address'' @ utf8_ellipsis @ ''], account_address?, chainId? }'')),
         (''returns'', JStr ''[{ token, balance }]''),
         (''note'', JStr (''Private balance per token (hex, base units), read from the pool and decrypted locally '' @ utf8_dash
                  @ '' no indexer sees the viewing key. Approval-gated: it reveals private balances. 118 if the account isn''
                  @ [CHR 0x27] @ ''t registered.''))],
      method_doc ''wallet_strk20PrepareInvoke'' (JBool True) (JBool True)
        [(''params'', JStr (''{ actions: [STRK20_ACTION'' @ utf8_ellipsis @ ''], simulate?, account_address?, chainId? }'')),
         (''returns'', JStr ''{ call: { contract_address, entry_point, calldata }, proof: { data, output, proof_facts } }''),
         (''note'', JStr (''Plans, signs and proves a batch WITHOUT submitting it: submit `call` from any account with''
                  @ '' proof_facts + proof (wallet_addInvokeTransaction does it). Actions: {type:'' @ [CHR 0x22] @ ''deposit''
                  @ [CHR 0x22] @ '',token,amount} | {type:'' @ [CHR 0x22] @ ''transfer'' @ [CHR 0x22]
                  @ '',token,amount,recipient} | {type:'' @ [CHR 0x22] @ ''withdraw'' @ [CHR 0x22]
                  @ '',token,amount,recipient}. simulate:true returns empty proof fields. Errors: 118 not registered, 119''
                  @ '' insufficient private balance, 120 the batch would link you (opens >1 channel).''))],
      method_doc ''wallet_strk20InvokeTransaction'' (JBool True) (JBool True)
        [(''params'', JStr (''{ actions: [STRK20_ACTION'' @ utf8_ellipsis @ ''], account_address?, chainId? }'')),
         (''returns'', JStr ''{ transaction_hash }''),
         (''note'', JStr (''Prepares AND submits. Deposit-only batches go from your account (approve + apply_actions, with the''
                  @ '' screening attestation). Private batches go through the AVNU private relay, whose fee is withdrawn''
                  @ '' from your shielded balance; without an AVNU key '' @ utf8_arrow
                  @ '' -32006 pointing to wallet_strk20PrepareInvoke. Same errors as PrepareInvoke.''))],
      method_doc ''wallet_switchStarknetChain'' (JBool True) (JBool True)
        [(''deprecated'', JBool True),
         (''params'', JStr ''{ chainId (felt: SN_SEPOLIA / SN_MAIN encoded) }''),
         (''returns'', JStr ''true''),
         (''note'', JStr (''DEPRECATED for agents. Switches the wallet'' @ [CHR 0x27]
                  @ ''s shared DEFAULT network for ALL clients (one agent can switch it out from under another). Prefer a''
                  @ '' per-request chainId on the operational methods. Kept for EIP-1193 compatibility + as the''
                  @ '' omitted-chainId fallback (the human sets the default in Settings). Unknown chain '' @ utf8_arrow
                  @ '' error 117.''))],
      method_doc ''wallet_watchAsset'' (JBool True) (JBool True)
        [(''params'', JStr ''{ asset: { address, symbol?, decimals?, name? } }''),
         (''returns'', JStr ''true''),
         (''note'', JStr (''Adds a token to the wallet'' @ [CHR 0x27] @ ''s watch list (display only).''))]]"

definition usage_methods :: "json list" where
  "usage_methods = usage_methods_1 @ usage_methods_2 @ usage_methods_3 @ usage_methods_4 @ usage_methods_5"

definition usage_deferred :: "string list" where
  "usage_deferred = [''wallet_addStarknetChain'', ''wallet_strk20ShadowAccountCommitment'']"

definition usage_deferred_note :: json where
  "usage_deferred_note =
     JStr (''In the Starknet wallet spec but not built yet; returns -32601. wallet_addStarknetChain needs a''
              @ '' chain id beyond Sepolia/Mainnet; the STRK20 shadow-account commitment comes with shadow-account''
              @ '' invokes.'')"

definition usage_errors :: "(string \<times> json) list" where
  "usage_errors =
     [(''113'', JStr (''USER_REFUSED '' @ utf8_dash @ '' the user rejected the prompt (or it timed out after ~60s)'')),
      (''114'', JStr (''INVALID_REQUEST_PAYLOAD '' @ utf8_dash @ '' malformed params / missing field'')),
      (''116'', JStr (''DEPLOYMENT_DATA_NOT_AVAILABLE '' @ utf8_dash @ '' no in-scope account'')),
      (''117'', JStr (''CHAIN_ID_NOT_SUPPORTED '' @ utf8_dash @ '' only SN_SEPOLIA / SN_MAIN are supported'')),
      (''118'', JStr (''NOT_REGISTERED '' @ utf8_dash
               @ '' pair first, or your token is unknown/invalid. On wallet_strk20* methods: the account (or a''
               @ '' transfer recipient) has no viewing key on the pool '' @ utf8_dash @ '' companion_strk20Register'')),
      (''119'', JStr (''INSUFFICIENT_PRIVATE_BALANCE '' @ utf8_dash @ '' not enough spendable notes; notes younger than ~12 blocks aren''
               @ [CHR 0x27] @ ''t spendable yet'')),
      (''120'', JStr (''PRIVACY_LEAK '' @ utf8_dash
               @ '' the STRK20 batch would let an observer link your activity (e.g. opening channels to two new''
               @ '' recipients at once); split it'')),
      (''163'', JStr (''INTERNAL_ERROR '' @ utf8_dash
               @ '' an unexpected internal failure (key material is never leaked in the message); safe to retry, and''
               @ '' report it if it persists'')),
      (''-32001'', JStr (''LOCKED '' @ utf8_dash @ '' the wallet is locked; ask the user to unlock it'')),
      (''-32002'', JStr (''FORBIDDEN '' @ utf8_dash @ '' you tried to act outside your own accounts (or wrong client kind)'')),
      (''-32003'', JStr (''TRANSPORT_REJECTED '' @ utf8_dash @ '' missing X-Companion-Client, non-loopback Host, or Origin present'')),
      (''-32004'', JStr (''NODE_ERROR '' @ utf8_dash @ '' fee estimate / nonce / broadcast failed at the Starknet node'')),
      (''-32005'', JStr (''NO_NODE '' @ utf8_dash
               @ '' broadcast/estimate needs a node; pass nonce + resource_bounds, or ask the user to set an RPC URL'')),
      (''-32006'', JStr (''PRECONDITION_FAILED '' @ utf8_dash
               @ '' the request is valid but on-chain state blocks it (e.g. the manager/funding-source account is not''
               @ '' deployed on the active network, or the account is already deployed). The message names the account''
               @ '' + the human fix. Surface it to the user.'')),
      (''-32601'', JStr (''NOT_IMPLEMENTED '' @ utf8_dash @ '' method not available in this build'')),
      (''-32700'', JStr (''PARSE_ERROR '' @ utf8_dash @ '' body is not valid JSON''))]"

definition usage_notes :: json where
  "usage_notes =
     JArr
        [JStr (''Scoping: an agent can only see, sign with, fund, and deploy accounts it created. Acting on another''
               @ '' account '' @ utf8_arrow @ '' -32002.''),
         JStr (''Sign-only (no node, or submit omitted): broadcast the returned signed_transaction yourself at any''
               @ '' Starknet node '' @ utf8_dash @ '' it'' @ [CHR 0x27] @ ''s keyless, the signature authorizes it.''),
         JStr (''On -32001 (locked) or -32005 (no node), surface it to the user '' @ utf8_dash
               @ '' those need a human action (unlock / configure RPC).''),
         JStr ''Pairings and grants persist across wallet restarts; you should not need to re-pair.'',
         JStr (''SNIP-36: wallet_addInvokeTransaction takes optional proof_facts (extends the signed hash) and proof''
               @ '' (base64, for broadcast) '' @ utf8_dash
               @ '' see that method. Proofs can be multi-MB; the loopback service accepts large request bodies.'')]"

definition usage_doc :: "string \<Rightarrow> string \<Rightarrow> string list \<Rightarrow> json" where
  "usage_doc version api_version spec_versions =
     JObj
       [(''service'', JStr (''strkd '' @ utf8_dash @ '' Starknet wallet companion'')),
        (''version'', JStr version),
        (''wallet_api_version'', JStr api_version),
        (''supported_specs'', JArr (map JStr spec_versions)),
        (''summary'', JStr (''A local wallet that holds Starknet accounts and signs on your behalf. By default every sensitive''
                  @ '' action (signing, funding, account creation) pops a confirmation on the user'' @ [CHR 0x27]
                  @ ''s screen and only proceeds if the human approves. Private keys never leave the wallet '' @ utf8_dash
                  @ '' you get signatures, signed transactions, and (when a node is configured) on-chain broadcasts,''
                  @ '' never keys. It also PROVES SNIP-36 transactions on-device (sign + prove a private virtual tx in''
                  @ '' one call, then broadcast the verifier tx) '' @ utf8_dash @ '' see concepts.proving + snip36_proving.'')),
        (''alpha_notice'', usage_alpha_notice),
        (''discovery'', JStr (''This wallet runs a loopback service. The desktop app writes its bound port to `port.lock` in the''
                  @ '' app data dir as {port, nonce} '' @ utf8_dash @ '' the port is stable across restarts, so once you''
                  @ [CHR 0x27]
                  @ ''ve discovered the URL you may cache it. GET / (this document) is how a client learns the API once''
                  @ '' it has the URL.'')),
        (''transport'', usage_transport),
        (''concepts'', usage_concepts),
        (''approval_model'', JStr (''prompts:true means the call blocks until the user clicks Approve/Reject in the menu bar''
                  @ '' (auto-rejected after ~60s '' @ utf8_arrow
                  @ '' error 113), UNLESS your client holds an active grant (funding still always prompts). Expect''
                  @ '' human-scale latency on prompts.'')),
        (''submit_model'', JStr (''Transaction methods (addInvokeTransaction, addDeclareTransaction, requestFunding, deployAccount)''
                  @ '' are SIGN-ONLY by default: they return a signed transaction you broadcast yourself (broadcasting is''
                  @ '' keyless '' @ utf8_dash
                  @ '' the signature authorizes it). Pass submit:true to have the wallet broadcast via its node (requires''
                  @ '' a node for the active network). With a node, nonce + fee are auto-filled; without one, supply''
                  @ '' nonce + resource_bounds yourself.'')),
        (''quickstart'', usage_quickstart),
        (''snip36_proving'', usage_snip36_proving),
        (''strk20_privacy'', usage_strk20_privacy),
        (''methods'', JArr usage_methods),
        (''deferred'', JObj [(''note'', usage_deferred_note), (''methods'', JArr (map JStr usage_deferred))]),
        (''errors'', JObj usage_errors),
        (''notes'', usage_notes)]"

section \<open>The catalogue and the dispatcher\<close>

definition doc_line :: "json \<Rightarrow> string option \<times> json option \<times> json option" where
  "doc_line v = (get_str v ''method'', json_get v ''auth'', json_get v ''prompts'')"

lemma doc_line_method [simp]: "doc_line (method_doc m auth prompts rest) = (Some m, Some auth, Some prompts)"
  by (simp add: doc_line_def method_doc_def get_str_def)

definition members :: "json option \<Rightarrow> string list" where
  "members v = (case Option.bind v as_object of None \<Rightarrow> [] | Some ms \<Rightarrow> map fst ms)"

text \<open>What a reader of the document learns: the methods with their flags, the deferred methods, the codes.\<close>

definition documented :: "json \<Rightarrow> (string \<times> json \<times> json) list" where
  "documented doc = (case get_array doc ''methods'' of
     None \<Rightarrow> []
   | Some ms \<Rightarrow> map (\<lambda>(m, a, p). (the m, the a, the p)) (map doc_line ms))"

definition documented_deferred :: "json \<Rightarrow> string list" where
  "documented_deferred doc =
     (case Option.bind (json_get doc ''deferred'') (\<lambda>d. get_array d ''methods'') of
        None \<Rightarrow> [] | Some ms \<Rightarrow> map (\<lambda>v. the (as_str v)) ms)"

definition documented_codes :: "json \<Rightarrow> string list" where
  "documented_codes doc = members (json_get doc ''errors'')"

lemma usage_lines:
  "map doc_line usage_methods = map (\<lambda>(m, a, p). (Some m, Some a, Some p)) [
    (''companion_getStatus'', JBool False, JBool False),
    (''wallet_supportedWalletApi'', JBool False, JBool False),
    (''wallet_supportedSpecs'', JBool False, JBool False),
    (''wallet_getPermissions'', JBool False, JBool False),
    (''companion_requestPairing'', JBool False, JBool True),
    (''companion_createAgentAccount'', JStr ''agent'', JBool True),
    (''companion_listAccounts'', JBool True, JBool False),
    (''wallet_requestAccounts'', JBool True, JBool False),
    (''wallet_requestChainId'', JBool True, JBool False),
    (''wallet_deploymentData'', JBool True, JBool False),
    (''companion_fundingSource'', JBool True, JBool False),
    (''companion_reportIssue'', JBool True, JBool False),
    (''companion_requestGrant'', JBool True, JBool True),
    (''companion_estimateFee'', JBool True, JBool False),
    (''companion_requestFunding'', JStr ''agent'', JStr ''always''),
    (''companion_deployAccount'', JBool True, JBool True),
    (''companion_prove'', JBool True, JBool False),
    (''companion_proveStatus'', JBool True, JBool False),
    (''companion_proofActivity'', JBool True, JBool False),
    (''companion_signAndProve'', JBool True, JBool True),
    (''wallet_signTypedData'', JBool True, JBool True),
    (''companion_typedDataHash'', JBool True, JBool False),
    (''wallet_addInvokeTransaction'', JBool True, JBool True),
    (''wallet_addDeclareTransaction'', JBool True, JBool True),
    (''companion_strk20Register'', JBool True, JBool True),
    (''wallet_strk20Balances'', JBool True, JBool True),
    (''wallet_strk20PrepareInvoke'', JBool True, JBool True),
    (''wallet_strk20InvokeTransaction'', JBool True, JBool True),
    (''wallet_switchStarknetChain'', JBool True, JBool True),
    (''wallet_watchAsset'', JBool True, JBool True)]"
  by (simp only: usage_methods_def usage_methods_1_def usage_methods_2_def usage_methods_3_def usage_methods_4_def usage_methods_5_def list.map map_append append.simps doc_line_method prod.case)

lemma usage_members:
  "get_array (usage_doc v a s) ''methods'' = Some usage_methods"
  "json_get (usage_doc v a s) ''errors'' = Some (JObj usage_errors)"
  "json_get (usage_doc v a s) ''deferred'' = Some (JObj [(''note'', usage_deferred_note), (''methods'', JArr (map JStr usage_deferred))])"
  by (simp_all add: usage_doc_def get_array_def)

lemmas documented_lines = documented_def usage_members(1) option.case usage_lines [unfolded list.map prod.case] list.map prod.case option.sel

lemma client_names:
  "map fst (client_methods V client params) =
     [''wallet_requestChainId'', ''wallet_requestAccounts'', ''companion_listAccounts'', ''wallet_deploymentData'', ''wallet_signTypedData'',
      ''wallet_addInvokeTransaction'', ''wallet_addDeclareTransaction'', ''companion_createAgentAccount'', ''wallet_switchStarknetChain'',
      ''wallet_watchAsset'', ''companion_fundingSource'', ''companion_reportIssue'', ''companion_typedDataHash'', ''companion_estimateFee'',
      ''companion_requestGrant'', ''companion_requestFunding'', ''companion_deployAccount'', ''companion_prove'', ''companion_proveStatus'',
      ''companion_proofActivity'', ''companion_signAndProve'', ''wallet_strk20Balances'', ''wallet_strk20PrepareInvoke'',
      ''wallet_strk20InvokeTransaction'', ''companion_strk20Register'']"
  by (simp add: client_methods_def)

lemma documented_methods:
  "distinct (map fst (documented (usage_doc v a s)))"
  "set (map fst (documented (usage_doc v a s))) = set public_names \<union> set (map fst (client_methods V client params))"
  "set (map fst (filter (\<lambda>(m, auth, p). auth = JBool False) (documented (usage_doc v a s)))) = set public_names"
  "set (map fst (filter (\<lambda>(m, auth, p). p \<noteq> JBool False) (documented (usage_doc v a s))))
     = insert ''companion_requestPairing'' (set approval_methods)"
proof -
  show "distinct (map fst (documented (usage_doc v a s)))" unfolding documented_lines by simp
  show "set (map fst (documented (usage_doc v a s))) = set public_names \<union> set (map fst (client_methods V client params))"
    unfolding documented_lines client_names public_names_def by (intro equalityI subsetI; simp; elim disjE; simp)
  show "set (map fst (filter (\<lambda>(m, auth, p). auth = JBool False) (documented (usage_doc v a s)))) = set public_names"
    unfolding documented_lines public_names_def by (intro equalityI subsetI; simp; elim disjE; simp)
  show "set (map fst (filter (\<lambda>(m, auth, p). p \<noteq> JBool False) (documented (usage_doc v a s))))
     = insert ''companion_requestPairing'' (set approval_methods)"
    unfolding documented_lines approval_methods_def by (intro equalityI subsetI; simp; elim disjE; simp)
qed

text \<open>The code also defers a method under a former name.\<close>

lemma documented_deferred:
  "{m. is_deferred m} = insert ''wallet_strk20SubaccountCommitment'' (set (documented_deferred (usage_doc v a s)))"
  by (auto simp: is_deferred_def documented_deferred_def usage_members get_array_def usage_deferred_def)

lemma documented_codes:
  "documented_codes (usage_doc v a s) = map fst usage_errors"
  by (simp add: documented_codes_def members_def usage_members)

lemma usage_error_codes: "map fst usage_errors = [''113'', ''114'', ''116'', ''117'', ''118'', ''119'', ''120'', ''163'', ''-32001'', ''-32002'', ''-32003'', ''-32004'', ''-32005'', ''-32006'', ''-32601'', ''-32700'']"
  by (simp only: usage_errors_def list.map fst_conv)

definition all_errors :: "wallet_rpc_error list" where
  "all_errors = [UserRefused, InvalidRequest [], DeploymentDataNotAvailable, ChainIdNotSupported, NotRegistered,
     InsufficientPrivateBalance [], PrivacyLeak [], ApiVersionNotSupported, Unknown [], Locked, Forbidden,
     TransportRejected [], Node [], NoNode, Precondition [], NotImplemented [], Parse]"

lemma all_error_codes: "range error_code = set (map error_code all_errors)"
proof -
  have "error_code e \<in> set (map error_code all_errors)" for e by (cases e) (simp_all add: all_errors_def)
  then show ?thesis by auto
qed

lemma digit_chars:
  "digit_char 0 = CHR ''0''" "digit_char (Suc 0) = CHR ''1''" "digit_char 2 = CHR ''2''" "digit_char 3 = CHR ''3''"
  "digit_char 4 = CHR ''4''" "digit_char 5 = CHR ''5''" "digit_char 6 = CHR ''6''" "digit_char 7 = CHR ''7''"
  "digit_char 8 = CHR ''8''" "digit_char 9 = CHR ''9''"
  by code_simp+

lemma printed_codes: "map (\<lambda>e. int_dec (error_code e)) all_errors =
  [''113'', ''114'', ''116'', ''117'', ''118'', ''119'', ''120'', ''162'', ''163'', ''-32001'', ''-32002'', ''-32003'', ''-32004'',
   ''-32005'', ''-32006'', ''-32601'', ''-32700'']"
  by (simp add: all_errors_def int_dec_def nat_dec_def digits.simps digit_chars)

lemma error_codes_documented:
  "range (\<lambda>e. int_dec (error_code e)) = insert ''162'' (set (documented_codes (usage_doc v a s)))"
proof -
  have "range (\<lambda>e. int_dec (error_code e)) = int_dec ` range error_code" by auto
  also have "\<dots> = set (map (\<lambda>e. int_dec (error_code e)) all_errors)" unfolding all_error_codes by auto
  also have "\<dots> = insert ''162'' (set (map fst usage_errors))" unfolding printed_codes usage_error_codes by (intro equalityI subsetI; simp; elim disjE; simp)
  finally show ?thesis unfolding documented_codes .
qed

end
