(* ===== verification/Rpc_Router.thy ===== *)
theory Rpc_Router
  imports Rpc_Usage Cli_Facts
begin

text \<open>
  How the service comes up and what it answers (\<open>router\<close>, \<open>usage_handler\<close>, \<open>bind_loopback\<close> and \<open>write_port_lock\<close> of
  \<open>crates/wallet-rpc/src/server.rs\<close>), and that the command line finds it. Axum's routing is the table of \<open>service\<close>:
  an unknown path is 404, an unknown method 405, a body over the limit 413 before any handler runs.
\<close>

section \<open>The routes\<close>

definition MAX_BODY_BYTES :: nat where "MAX_BODY_BYTES = 32 * 1024 * 1024"

definition usage_handler :: "string \<Rightarrow> server \<Rightarrow> json" where
  "usage_handler version sv = usage_doc version (sv_api_version sv) (sv_spec_versions sv)"

datatype http_body = NoBody | JsonBody json

definition service ::
  "'pt env \<Rightarrow> string \<Rightarrow> (bytes \<Rightarrow> json option) \<Rightarrow> string \<Rightarrow> string \<Rightarrow> headers \<Rightarrow> bytes \<Rightarrow> sys
     \<Rightarrow> (nat \<times> http_body) option \<times> sys" where
  "service V version parse meth path_text hs body s =
     (if path_text = ''/'' \<and> meth = ''POST'' then
        (if MAX_BODY_BYTES < length body then (Some (413, NoBody), s)
         else let (r, s') = served V parse hs body s in (map_option (\<lambda>(status, v). (status, JsonBody v)) r, s'))
      else if path_text = ''/'' \<or> path_text = ''/usage'' then
        (if meth = ''GET'' then (Some (200, JsonBody (usage_handler version (sy_server s))), s)
         else if meth = ''HEAD'' then (Some (200, NoBody), s)
         else (Some (405, NoBody), s))
      else (Some (404, NoBody), s))"

text \<open>Only a POST to the root that passes the guard, with a body of JSON within the limit, reaches the dispatcher.\<close>

lemma service_idle:
  assumes "snd (service V version parse meth path_text hs body s) \<noteq> s"
  shows "path_text = ''/'' \<and> meth = ''POST'' \<and> length body \<le> MAX_BODY_BYTES \<and> transport_guard hs = Ok ()
    \<and> Option.bind (parse body) request_from_json \<noteq> None"
  using assms
  by (auto simp: service_def served_def serve_http_def rpc_handler_def split: if_splits sum.splits option.splits prod.splits)

text \<open>The document is open: no header is asked for.\<close>

lemma usage_open:
  assumes "path_text = ''/'' \<or> path_text = ''/usage''"
  shows "service V version parse ''GET'' path_text hs body s
    = (Some (200, JsonBody (usage_doc version (sv_api_version (sy_server s)) (sv_spec_versions (sy_server s)))), s)"
  using assms by (auto simp: service_def usage_handler_def)

section \<open>Binding\<close>

datatype lock_outcome = LockWriteFails string "json option" | LockModeFails string | LockWritten

definition write_port_lock :: "bytes option \<Rightarrow> lock_outcome \<Rightarrow> u16 \<Rightarrow> json option \<Rightarrow> (string + unit) \<times> json option" where
  "write_port_lock nonce_draw out port lock_file =
     (case nonce_draw of
        None \<Rightarrow> (Err ''OS RNG unavailable'', lock_file)
      | Some nonce \<Rightarrow>
          (case out of
             LockWriteFails e left \<Rightarrow> (Err e, left)
           | LockModeFails e \<Rightarrow> (Err e, Some (write_port_lock_doc port nonce))
           | LockWritten \<Rightarrow> (Ok (), Some (write_port_lock_doc port nonce))))"

text \<open>\<open>lock_file\<close> is the JSON of \<open>port.lock\<close>, if there is any.\<close>

definition bind_loopback ::
  "(u16 \<Rightarrow> bool) \<Rightarrow> string + u16 \<Rightarrow> bool \<Rightarrow> bytes option \<Rightarrow> lock_outcome \<Rightarrow> json option \<Rightarrow> (string + u16) \<times> json option" where
  "bind_loopback try_bind ephemeral with_lock nonce_draw out lock_file =
     (case bind_sticky try_bind ephemeral (if with_lock then read_locked_port lock_file else None) of
        Inl e \<Rightarrow> (Err e, lock_file)
      | Inr port \<Rightarrow>
          if with_lock
          then (let (r, lock_file') = write_port_lock nonce_draw out port lock_file in (bindE r (\<lambda>_. Ok port), lock_file'))
          else (Ok port, lock_file))"

lemma bind_loopback_Ok:
  assumes "bind_loopback try_bind ephemeral True nonce_draw out lock_file = (Ok port, lock_file')"
  obtains nonce where "lock_file' = Some (write_port_lock_doc port nonce)"
  using assms
  by (auto simp: bind_loopback_def write_port_lock_def Let_def result_simps split: sum.splits option.splits lock_outcome.splits)

text \<open>The service is found where it listens, and comes up there again while the port is free.\<close>

lemma service_found:
  assumes bound: "bind_loopback try_bind ephemeral True nonce_draw out lock_file = (Ok port, lock_file')" and "port \<noteq> 0"
  shows "service_url (Some d) (map_option Ok lock_file') = Ok (''http://127.0.0.1:'' @ nat_dec (unat port))"
    and "is_free port \<Longrightarrow> bind_loopback is_free ephemeral' True (Some nonce') LockWritten lock_file'
      = (Ok port, Some (write_port_lock_doc port nonce'))"
proof -
  obtain nonce where lock: "lock_file' = Some (write_port_lock_doc port nonce)" using bind_loopback_Ok [OF bound] .
  have less: "unat port < 2 ^ 16" using unat_less_exp [of port] by simp
  then have "unat port < 2 ^ 64" by (rule less_trans) simp
  then have u: "unat (ucast port :: u64) = unat port" by (simp only: unsigned_ucast_eq) (simp add: take_bit_nat_eq_self)
  moreover have "unat port \<noteq> 0" using assms(2) by (simp add: unat_eq_zero)
  ultimately have "(ucast port :: u64) \<noteq> 0" by (metis unat_0)
  then show "service_url (Some d) (map_option Ok lock_file') = Ok (''http://127.0.0.1:'' @ nat_dec (unat port))"
    using less u by (simp add: lock service_url_def data_dir_def write_port_lock_doc_def get_u64_def)
  show "bind_loopback is_free ephemeral' True (Some nonce') LockWritten lock_file' = (Ok port, Some (write_port_lock_doc port nonce'))"
    if "is_free port"
    using that assms(2) by (simp add: bind_loopback_def lock locked_port_roundtrip bind_sticky_def write_port_lock_def)
qed

section \<open>The command line and the document\<close>

text \<open>\<open>strkd usage\<close> prints the document of the service, before any pairing.\<close>

lemma usage_printed:
  assumes "service_url (ce_dir C) (ce_lock C) = Ok url"
    and "ce_get C = (\<lambda>_ s. (Ok (Ok (usage_handler version (sy_server s))), s))"
  shows "cli_main C out CliUsage s
    = (0, s\<lparr>cl_out := cl_out s @ [StdoutJson (usage_doc version (sv_api_version (sy_server (cl_world s)))
        (sv_spec_versions (sy_server (cl_world s))))]\<rparr>)"
  using assms
  by (simp add: cli_main_def cli_run_def client_usage_def clim_defs map_err_def usage_handler_def)

end
