(* ===== verification/Rpc_Node_Http.thy ===== *)
theory Rpc_Node_Http
  imports Rpc_Node
begin

text \<open>
  \<open>HttpStarknetRpc::call\<close> of \<open>crates/wallet-rpc/src/node.rs\<close>: one JSON-RPC exchange with the node, with the
  one redirect that is followed and remembered. \<open>post i url body\<close> is the \<open>i\<close>-th request of the exchange: a text when there
  is no answer. The operations of \<open>Rpc_Node\<close> take such an exchange as their argument.
\<close>

record node_reply =
  nr_status :: nat
  nr_location :: "string option"                    \<comment> \<open>the header, when it is visible ASCII\<close>
  nr_body :: "string + json"

type_synonym node_post = "nat \<Rightarrow> string \<Rightarrow> json \<Rightarrow> string + node_reply"

definition node_body :: "string \<Rightarrow> json \<Rightarrow> json" where
  "node_body m params =
     JObj [(''jsonrpc'', JStr ''2.0''), (''id'', json_u64 1), (''method'', JStr m), (''params'', params)]"

definition node_result :: "(json \<Rightarrow> string) \<Rightarrow> node_reply \<Rightarrow> node_error + json" where
  "node_result print resp =
     bindE (map_err Decode (nr_body resp)) (\<lambda>v.
     case json_get v ''error'' of
       Some err \<Rightarrow> Err (NodeRpc (print err))
     | None \<Rightarrow> ok_or (Decode ''missing result'') (json_get v ''result''))"

definition redirect_target :: "node_reply \<Rightarrow> string option" where
  "redirect_target resp = (if 300 \<le> nr_status resp \<and> nr_status resp < 400 then nr_location resp else None)"

text \<open>The answer, and the URL for the next exchange.\<close>

definition node_exchange ::
  "(json \<Rightarrow> string) \<Rightarrow> node_post \<Rightarrow> string \<Rightarrow> string \<Rightarrow> json \<Rightarrow> (node_error + json) \<times> string" where
  "node_exchange print post url m params =
     (let body = node_body m params in
      case post 0 url body of
        Inl e \<Rightarrow> (Err (Transport e), url)
      | Inr resp \<Rightarrow>
          (case redirect_target resp of
             None \<Rightarrow> (node_result print resp, url)
           | Some loc \<Rightarrow>
               (case post 1 loc body of
                  Inl e \<Rightarrow> (Err (Transport e), url)
                | Inr resp' \<Rightarrow> (node_result print resp', loc))))"

text \<open>The same body goes to the configured URL and, at most once, to where it redirects.\<close>

lemma exchange_cases:
  obtains (direct) resp where "post 0 url (node_body m params) = Ok resp" "redirect_target resp = None"
      "node_exchange print post url m params = (node_result print resp, url)"
    | (redirected) resp loc resp' where "post 0 url (node_body m params) = Ok resp" "redirect_target resp = Some loc"
      "post 1 loc (node_body m params) = Ok resp'" "node_exchange print post url m params = (node_result print resp', loc)"
    | (failed) e where "node_exchange print post url m params = (Err (Transport e), url)"
proof (cases "post 0 url (node_body m params)")
  case (Inl e)
  then show thesis by (intro failed) (simp add: node_exchange_def)
next
  case (Inr resp)
  show thesis
  proof (cases "redirect_target resp")
    case None
    then show thesis using Inr by (intro direct) (simp_all add: node_exchange_def)
  next
    case (Some loc)
    show thesis
    proof (cases "post 1 loc (node_body m params)")
      case (Inl e)
      then show thesis using \<open>post 0 url (node_body m params) = Ok resp\<close> Some by (intro failed) (simp add: node_exchange_def)
    next
      case (Inr resp')
      then show thesis using \<open>post 0 url (node_body m params) = Ok resp\<close> Some by (intro redirected) (simp_all add: node_exchange_def)
    qed
  qed
qed

text \<open>A result is what the last answer carries under \<open>result\<close>, with no \<open>error\<close> member; a failed exchange keeps the URL.\<close>

lemma exchange_Ok:
  assumes "node_exchange print post url m params = (Ok v, url')"
  obtains i u resp body where "post i u (node_body m params) = Ok resp" "nr_body resp = Ok body" "json_get body ''result'' = Some v"
    "json_get body ''error'' = None" "u = url'"
  using assms
  by (cases rule: exchange_cases [where print = print and post = post and url = url and m = m and params = params])
    (auto simp: node_result_def result_simps split: option.splits)

lemma result_not_transport: "node_result print resp \<noteq> Err (Transport e)"
  by (cases "nr_body resp") (auto simp: node_result_def ok_or_def split: option.split)

lemma exchange_transport:
  "fst (node_exchange print post url m params) = Err (Transport e) \<Longrightarrow> snd (node_exchange print post url m params) = url"
  by (cases rule: exchange_cases [where print = print and post = post and url = url and m = m and params = params])
    (auto simp: result_not_transport)

text \<open>An answer with \<open>error: null\<close> beside its result is taken for an error.\<close>

lemma null_error_refused:
  assumes "post 0 url (node_body m params) = Ok \<lparr>nr_status = 200, nr_location = l, nr_body = Ok (JObj [(''result'', v), (''error'', JNull)])\<rparr>"
  shows "fst (node_exchange print post url m params) = Err (NodeRpc (print JNull))"
  using assms by (simp add: node_exchange_def redirect_target_def node_result_def)

text \<open>The client of a node whose URL is settled: its operations are those of \<open>http_rpc\<close>.\<close>

definition node_client :: "ext \<Rightarrow> (json \<Rightarrow> string) \<Rightarrow> node_post \<Rightarrow> string \<Rightarrow> starknet_rpc" where
  "node_client E print post url = http_rpc E (\<lambda>m params. fst (node_exchange print post url m params))"

lemma node_client_balance:
  "balance_of (node_client E print post url) token holder
     = http_balance_of E (\<lambda>m params. fst (node_exchange print post url m params)) token holder"
  by (simp add: node_client_def http_rpc_def)

end
