(* ===== verification/Vault_Json.thy ===== *)
theory Vault_Json
  imports Rpc_Wire Rpc_Durable
begin

text \<open>
  The JSON of a sealed vault, as serde derives it for \<open>EncryptedVault\<close> and \<open>KdfParams\<close> of \<open>crates/wallet-core/src/vault.rs\<close>:
  byte strings are hexadecimal. The text of the JSON is serde_json's, a pair of functions; with a printer that is read
  back, the format of the vault file has the law that the properties of stored vaults assume.
\<close>

section \<open>Hexadecimal and fixed-width numbers\<close>

text \<open>\<open>hex::decode\<close>\<close>

fun hex_decode :: "string \<Rightarrow> bytes option" where
  "hex_decode [] = Some []"
| "hex_decode [c] = None"
| "hex_decode (a # b # r) =
     Option.bind (char_digit a) (\<lambda>x.
     Option.bind (char_digit b) (\<lambda>y.
     Option.bind (hex_decode r) (\<lambda>bs. Some (word_of_nat (16 * x + y) # bs))))"

lemma hex_encode_simps [simp]:
  "hex_encode [] = []"
  "hex_encode (b # bs) = digit_char (unat b div 16) # digit_char (unat b mod 16) # hex_encode bs"
  by (simp_all add: hex_encode_def)

lemma hex_decode_encode [simp]: "hex_decode (hex_encode bs) = Some bs"
proof (induction bs)
  case (Cons b bs)
  have "unat b < 256" using unat_less_exp [of b] by simp
  then have "char_digit (digit_char (unat b div 16)) = Some (unat b div 16)"
    "char_digit (digit_char (unat b mod 16)) = Some (unat b mod 16)"
    by (simp_all add: char_digit_of_digit)
  then show ?case using Cons by (simp only: hex_encode_simps hex_decode.simps bind.bind_lunit mult_div_mod_eq) simp
qed simp

definition as_hex :: "json \<Rightarrow> bytes option" where
  "as_hex v = Option.bind (as_str v) hex_decode"

text \<open>An unsigned number of the width of the field: serde refuses what does not fit.\<close>

definition as_word :: "json \<Rightarrow> 'n::len word option" where
  "as_word v = Option.bind (as_u64 v) (\<lambda>w. if unat w < 2 ^ LENGTH('n) then Some (ucast w) else None)"

lemma as_word_read: "LENGTH('n::len) \<le> 64 \<Longrightarrow> as_word (json_u64 (ucast (w :: 'n word))) = Some w"
proof -
  assume len: "LENGTH('n) \<le> 64"
  have less: "unat w < 2 ^ LENGTH('n)" by (rule unat_less_exp)
  also have "(2 :: nat) ^ LENGTH('n) \<le> 2 ^ 64" using len by (intro power_increasing) simp_all
  finally have u: "unat (ucast w :: u64) = unat w" by (simp only: unsigned_ucast_eq) (simp add: take_bit_nat_eq_self)
  have "unat (ucast (ucast w :: u64) :: 'n word) = take_bit LENGTH('n) (unat (ucast w :: u64))"
    by (rule unsigned_ucast_eq)
  also have "\<dots> = unat w" unfolding u using less by (simp add: take_bit_nat_eq_self)
  finally have "(ucast (ucast w :: u64) :: 'n word) = w" by (simp only: word_unat_eq_iff)
  with u less show ?thesis by (simp add: as_word_def json_u64_def)
qed

section \<open>The vault\<close>

definition kdf_params_to_json :: "kdf_params \<Rightarrow> json" where
  "kdf_params_to_json p =
     JObj [(''m_cost'', json_u64 (ucast (m_cost p))), (''t_cost'', json_u64 (ucast (t_cost p))),
           (''p_cost'', json_u64 (ucast (p_cost p))), (''salt'', JStr (hex_encode (kdf_salt p)))]"

definition kdf_params_from_json :: "json \<Rightarrow> kdf_params option" where
  "kdf_params_from_json v =
     (let make = (\<lambda>m t p s. Option.bind m (\<lambda>m. Option.bind t (\<lambda>t. Option.bind p (\<lambda>p. Option.bind s (\<lambda>s.
              Some \<lparr>m_cost = m, t_cost = t, p_cost = p, kdf_salt = s\<rparr>)))))
      in case v of
           JObj ms \<Rightarrow> make (required as_word ''m_cost'' ms) (required as_word ''t_cost'' ms) (required as_word ''p_cost'' ms)
                        (required as_hex ''salt'' ms)
         | JArr [a, b, c, d] \<Rightarrow> make (as_word a) (as_word b) (as_word c) (as_hex d)
         | _ \<Rightarrow> None)"

definition encrypted_vault_to_json :: "encrypted_vault \<Rightarrow> json" where
  "encrypted_vault_to_json v =
     JObj [(''version'', json_u64 (ucast (vault_version v))), (''kdf'', kdf_params_to_json (vault_kdf v)),
           (''nonce'', JStr (hex_encode (vault_nonce v))), (''ciphertext'', JStr (hex_encode (vault_ciphertext v)))]"

definition encrypted_vault_from_json :: "json \<Rightarrow> encrypted_vault option" where
  "encrypted_vault_from_json v =
     (let make = (\<lambda>w k n c. Option.bind w (\<lambda>w. Option.bind k (\<lambda>k. Option.bind n (\<lambda>n. Option.bind c (\<lambda>c.
              Some \<lparr>vault_version = w, vault_kdf = k, vault_nonce = n, vault_ciphertext = c\<rparr>)))))
      in case v of
           JObj ms \<Rightarrow> make (required as_word ''version'' ms) (required kdf_params_from_json ''kdf'' ms)
                        (required as_hex ''nonce'' ms) (required as_hex ''ciphertext'' ms)
         | JArr [a, b, c, d] \<Rightarrow> make (as_word a) (kdf_params_from_json b) (as_hex c) (as_hex d)
         | _ \<Rightarrow> None)"

lemmas word_fields = as_word_read [where 'n = 8, simplified] as_word_read [where 'n = 32, simplified]

lemma kdf_params_read: "kdf_params_from_json (kdf_params_to_json p) = Some p"
  by (simp add: kdf_params_from_json_def kdf_params_to_json_def required_def members_named_def word_fields as_hex_def)

lemma encrypted_vault_read: "encrypted_vault_from_json (encrypted_vault_to_json v) = Some v"
  by (simp add: encrypted_vault_from_json_def encrypted_vault_to_json_def required_def members_named_def word_fields as_hex_def
      kdf_params_read)

section \<open>The vault file\<close>

definition vault_file_format ::
  "(string \<Rightarrow> bytes) \<Rightarrow> (bytes \<Rightarrow> string option) \<Rightarrow> (json \<Rightarrow> string) \<Rightarrow> (string \<Rightarrow> json option) \<Rightarrow> vault_format" where
  "vault_file_format as_bytes utf8 print parse =
     \<lparr>vault_to_json = (\<lambda>v. Some (as_bytes (print (encrypted_vault_to_json v)))), vault_utf8 = utf8,
      vault_from_json = (\<lambda>s. Option.bind (parse s) encrypted_vault_from_json)\<rparr>"

text \<open>serde_json and UTF-8 read back what they wrote.\<close>

definition json_text_ok ::
  "(string \<Rightarrow> bytes) \<Rightarrow> (bytes \<Rightarrow> string option) \<Rightarrow> (json \<Rightarrow> string) \<Rightarrow> (string \<Rightarrow> json option) \<Rightarrow> bool" where
  "json_text_ok as_bytes utf8 print parse \<longleftrightarrow>
     (\<forall>s. utf8 (as_bytes s) = Some s)
     \<and> (\<forall>v. parse (print (encrypted_vault_to_json v)) = Some (encrypted_vault_to_json v))"

lemma vault_file_format_ok:
  "json_text_ok as_bytes utf8 print parse \<Longrightarrow> vault_format_ok (vault_file_format as_bytes utf8 print parse)"
  by (auto simp: vault_format_ok_def vault_file_format_def json_text_ok_def encrypted_vault_read)

text \<open>A vault that is saved is the vault that is loaded.\<close>

lemma vault_saved:
  assumes "json_text_ok as_bytes utf8 print parse" "vf_readable f'"
    and "vault_save (vault_file_format as_bytes utf8 print parse) out v f = (Ok (), f')"
  shows "vault_load (vault_file_format as_bytes utf8 print parse) f' = Ok (Some v)"
proof -
  let ?F = "vault_file_format as_bytes utf8 print parse"
  have "vf_content f' = vault_to_json ?F v" using vault_save_cases(2) [OF assms(3)] by simp
  then show ?thesis
    using assms(1,2) by (simp add: vault_load_def vault_file_format_def json_text_ok_def encrypted_vault_read ok_or_def)
qed

end
