(* ===== verification/Spec2Isabelle.thy ===== *)
theory Spec2Isabelle
  imports Desktop_Instances Cli_Instances Prover_Instances Rpc_Polling Rpc_Router Rpc_Node_Http Vault_Json BTree Core_ClassHash Rpc_Auth Rpc_Backoff Rpc_Log Rpc_Server Rpc_Node
    Prover_Jobs Prover_Snip36 Session Strk20_Apply Strk20_Ledger Rpc_Durable Rpc_Instances
begin

text \<open>
  strkd is a Starknet wallet: a desktop application that holds a seed phrase in an encrypted vault, serves a loopback JSON-RPC interface to
  local programs and AI agents, asks the user before it signs, makes private payments through the STRK20 pool, and proves SNIP-36
  transactions. A command line client pairs with it like any other program.

  \<^bold>\<open>Parts and theories.\<close>
  \<^item> \<open>Prelude\<close>, \<open>Felt\<close>, \<open>Text\<close>, \<open>Json\<close>, \<open>BTree\<close>: results, field elements, strings, JSON values and ordered
    maps, as the Rust code uses them.
  \<^item> \<open>crates/wallet-core\<close>: \<open>Core_Domain\<close> (derivation branches), \<open>Core_Ext\<close>, \<open>Core_Accounts\<close> (account contracts, registry), \<open>Core_Tx\<close> (keys, signing,
    transactions), \<open>Core_ClassHash\<close>, \<open>Core_Vault\<close> and \<open>Vault_Json\<close> (sealing, opening, the file's JSON).
  \<^item> \<open>crates/wallet-rpc\<close>: \<open>Session\<close>, \<open>Rpc_Error\<close>, \<open>Rpc_Auth\<close> (clients, tokens, grants), \<open>Rpc_Backoff\<close>, \<open>Rpc_Log\<close>, \<open>Rpc_Server\<close> and \<open>Rpc_Router\<close> (the
    transport), \<open>Rpc_Wire\<close> (JSON of requests and responses), \<open>Rpc_Node\<close> and \<open>Rpc_Node_Http\<close> (the node client), \<open>Rpc_Usage\<close> (the document for agents).
    The dispatcher of \<open>dispatch.rs\<close> and \<open>strk20/mod.rs\<close> is \<open>Rpc_State\<close> (server state, actions, approvals, vault file), \<open>Rpc_Params\<close> (parameters), \<open>Rpc_Handlers\<close>
    and \<open>Rpc_Companion\<close> (the methods), \<open>Rpc_Strk20\<close> with \<open>Rpc_Strk20_Remote\<close> (private payments, remote provers, paymaster) and \<open>Rpc_Dispatch\<close>.
    What is proved of it: \<open>Rpc_Consent\<close>, \<open>Rpc_Consent_Strk20\<close>, \<open>Rpc_Requests\<close> (consent), \<open>Rpc_Invariant\<close>, \<open>Rpc_Durable\<close> (saved accounts), \<open>Rpc_Scrub\<close> (no
    viewing key in errors), \<open>Rpc_Polling\<close> (termination).
  \<^item> \<open>crates/strk20\<close>: \<open>Strk20_Hashes\<close>, \<open>Strk20_Crypto\<close>, \<open>Strk20_Actions\<close>, \<open>Strk20_Apply\<close>, \<open>Strk20_Discovery\<close>, \<open>Strk20_Planner\<close>; \<open>Strk20_Ledger\<close> is the
    pool as an abstract ledger, the specification that the planner refines.
  \<^item> \<open>crates/prover\<close>: \<open>Prover_Jobs\<close>, \<open>Prover_Snip36\<close>, \<open>Prover_Settings\<close>, \<open>Prover_Backends\<close>.
  \<^item> \<open>crates/wallet-cli\<close>: \<open>Cli_Client\<close>, \<open>Cli\<close>; what its commands do against the service is in \<open>Cli_Facts\<close>.
  \<^item> \<open>desktop/src-tauri\<close>: \<open>Desktop_Settings\<close>, \<open>Desktop_State\<close>, \<open>Desktop_Commands\<close> (the IPC commands), \<open>Desktop_Approvals\<close> (the approval bridge and its timers),
    \<open>Desktop_Run\<close> (start-up and auto-lock); facts in \<open>Desktop_Facts\<close>, \<open>Desktop_Vault\<close>, \<open>Desktop_Nodes\<close>.
  \<^item> \<open>Instances\<close>, \<open>Rpc_Instances\<close>, \<open>Desktop_Instances\<close>, \<open>Cli_Instances\<close>, \<open>Prover_Instances\<close>: concrete functions for the parameters, to evaluate the model
    on inputs.

  \<^bold>\<open>How the parts meet.\<close> A request passes the guard of \<open>Rpc_Server\<close> and reaches \<open>dispatch\<close>, which finds its client by the token, runs the method and writes one row
  of the log. A method that needs the user sends a prompt over the channel to the bridge of \<open>Desktop_Approvals\<close> and waits. The commands of the desktop act on the same
  server. Jobs of the prover run beside; a proof comes from a backend of \<open>Prover_Backends\<close>, or for a deposit from a remote prover.

  \<^bold>\<open>Conventions.\<close> A Rust \<open>Result\<close> is a sum, \<open>?\<close> is \<open>bindE\<close>; a struct is a record, a \<open>u32\<close> a word of 32 bits. An asynchronous function is an action on the whole system:
  every lock and every \<open>await\<close> is one step, before which \<open>e_interfere\<close> (and \<open>de_interfere\<close> for the desktop's own state) may change what is shared in any way, so that
  the properties hold under every interleaving; a property that needs quiet says so (\<open>quiet\<close>, \<open>alone\<close>). What a request does that the world can see is the trace. The
  clock, the user's answers, random draws, the network and failures of the disk are functions of the step. Third-party code (krusty-kms, starknet-types-core, argon2, aes-gcm,
  serde) is the record \<open>ext\<close> and other parameters; a property that needs a law of it names it. \<open>Panic\<close> and \<open>Crash\<close> mark an arithmetic overflow or an \<open>expect\<close>; a release build wraps at the
  overflow instead, and the properties speak of the runs without one.

  \<^bold>\<open>Bounds.\<close> The loops over pool slots end at index 2 ^ 32 with an error, as in the code. The polling of Starkscan has no bound in the code: \<open>e_patience\<close> is the number of polls after which
  the caller has gone away, and \<open>starkscan_terminates\<close> says when the number does not matter. Prompts are numbered by a \<open>u64\<close>, and \<open>few_prompts\<close> keeps the numbers from wrapping. Time in the approval
  bridge is in seconds, in the auto-lock in milliseconds.

  \<^bold>\<open>Simplifications.\<close> The node answers one \<open>starknet_rpc\<close> for the length of a request; pauses between polls take no step.

  \<^bold>\<open>Not modelled.\<close> The drawing of the tray icon, windows, menus and notifications, which is I/O of Tauri (the count they show is modelled); the routing of axum beyond its table of routes;
  the permissions of files, except that setting them can fail; the programs under \<open>examples/\<close>, which drive the crates against live networks and print vectors; build glue and the
  web front end of the desktop.
\<close>

section \<open>Requests to the wallet\<close>


text \<open>
  C4. Clients cannot use each other's accounts: an agent's request signs, reads notes and balances only with the accounts it owns, an application's only with user accounts.
  The one exception is funding: a single transfer of a positive amount from a manager account to an account of the asking agent, after a prompt, approved earlier in the same request, that says so.
\<close>

theorem request_signs_with_own_accounts:
  "\<exists>es. sy_trace (snd (dispatch V token req s)) = sy_trace s @ es
     \<and> own_signers V (request_client V token s) es"
  using dispatch_trace [of V token req s] request_ok_signers by blast



text \<open>
  C6. What holds of the server between steps holds after a request: the account registry is well formed, the client file holds the clients in memory (when it can be
  written), and the owner's configuration (seed, passphrase, nodes, prover settings, issue repository) is as it was, provided the rest of the process keeps these too.
\<close>

theorem request_keeps_server:
  assumes "interference_keeps V accounts_ok" "interference_keeps V clients_saved"
    and "interference_keeps V (\<lambda>sv. configuration_of sv = c)"
    and "accounts_ok (sy_server s)" "clients_saved (sy_server s)" "configuration_of (sy_server s) = c"
  shows "accounts_ok (sy_server (snd (dispatch V token req s)))
    \<and> clients_saved (sy_server (snd (dispatch V token req s)))
    \<and> configuration_of (sy_server (snd (dispatch V token req s))) = c"
  using accounts.dispatch_keeps [OF assms(1)] client_file.dispatch_keeps [OF assms(2)]
    configured.dispatch_keeps [OF assms(3)] assms(4-6)
  by (simp add: keeps_def)

theorem request_keeps_server_witness:
  "accounts_ok (sy_server (snd (dispatch demo_env (Some ''old'') (demo_request ''companion_createAgentAccount'') demo_sys)))"
  using request_keeps_server [OF demo_interference demo_interference demo_interference, of demo_sys "configuration_of demo_server"]
  by (simp add: demo_sys_def accounts_ok_def clients_saved_def session_wf_def demo_session_def registry_wf_def
      disk_synced_def demo_store_def)

text \<open>
  C7. Creating an agent account and writing the vault are one step: afterwards, restarting and unlocking the vault file restores exactly the session in memory, with the new
  account on success and, on any failure (creation, sealing, or a write that fails half-way), with the session as it was before.
\<close>

theorem account_creation_durable:
  assumes "vault_laws V" "\<And>n. nonce = Some n \<Longrightarrow> length n = NONCE_LEN"
    and "next_address_fresh (e_ext V) (sv_session sv) Agent" "durable V sv"
    and "create_and_persist V salt nonce out cid label sv = (r, sv')"
  shows "durable V sv' \<and> (case r of
      Inl _ \<Rightarrow> sv_session sv' = sv_session sv
    | Inr a \<Rightarrow> \<exists>u. s_unlocked (sv_session sv) = Some u
        \<and> sv_session sv' = (sv_session sv)\<lparr>s_unlocked := Some (u\<lparr>u_registry := u_registry u @ [a]\<rparr>)\<rparr>)"
  using create_and_persist_durable [OF assms] by (simp split: sum.split)

theorem account_creation_durable_witness:
  "\<exists>sv'. create_and_persist demo_env (Some (replicate 16 1)) (Some (replicate 12 2)) Written ''client-1'' ''bot'' demo_server
      = (Ok demo_account, sv') \<and> durable demo_env sv'"
proof -
  obtain sv' where step: "create_and_persist demo_env (Some (replicate 16 1)) (Some (replicate 12 2)) Written
      ''client-1'' ''bot'' demo_server = (Ok demo_account, sv')"
    using demo_persist by blast
  have "next_address_fresh (e_ext demo_env) (sv_session demo_server) Agent" using demo_fresh by (simp add: demo_env_def)
  from account_creation_durable [OF demo_laws _ this demo_durable step] step show ?thesis
    by (simp add: NONCE_LEN_def)
qed

text \<open>
  C8. \<open>companion_signAndProve\<close> signs what was asked and only hands it to the prover: an answer leaves exactly a prompt (or a use of the grant) whose text has the account, calls, network and fee bounds, one
  signature of these calls with an own account and the caller's own bounds and without proof facts, and one job with this signed transaction, and names the job and the transaction's hash; an
  error leaves the first steps only. The virtual transaction is never sent to the node, to be simulated or broadcast; the nonce is read there, and the job runs on the configured prover.
\<close>

theorem virtual_transaction_only_proved:
  "\<exists>es. sy_trace (snd (handle_sign_and_prove V client params s)) = sy_trace s @ es
     \<and> prove_trace V client params (fst (handle_sign_and_prove V client params s)) es"
  using sign_and_prove_trace [of V client params] unfolding emits_def by blast

text \<open>
  C9. An error of the proving of a private payment does not spell the viewing key, whatever the prover answered: not the errors of the prover, local or remote, nor those of reading its
  result. The key is spelled neither in full hexadecimal, nor without leading zeros, nor in decimal.
\<close>

theorem prover_errors_scrubbed:
  assumes "prove_invocation V cx m proving block user_sk tx s = (Inl (Rpc e), s')"
    and "q \<in> set (key_spellings user_sk)"
  shows "\<not> sublist q (error_message e)"
  using prove_invocation_clean [OF assms(1)] assms(2) by (rule clean_spells_none)

theorem prover_errors_scrubbed_witness:
  "\<exists>e s'. prove_invocation demo_env demo_cx ''wallet_strk20InvokeTransaction'' (RemoteProving (JsonRpcProver ''https://p'' ''a prover''))
      7 6 JNull demo_sys = (Inl (Rpc e), s') \<and> \<not> sublist (felt_0x 6) (error_message e)"
  using demo_prover_error prover_errors_scrubbed [where q = "felt_0x 6"] by (fastforce simp: key_spellings_def)

text \<open>
  C10. The link of \<open>companion_reportIssue\<close> opens a new issue of one GitHub repository: with whatever repository is configured, the path is an owner and a name
  without special characters, and the title and body the caller wrote stay inside their query values, from which they decode.
\<close>

theorem issue_link_confined:
  "\<exists>owner name t b. issue_url (sv_issue_repo (with_issue_repo given (server_with_log now_ms session log))) title body
      = ''https://github.com/'' @ owner @ ''/'' @ name @ ''/issues/new?title='' @ t @ ''&body='' @ b
    \<and> owner \<noteq> [] \<and> name \<noteq> [] \<and> list_all unreserved (owner @ name)
    \<and> list_all (\<lambda>c. unreserved c \<or> c = CHR ''%'') (t @ b)
    \<and> decode_query t = Some title \<and> decode_query b = Some body"
  by (rule issue_url_parts [OF issue_repo_valid])

section \<open>The private payment planner\<close>

text \<open>
  C2. A plan conserves value, token by token: what the batch deposits plus the notes it spends is
  what it pays out in new notes (transfers and change) and withdrawals. The notes it spends are distinct entries of the
  discovered notes, none open and none empty, and the \<open>UseNote\<close> actions and the reported \<open>spent\<close> ids are exactly these notes.
\<close>

theorem plan_conserves_value:
  assumes "plan X it st rng = Ok p"
  shows "\<exists>spends. mset spends \<subseteq># mset (st_notes st)
    \<and> (\<forall>n \<in> set spends. \<not> note_open n \<and> 0 < note_amount n)
    \<and> pl_spent p = map note_id_of spends
    \<and> filter is_use_note (pl_actions p) = map use_note spends
    \<and> (\<forall>t. flow (deposited t) (pl_actions p) + notes_total spends t = flow (paid_out t) (pl_actions p))"
  using assms by (rule plan_conserves)

theorem plan_conserves_value_witness:
  "\<exists>spends. pl_spent demo_plan = map note_id_of spends
    \<and> filter is_use_note (pl_actions demo_plan) = map use_note spends
    \<and> flow (deposited 7) (pl_actions demo_plan) + notes_total spends 7 = flow (paid_out 7) (pl_actions demo_plan)"
  using plan_conserves_value [OF demo_plan_Ok] by blast

text \<open>
  C3. The pool accepts every plan: run in order against a ledger of the discovered state (is the
  user registered, which channels are open, how many subchannels each has, which note index comes
  next), no action is refused: each channel is opened with the next channel index and only once,
  each subchannel with the next subchannel index of an open channel, each note at the next free
  index of an existing subchannel.
\<close>

theorem plan_accepted_by_pool:
  assumes "plan X it st rng = Ok p" and "plan_state_wf st"
  shows "\<exists>n channels. ledger_run (pl_actions p)
      (ledger_of (st_registered st) (st_outgoing_channels st) (st_channels st)) = Some (ledger_of True n channels)"
  using assms by (rule plan_accepted)

theorem plan_accepted_by_pool_witness:
  "\<exists>n channels. ledger_run (pl_actions demo_plan) (ledger_of True 1 (st_channels demo_state))
     = Some (ledger_of True n channels)"
  using plan_accepted_by_pool [OF demo_plan_Ok demo_state_wf] by (simp add: demo_state_def)

text \<open>
  C11. For each token, the notes that a plan spends, in the order in which it takes them, followed by those it leaves are exactly the user's closed, non-empty
  notes of the token, from the largest to the smallest; those it spends cover with the deposits what goes out, and no shorter prefix of them does.
\<close>

theorem plan_spends_largest_first:
  assumes "plan X it st rng = Ok p"
  shows "\<exists>spends. pl_spent p = map note_id_of spends \<and>
    (\<forall>t. \<exists>unspent. let taken = filter (\<lambda>n. note_token n = t) spends;
          out = total (map snd (in_transfers it)) t + total (map snd (in_withdrawals it)) t in
        mset (taken @ unspent)
          = mset (filter (\<lambda>n. note_token n = t \<and> \<not> note_open n \<and> 0 < note_amount n) (st_notes st))
      \<and> sorted_wrt (\<lambda>a b. note_amount b \<le> note_amount a) (taken @ unspent)
      \<and> out \<le> total (in_deposits it) t + notes_total taken t
      \<and> (\<forall>j < length taken. total (in_deposits it) t + notes_total (take j taken) t < out))"
  using assms by (rule plan_spends_least)

theorem plan_spends_largest_first_witness:
  "\<exists>(spends :: pool_note list) unspent. pl_spent demo_plan = map note_id_of spends
    \<and> sorted_wrt (\<lambda>a b. note_amount b \<le> note_amount a) (filter (\<lambda>n. note_token n = 7) spends @ unspent)"
  using plan_spends_largest_first [OF demo_plan_Ok] unfolding Let_def
  by (elim exE conjE allE [of _ 7]) blast

text \<open>
  C12. When the planner refuses with \<open>InsufficientBalance\<close>, the shortfall is exact and positive: deposits, all the
  spendable notes and the shortfall together are what was to go out. The reported \<open>available\<close> is the sum of all
  the user's notes of the token, including the open notes the planner does not spend.
\<close>

theorem plan_shortfall_exact:
  assumes "plan X it st rng = Err (InsufficientBalance t s a)"
  shows "total (in_deposits it) t + notes_total (candidates (st_notes st) t) t + int (unat s)
      = total (map snd (in_transfers it)) t + total (map snd (in_withdrawals it)) t
    \<and> 0 < int (unat s) \<and> int (unat a) = notes_total (st_notes st) t"
  using plan_short [OF assms] by blast

theorem plan_shortfall_exact_witness:
  "plan demo_pool (demo_intent\<lparr>in_transfers := [(2, 7, 100)]\<rparr>) demo_state demo_rng
     = Err (InsufficientBalance 7 86 14)
   \<and> int (unat (14 :: u128)) = notes_total (st_notes demo_state) 7"
proof -
  have "plan demo_pool (demo_intent\<lparr>in_transfers := [(2, 7, 100)]\<rparr>) demo_state demo_rng
     = Err (InsufficientBalance 7 86 14)"
    by (simp add: plan_def demo_intent_def plan_balances_def nonzero_def signed_i128_def i128_def
        bt_get_or_def bt_get_def cover_token_def demo_candidates)
      (simp add: demo_state_def demo_note_def signed_i128_def i128_def sum_u128_def)
  then show ?thesis using plan_shortfall_exact by blast
qed

section \<open>Discovery\<close>

text \<open>
  C13. \<open>discover_notes\<close> returns exactly the user's spendable notes: those on one of the first \<open>count\<close> channels, in a
  subchannel (of a wanted token) before the first empty one, at an index before the first empty note, with an unused nullifier.
\<close>

theorem discover_notes_exact:
  assumes "discover_notes X user sk tokens = Ok ns"
  shows "\<exists>out count. view X ''get_num_of_channels'' [user] 1 = Ok out
    \<and> felt_to_word (out ! 0) = Some (count :: u64)
    \<and> (\<forall>nt. nt \<in> set ns \<longleftrightarrow> (\<exists>c < count. \<exists>info. channel_info_at X user sk c = Ok info
         \<and> note_in_channel X sk tokens info nt))"
proof (rule discover_notes_mem [OF assms])
  fix out and count :: u64
  assume "view X ''get_num_of_channels'' [user] 1 = Ok out" "felt_to_word (out ! 0) = Some count"
    and "\<And>nt. nt \<in> set ns \<longleftrightarrow> (\<exists>c < count. \<exists>info. channel_info_at X user sk c = Ok info
       \<and> note_in_channel X sk tokens info nt)"
  then show ?thesis by (intro exI [of _ out] exI [of _ count]) simp
qed

theorem discover_notes_exact_witness:
  "\<exists>c info. channel_info_at demo_full_pool 1 6 c = Ok info
     \<and> note_in_channel demo_full_pool 6 [] info demo_found"
  using discover_notes_exact [OF demo_discover_notes] by (metis list.set_intros(1))

text \<open>
  C14. Decrypting an encrypted note value gives back amount and salt, for every salt above the open-note
  marker that fits 123 bits; the planner draws salts of 120 bits.
\<close>

theorem note_value_decrypts:
  assumes "1 < unat (salt :: u128)" "unat salt < 2 ^ 123"
  shows "decrypt_note_value P (encrypt_note_value P amount salt ck token index) ck token index
    = Some \<lparr>nv_amount = amount, nv_salt = salt, nv_open = False\<rparr>"
  using assms by (rule note_value_roundtrip)

theorem note_value_decrypts_witness:
  "decrypt_note_value demo_hash (encrypt_note_value demo_hash 10 900 40 7 2) 40 7 2
    = Some \<lparr>nv_amount = 10, nv_salt = 900, nv_open = False\<rparr>"
  by (rule note_value_decrypts) simp_all

text \<open>
  C15. Domain separation: each of the fifteen hashes of the protocol is Poseidon of a preimage that determines both which hash
  it is and all of its inputs, so (collisions of Poseidon aside) no two different uses give the same value.
\<close>

theorem pool_hashes_separated:
  "pool_eval P h = P (pool_preimage h) \<and> (pool_preimage h = pool_preimage h' \<longleftrightarrow> h = h')"
  by (simp add: pool_eval_preimage pool_preimage_inj)

text \<open>
  C16. The calldata of a proof invocation is one call to the pool that carries the user, the viewing key and exactly the planned actions.
\<close>

theorem invocation_carries_actions:
  assumes "length acts < 2 ^ 60"
  shows "proved_actions (inv_calldata (proof_invocation_new E pool c nonce ua sk acts))
    = Some (pool, ua, sk, acts)"
  using assms by (rule proved_actions_new)

theorem invocation_carries_actions_witness:
  "proved_actions (inv_calldata (proof_invocation_new demo_ext 77 Sepolia 3 1 6 (pl_actions demo_plan)))
    = Some (77, 1, 6, pl_actions demo_plan)"
  by (rule invocation_carries_actions) (simp add: demo_plan_def)

section \<open>Keys, accounts and transactions\<close>

text \<open>
  C17. Account numbers that \<open>check_index\<close> accepts never share a derivation path, hardening included: not within a
  branch, and not across the user and the agent branch.
\<close>

theorem derivation_paths_disjoint:
  assumes "check_index d n = Ok ()" "check_index d' n' = Ok ()"
  shows "effective_path d n = effective_path d' n' \<longleftrightarrow> d = d' \<and> n = n'"
  using assms by (rule effective_path_inj)

theorem derivation_paths_disjoint_witness:
  "effective_path User 5 = effective_path Agent 0 \<longleftrightarrow> User = Agent \<and> (5 :: u32) = 0"
  by (rule derivation_paths_disjoint) (simp_all add: check_index_def domain_consts)

text \<open>
  C18. A signed invoke binds everything it was made from. Its calldata decodes to the calls, all of them and nothing more. Its hash is that of a version-3 invoke of the
  sender, this calldata, the chain, the nonce, the tip, the three fee bounds, the paymaster and deployment data and the proof facts, with both data availability modes L1. And its
  signature is \<open>[r, s]\<close> of that hash under the key at the account's own path: \<open>9004'/n'/0/0\<close> for the user's \<open>n\<close>-th account and \<open>9004'/0x41474E54'/0/n\<close> for an agent's,
  with \<open>n\<close> within the bound of its branch.
\<close>

theorem sign_invoke_binds:
  assumes "sign_invoke_v3 E m d index pw addr cs ch params contract = Ok si"
    and "length cs < 2 ^ 64" "\<And>c. c \<in> set cs \<Longrightarrow> length (call_calldata c) < 2 ^ 64"
  shows "decode_calls (si_calldata si) = Some (cs, [])
    \<and> si_transaction_hash si = compute_invoke_v3_hash E addr (si_calldata si) (chain_as_felt E ch) (p_nonce params)
         (p_account_deployment_data params) (p_tip params) (p_l1_gas params) (p_l2_gas params) (p_l1_data_gas params)
         (p_paymaster_data params) DA_L1 DA_L1 (p_proof_facts params)
    \<and> (\<exists>sk sig. (case d of
              User \<Rightarrow> index < 0x41474E54 \<and> derive_private_key E m 0 index 9004 pw = Some sk
            | Agent \<Rightarrow> index < 0x80000000 \<and> derive_private_key E m index 0x41474E54 9004 pw = Some sk)
         \<and> sign_stark_hash E sk (si_transaction_hash si) = Some sig
         \<and> si_signature si = [sig_r sig, sig_s sig])"
proof (rule sign_invoke_v3_Ok [OF assms(1)])
  fix sk sig
  assume si: "private_key E m d index pw = Ok sk" "si_transaction_hash si = invoke_v3_hash E addr cs ch params"
    "sign_stark_hash E sk (si_transaction_hash si) = Some sig" "si_calldata si = encode_calls cs"
    "si_signature si = serialize_signature contract sig"
  have "decode_calls (encode_calls cs) = Some (cs, [])" using decode_encode_calls [of cs "[]"] assms(2,3) by simp
  moreover have "serialize_signature contract sig = [sig_r sig, sig_s sig]" by (cases contract) simp
  ultimately show ?thesis using si private_key_Ok [of E m d index pw sk] by (auto simp: invoke_v3_hash_def)
qed

theorem sign_invoke_binds_witness:
  "\<exists>si. sign_invoke_v3 demo_ext ''seed'' Agent 0 None 5 [] Sepolia default_params OpenZeppelin = Ok si
    \<and> decode_calls (si_calldata si) = Some ([], [])"
proof -
  obtain si where "sign_invoke_v3 demo_ext ''seed'' Agent 0 None 5 [] Sepolia default_params OpenZeppelin = Ok si"
    by (simp add: sign_invoke_v3_def demo_signs Let_def)
  then show ?thesis using sign_invoke_binds by fastforce
qed

text \<open>
  C19. A declared class is what was hashed: parsing the canonical RPC form of a class gives the class back, so the
  class hash of the broadcast object is the class hash that was signed.
\<close>

theorem class_wire_roundtrip:
  assumes "hex_roundtrip E" "class_from_json E scalar v = Ok c"
  shows "class_from_json E scalar (class_to_rpc_json c) = Ok c"
  using assms(1) class_from_json_wf [OF assms(2)] by (rule from_json_to_rpc_json)

theorem class_wire_roundtrip_witness:
  "\<exists>c. class_from_json demo_ext (\<lambda>_. []) (JObj [(''sierra_program'', JArr [JStr ''0x1'']), (''abi'', JStr ''[]'')]) = Ok c
    \<and> class_from_json demo_ext (\<lambda>_. []) (class_to_rpc_json c) = Ok c"
proof -
  obtain c where "class_from_json demo_ext (\<lambda>_. []) (JObj [(''sierra_program'', JArr [JStr ''0x1'']), (''abi'', JStr ''[]'')]) = Ok c"
    using demo_class by blast
  then show ?thesis using class_wire_roundtrip [OF demo_hex_roundtrip] by blast
qed

section \<open>Vault and session\<close>

text \<open>
  C20. A sealed vault, read back from its JSON, opens with its passphrase to the very plaintext; and whatever vault opens under whatever passphrase is of version 2, has a nonce
  of 12 bytes, and its ciphertext is the encryption of what is returned under the key derived from the passphrase.
\<close>

theorem vault_seal_open:
  assumes "aead_correct E" and "seal E salt_draw nonce_draw pw plaintext = Ok v"
    and "\<And>n. nonce_draw = Some n \<Longrightarrow> length n = NONCE_LEN"
  shows "encrypted_vault_from_json (encrypted_vault_to_json v) = Some v \<and> open_vault E v pw = Ok plaintext
    \<and> (\<forall>v' pw' m. open_vault E v' pw' = Ok m \<longrightarrow> vault_version v' = 2 \<and> length (vault_nonce v') = 12
         \<and> (\<exists>key. derive_key E pw' (vault_kdf v') = Ok key
            \<and> aes_encrypt E key (vault_nonce v') m = Some (vault_ciphertext v')))"
  using encrypted_vault_read open_seal [OF assms] open_vault_Ok [OF assms(1)]
  by (auto simp: is_supported_version_def VAULT_VERSION_def NONCE_LEN_def)

theorem vault_seal_open_witness:
  "\<exists>v. seal demo_ext (Some (replicate 16 1)) (Some (replicate 12 2)) ''pw'' [1, 2, 3] = Ok v
     \<and> open_vault demo_ext v ''pw'' = Ok [1, 2, 3]"
proof -
  obtain v where v: "seal demo_ext (Some (replicate 16 1)) (Some (replicate 12 2)) ''pw'' [1, 2, 3] = Ok v"
    using demo_seal by blast
  have "open_vault demo_ext v ''pw'' = Ok [1, 2, 3]"
    using vault_seal_open [OF demo_aead v] by (simp add: NONCE_LEN_def)
  with v show ?thesis by blast
qed

section \<open>Clients and transport\<close>

text \<open>
  C21. The transport guard lets a request through exactly when it has no \<open>Origin\<close> and no \<open>Referer\<close> header, its \<open>Host\<close>
  names the loopback interface and it has a non-empty \<open>X-Companion-Client\<close>; a request it stops is answered 403 and never reaches the dispatcher.
\<close>

theorem transport_guard_exact:
  "(transport_guard hs = Ok () \<longleftrightarrow>
     header_get hs ''origin'' = None \<and> header_get hs ''referer'' = None
     \<and> (\<exists>v h. header_get hs ''host'' = Some v \<and> header_to_str v = Some h \<and> loopback_spec h)
     \<and> (\<exists>v w. header_get hs ''x-companion-client'' = Some v \<and> header_to_str v = Some w \<and> w \<noteq> []))
   \<and> (case transport_guard hs of
        Inl reason \<Rightarrow> rpc_handler parse disp s hs body
          = (Some (403, response_err JNull (error_object (TransportRejected reason))), s)
      | Inr _ \<Rightarrow> True)"
  using transport_guard_Ok [of hs] rpc_handler_rejects [of hs _ parse disp s body]
  by (simp split: sum.split)

text \<open>
  C22. What is broadcast is what was signed: from the JSON sent to the node every field of an invoke transaction that enters its hash is read back, the type and the version,
  sender, calldata, nonce, fee bounds, a tip of zero, empty paymaster and deployment data, both data availability modes L1 and the proof facts, and with them the signature and,
  beside proof facts, the proof.
\<close>

theorem broadcast_invoke_reads_back:
  assumes "hex_reader E"
  shows "read_invoke_tx E (invoke_v3_tx_json s cd sg n b pf pr)
    = Some \<lparr>wi_sender = s, wi_calldata = cd, wi_signature = sg, wi_nonce = n, wi_bounds = b,
        wi_tip = 0, wi_paymaster_data = [], wi_account_deployment_data = [], wi_nonce_da = DA_L1, wi_fee_da = DA_L1,
        wi_proof_facts = pf, wi_proof = (if pf = [] then None else pr)\<rparr>"
  using assms by (rule read_invoke_tx_json)

theorem broadcast_invoke_reads_back_witness:
  "read_invoke_tx demo_ext (invoke_v3_tx_json 1 [2] [3, 4] 5 ZERO_BOUNDS [6] (Some ''proof''))
    = Some \<lparr>wi_sender = 1, wi_calldata = [2], wi_signature = [3, 4], wi_nonce = 5, wi_bounds = ZERO_BOUNDS,
        wi_tip = 0, wi_paymaster_data = [], wi_account_deployment_data = [], wi_nonce_da = DA_L1, wi_fee_da = DA_L1,
        wi_proof_facts = [6], wi_proof = Some ''proof''\<rparr>"
  using broadcast_invoke_reads_back [OF demo_hex, of 1 "[2]" "[3, 4]" 5 ZERO_BOUNDS "[6]" "Some ''proof''"] by simp

section \<open>Proving\<close>

text \<open>
  C23. \<open>prove_unrecorded\<close> leaves no record on disk: the storage is unchanged, the result is the backend's, and the job
  ends \<open>Succeeded\<close> with the proof or \<open>Failed\<close> with the error.
\<close>

theorem unrecorded_leaves_no_record:
  assumes "prove_unrecorded now label res s = (r, s')" "jobs_wf (pv_jobs s)"
  shows "r = res \<and> pv_storage s' = pv_storage s \<and> jobs_wf (pv_jobs s')
    \<and> (\<exists>j. jobs_get (job_id_of (jb_seq (pv_jobs s))) (pv_jobs s') = Some j
       \<and> (case res of Inr out \<Rightarrow> j_status j = Succeeded \<and> j_result j = Some out
                    | Inl e \<Rightarrow> j_status j = Failed \<and> j_error j = Some e))"
  using prove_unrecorded_spec [OF assms] by blast

theorem unrecorded_leaves_no_record_witness:
  "\<exists>r s'. prove_unrecorded 5 None (Ok (JStr ''proof'')) (build_prover_state []) = (r, s')
     \<and> r = Ok (JStr ''proof'') \<and> pv_storage s' = []"
proof -
  obtain r s' where p: "prove_unrecorded 5 None (Ok (JStr ''proof'')) (build_prover_state []) = (r, s')"
    by (cases "prove_unrecorded 5 None (Ok (JStr ''proof'')) (build_prover_state [])")
  have "jobs_wf (pv_jobs (build_prover_state []))" by (simp add: build_prover_state_def)
  from unrecorded_leaves_no_record [OF p this] p show ?thesis by (simp add: build_prover_state_def)
qed

section \<open>Proving\<close>

text \<open>
  C24. On-device proving proves the request's own transaction: a proof comes out only when the transaction carries a signature of at least one element, the network
  has an RPC URL and the node does not contradict the nonce: when the transaction names its sender and a readable nonce and the node answers a readable nonce of the sender at the block
  proved at, the two are the same number. Then the program ran in its own directory on exactly that transaction,
  with a dummy instead of a private key in its environment, ended well, and the answer is what it wrote.
\<close>

theorem native_proof_checked:
  assumes "native_prove sj rpc H settings payload network (n, fs) = (Ok v, n', fs')"
  shows "\<exists>inp fs1 stderr. let dir = prove_dir H n; cmd = prove_command H inp dir in
     json_get payload ''transaction'' = Some (pi_tx inp) \<and> (\<exists>x xs. json_get (pi_tx inp) ''signature'' = Some (JArr (x # xs)))
    \<and> pi_rpc_url inp = nc_rpc_url (for_network settings network) \<and> pi_rpc_url inp \<noteq> []
    \<and> (pi_chain_id inp, pi_strk inp) = net_params network
    \<and> (\<forall>sender nonce a v m b. get_str (pi_tx inp) ''sender_address'' = Some sender
         \<and> get_str (pi_tx inp) ''nonce'' = Some nonce \<and> parse_hex_u64 nonce = Some a
         \<and> rpc (pi_rpc_url inp) ''starknet_getNonce''
             (JArr [JObj [(''block_number'', json_u64 (pi_block_number inp))], JStr sender]) = Ok v
         \<and> get_str v ''result'' = Some m \<and> parse_hex_u64 m = Some b \<longrightarrow> a = b)
    \<and> map_of (pc_env cmd) ''STARKNET_PRIVATE_KEY'' = Some ''0x1''
    \<and> nh_run H cmd (prove_timeout_secs H) (fs(dir @ ''/tx_a.json'' \<mapsto> sj (pi_tx inp))) = (Exits True stderr, fs1)
    \<and> read_outputs H dir fs1 = Ok v"
proof (rule native_prove_Ok [OF assms])
  fix inp fs1 stderr
  assume inp: "preflight sj rpc settings payload network = Ok inp"
    and run: "nh_run H (prove_command H inp (prove_dir H n)) (prove_timeout_secs H)
      (fs(prove_dir H n @ ''/tx_a.json'' \<mapsto> sj (pi_tx inp))) = (Exits True stderr, fs1)" "read_outputs H (prove_dir H n) fs1 = Ok v"
  have "map_of (pc_env (prove_command H inp (prove_dir H n))) ''STARKNET_PRIVATE_KEY'' = Some ''0x1''"
    using prove_env_no_key [of inp] by (simp add: prove_command_def)
  then show ?thesis unfolding Let_def
    using run preflight_Ok [OF inp, unfolded is_signed_tx_iff] check_nonce_Ok [of rpc "pi_rpc_url inp" "pi_tx inp" "pi_block_number inp"]
    by blast
qed

theorem native_proof_checked_witness:
  "\<exists>(inp :: prove_inputs) (fs1 :: text_files). json_get demo_payload ''transaction'' = Some (pi_tx inp)
    \<and> (\<exists>x xs. json_get (pi_tx inp) ''signature'' = Some (JArr (x # xs)))
    \<and> read_outputs demo_host (prove_dir demo_host 0) fs1
      = Ok (JObj [(''proof'', JStr ''0xaa''), (''proof_facts'', JNull), (''l2_to_l1_messages'', JArr [])])"
proof -
  obtain fs' where run: "native_prove (\<lambda>_. ''tx'') (\<lambda>_ _ _. Err []) demo_host demo_settings demo_payload ''mainnet'' (0, \<lambda>_. None)
     = (Ok (JObj [(''proof'', JStr ''0xaa''), (''proof_facts'', JNull), (''l2_to_l1_messages'', JArr [])]), 1, fs')"
    using demo_native_proof by blast
  show ?thesis using native_proof_checked [OF run] unfolding Let_def by blast
qed

text \<open>
  C25. On-device proving leaves nothing behind: whatever the outcome, refused, failed, killed at the timeout or proved, the files are those from before, so
  the transaction, whose calldata has a viewing key when it spends private notes, does not stay on disk. It needs a program that writes only in the
  directory of its run, and a write and a removal that succeed.
\<close>

theorem native_prove_leaves_nothing:
  assumes "stays_inside H" "\<not> nh_remove_fails H" "nh_write_tx H = None"
    and "\<And>p. in_dir (prove_dir H n) p \<Longrightarrow> fs p = None"
  shows "snd (snd (native_prove sj rpc H settings payload network (n, fs))) = fs"
  using native_prove_clean [OF assms] by (cases "native_prove sj rpc H settings payload network (n, fs)") auto

theorem native_prove_leaves_nothing_witness:
  "snd (snd (native_prove (\<lambda>_. ''tx'') (\<lambda>_ _ _. Err []) demo_host demo_settings demo_payload ''mainnet'' (0, \<lambda>_. None))) = (\<lambda>_. None)"
  by (rule native_prove_leaves_nothing [OF demo_stays_inside]) (simp_all add: demo_host_def)

text \<open>
  C26. A proof by Starkscan's relay ends as soon as the relay settles the jobs: if every job is settled within some number of polls, the request
  returns, after at most five submissions, and waiting for longer would not change the result. (The code itself has no bound on the polls.)
\<close>

theorem starkscan_terminates:
  assumes "jobs_settle V polls (trim_end_slash base @ ''/v1/SN_MAIN/prove'') api_key"
  shows "\<exists>r s' es. (\<forall>more. prove_starkscan V (polls + more) base api_key chain bn tx s = (Ok r, s'))
    \<and> sy_trace s' = sy_trace s @ es \<and> submissions es \<le> 5"
  using assms by (rule starkscan_ends)

theorem starkscan_terminates_witness:
  "\<exists>r s'. prove_starkscan demo_relay 3 STARKSCAN_API ''k'' Mainnet 7 JNull demo_sys = (Ok r, s')"
proof -
  obtain r s' where "\<forall>more. prove_starkscan demo_relay (2 + more) STARKSCAN_API ''k'' Mainnet 7 JNull demo_sys = (Ok r, s')"
    using starkscan_terminates [OF demo_relay_settles] by blast
  then have "prove_starkscan demo_relay (2 + 1) STARKSCAN_API ''k'' Mainnet 7 JNull demo_sys = (Ok r, s')" by blast
  then show ?thesis by simp
qed

section \<open>The desktop\<close>

text \<open>
  C27. Wrong passphrases are slow: along any series of attempts to unlock the wallet or to reveal the phrase that all fail, from a
  fresh start and with anything in between that leaves the delay alone, the last attempt cannot end before the sum of the delays
  after those that reached the vault; the two commands share one counter, and from the tenth failure on each costs five minutes.
\<close>

theorem wrong_passphrases_slow:
  assumes "quiet D" "clock_runs D" "dk_backoff (dy_desk s) = backoff_default" "failed_attempts D s n s'" "n < 2 ^ 32"
  shows "de_instant D (dstep s) + earliest n \<le> de_instant D (dstep s')
    \<and> (\<forall>k. n = 10 + k \<longrightarrow> de_instant D (dstep s) + (315 + 300 * k) \<le> de_instant D (dstep s'))"
proof -
  have "de_instant D (dstep s) + earliest n \<le> de_instant D (dstep s')"
    using failed_attempts_delayed [OF assms] by (auto simp: delayed_def)
  then show ?thesis using earliest_linear by fastforce
qed

theorem wrong_passphrases_slow_witness: "\<exists>e s'. run_attempt demo_desktop (TryUnlock ''wrong'') demo_dsys = (Err e, s')
  \<and> earliest 1 \<le> dstep s'"
proof -
  obtain e s' where run: "run_attempt demo_desktop (TryUnlock ''wrong'') demo_dsys = (Err e, s')"
    and vault: "reaches_vault demo_desktop (TryUnlock ''wrong'') demo_dsys"
    by (rule demo_attempt)
  have "failed_attempts demo_desktop demo_dsys 1 s'"
    using failed_attempts.attempt [OF failed_attempts.none run] vault by simp
  from wrong_passphrases_slow [OF demo_quiet demo_clock _ this] have "earliest 1 \<le> dstep s'" by simp
  then show ?thesis using run by blast
qed

text \<open>
  C28. What set-up writes, unlocking reads: after a successful \<open>finalize_setup\<close> and \<open>lock\<close>, \<open>unlock\<close> with the
  same passphrase succeeds and opens a session with exactly the staged phrase and no accounts.
\<close>

theorem setup_then_unlock:
  assumes "quiet D" "vault_laws (de_env D)" "nonces_fit (de_env D)"
    and "vf_readable (store_file (dsv s))" "finalize_setup D p s = (Ok (), s1)" "ui_lock D s1 = (r, s2)" "allowed D s2 = Ok ()"
  shows "is_locked (sv_session (dsv s2)) \<and> (\<exists>mnemonic s3. dk_onboarding (dy_desk s) = Some mnemonic
    \<and> ui_unlock D p s2 = (Ok (), s3) \<and> sv_session (dsv s3) = new_unlocked (de_chain D) mnemonic p [])"
proof -
  obtain mnemonic where m: "dk_onboarding (dy_desk s) = Some mnemonic"
    and se: "sv_session (dsv s1) = new_unlocked (de_chain D) mnemonic p []"
    using setup_durable(4) [OF assms(1-5)] by blast
  let ?u = "\<lparr>u_mnemonic = mnemonic, u_vault_passphrase = p, u_registry = []\<rparr>"
  have u: "s_unlocked (sv_session (dsv s1)) = Some ?u" by (simp add: se new_unlocked_def)
  have s2: "s2 = arrive 1 (dsv s1\<lparr>sv_session := lock (sv_session (dsv s1))\<rparr>) (dy_desk s1) s1"
    using assms(6) lock_quiet [OF assms(1)] by simp
  have "\<exists>s3. ui_unlock D (u_vault_passphrase ?u) s2 = (Ok (), s3) \<and> sv_session (dsv s3) = sv_session (dsv s1)
      \<and> dk_backoff (dy_desk s3) = backoff_default"
    by (rule unlock_durable [OF assms(1) setup_durable(1) [OF assms(1-5)] u _ _ assms(7)]) (simp_all add: s2)
  then show ?thesis using m se s2 by (auto simp: lock_def is_locked_def)
qed

theorem setup_then_unlock_witness:
  "\<exists>s1 s2 s3. finalize_setup demo_desktop ''pw'' demo_dsys = (Ok (), s1) \<and> ui_lock demo_desktop s1 = (Ok (), s2)
    \<and> ui_unlock demo_desktop ''pw'' s2 = (Ok (), s3) \<and> sv_session (dsv s3) = new_unlocked Sepolia ''seed'' ''pw'' []"
proof -
  obtain s1 where s1: "finalize_setup demo_desktop ''pw'' demo_dsys = (Ok (), s1)" using demo_setup by blast
  obtain s2 where s2: "ui_lock demo_desktop s1 = (Ok (), s2)" "dy_desk s2 = dy_desk s1"
    using lock_quiet [OF demo_quiet] by simp
  have laws: "vault_laws (de_env demo_desktop)"
    "nonces_fit (de_env demo_desktop)"
    "vf_readable (store_file (dsv demo_dsys))"
    using demo_dlaws demo_nonces demo_ready by simp_all
  have "allowed demo_desktop s2 = Ok ()"
    using setup_durable(2) [OF demo_quiet laws s1] s2(2)
    by (simp add: allowed_def backoff_check_def backoff_default_def)
  from setup_then_unlock [OF demo_quiet laws s1 s2(1) this] s1 s2(1) show ?thesis by auto
qed

text \<open>
  C29. \<open>reveal_seed\<close> shows the phrase only to someone who gives the vault's passphrase now, while the wallet is unlocked and the
  delay allows it; what it shows is the phrase inside the vault file. The request leaves one row in the log, which is the same
  whatever the phrase is.
\<close>

theorem reveal_needs_passphrase:
  assumes "quiet D" "reveal_seed D p s = (r, s')"
  shows "(\<forall>phrase. r = Ok phrase \<longrightarrow> \<not> is_locked (sv_session (dsv s)) \<and> allowed D (arrive 1 (dsv s) (dy_desk s) s) = Ok ()
      \<and> (\<exists>v plain contents. vault_at D (dsv s) = Ok (Some v) \<and> open_vault (e_ext (de_env D)) v p = Ok plain
         \<and> of_bytes (e_codec (de_env D)) plain = Some contents \<and> phrase = vc_mnemonic contents))
    \<and> (\<exists>outcome code ts. dsv s' = reveal_logged outcome code ts (dsv s)
      \<and> (case r of Inr _ \<Rightarrow> outcome = ''ok'' \<and> code = None | Inl e \<Rightarrow> \<exists>m. e = Ui m \<and> outcome = ''error: '' @ m))"
  using assms by (cases rule: reveal_cases) (auto simp: reveals_def dest: reveal_for_session_Ok)

theorem reveal_needs_passphrase_witness:
  "\<exists>v plain contents. vault_at demo_desktop demo_server = Ok (Some v) \<and> open_vault demo_ext v ''pw'' = Ok plain
    \<and> of_bytes demo_codec plain = Some contents \<and> vc_mnemonic contents = ''seed''"
proof -
  obtain s' where "reveal_seed demo_desktop ''pw'' demo_dsys = (Ok ''seed'', s')" using demo_revealed by blast
  from reveal_needs_passphrase [OF demo_quiet this] show ?thesis by auto
qed

text \<open>
  C30. A vault of another version is never lost: \<open>archive_unsupported_vault\<close> either reports an error and leaves the vault file
  and every backup as they were, or has moved the file, byte for byte, to a backup whose path it returns; a vault that this
  build reads is never moved.
\<close>

theorem archive_keeps_vault:
  assumes "quiet D" "archive_unsupported_vault D s = (r, s')"
  shows "case r of
      Inl _ \<Rightarrow> store_file (dsv s') = store_file (dsv s) \<and> dk_backups (dy_desk s') = dk_backups (dy_desk s)
    | Inr dest \<Rightarrow> \<exists>v bytes name. dest = de_dir D @ ''/'' @ name \<and> vault_at D (dsv s) = Ok (Some v) \<and> \<not> is_supported_version v
        \<and> vf_content (store_file (dsv s)) = Some bytes \<and> vf_content (store_file (dsv s')) = None
        \<and> dk_backups (dy_desk s') = (dk_backups (dy_desk s))(name \<mapsto> bytes)"
  using assms by (cases rule: archive_cases) auto

theorem archive_keeps_vault_witness:
  "\<exists>name s'. archive_unsupported_vault old_desktop demo_dsys = (Ok (''data/'' @ name), s') \<and> dk_backups (dy_desk s') name = Some [0]"
proof -
  obtain dest s' where run: "archive_unsupported_vault old_desktop demo_dsys = (Ok dest, s')" using old_archived by blast
  then show ?thesis using archive_keeps_vault [OF old_quiet run]
    by (auto simp: old_desktop_def demo_desktop_def demo_file_def)
qed

text \<open>
  C31. A prompt is approved only by the user: however the bridge, the clicks, the expiring prompts and new requests interleave, every prompt is
  answered at most once, and an approval came from a click on the dialog of that prompt while it was pending, which showed
  the request that was sent.
\<close>

theorem approval_needs_click:
  assumes "bridge_run p bridge_start es b" "few_prompts b"
  shows "distinct (map fst (br_answers b))
    \<and> (\<forall>tag. (tag, Approve) \<in> set (br_answers b) \<longrightarrow>
         (\<exists>s \<in> set (br_shown b). sh_tag s = tag \<and> approved_in p es s \<and> (\<exists>t. (tag, t, sh_request s) \<in> set (br_asked b))))"
proof -
  have inv: "bridge_inv b" using run_inv assms by blast
  then have "distinct (map fst (br_answers b))" "tags_ok b" by (simp_all add: bridge_inv_def prompts_ok_def)
  then show ?thesis using approved_by_click [OF assms] shown_asked by metis
qed

theorem approval_needs_click_witness:
  "\<exists>b s. bridge_run True bridge_start [Asked 7 demo_prompt, Shown, Clicked 1 True] b \<and> sh_tag s = 7
    \<and> approved_in True [Asked 7 demo_prompt, Shown, Clicked 1 True] s"
proof -
  obtain b where b: "bridge_run True bridge_start [Asked 7 demo_prompt, Shown, Clicked 1 True] b" "few_prompts b"
    "br_answers b = [(7, Approve)]"
    using demo_clicked by blast
  then show ?thesis using approval_needs_click [OF b(1,2)] by auto
qed

text \<open>
  C32. No request waits for ever: in a run where no task that can run is held back for a second, a prompt is answered, by the user or by
  the rejection after 60 seconds, before the 61st second is over; and without the user such a run always exists.
\<close>

theorem prompt_is_answered:
  assumes "bridge_run True bridge_start es b" "few_prompts b" "(tag, t, req) \<in> set (br_asked b)"
  shows "(t + 60 < br_now b \<longrightarrow> tag \<in> fst ` set (br_answers b))
    \<and> (\<exists>fs b'. bridge_run True b fs b' \<and> unattended fs \<and> br_now b' = br_now b + n)"
  using answered_in_time [OF assms] time_goes_on [of b n] by (simp add: APPROVAL_SECONDS_def)

theorem prompt_is_answered_witness:
  "\<exists>fs b'. bridge_run True (ask 7 demo_prompt bridge_start) fs b' \<and> unattended fs \<and> br_now b' = 61"
  using prompt_is_answered [OF demo_asked, of 7 0 demo_prompt 61]
  by (simp add: few_prompts_def ask_def bridge_start_def)

text \<open>
  C33. An idle wallet locks: with a timeout of some minutes in the settings and the task's turns at most \<open>period\<close>
  milliseconds apart, a wallet with no activity for the timeout and \<open>period\<close> more is locked.
\<close>

theorem idle_wallet_locks:
  assumes "watched D mins period t l s" "quiet D" "unat mins * 60000 < 2 ^ 64" "t < 2 ^ 64" "mins \<noteq> 0"
    and "unat (sv_last_activity_ms (dsv s)) + unat mins * 60000 + period \<le> t"
  shows "is_locked (sv_session (dsv s))"
  using assms by (rule locked_when_idle)

theorem idle_wallet_locks_witness:
  "\<exists>s. watched locking_desktop 15 900000 1800000 900000 s \<and> is_locked (sv_session (dsv s))"
proof -
  obtain s where s: "watched locking_desktop 15 900000 1800000 900000 s" "sv_last_activity_ms (dsv s) = 0"
    using demo_watched by blast
  from idle_wallet_locks [OF s(1) locking_quiet] s(2) have "is_locked (sv_session (dsv s))" by simp
  then show ?thesis using s(1) by blast
qed

text \<open>
  C34. The wallet and the prover share their nodes: from the start of the process, and after every change of the settings of either that
  succeeds, the server's nodes are those of \<open>config.json\<close> and the prover's URLs are the same; the interface of the prover
  cannot set its own.
\<close>

theorem wallet_and_prover_share_nodes:
  assumes "quiet D"
  shows "nodes_shared D (desktop_server D now env di) (desktop_desk di)
    \<and> (\<forall>st s s'. set_settings D st s = (Ok (), s') \<longrightarrow> nodes_shared D (dsv s') (dy_desk s') \<and> settings_load (dk_config (dy_desk s')) = st)
    \<and> (\<forall>ps s r s'. set_prover_settings D ps s = (r, s') \<longrightarrow> nodes_shared D (dsv s) (dy_desk s) \<longrightarrow> nodes_shared D (dsv s') (dy_desk s'))"
  using nodes_shared_start set_settings_Ok [OF assms] set_prover_settings_shared(1) [OF assms] by blast

theorem wallet_and_prover_share_nodes_witness:
  "\<exists>s'. set_settings demo_desktop demo_wallet_settings demo_dsys = (Ok (), s') \<and> nodes_shared demo_desktop (dsv s') (dy_desk s')"
  using wallet_and_prover_share_nodes [OF demo_quiet] demo_set_settings by blast

section \<open>Starting the service\<close>

text \<open>
  C35. A client finds the service: after the service has come up on a port, the lock file it wrote leads the command line to that very port, and the next start,
  with the port still free, comes up there again, so a URL once learned stays valid.
\<close>

theorem service_is_found:
  assumes "bind_loopback try_bind ephemeral True nonce_draw out lock_file = (Ok port, lock_file')" "port \<noteq> 0"
  shows "service_url (Some d) (map_option Ok lock_file') = Ok (''http://127.0.0.1:'' @ nat_dec (unat port))
    \<and> (is_free port \<longrightarrow> (\<forall>other nonce. fst (bind_loopback is_free other True (Some nonce) LockWritten lock_file') = Ok port))"
  using service_found [OF assms] by simp

theorem service_is_found_witness:
  "service_url (Some ''data'') (map_option Ok (snd (bind_loopback (\<lambda>p. p = 4242) (Ok 5000) True (Some [7]) LockWritten
     (Some (JObj [(''port'', json_u64 4242)]))))) = Ok (''http://127.0.0.1:'' @ nat_dec 4242)"
proof -
  obtain lock_file where lock_file: "bind_loopback (\<lambda>p. p = 4242) (Ok 5000) True (Some [7]) LockWritten (Some (JObj [(''port'', json_u64 4242)]))
      = (Ok 4242, lock_file)"
    by (simp add: bind_loopback_def read_locked_port_def get_u64_def json_u64_def bind_sticky_def write_port_lock_def)
  show ?thesis using service_is_found [OF lock_file, of "''data''" "\<lambda>_. False"] by (simp add: lock_file)
qed

section \<open>The command line and the document for agents\<close>

text \<open>
  C36. A command of the CLI is one request to the dispatcher with the saved token, and prints its answer: the JSON of the result with exit code 0, or the
  code and message of the error with exit code 1. On a url of the service's own lock file the transport guard never rejects it.
\<close>

theorem cli_shows_the_answer:
  assumes "service_url (ce_dir C) (ce_lock C) = Ok url" "clap_accepts command" "command_call C command = Ok (m, params)"
    and "token_load (ce_dir C) (cl_token s) = Some p" "header_to_str (pa_token p) = Some (pa_token p)"
    and "ce_post C = wallet_post V print parse" "parse (print (rpc_body_of m params)) = Some (rpc_body_of m params)"
    and "dispatch V (Some (pa_token p)) (call_request m params) (cl_world s) = (Inr resp, w)"
  shows "case resp_error resp of
      None \<Rightarrow> \<exists>v. resp_result resp = Some v
        \<and> cli_main C out command s = (0, s\<lparr>cl_world := w, cl_out := cl_out s @ command_notes out command @ [StdoutJson v]\<rparr>)
    | Some _ \<Rightarrow> \<exists>e. resp_error resp = Some (error_object e)
        \<and> cli_main C out command s = (1, s\<lparr>cl_world := w, cl_out := cl_out s @ command_notes out command
            @ [fail_line out (''wallet returned error '' @ int_dec (error_code e) @ '': '' @ error_message e)]\<rparr>)"
proof -
  have "client_call (wallet_post V print parse) url m params (Some (pa_token p)) (cl_world s) = (answered (Ok resp), w)"
    using call_dispatched [where parse = parse and print = print, OF assms(1) _ assms(7), of "Some (pa_token p)" V "cl_world s"] assms(5,8) by (simp add: readable_def)
  then have main: "cli_main C out command s = finish out (answered (Ok resp)) w (command_notes out command) s"
    using main_call [OF assms(1-3)] assms(4,6) by simp
  obtain r where r: "resp = respond (req_id (call_request m params)) r" using dispatch_respond [OF assms(8)] by blast
  show ?thesis
  proof (cases r)
    case (Inl e)
    then have "cli_main C out command s = finish out (answered (Ok (response_err (req_id (call_request m params)) (error_object e)))) w
        (command_notes out command) s"
      using main r by (simp add: respond_def)
    moreover have "resp_error resp = Some (error_object e)" using r Inl by (simp add: respond_def response_err_def)
    ultimately show ?thesis by (auto simp: answered_response finish_def)
  next
    case (Inr v)
    then have "cli_main C out command s = finish out (answered (Ok (response_ok (req_id (call_request m params)) v))) w
        (command_notes out command) s"
      using main r by (simp add: respond_def)
    moreover have "resp_error resp = None" "resp_result resp = Some v" using r Inr by (simp_all add: respond_def response_ok_def)
    ultimately show ?thesis by (simp add: answered_response finish_def)
  qed
qed

theorem cli_shows_the_answer_witness:
  "\<exists>w. cli_main (demo_cli_env (rpc_body_of ''companion_listAccounts'' (JObj []))) demo_out CliAccounts demo_cli
     = (0, demo_cli\<lparr>cl_world := w, cl_out := [StdoutJson (JArr [])]\<rparr>)"
proof -
  let ?C = "demo_cli_env (rpc_body_of ''companion_listAccounts'' (JObj []))"
  obtain w where d: "dispatch demo_env (Some (pa_token demo_pairing)) (call_request ''companion_listAccounts'' (JObj [])) (cl_world demo_cli)
      = (Inr (response_ok (json_u64 1) (JArr [])), w)"
    using demo_cli_accounts by (auto simp: demo_pairing_def demo_cli_def)
  have token: "token_load (ce_dir ?C) (cl_token demo_cli) = Some demo_pairing"
    "header_to_str (pa_token demo_pairing) = Some (pa_token demo_pairing)"
    by (simp_all add: demo_cli_env_def demo_cli_def token_load_def data_dir_def demo_pairing_def header_to_str_def pairing_roundtrip)
  have "command_call ?C CliAccounts = Ok (''companion_listAccounts'', JObj [])" "clap_accepts CliAccounts"
    "ce_post ?C = wallet_post demo_env (\<lambda>_. []) (\<lambda>_. Some (rpc_body_of ''companion_listAccounts'' (JObj [])))"
    by (simp_all add: demo_cli_env_def)
  from cli_shows_the_answer [OF demo_url this(2,1) token this(3) _ d] show ?thesis
    by (simp add: response_ok_def demo_cli_def)
qed

text \<open>
  C37. The CLI ends in an orderly way: on arguments that clap accepts, whatever the files and the service answer, its exit code is 0 or 1, never that of a panic.
\<close>

theorem cli_never_panics:
  assumes "clap_accepts command"
  shows "fst (cli_main C out command s) \<in> {0, 1}"
  using assms by (rule main_calm)

theorem cli_never_panics_witness:
  "fst (cli_main (demo_cli_env JNull) demo_out (CliSend ''0x1'' (Some ''0x2'') (Some ''transfer'') None None True (Some ''nowhere'')) demo_cli) \<in> {0, 1}"
  by (rule cli_never_panics) simp

text \<open>
  C38. Pairing from the command line works and stays secret: after a successful \<open>strkd pair\<close> the saved token identifies, to every later request, the client with the
  name and the kind that were asked for, and no line that the program printed has the token in it, neither in a text nor in a string of JSON. It needs that no other request
  changes the server meanwhile, that the random generator fills its buffer, and that the drawn token is not one of another client.
\<close>

theorem pairing_gives_working_token:
  assumes "alone V" "fresh_tokens V (sy_server (cl_world s))" "store_wf (sv_clients (sy_server (cl_world s)))"
    and "service_url (ce_dir C) (ce_lock C) = Ok url" "ce_post C = wallet_post V print parse"
    and "parse (print (rpc_body_of ''companion_requestPairing'' (pairing_params name kind)))
      = Some (rpc_body_of ''companion_requestPairing'' (pairing_params name kind))"
    and "cli_main C out (CliPair name kind) s = (0, s')" and "\<And>k n. length (e_draw V k n) = k"
  shows "\<exists>p c printed. token_load (ce_dir C) (cl_token s') = Some p
    \<and> request_client V (Some (pa_token p)) (cl_world s') = Some c
    \<and> pc_id c = pa_client_id p \<and> pc_label c = name \<and> pc_kind c = (if kind = ''agent'' then AgentClient else AppClient)
    \<and> cl_out s' = cl_out s @ printed \<and> (\<forall>l \<in> set printed. \<not> shows_text (pa_token p) l)"
  using pair_registers [OF assms] registered_client [OF assms(1)] by blast

theorem pairing_gives_working_token_witness:
  "\<exists>s' (p :: pairing) c. cli_main (demo_cli_env (rpc_body_of ''companion_requestPairing'' (pairing_params ''cli'' ''app''))) demo_out
      (CliPair ''cli'' ''app'') demo_cli = (0, s')
    \<and> request_client demo_env (Some (pa_token p)) (cl_world s') = Some c \<and> pc_label c = ''cli''"
proof -
  let ?body = "rpc_body_of ''companion_requestPairing'' (pairing_params ''cli'' ''app'')"
  obtain s' where run: "cli_main (demo_cli_env ?body) demo_out (CliPair ''cli'' ''app'') demo_cli = (0, s')" using demo_pairs by blast
  have server: "fresh_tokens demo_env (sy_server (cl_world demo_cli))" "store_wf (sv_clients (sy_server (cl_world demo_cli)))"
    using demo_fresh_tokens demo_store_wf by (simp_all add: demo_cli_def demo_sys_def)
  have post: "ce_post (demo_cli_env ?body) = wallet_post demo_env (\<lambda>_. []) (\<lambda>_. Some ?body)" by (simp add: demo_cli_env_def)
  have draws: "length (e_draw demo_env k n) = k" for k n by (simp add: demo_env_def)
  show ?thesis using pairing_gives_working_token [OF demo_alone server demo_url post refl run draws] run by blast
qed

text \<open>
  C39. The usage document tells an agent the truth: it lists each method of the dispatcher once and no other, marks exactly the public ones as free of
  authentication and exactly the pairing and the methods whose decision the dispatcher logs as asking for approval, and its error codes and deferred methods are the dispatcher's, but
  for the code 162 and a former name of a deferred method, which it omits.
\<close>

theorem usage_matches_dispatcher:
  "distinct (map fst (documented (usage_doc v a s)))
    \<and> set (map fst (documented (usage_doc v a s)))
        = set (map fst (public_methods V token params)) \<union> set (map fst (client_methods V client params))
    \<and> set (map fst (filter (\<lambda>(m, auth, p). auth = JBool False) (documented (usage_doc v a s))))
        = set (map fst (public_methods V token params))
    \<and> set (map fst (filter (\<lambda>(m, auth, p). p \<noteq> JBool False) (documented (usage_doc v a s))))
        = insert ''companion_requestPairing'' (set approval_methods)
    \<and> {m. is_deferred m} = insert ''wallet_strk20SubaccountCommitment'' (set (documented_deferred (usage_doc v a s)))
    \<and> range (\<lambda>e. int_dec (error_code e)) = insert ''162'' (set (documented_codes (usage_doc v a s)))"
  unfolding public_names
  by (intro conjI documented_methods documented_deferred error_codes_documented)

end
